(* ===== verification/Fuse_Prelude.thy ===== *)
theory Fuse_Prelude
  imports Main "HOL-Library.Word" "HOL-Library.Char_ord" "HOL-Library.List_Lexorder"
begin

text \<open>
  Shared vocabulary of the development: results of fallible Rust code, machine-integer helpers with
  the semantics of the Rust standard library, and the ordered map \<^verbatim>\<open>BTreeMap\<close> as a sorted
  association list. The collections \<open>fuse_word\<close> and \<open>fuse_map\<close> gather the rewrite rules the
  component proofs use.
\<close>

named_theorems fuse_word \<open>rewrite rules for checked and saturating word arithmetic\<close>
named_theorems fuse_map \<open>rewrite rules for ordered maps\<close>

section \<open>Machine integers\<close>

type_synonym u8 = "8 word"
type_synonym u16 = "16 word"
type_synonym u32 = "32 word"
type_synonym u64 = "64 word"

text \<open>An address of a reference-counted allocation (\<^verbatim>\<open>Arc\<close>).\<close>

type_synonym addr = nat

text \<open>\<^verbatim>\<open>checked_add\<close>: \<open>None\<close> on overflow.\<close>

definition checked_add :: "'a::len word \<Rightarrow> 'a word \<Rightarrow> 'a word option" where
  "checked_add x y = (if unat x + unat y < 2 ^ LENGTH('a) then Some (x + y) else None)"

text \<open>\<^verbatim>\<open>checked_sub\<close>: \<open>None\<close> on underflow.\<close>

definition checked_sub :: "'a::len word \<Rightarrow> 'a word \<Rightarrow> 'a word option" where
  "checked_sub x y = (if y \<le> x then Some (x - y) else None)"

text \<open>\<^verbatim>\<open>saturating_sub\<close>: stops at zero.\<close>

definition saturating_sub :: "'a::len word \<Rightarrow> 'a word \<Rightarrow> 'a word" where
  "saturating_sub x y = (if y \<le> x then x - y else 0)"

lemma unat_checked_add: "checked_add x y = Some z \<Longrightarrow> unat z = unat x + unat y"
  by (auto simp: checked_add_def unat_word_ariths split: if_splits)

lemma checked_add_None_iff [fuse_word]:
  "checked_add (x :: 'a::len word) y = None \<longleftrightarrow> 2 ^ LENGTH('a) \<le> unat x + unat y"
  by (simp add: checked_add_def not_less)

lemma unat_checked_sub: "checked_sub x y = Some z \<Longrightarrow> unat z = unat x - unat y"
  by (auto simp: checked_sub_def unat_sub word_le_nat_alt split: if_splits)

lemma unat_saturating_sub [fuse_word, simp]: "unat (saturating_sub x y) = unat x - unat y"
  by (simp add: saturating_sub_def unat_sub word_le_nat_alt)

lemma saturating_sub_eq_0_iff [fuse_word]: "saturating_sub x y = 0 \<longleftrightarrow> unat x \<le> unat y"
  by (metis diff_is_0_eq unat_eq_zero unat_saturating_sub)

lemma checked_add_1_pos: "checked_add (x :: 'a::len word) 1 = Some y \<Longrightarrow> y \<noteq> 0"
  using unat_checked_add [of x 1 y] by auto

lemma checked_add_1_less: "checked_add (x :: 'a::len word) 1 = Some y \<Longrightarrow> x < y"
  using unat_checked_add [of x 1 y] by (simp add: word_less_nat_alt)

lemma unat_checked_add_1: "checked_add (x :: 'a::len word) 1 = Some y \<Longrightarrow> unat y = Suc (unat x)"
  using unat_checked_add [of x 1 y] by simp

section \<open>Results\<close>

text \<open>
  What a Rust function that returns a \<^verbatim>\<open>Result\<close> does: it returns a value, returns an error,
  panics, or does not return. The last one occurs where the code waits on a condition variable that
  nobody signals (\<^verbatim>\<open>HandleRecord::close_and_take\<close>) or recurses for ever (\<^verbatim>\<open>Namespace::path_for\<close> on
  a cycle of names), and where a filesystem callback itself does not return.
\<close>

datatype ('e, 'a) outcome = Ok 'a | Err 'e | Panic | Blocks

text \<open>A program over a state: it returns an outcome and the state it leaves behind.\<close>

type_synonym ('s, 'e, 'a) prog = "'s \<Rightarrow> ('e, 'a) outcome \<times> 's"

definition ret :: "'a \<Rightarrow> ('s, 'e, 'a) prog" where
  "ret a s = (Ok a, s)"

definition fail :: "'e \<Rightarrow> ('s, 'e, 'a) prog" where
  "fail e s = (Err e, s)"

text \<open>The \<^verbatim>\<open>?\<close> operator: continue with the value, leave with anything else.\<close>

definition bnd :: "('s, 'e, 'a) prog \<Rightarrow> ('a \<Rightarrow> ('s, 'e, 'b) prog) \<Rightarrow> ('s, 'e, 'b) prog" where
  "bnd m f s = (case m s of
     (Ok a, s') \<Rightarrow> f a s'
   | (Err e, s') \<Rightarrow> (Err e, s')
   | (Panic, s') \<Rightarrow> (Panic, s')
   | (Blocks, s') \<Rightarrow> (Blocks, s'))"

text \<open>\<^verbatim>\<open>Option::ok_or(e)?\<close> and \<^verbatim>\<open>Option::expect(..)\<close>.\<close>

definition ok_or :: "'e \<Rightarrow> 'a option \<Rightarrow> ('s, 'e, 'a) prog" where
  "ok_or e x = (case x of None \<Rightarrow> fail e | Some a \<Rightarrow> ret a)"

definition expect :: "'a option \<Rightarrow> ('s, 'e, 'a) prog" where
  "expect x s = (case x of None \<Rightarrow> (Panic, s) | Some a \<Rightarrow> (Ok a, s))"

lemma ret_simp [simp]: "ret a s = (Ok a, s)"
  by (simp add: ret_def)

lemma fail_simp [simp]: "fail e s = (Err e, s)"
  by (simp add: fail_def)

lemma ok_or_simps [simp]:
  "ok_or e None s = (Err e, s)" "ok_or e (Some a) s = (Ok a, s)"
  by (simp_all add: ok_or_def)

lemma expect_simps [simp]:
  "expect None s = (Panic, s)" "expect (Some a) s = (Ok a, s)"
  by (simp_all add: expect_def)

lemma bnd_simps [simp]:
  "m s = (Ok a, s') \<Longrightarrow> bnd m f s = f a s'"
  "m s = (Err e, s') \<Longrightarrow> bnd m f s = (Err e, s')"
  "m s = (Panic, s') \<Longrightarrow> bnd m f s = (Panic, s')"
  "m s = (Blocks, s') \<Longrightarrow> bnd m f s = (Blocks, s')"
  by (simp_all add: bnd_def)

lemma bnd_cases:
  assumes "bnd m f s = (r, t)"
  obtains (ok) a s' where "m s = (Ok a, s')" "f a s' = (r, t)"
    | (err) e where "m s = (Err e, t)" "r = Err e"
    | (panic) "m s = (Panic, t)" "r = Panic"
    | (blocks) "m s = (Blocks, t)" "r = Blocks"
  using assms by (auto simp: bnd_def split: prod.splits outcome.splits)

lemma bnd_Ok_cases:
  assumes "bnd m f s = (Ok b, t)"
  obtains a s' where "m s = (Ok a, s')" "f a s' = (Ok b, t)"
  using assms by (auto elim: bnd_cases)

section \<open>Ordered maps\<close>

text \<open>
  A \<^verbatim>\<open>BTreeMap\<close> is the list of its pairs in increasing key order, which is the order its
  iterators follow. Every operation keeps \<open>bt_sorted\<close>.
\<close>

type_synonym ('k, 'v) btree = "('k \<times> 'v) list"

primrec bt_get :: "('k, 'v) btree \<Rightarrow> 'k \<Rightarrow> 'v option" where
  "bt_get [] k = None"
| "bt_get (p # m) k = (if fst p = k then Some (snd p) else bt_get m k)"

fun bt_insert :: "'k::linorder \<Rightarrow> 'v \<Rightarrow> ('k, 'v) btree \<Rightarrow> ('k, 'v) btree" where
  "bt_insert k v [] = [(k, v)]"
| "bt_insert k v ((k', v') # m) =
     (if k < k' then (k, v) # (k', v') # m
      else if k = k' then (k, v) # m
      else (k', v') # bt_insert k v m)"

definition bt_remove :: "'k \<Rightarrow> ('k, 'v) btree \<Rightarrow> ('k, 'v) btree" where
  "bt_remove k m = filter (\<lambda>p. fst p \<noteq> k) m"

definition bt_keys :: "('k, 'v) btree \<Rightarrow> 'k list" where
  "bt_keys m = map fst m"

definition bt_values :: "('k, 'v) btree \<Rightarrow> 'v list" where
  "bt_values m = map snd m"

definition bt_sorted :: "('k::linorder, 'v) btree \<Rightarrow> bool" where
  "bt_sorted m \<longleftrightarrow> sorted_wrt (<) (map fst m)"

lemma bt_get_insert [simp, fuse_map]:
  "bt_get (bt_insert k v m) k' = (if k' = k then Some v else bt_get m k')"
  by (induction k v m rule: bt_insert.induct) auto

lemma bt_get_remove [simp, fuse_map]:
  "bt_get (bt_remove k m) k' = (if k' = k then None else bt_get m k')"
  by (induction m) (auto simp: bt_remove_def)

lemma set_keys_insert [simp]: "fst ` set (bt_insert k v m) = insert k (fst ` set m)"
  by (induction k v m rule: bt_insert.induct) auto

lemma bt_get_None_iff: "bt_get m k = None \<longleftrightarrow> k \<notin> fst ` set m"
  by (induction m) auto

lemma bt_get_SomeD: "bt_get m k = Some v \<Longrightarrow> (k, v) \<in> set m"
  by (induction m) (auto split: if_splits)

lemma bt_get_Some_iff: "bt_sorted m \<Longrightarrow> bt_get m k = Some v \<longleftrightarrow> (k, v) \<in> set m"
proof (induction m)
  case (Cons p m)
  then have "k \<noteq> fst p" if "(k, v) \<in> set m"
    using that by (auto simp: bt_sorted_def)
  with Cons show ?case by (cases p) (auto simp: bt_sorted_def)
qed simp

lemma bt_sorted_Nil [simp, intro]: "bt_sorted []"
  by (simp add: bt_sorted_def)

lemma bt_sorted_insert [intro]: "bt_sorted m \<Longrightarrow> bt_sorted (bt_insert k v m)"
proof (induction k v m rule: bt_insert.induct)
  case (2 k v k' v' m)
  then have s: "bt_sorted m" and lt: "\<forall>x \<in> fst ` set m. k' < x"
    by (auto simp: bt_sorted_def)
  consider "k < k'" | "k = k'" | "k' < k" by fastforce
  then show ?case
  proof cases
    case 1
    with 2 lt show ?thesis by (auto simp: bt_sorted_def)
  next
    case 2
    with s lt show ?thesis by (auto simp: bt_sorted_def)
  next
    case 3
    with "2.IH" s have "bt_sorted (bt_insert k v m)" by auto
    moreover have "\<forall>x \<in> fst ` set (bt_insert k v m). k' < x"
      using lt 3 by (simp only: set_keys_insert) auto
    ultimately show ?thesis using 3 by (auto simp: bt_sorted_def)
  qed
qed (simp add: bt_sorted_def)

lemma sorted_wrt_map_filter: "sorted_wrt P (map f xs) \<Longrightarrow> sorted_wrt P (map f (filter Q xs))"
  by (induction xs) auto

lemma bt_sorted_remove [intro]: "bt_sorted m \<Longrightarrow> bt_sorted (bt_remove k m)"
  by (simp add: bt_sorted_def bt_remove_def sorted_wrt_map_filter)

lemma bt_sorted_distinct: "bt_sorted m \<Longrightarrow> distinct (map fst m)"
  by (auto simp: bt_sorted_def strict_sorted_iff)

lemma bt_insert_append: "bt_sorted m \<Longrightarrow> (\<forall>x \<in> fst ` set m. x < k) \<Longrightarrow> bt_insert k v m = m @ [(k, v)]"
  by (induction k v m rule: bt_insert.induct) (auto simp: bt_sorted_def)

lemma bt_remove_absent: "bt_get m k = None \<Longrightarrow> bt_remove k m = m"
  by (induction m) (auto simp: bt_remove_def split: if_splits)

lemma bt_remove_nth: "bt_sorted m \<Longrightarrow> i < length m \<Longrightarrow> bt_remove (fst (m ! i)) m = take i m @ drop (Suc i) m"
proof (induction m arbitrary: i)
  case (Cons p m)
  then have lt: "\<forall>x \<in> set m. fst p < fst x" and s: "bt_sorted m" by (auto simp: bt_sorted_def)
  show ?case
  proof (cases i)
    case 0
    with lt show ?thesis by (auto simp: bt_remove_def intro!: filter_True)
  next
    case (Suc j)
    with Cons.prems(2) lt have "fst p < fst (m ! j)" by simp
    with Suc Cons.IH [OF s, of j] Cons.prems(2) show ?thesis by (simp add: bt_remove_def)
  qed
qed simp

lemma bt_insert_twice: "bt_insert k v (bt_insert k v' m) = bt_insert k v m"
  by (induction k v' m rule: bt_insert.induct) auto

lemma bt_insert_same: "bt_sorted m \<Longrightarrow> bt_get m k = Some v \<Longrightarrow> bt_insert k v m = m"
proof (induction k v m rule: bt_insert.induct)
  case (2 k v k' v' m)
  then have s: "bt_sorted m" "\<forall>x \<in> fst ` set m. k' < x" by (auto simp: bt_sorted_def)
  with 2 have "k' < k" if "k \<noteq> k'" using that bt_get_SomeD [of m k v] by (auto split: if_splits)
  with 2 s show ?case by (auto split: if_splits)
qed simp

lemma bt_get_empty: "bt_get m = Map.empty \<longleftrightarrow> m = []"
  by (cases m) (auto simp: fun_eq_iff)

subsection \<open>The interface of a map\<close>

text \<open>
  What the components rely on when they keep a table in a map: a lookup sees the last insertion and
  no removed key, and the invariant of the representation is kept.
\<close>

locale finite_map =
  fixes get :: "'m \<Rightarrow> 'k \<Rightarrow> 'v option"
    and ins :: "'k \<Rightarrow> 'v \<Rightarrow> 'm \<Rightarrow> 'm"
    and rem :: "'k \<Rightarrow> 'm \<Rightarrow> 'm"
    and emp :: "'m"
    and ok :: "'m \<Rightarrow> bool"
  assumes get_emp: "get emp k = None"
    and get_ins: "ok m \<Longrightarrow> get (ins k v m) k' = (if k' = k then Some v else get m k')"
    and get_rem: "ok m \<Longrightarrow> get (rem k m) k' = (if k' = k then None else get m k')"
    and ok_emp: "ok emp"
    and ok_ins: "ok m \<Longrightarrow> ok (ins k v m)"
    and ok_rem: "ok m \<Longrightarrow> ok (rem k m)"
begin

text \<open>Insertion-only histories: the map holds exactly the last value stored under each key.\<close>

definition ins_all :: "('k \<times> 'v) list \<Rightarrow> 'm \<Rightarrow> 'm" where
  "ins_all ps m = fold (\<lambda>(k, v). ins k v) ps m"

lemma ok_ins_all: "ok m \<Longrightarrow> ok (ins_all ps m)"
  by (induction ps arbitrary: m) (auto simp: ins_all_def ok_ins)

lemma get_ins_all: "ok m \<Longrightarrow> get (ins_all ps m) k = (case map_of (rev ps) k of None \<Rightarrow> get m k | Some v \<Rightarrow> Some v)"
proof (induction ps arbitrary: m)
  case (Cons p ps)
  obtain a b where p: "p = (a, b)" by (cases p)
  have "get (ins_all (p # ps) m) k = get (ins_all ps (ins a b m)) k"
    by (simp add: ins_all_def p)
  with Cons.IH [of "ins a b m"] Cons.prems show ?case
    by (auto simp: p ok_ins get_ins map_add_def split: option.splits)
qed (simp add: ins_all_def)

lemma get_rem_ins: "ok m \<Longrightarrow> get m k = None \<Longrightarrow> get (rem k (ins k v m)) k' = get m k'"
  by (simp add: get_rem get_ins ok_ins)

end

interpretation bt: finite_map bt_get bt_insert bt_remove "[]" bt_sorted
  by unfold_locales auto

section \<open>Lists\<close>

lemma count_list_filter: "count_list xs x = length (filter (\<lambda>y. y = x) xs)"
  by (induction xs) auto

lemma last_butlast_set: "xs \<noteq> [] \<Longrightarrow> set xs = insert (last xs) (set (butlast xs))"
  by (metis append_butlast_last_id insert_is_Un list.set(1) list.simps(15) set_append sup.commute)

end
