(* ===== verification/Fuse_Types.thy ===== *)
theory Fuse_Types
  imports Fuse_Prelude
begin

unbundle bit_operations_syntax

text \<open>
  The backend-neutral value types of \<^verbatim>\<open>typed-fuse-core\<close>: error numbers
  (\<^verbatim>\<open>errno.rs\<close>), attributes (\<^verbatim>\<open>attr.rs\<close>) and the request and reply types of
  \<^verbatim>\<open>node_fs.rs\<close>. Structs are records, enums are datatypes, and every integer keeps its width.
  Names (\<^verbatim>\<open>OsStr\<close>) are byte strings, compared byte by byte. A \<^verbatim>\<open>SystemTime\<close> is the
  number of nanoseconds since the Unix epoch.
\<close>

section \<open>Error numbers\<close>

text \<open>\<^verbatim>\<open>Errno\<close> wraps the raw number. The constants have the values of the Linux ABI.\<close>

datatype errno = Errno (raw: int)

definition EPERM :: errno where "EPERM = Errno 1"
definition ENOENT :: errno where "ENOENT = Errno 2"
definition EIO :: errno where "EIO = Errno 5"
definition EBADF :: errno where "EBADF = Errno 9"
definition EACCES :: errno where "EACCES = Errno 13"
definition EEXIST :: errno where "EEXIST = Errno 17"
definition ENOTDIR :: errno where "ENOTDIR = Errno 20"
definition EISDIR :: errno where "EISDIR = Errno 21"
definition EINVAL :: errno where "EINVAL = Errno 22"
definition ERANGE :: errno where "ERANGE = Errno 34"
definition ENOSYS :: errno where "ENOSYS = Errno 38"
definition ENOTEMPTY :: errno where "ENOTEMPTY = Errno 39"
definition ENODATA :: errno where "ENODATA = Errno 61"
definition EOVERFLOW :: errno where "EOVERFLOW = Errno 75"
definition ENOATTR :: errno where "ENOATTR = Errno 61"
definition EILSEQ :: errno where "EILSEQ = Errno 84"
definition ENOSPC :: errno where "ENOSPC = Errno 28"
definition EROFS :: errno where "EROFS = Errno 30"
definition ENAMETOOLONG :: errno where "ENAMETOOLONG = Errno 36"
definition ENXIO :: errno where "ENXIO = Errno 6"
definition EOPNOTSUPP :: errno where "EOPNOTSUPP = Errno 95"

lemmas errno_defs = EPERM_def ENOENT_def EIO_def EBADF_def EACCES_def EEXIST_def ENOTDIR_def
  EISDIR_def EINVAL_def ERANGE_def ENOSYS_def ENOTEMPTY_def ENODATA_def EOVERFLOW_def EOPNOTSUPP_def
  ENOATTR_def EILSEQ_def ENOSPC_def EROFS_def ENAMETOOLONG_def ENXIO_def

text \<open>
  An I/O error of the standard library either carries the number of the failed system call or
  none (\<^verbatim>\<open>raw_os_error\<close>).
\<close>

definition errno_from_io :: "int option \<Rightarrow> errno" where
  "errno_from_io raw_os_error = Errno (case raw_os_error of None \<Rightarrow> raw EIO | Some e \<Rightarrow> e)"

text \<open>Fallible functions return a value or an error number.\<close>

type_synonym 'a result = "(errno, 'a) outcome"

section \<open>Attributes\<close>

type_synonym os_str = string
type_synonym system_time = int
type_synonym bytes = "u8 list"

text \<open>\<^verbatim>\<open>CString::new\<close> accepts byte strings without a NUL byte.\<close>

definition no_nul :: "string \<Rightarrow> bool" where
  "no_nul s \<longleftrightarrow> CHR 0x00 \<notin> set s"

definition UNIX_EPOCH :: system_time where
  "UNIX_EPOCH = 0"

datatype file_kind = RegularFile | Directory | Symlink | CharDevice | BlockDevice | NamedPipe | Socket

record node_attr =
  na_size :: u64
  na_blocks :: u64
  na_atime :: system_time
  na_mtime :: system_time
  na_ctime :: system_time
  na_crtime :: system_time
  na_kind :: file_kind
  na_perm :: u16
  na_nlink :: u32
  na_uid :: u32
  na_gid :: u32
  na_rdev :: u32
  na_blksize :: u32
  na_flags :: u32

definition default_attr :: node_attr where
  "default_attr = \<lparr>na_size = 0, na_blocks = 0, na_atime = UNIX_EPOCH, na_mtime = UNIX_EPOCH,
     na_ctime = UNIX_EPOCH, na_crtime = UNIX_EPOCH, na_kind = RegularFile, na_perm = 0, na_nlink = 0,
     na_uid = 0, na_gid = 0, na_rdev = 0, na_blksize = 0, na_flags = 0\<rparr>"

datatype time_or_now = SpecificTime system_time | Now

record set_attr =
  sa_mode :: "u32 option"
  sa_uid :: "u32 option"
  sa_gid :: "u32 option"
  sa_size :: "u64 option"
  sa_atime :: "time_or_now option"
  sa_mtime :: "time_or_now option"
  sa_ctime :: "system_time option"
  sa_crtime :: "system_time option"
  sa_flags :: "u32 option"

definition default_set_attr :: set_attr where
  "default_set_attr = \<lparr>sa_mode = None, sa_uid = None, sa_gid = None, sa_size = None, sa_atime = None,
     sa_mtime = None, sa_ctime = None, sa_crtime = None, sa_flags = None\<rparr>"

record stat_fs =
  sf_blocks :: u64
  sf_bfree :: u64
  sf_bavail :: u64
  sf_files :: u64
  sf_ffree :: u64
  sf_bsize :: u32
  sf_namelen :: u32
  sf_frsize :: u32

definition default_stat_fs :: stat_fs where
  "default_stat_fs = \<lparr>sf_blocks = 0, sf_bfree = 0, sf_bavail = 0, sf_files = 0, sf_ffree = 0,
     sf_bsize = 0, sf_namelen = 0, sf_frsize = 0\<rparr>"

section \<open>Node identities\<close>

datatype node_id = NodeId (ino_of: u64)

definition ROOT :: node_id where
  "ROOT = NodeId 1"

definition from_ino :: "u64 \<Rightarrow> node_id" where
  "from_ino n = NodeId n"

lemma ino_of_from_ino [simp]: "ino_of (from_ino n) = n"
  by (simp add: from_ino_def)

lemma node_id_eq_iff: "ino_of a = ino_of b \<longleftrightarrow> a = b"
  by (cases a; cases b) simp

text \<open>\<^verbatim>\<open>NodeId\<close> derives \<^verbatim>\<open>Ord\<close>: identities compare as inode numbers.\<close>

instantiation node_id :: linorder
begin
definition less_eq_node_id :: "node_id \<Rightarrow> node_id \<Rightarrow> bool" where
  "less_eq_node_id a b \<longleftrightarrow> ino_of a \<le> ino_of b"
definition less_node_id :: "node_id \<Rightarrow> node_id \<Rightarrow> bool" where
  "less_node_id a b \<longleftrightarrow> ino_of a < ino_of b"
instance
  by standard (auto simp: less_eq_node_id_def less_node_id_def node_id.expand)
end

section \<open>Requests and replies\<close>

record caller =
  ca_uid :: u32
  ca_gid :: u32
  ca_pid :: u32
  ca_umask :: u32

definition default_caller :: caller where
  "default_caller = \<lparr>ca_uid = 0, ca_gid = 0, ca_pid = 0, ca_umask = 0\<rparr>"

record conn_info =
  ci_proto_major :: u32
  ci_proto_minor :: u32
  ci_max_write :: u32
  ci_max_readahead :: u32
  ci_capable :: u32
  ci_want :: u32

datatype connection_capability = AsyncRead | AsyncDirectIo | ParallelDirectoryOperations

definition ASYNC_READ :: u32 where "ASYNC_READ = push_bit 0 1"
definition ASYNC_DIO :: u32 where "ASYNC_DIO = push_bit 15 1"
definition PARALLEL_DIROPS :: u32 where "PARALLEL_DIROPS = push_bit 18 1"

fun cap_bit :: "connection_capability \<Rightarrow> u32" where
  "cap_bit AsyncRead = ASYNC_READ"
| "cap_bit AsyncDirectIo = ASYNC_DIO"
| "cap_bit ParallelDirectoryOperations = PARALLEL_DIROPS"

definition capable :: "conn_info \<Rightarrow> connection_capability \<Rightarrow> bool" where
  "capable c k \<longleftrightarrow> ci_capable c AND cap_bit k \<noteq> 0"

definition enabled :: "conn_info \<Rightarrow> connection_capability \<Rightarrow> bool" where
  "enabled c k \<longleftrightarrow> ci_want c AND cap_bit k \<noteq> 0"

definition set_enabled :: "connection_capability \<Rightarrow> bool \<Rightarrow> conn_info \<Rightarrow> bool \<times> conn_info" where
  "set_enabled k en c =
     (let b = cap_bit k in
      if en \<and> ci_capable c AND b = 0 then (False, c)
      else if en then (True, c\<lparr>ci_want := ci_want c OR b\<rparr>)
      else (True, c\<lparr>ci_want := ci_want c AND NOT b\<rparr>))"

definition conn_from_raw :: "u32 \<Rightarrow> u32 \<Rightarrow> u32 \<Rightarrow> u32 \<Rightarrow> u32 \<Rightarrow> u32 \<Rightarrow> conn_info" where
  "conn_from_raw proto_major proto_minor max_write max_readahead cap want =
     \<lparr>ci_proto_major = proto_major, ci_proto_minor = proto_minor, ci_max_write = max_write,
      ci_max_readahead = max_readahead, ci_capable = cap, ci_want = want\<rparr>"

record open_hints =
  oh_direct_io :: bool
  oh_keep_cache :: bool
  oh_nonseekable :: bool
  oh_cache_readdir :: bool
  oh_parallel_direct_writes :: bool

definition default_hints :: open_hints where
  "default_hints = \<lparr>oh_direct_io = False, oh_keep_cache = False, oh_nonseekable = False,
     oh_cache_readdir = False, oh_parallel_direct_writes = False\<rparr>"

record 'h opened =
  op_handle :: 'h
  op_hints :: open_hints

definition opened_new :: "'h \<Rightarrow> 'h opened" where
  "opened_new h = \<lparr>op_handle = h, op_hints = default_hints\<rparr>"

text \<open>The builder methods of \<^verbatim>\<open>Opened\<close> each set one hint.\<close>

definition with_direct_io :: "bool \<Rightarrow> 'h opened \<Rightarrow> 'h opened" where
  "with_direct_io v x = x\<lparr>op_hints := (op_hints x)\<lparr>oh_direct_io := v\<rparr>\<rparr>"
definition with_keep_cache :: "bool \<Rightarrow> 'h opened \<Rightarrow> 'h opened" where
  "with_keep_cache v x = x\<lparr>op_hints := (op_hints x)\<lparr>oh_keep_cache := v\<rparr>\<rparr>"
definition with_nonseekable :: "bool \<Rightarrow> 'h opened \<Rightarrow> 'h opened" where
  "with_nonseekable v x = x\<lparr>op_hints := (op_hints x)\<lparr>oh_nonseekable := v\<rparr>\<rparr>"
definition with_cache_readdir :: "bool \<Rightarrow> 'h opened \<Rightarrow> 'h opened" where
  "with_cache_readdir v x = x\<lparr>op_hints := (op_hints x)\<lparr>oh_cache_readdir := v\<rparr>\<rparr>"
definition with_parallel_direct_writes :: "bool \<Rightarrow> 'h opened \<Rightarrow> 'h opened" where
  "with_parallel_direct_writes v x = x\<lparr>op_hints := (op_hints x)\<lparr>oh_parallel_direct_writes := v\<rparr>\<rparr>"

datatype xattr_reply = XSize nat | XData bytes

definition xattr_sized :: "bytes \<Rightarrow> nat \<Rightarrow> xattr_reply result" where
  "xattr_sized data sz =
     (if sz = 0 then Ok (XSize (length data))
      else if length data > sz then Err ERANGE
      else Ok (XData data))"

datatype lock_kind = LockRead | LockWrite | LockUnlock

record file_lock =
  fl_kind :: lock_kind
  fl_start :: u64
  fl_end :: u64
  fl_pid :: u32

subsection \<open>Connection capabilities\<close>

text \<open>The position of a capability's bit, and the masks read bit by bit.\<close>

fun cap_index :: "connection_capability \<Rightarrow> nat" where
  "cap_index AsyncRead = 0"
| "cap_index AsyncDirectIo = 15"
| "cap_index ParallelDirectoryOperations = 18"

lemma bit_push_1: "bit (push_bit n (1::u32)) j \<longleftrightarrow> j = n \<and> n < 32"
  by (simp only: bit_push_bit_iff bit_1_iff) auto

lemma bit_cap_bit: "bit (cap_bit k) j \<longleftrightarrow> j = cap_index k"
  by (cases k) (simp_all only: cap_bit.simps cap_index.simps ASYNC_READ_def ASYNC_DIO_def
      PARALLEL_DIROPS_def bit_push_1, auto)

lemma cap_index_less [simp]: "cap_index k < 32"
  by (cases k) auto

lemma cap_index_inject [simp]: "cap_index k = cap_index k' \<longleftrightarrow> k = k'"
  by (cases k; cases k') auto

lemma and_cap_bit_eq_0_iff: "w AND cap_bit k = 0 \<longleftrightarrow> \<not> bit w (cap_index k)"
proof
  assume "w AND cap_bit k = 0"
  then have "\<not> bit (w AND cap_bit k) (cap_index k)" by simp
  then show "\<not> bit w (cap_index k)" by (simp add: bit_and_iff bit_cap_bit)
next
  assume "\<not> bit w (cap_index k)"
  then show "w AND cap_bit k = 0"
    by (intro bit_word_eqI) (auto simp: bit_and_iff bit_cap_bit)
qed

lemma capable_iff: "capable c k \<longleftrightarrow> bit (ci_capable c) (cap_index k)"
  by (simp add: capable_def and_cap_bit_eq_0_iff)

lemma enabled_iff: "enabled c k \<longleftrightarrow> bit (ci_want c) (cap_index k)"
  by (simp add: enabled_def and_cap_bit_eq_0_iff)

text \<open>
  What \<open>set_enabled\<close> does to the request mask, bit by bit: when the capability is supported or
  is being disabled, exactly its own bit takes the requested value.
\<close>

lemma set_enabled_bits:
  assumes "set_enabled k en c = (True, c')" and "j < 32"
  shows "bit (ci_want c') j = (if j = cap_index k then en else bit (ci_want c) j)"
  using assms
  by (auto simp: set_enabled_def Let_def bit_or_iff bit_and_iff bit_not_iff bit_cap_bit
      split: if_splits)

lemma set_enabled_refused: "fst (set_enabled k en c) \<longleftrightarrow> (en \<longrightarrow> capable c k)"
  by (auto simp: set_enabled_def Let_def capable_def)

lemma set_enabled_frame:
  "set_enabled k en c = (r, c') \<Longrightarrow> c' = c\<lparr>ci_want := ci_want c'\<rparr>"
  by (auto simp: set_enabled_def Let_def split: if_splits)

end
