(* ===== verification/Node_Table.thy ===== *)
theory Node_Table
  imports Fuse_Types
begin

text \<open>
  The node table of \<^verbatim>\<open>runtime.rs\<close>: inode allocation, the four retention counts of a slot,
  and the operations a filesystem reaches through \<^verbatim>\<open>Cx\<close>. Each definition is one critical
  section of the table's mutex. Node payloads live behind an \<^verbatim>\<open>Arc\<close>; the model keeps them in a
  store indexed by address, so that a lease and the slot share one payload.

  The invariant \<open>table_inv\<close> and the view \<open>pins\<close> (what retains a node besides its names) carry
  every later proof: an operation is described by how it changes \<open>pins\<close>.
\<close>

section \<open>Data\<close>

record slot =
  s_record :: addr
  s_generation :: u64
  s_links :: u32
  s_lookups :: u64
  s_opens :: u32
  s_leases :: u32
  s_parent :: node_id

definition droppable :: "slot \<Rightarrow> bool" where
  "droppable s \<longleftrightarrow> s_links s = 0 \<and> s_lookups s = 0 \<and> s_opens s = 0 \<and> s_leases s = 0"

record node_table =
  t_map :: "(u64, slot) btree"
  t_next_ino :: u64
  t_free :: "(u64 \<times> u64) list"

definition table_new :: node_table where
  "table_new = \<lparr>t_map = [], t_next_ino = 2, t_free = []\<rparr>"

text \<open>
  \<^verbatim>\<open>Shared\<close>: the table, and the store of the \<^verbatim>\<open>NodeRecord\<close> payloads. An address is
  an index of the store; a new allocation is appended.
\<close>

record 'n shared =
  sh_table :: node_table
  sh_heap :: "'n list"

text \<open>A \<^verbatim>\<open>NodeRef\<close> lease: the inode it names and the record it keeps alive.\<close>

record node_ref =
  nr_id :: node_id
  nr_record :: addr

section \<open>Critical sections\<close>

text \<open>
  \<^verbatim>\<open>Vec\<close> pushes and pops at its end. \<open>self.next_ino += 1\<close> is checked: an overflow is
  the panic Rust raises when overflow checks are on.
\<close>

definition alloc :: "node_table \<Rightarrow> (u64 \<times> u64) result \<times> node_table" where
  "alloc t = (if t_free t \<noteq> [] then (Ok (last (t_free t)), t\<lparr>t_free := butlast (t_free t)\<rparr>)
     else (case checked_add (t_next_ino t) 1 of
             None \<Rightarrow> (Panic, t)
           | Some n \<Rightarrow> (Ok (t_next_ino t, 0), t\<lparr>t_next_ino := n\<rparr>)))"

definition maybe_drop :: "node_id \<Rightarrow> node_table \<Rightarrow> node_table" where
  "maybe_drop nid t = (case bt_get (t_map t) (ino_of nid) of
     Some s \<Rightarrow>
       if droppable s
       then t\<lparr>t_map := bt_remove (ino_of nid) (t_map t),
              t_free := t_free t @ [(ino_of nid, s_generation s + 1)]\<rparr>
       else t
   | None \<Rightarrow> t)"

text \<open>Replace the slot of a live inode (\<^verbatim>\<open>get_mut\<close>).\<close>

definition set_slot :: "u64 \<Rightarrow> slot \<Rightarrow> node_table \<Rightarrow> node_table" where
  "set_slot n s t = t\<lparr>t_map := bt_insert n s (t_map t)\<rparr>"

definition with_table :: "(node_table \<Rightarrow> node_table) \<Rightarrow> 'n shared \<Rightarrow> 'n shared" where
  "with_table f sh = sh\<lparr>sh_table := f (sh_table sh)\<rparr>"

definition slot_at :: "'n shared \<Rightarrow> u64 \<Rightarrow> slot option" where
  "slot_at sh n = bt_get (t_map (sh_table sh)) n"

text \<open>\<^verbatim>\<open>Deref for NodeRef\<close> and writes through the payload's interior locks.\<close>

definition payload :: "'n shared \<Rightarrow> addr \<Rightarrow> 'n" where
  "payload sh a = sh_heap sh ! a"

definition set_payload :: "addr \<Rightarrow> 'n \<Rightarrow> 'n shared \<Rightarrow> 'n shared" where
  "set_payload a p sh = sh\<lparr>sh_heap := (sh_heap sh)[a := p]\<rparr>"

subsection \<open>Leases\<close>

definition cx_get :: "node_id \<Rightarrow> 'n shared \<Rightarrow> node_ref option result \<times> 'n shared" where
  "cx_get nid sh = (case slot_at sh (ino_of nid) of
     None \<Rightarrow> (Ok None, sh)
   | Some s \<Rightarrow> (case checked_add (s_leases s) 1 of
       None \<Rightarrow> (Panic, sh)
     | Some l \<Rightarrow> (Ok (Some \<lparr>nr_id = nid, nr_record = s_record s\<rparr>),
         with_table (set_slot (ino_of nid) (s\<lparr>s_leases := l\<rparr>)) sh)))"

definition node_ref_drop :: "node_ref \<Rightarrow> 'n shared \<Rightarrow> 'n shared" where
  "node_ref_drop r sh =
     with_table (maybe_drop (nr_id r))
       (case slot_at sh (ino_of (nr_id r)) of
          Some s \<Rightarrow>
            if s_record s = nr_record r
            then with_table (set_slot (ino_of (nr_id r))
                   (s\<lparr>s_leases := saturating_sub (s_leases s) 1\<rparr>)) sh
            else sh
        | None \<Rightarrow> sh)"

subsection \<open>Namespace operations\<close>

definition cx_contains :: "node_id \<Rightarrow> 'n shared \<Rightarrow> bool" where
  "cx_contains nid sh \<longleftrightarrow> slot_at sh (ino_of nid) \<noteq> None"

definition cx_insert :: "'n \<Rightarrow> node_id \<Rightarrow> 'n shared \<Rightarrow> node_id result \<times> 'n shared" where
  "cx_insert p parent sh = (case alloc (sh_table sh) of
     (Ok (n, g), t) \<Rightarrow> (Ok (from_ino n),
        \<lparr>sh_table = set_slot n \<lparr>s_record = length (sh_heap sh), s_generation = g, s_links = 1,
            s_lookups = 0, s_opens = 0, s_leases = 0, s_parent = parent\<rparr> t,
         sh_heap = sh_heap sh @ [p]\<rparr>)
   | (Err e, t) \<Rightarrow> (Err e, sh\<lparr>sh_table := t\<rparr>)
   | (Panic, t) \<Rightarrow> (Panic, sh\<lparr>sh_table := t\<rparr>)
   | (Blocks, t) \<Rightarrow> (Blocks, sh\<lparr>sh_table := t\<rparr>))"

definition cx_reparent :: "node_id \<Rightarrow> node_id \<Rightarrow> 'n shared \<Rightarrow> 'n shared" where
  "cx_reparent nid new_parent sh = (case slot_at sh (ino_of nid) of
     Some s \<Rightarrow> with_table (set_slot (ino_of nid) (s\<lparr>s_parent := new_parent\<rparr>)) sh
   | None \<Rightarrow> sh)"

definition cx_add_link :: "node_id \<Rightarrow> 'n shared \<Rightarrow> unit result \<times> 'n shared" where
  "cx_add_link nid sh = (case slot_at sh (ino_of nid) of
     Some s \<Rightarrow> (case checked_add (s_links s) 1 of
         None \<Rightarrow> (Panic, sh)
       | Some l \<Rightarrow> (Ok (), with_table (set_slot (ino_of nid) (s\<lparr>s_links := l\<rparr>)) sh))
   | None \<Rightarrow> (Ok (), sh))"

definition cx_remove_link :: "node_id \<Rightarrow> 'n shared \<Rightarrow> 'n shared" where
  "cx_remove_link nid sh =
     with_table (maybe_drop nid)
       (case slot_at sh (ino_of nid) of
          Some s \<Rightarrow> with_table (set_slot (ino_of nid)
                      (s\<lparr>s_links := saturating_sub (s_links s) 1\<rparr>)) sh
        | None \<Rightarrow> sh)"

subsection \<open>Lookup and open counts\<close>

definition retain_lookup :: "node_id \<Rightarrow> 'n shared \<Rightarrow> unit result \<times> 'n shared" where
  "retain_lookup nid sh = (case slot_at sh (ino_of nid) of
     None \<Rightarrow> (Err ENOENT, sh)
   | Some s \<Rightarrow> (case checked_add (s_lookups s) 1 of
       None \<Rightarrow> (Panic, sh)
     | Some l \<Rightarrow> (Ok (), with_table (set_slot (ino_of nid) (s\<lparr>s_lookups := l\<rparr>)) sh)))"

text \<open>
  The first critical section of \<^verbatim>\<open>Runtime::forget\<close>: it lowers the count and, on the
  transition to zero, takes a lease for the notification. \<open>None\<close> is the early return for an
  unknown inode.
\<close>

definition forget_count :: "u64 \<Rightarrow> u64 \<Rightarrow> 'n shared \<Rightarrow> node_ref option option result \<times> 'n shared" where
  "forget_count n nlookup sh = (case slot_at sh n of
     None \<Rightarrow> (Ok None, sh)
   | Some s \<Rightarrow>
       let had_lookups = s_lookups s \<noteq> 0;
           s1 = s\<lparr>s_lookups := saturating_sub (s_lookups s) nlookup\<rparr>
       in if had_lookups \<and> s_lookups s1 = 0
          then (case checked_add (s_leases s1) 1 of
                  None \<Rightarrow> (Panic, with_table (set_slot n s1) sh)
                | Some l \<Rightarrow> (Ok (Some (Some \<lparr>nr_id = from_ino n, nr_record = s_record s1\<rparr>)),
                             with_table (set_slot n (s1\<lparr>s_leases := l\<rparr>)) sh))
          else (Ok (Some None), with_table (set_slot n s1) sh))"

definition add_open :: "u64 \<Rightarrow> 'n shared \<Rightarrow> unit result \<times> 'n shared" where
  "add_open n sh = (case slot_at sh n of
     None \<Rightarrow> (Err ENOENT, sh)
   | Some s \<Rightarrow> (case checked_add (s_opens s) 1 of
       None \<Rightarrow> (Panic, sh)
     | Some l \<Rightarrow> (Ok (), with_table (set_slot n (s\<lparr>s_opens := l\<rparr>)) sh)))"

definition remove_open :: "u64 \<Rightarrow> 'n shared \<Rightarrow> 'n shared" where
  "remove_open n sh =
     with_table (maybe_drop (from_ino n))
       (case slot_at sh n of
          Some s \<Rightarrow> with_table (set_slot n (s\<lparr>s_opens := saturating_sub (s_opens s) 1\<rparr>)) sh
        | None \<Rightarrow> sh)"

text \<open>The table \<^verbatim>\<open>Runtime::new\<close> starts from: the root at inode 1.\<close>

definition shared_new :: "'n \<Rightarrow> 'n shared" where
  "shared_new root = \<lparr>sh_table = set_slot 1
      \<lparr>s_record = 0, s_generation = 0, s_links = 1, s_lookups = 0, s_opens = 0, s_leases = 0,
       s_parent = ROOT\<rparr> table_new, sh_heap = [root]\<rparr>"

section \<open>Slots after an operation\<close>

lemma slot_at_set_slot [simp]:
  "slot_at (with_table (set_slot n s) sh) m = (if m = n then Some s else slot_at sh m)"
  by (simp add: slot_at_def with_table_def set_slot_def)

lemma slot_at_maybe_drop:
  "slot_at (with_table (maybe_drop nid) sh) m =
     (if m = ino_of nid \<and> (\<exists>s. slot_at sh m = Some s \<and> droppable s) then None else slot_at sh m)"
  by (auto simp: slot_at_def with_table_def maybe_drop_def split: option.splits)

lemma heap_with_table [simp]: "sh_heap (with_table f sh) = sh_heap sh"
  by (simp add: with_table_def)

lemma slot_at_set_payload [simp]: "slot_at (set_payload a p sh) = slot_at sh"
  by (simp add: slot_at_def set_payload_def fun_eq_iff)

lemma table_set_payload [simp]: "sh_table (set_payload a p sh) = sh_table sh"
  by (simp add: set_payload_def)

lemma heap_set_payload [simp]: "sh_heap (set_payload a p sh) = (sh_heap sh)[a := p]"
  by (simp add: set_payload_def)

section \<open>The table invariant\<close>

text \<open>
  Inode numbers are handed out below \<open>t_next_ino\<close>; the free list holds distinct numbers that are
  not in the map; no slot that is in the map could be dropped; every slot has its own record in the
  store.
\<close>

definition live_ok :: "'n shared \<Rightarrow> bool" where
  "live_ok sh \<longleftrightarrow> (\<forall>n s. slot_at sh n = Some s \<longrightarrow>
     0 < n \<and> n < t_next_ino (sh_table sh) \<and> \<not> droppable s \<and> s_record s < length (sh_heap sh))"

definition free_ok :: "'n shared \<Rightarrow> bool" where
  "free_ok sh \<longleftrightarrow> distinct (map fst (t_free (sh_table sh))) \<and>
     (\<forall>n \<in> fst ` set (t_free (sh_table sh)).
        0 < n \<and> n < t_next_ino (sh_table sh) \<and> slot_at sh n = None)"

definition records_ok :: "'n shared \<Rightarrow> bool" where
  "records_ok sh \<longleftrightarrow> (\<forall>m n s s'. slot_at sh m = Some s \<longrightarrow> slot_at sh n = Some s' \<longrightarrow>
     s_record s = s_record s' \<longrightarrow> m = n)"

definition table_inv :: "'n shared \<Rightarrow> bool" where
  "table_inv sh \<longleftrightarrow> bt_sorted (t_map (sh_table sh)) \<and> 0 < t_next_ino (sh_table sh) \<and>
     live_ok sh \<and> free_ok sh \<and> records_ok sh"

lemma table_inv_slotD:
  assumes "table_inv sh" "slot_at sh n = Some s"
  shows "0 < n" "n < t_next_ino (sh_table sh)" "\<not> droppable s" "s_record s < length (sh_heap sh)"
  using assms by (auto simp: table_inv_def live_ok_def)

lemma table_inv_record_unique:
  "table_inv sh \<Longrightarrow> slot_at sh m = Some s \<Longrightarrow> slot_at sh n = Some s' \<Longrightarrow>
     s_record s = s_record s' \<Longrightarrow> m = n"
  by (auto simp: table_inv_def records_ok_def)

text \<open>Replacing a slot by one that keeps the record and is still retained.\<close>

lemma table_inv_set_slot:
  assumes "table_inv sh" "slot_at sh n = Some s" "s_record s' = s_record s" "\<not> droppable s'"
  shows "table_inv (with_table (set_slot n s') sh)"
proof -
  have sorted: "bt_sorted (t_map (sh_table (with_table (set_slot n s') sh)))"
    using assms by (auto simp: table_inv_def with_table_def set_slot_def)
  have [simp]: "t_next_ino (sh_table (with_table (set_slot n s') sh)) = t_next_ino (sh_table sh)"
    "t_free (sh_table (with_table (set_slot n s') sh)) = t_free (sh_table sh)"
    by (simp_all add: with_table_def set_slot_def)
  have "live_ok (with_table (set_slot n s') sh)"
    using assms by (auto simp: table_inv_def live_ok_def)
  moreover have "free_ok (with_table (set_slot n s') sh)"
    using assms unfolding table_inv_def free_ok_def by fastforce
  moreover have "records_ok (with_table (set_slot n s') sh)"
    using assms unfolding table_inv_def records_ok_def by (auto split: if_splits)
  ultimately show ?thesis using sorted assms(1) by (simp add: table_inv_def)
qed

text \<open>
  The end of every release path: the slot is replaced by one that may be droppable, then
  \<open>maybe_drop\<close> runs.
\<close>

lemma table_inv_set_drop:
  assumes inv: "table_inv sh" and s: "slot_at sh (ino_of nid) = Some s"
    and r: "s_record s' = s_record s"
  shows "table_inv (with_table (maybe_drop nid) (with_table (set_slot (ino_of nid) s') sh))"
proof (cases "droppable s'")
  case False
  then have "with_table (maybe_drop nid) (with_table (set_slot (ino_of nid) s') sh)
      = with_table (set_slot (ino_of nid) s') sh"
    by (simp add: with_table_def maybe_drop_def set_slot_def)
  with table_inv_set_slot [OF inv s r False] show ?thesis by simp
next
  case True
  let ?n = "ino_of nid"
  let ?sh = "with_table (maybe_drop nid) (with_table (set_slot ?n s') sh)"
  have tab: "t_next_ino (sh_table ?sh) = t_next_ino (sh_table sh)"
    "t_free (sh_table ?sh) = t_free (sh_table sh) @ [(?n, s_generation s' + 1)]"
    "t_map (sh_table ?sh) = bt_remove ?n (bt_insert ?n s' (t_map (sh_table sh)))"
    using True by (simp_all add: with_table_def maybe_drop_def set_slot_def)
  have slot: "slot_at ?sh m = (if m = ?n then None else slot_at sh m)" for m
    using True by (auto simp: slot_at_maybe_drop)
  have "?n \<notin> fst ` set (t_free (sh_table sh))"
    using inv s by (auto simp: table_inv_def free_ok_def)
  then have "free_ok ?sh"
    using inv s by (auto simp: table_inv_def free_ok_def tab slot live_ok_def)
  moreover have "live_ok ?sh" "records_ok ?sh"
    using inv by (auto simp: table_inv_def live_ok_def records_ok_def slot tab split: if_splits)
  moreover have "bt_sorted (t_map (sh_table ?sh))"
    unfolding tab using inv by (auto simp: table_inv_def)
  ultimately show ?thesis using inv by (simp add: table_inv_def tab)
qed

lemma table_inv_maybe_drop:
  assumes "table_inv sh" shows "table_inv (with_table (maybe_drop nid) sh)"
proof -
  have "with_table (maybe_drop nid) sh = sh"
    using assms by (auto simp: with_table_def maybe_drop_def table_inv_def live_ok_def slot_at_def
        split: option.splits)
  with assms show ?thesis by simp
qed

lemma table_inv_set_payload [simp]: "table_inv (set_payload a p sh) \<longleftrightarrow> table_inv sh"
  by (simp add: table_inv_def live_ok_def free_ok_def records_ok_def)

lemma table_inv_new: "table_inv (shared_new root)"
  by (auto simp: table_inv_def live_ok_def free_ok_def records_ok_def shared_new_def set_slot_def
      table_new_def slot_at_def droppable_def bt_sorted_def split: if_splits)

section \<open>What retains a node\<close>

text \<open>
  A pin is what an entry reply, an open handle or a lease holds: the node's record and generation,
  and how many of each there are. A slot kept only by its names has no pin. Filesystem callbacks may
  create, rename and remove names at will; they cannot change a pin, which is what makes the counts
  of the kernel's references independent of the filesystem.
\<close>

record pin =
  p_record :: addr
  p_generation :: u64
  p_lookups :: nat
  p_opens :: nat
  p_leases :: nat

definition pin_of :: "slot \<Rightarrow> pin" where
  "pin_of s = \<lparr>p_record = s_record s, p_generation = s_generation s, p_lookups = unat (s_lookups s),
     p_opens = unat (s_opens s), p_leases = unat (s_leases s)\<rparr>"

definition pinned :: "slot \<Rightarrow> bool" where
  "pinned s \<longleftrightarrow> s_lookups s \<noteq> 0 \<or> s_opens s \<noteq> 0 \<or> s_leases s \<noteq> 0"

definition slot_pin :: "slot \<Rightarrow> pin option" where
  "slot_pin s = (if pinned s then Some (pin_of s) else None)"

definition pins :: "'n shared \<Rightarrow> u64 \<Rightarrow> pin option" where
  "pins sh n = (case slot_at sh n of None \<Rightarrow> None | Some s \<Rightarrow> slot_pin s)"

text \<open>The three counts of an inode as numbers, zero where there is no slot.\<close>

definition lookups_of :: "'n shared \<Rightarrow> u64 \<Rightarrow> nat" where
  "lookups_of sh n = (case slot_at sh n of None \<Rightarrow> 0 | Some s \<Rightarrow> unat (s_lookups s))"

definition opens_of :: "'n shared \<Rightarrow> u64 \<Rightarrow> nat" where
  "opens_of sh n = (case slot_at sh n of None \<Rightarrow> 0 | Some s \<Rightarrow> unat (s_opens s))"

definition leases_of :: "'n shared \<Rightarrow> u64 \<Rightarrow> nat" where
  "leases_of sh n = (case slot_at sh n of None \<Rightarrow> 0 | Some s \<Rightarrow> unat (s_leases s))"

definition links_of :: "'n shared \<Rightarrow> u64 \<Rightarrow> nat" where
  "links_of sh n = (case slot_at sh n of None \<Rightarrow> 0 | Some s \<Rightarrow> unat (s_links s))"

lemma droppable_not_pinned: "droppable s \<Longrightarrow> \<not> pinned s"
  by (simp add: droppable_def pinned_def)

lemma counts_from_pins:
  "lookups_of sh n = (case pins sh n of None \<Rightarrow> 0 | Some p \<Rightarrow> p_lookups p)"
  "opens_of sh n = (case pins sh n of None \<Rightarrow> 0 | Some p \<Rightarrow> p_opens p)"
  "leases_of sh n = (case pins sh n of None \<Rightarrow> 0 | Some p \<Rightarrow> p_leases p)"
  by (auto simp: lookups_of_def opens_of_def leases_of_def pins_def slot_pin_def pin_of_def pinned_def
      split: option.splits)

lemma pins_slotD:
  "pins sh n = Some p \<Longrightarrow> \<exists>s. slot_at sh n = Some s \<and> pinned s \<and> p = pin_of s"
  by (auto simp: pins_def slot_pin_def split: option.splits if_splits)

lemma pins_set_slot:
  "pins (with_table (set_slot n s) sh) = (pins sh)(n := slot_pin s)"
  by (auto simp: pins_def fun_eq_iff)

lemma pins_maybe_drop [simp]: "pins (with_table (maybe_drop nid) sh) = pins sh"
  by (auto simp: pins_def fun_eq_iff slot_at_maybe_drop slot_pin_def droppable_not_pinned
      split: option.splits)

lemma pins_set_payload [simp]: "pins (set_payload a p sh) = pins sh"
  by (simp add: pins_def fun_eq_iff)

lemma pins_same_pin: "slot_at sh n = Some s \<Longrightarrow> slot_pin s' = slot_pin s \<Longrightarrow> (pins sh)(n := slot_pin s') = pins sh"
  by (auto simp: pins_def fun_eq_iff)

lemma slot_pin_links [simp]: "slot_pin (s\<lparr>s_links := l\<rparr>) = slot_pin s"
  by (simp add: slot_pin_def pinned_def pin_of_def)

lemma slot_pin_parent [simp]: "slot_pin (s\<lparr>s_parent := l\<rparr>) = slot_pin s"
  by (simp add: slot_pin_def pinned_def pin_of_def)

section \<open>Each operation keeps the invariant and changes the pins as stated\<close>

text \<open>Allocation hands out a number that is not in use.\<close>

lemma alloc_fresh:
  assumes "table_inv sh" "alloc (sh_table sh) = (Ok (n, g), t)"
  shows "slot_at sh n = None" "0 < n" "n < t_next_ino t" "t_map t = t_map (sh_table sh)"
    "t_next_ino (sh_table sh) \<le> t_next_ino t" "distinct (map fst (t_free t))"
    "fst ` set (t_free t) \<subseteq> fst ` set (t_free (sh_table sh)) - {n}"
proof -
  have fresh_next: "slot_at sh (t_next_ino (sh_table sh)) = None"
    using assms(1) by (auto simp: table_inv_def live_ok_def) (meson less_irrefl not_None_eq)
  show "slot_at sh n = None" "0 < n" "n < t_next_ino t" "t_map t = t_map (sh_table sh)"
    "t_next_ino (sh_table sh) \<le> t_next_ino t" "distinct (map fst (t_free t))"
    "fst ` set (t_free t) \<subseteq> fst ` set (t_free (sh_table sh)) - {n}"
  proof -
    consider (pop) xs where "t_free (sh_table sh) = xs @ [(n, g)]" "t = (sh_table sh)\<lparr>t_free := xs\<rparr>"
      | (next_ino) "t_free (sh_table sh) = []" "n = t_next_ino (sh_table sh)"
        "\<exists>m. checked_add n 1 = Some m \<and> t = (sh_table sh)\<lparr>t_next_ino := m\<rparr>"
    proof (cases "t_free (sh_table sh) = []")
      case False
      with assms(2) have "last (t_free (sh_table sh)) = (n, g)"
        "t = (sh_table sh)\<lparr>t_free := butlast (t_free (sh_table sh))\<rparr>"
        by (auto simp: alloc_def)
      with False show ?thesis using that(1) [of "butlast (t_free (sh_table sh))"]
        by (metis append_butlast_last_id)
    next
      case True
      with assms(2) show ?thesis using that(2)
        by (auto simp: alloc_def split: option.splits)
    qed
    note cases = this
    show "slot_at sh n = None" "0 < n" "n < t_next_ino t" "t_map t = t_map (sh_table sh)"
      "t_next_ino (sh_table sh) \<le> t_next_ino t" "distinct (map fst (t_free t))"
      "fst ` set (t_free t) \<subseteq> fst ` set (t_free (sh_table sh)) - {n}"
      using cases
      by (cases; use assms(1) fresh_next in
          \<open>auto simp: table_inv_def free_ok_def dest: checked_add_1_less\<close>)+
  qed
qed

lemma cx_insert_Ok:
  assumes "cx_insert p parent sh = (Ok nid, sh')"
  obtains g t where "alloc (sh_table sh) = (Ok (ino_of nid, g), t)"
    "sh' = \<lparr>sh_table = set_slot (ino_of nid) \<lparr>s_record = length (sh_heap sh), s_generation = g, s_links = 1,
            s_lookups = 0, s_opens = 0, s_leases = 0, s_parent = parent\<rparr> t,
         sh_heap = sh_heap sh @ [p]\<rparr>"
  using assms by (auto simp: cx_insert_def from_ino_def split: prod.splits outcome.splits)

lemma cx_insert_not_Ok:
  assumes "cx_insert p parent sh = (r, sh')" "\<nexists>nid. r = Ok nid"
  shows "r = Panic \<and> sh' = sh"
  using assms by (auto simp: cx_insert_def alloc_def split: prod.splits outcome.splits if_splits option.splits)

abbreviation fresh_slot :: "'n shared \<Rightarrow> u64 \<Rightarrow> node_id \<Rightarrow> slot" where
  "fresh_slot sh g parent \<equiv> \<lparr>s_record = length (sh_heap sh), s_generation = g, s_links = 1,
     s_lookups = 0, s_opens = 0, s_leases = 0, s_parent = parent\<rparr>"

lemma slot_at_cx_insert:
  assumes "table_inv sh" "cx_insert p parent sh = (Ok nid, sh')"
  obtains g where "slot_at sh' = (slot_at sh)(ino_of nid \<mapsto> fresh_slot sh g parent)"
    "slot_at sh (ino_of nid) = None" "sh_heap sh' = sh_heap sh @ [p]"
  using assms(2)
proof (rule cx_insert_Ok)
  fix g t
  assume a: "alloc (sh_table sh) = (Ok (ino_of nid, g), t)"
    and sh': "sh' = \<lparr>sh_table = set_slot (ino_of nid) (fresh_slot sh g parent) t,
         sh_heap = sh_heap sh @ [p]\<rparr>"
  show thesis
  proof (rule that)
    show "slot_at sh' = (slot_at sh)(ino_of nid \<mapsto> fresh_slot sh g parent)"
      using alloc_fresh(4) [OF assms(1) a] by (auto simp: sh' slot_at_def set_slot_def fun_eq_iff)
    show "slot_at sh (ino_of nid) = None" by (rule alloc_fresh(1) [OF assms(1) a])
    show "sh_heap sh' = sh_heap sh @ [p]" by (simp add: sh')
  qed
qed

lemma table_inv_cx_insert:
  assumes inv: "table_inv sh" and ins: "cx_insert p parent sh = (r, sh')"
  shows "table_inv sh'"
proof (cases "\<exists>nid. r = Ok nid")
  case False
  with cx_insert_not_Ok [OF ins] inv show ?thesis by auto
next
  case True
  then obtain nid where r: "r = Ok nid" by blast
  let ?n = "ino_of nid"
  from ins [unfolded r] obtain g t where a: "alloc (sh_table sh) = (Ok (?n, g), t)"
    and sh': "sh' = \<lparr>sh_table = set_slot ?n (fresh_slot sh g parent) t,
         sh_heap = sh_heap sh @ [p]\<rparr>" by (rule cx_insert_Ok)
  note fresh = alloc_fresh [OF inv a]
  have slot: "slot_at sh' m = (if m = ?n then Some (fresh_slot sh g parent) else slot_at sh m)" for m
    using fresh(4) by (simp add: sh' slot_at_def set_slot_def)
  have next_le: "m < t_next_ino t" if "m < t_next_ino (sh_table sh)" for m
    using that fresh(5) by (rule order_less_le_trans)
  have tab: "t_next_ino (sh_table sh') = t_next_ino t" "t_free (sh_table sh') = t_free t"
    "length (sh_heap sh') = Suc (length (sh_heap sh))"
    by (simp_all add: sh' set_slot_def)
  have live: "0 < m" "m < t_next_ino t" "\<not> droppable s" "s_record s < length (sh_heap sh)"
    if "slot_at sh m = Some s" for m s
    using table_inv_slotD [OF inv that] next_le by auto
  have "live_ok sh'"
    unfolding live_ok_def tab
    using fresh(2,3) live by (auto simp: slot droppable_def less_SucI split: if_splits)
  moreover have "free_ok sh'"
  proof -
    have "0 < m \<and> m < t_next_ino t \<and> slot_at sh' m = None" if "m \<in> fst ` set (t_free t)" for m
    proof -
      from that fresh(7) have "m \<in> fst ` set (t_free (sh_table sh))" "m \<noteq> ?n" by blast+
      with inv next_le show ?thesis by (auto simp: table_inv_def free_ok_def slot)
    qed
    with fresh(6) show ?thesis unfolding free_ok_def tab by (intro conjI ballI) simp_all
  qed
  moreover have "records_ok sh'"
    unfolding records_ok_def
  proof (intro allI impI)
    fix m k s s'
    assume m: "slot_at sh' m = Some s" and k: "slot_at sh' k = Some s'" and r: "s_record s = s_record s'"
    have new: "s_record s = length (sh_heap sh) \<longleftrightarrow> m = ?n" if "slot_at sh' m = Some s" for m s
      using that live(4) [of m s] by (auto simp: slot split: if_splits)
    show "m = k"
    proof (cases "m = ?n \<or> k = ?n")
      case True
      with new [OF m] new [OF k] r show ?thesis by auto
    next
      case False
      with m k r table_inv_record_unique [OF inv, of m s k s'] show ?thesis by (simp add: slot)
    qed
  qed
  moreover have "0 < t_next_ino (sh_table sh')"
    unfolding tab using fresh(2,3) by (rule less_trans)
  moreover have "bt_sorted (t_map (sh_table sh'))"
    using inv fresh(4) by (auto simp: table_inv_def sh' set_slot_def)
  ultimately show ?thesis by (simp add: table_inv_def)
qed

lemma pins_cx_insert:
  assumes "table_inv sh" "cx_insert p parent sh = (r, sh')"
  shows "pins sh' = pins sh"
proof (cases "\<exists>nid. r = Ok nid")
  case False
  with cx_insert_not_Ok [OF assms(2)] show ?thesis by auto
next
  case True
  then obtain nid where ins: "cx_insert p parent sh = (Ok nid, sh')" using assms(2) by blast
  from slot_at_cx_insert [OF assms(1) ins] obtain g
    where "slot_at sh' = (slot_at sh)(ino_of nid \<mapsto> fresh_slot sh g parent)"
      "slot_at sh (ino_of nid) = None" by metis
  then show ?thesis
    by (auto simp: pins_def fun_eq_iff slot_pin_def pinned_def)
qed

lemma counts_set_slot [simp]:
  "lookups_of (with_table (set_slot n s) sh) = (lookups_of sh)(n := unat (s_lookups s))"
  "opens_of (with_table (set_slot n s) sh) = (opens_of sh)(n := unat (s_opens s))"
  "leases_of (with_table (set_slot n s) sh) = (leases_of sh)(n := unat (s_leases s))"
  "links_of (with_table (set_slot n s) sh) = (links_of sh)(n := unat (s_links s))"
  by (auto simp: lookups_of_def opens_of_def leases_of_def links_of_def fun_eq_iff)

lemma counts_maybe_drop [simp]:
  "lookups_of (with_table (maybe_drop nid) sh) = lookups_of sh"
  "opens_of (with_table (maybe_drop nid) sh) = opens_of sh"
  "leases_of (with_table (maybe_drop nid) sh) = leases_of sh"
  "links_of (with_table (maybe_drop nid) sh) = links_of sh"
  by (auto simp: lookups_of_def opens_of_def leases_of_def links_of_def fun_eq_iff slot_at_maybe_drop
      droppable_def split: option.splits)

lemma counts_pins_eq:
  assumes "pins sh' = pins sh"
  shows "lookups_of sh' = lookups_of sh" "opens_of sh' = opens_of sh" "leases_of sh' = leases_of sh"
  using assms by (simp_all add: fun_eq_iff counts_from_pins)

lemma counts_slot:
  assumes "slot_at sh n = Some s"
  shows "lookups_of sh n = unat (s_lookups s)" "opens_of sh n = unat (s_opens s)"
    "leases_of sh n = unat (s_leases s)" "links_of sh n = unat (s_links s)"
  using assms by (simp_all add: lookups_of_def opens_of_def leases_of_def links_of_def)

lemma counts_same [simp]: "(lookups_of sh)(n := lookups_of sh n) = lookups_of sh"
  by simp

text \<open>A count above zero means the inode is in the table.\<close>

lemma counted_slot:
  "0 < lookups_of sh n \<Longrightarrow> slot_at sh n \<noteq> None" "0 < opens_of sh n \<Longrightarrow> slot_at sh n \<noteq> None"
  "0 < leases_of sh n \<Longrightarrow> slot_at sh n \<noteq> None" "0 < links_of sh n \<Longrightarrow> slot_at sh n \<noteq> None"
  by (auto simp: lookups_of_def opens_of_def leases_of_def links_of_def split: option.splits)

lemma counted_slot_iff:
  assumes "table_inv sh"
  shows "slot_at sh n \<noteq> None \<longleftrightarrow>
    0 < lookups_of sh n \<or> 0 < opens_of sh n \<or> 0 < leases_of sh n \<or> 0 < links_of sh n"
proof (cases "slot_at sh n")
  case (Some s)
  with table_inv_slotD(3) [OF assms Some] show ?thesis
    by (auto simp: counts_slot [OF Some] droppable_def unat_gt_0)
qed (auto simp: lookups_of_def opens_of_def leases_of_def links_of_def)

subsection \<open>Leases\<close>

lemma cx_get_cases:
  assumes "cx_get nid sh = (r, sh')"
  obtains (absent) "r = Ok None" "sh' = sh" "slot_at sh (ino_of nid) = None"
    | (full) s where "r = Panic" "sh' = sh" "slot_at sh (ino_of nid) = Some s" "checked_add (s_leases s) 1 = None"
    | (leased) s l where "slot_at sh (ino_of nid) = Some s" "checked_add (s_leases s) 1 = Some l"
        "r = Ok (Some \<lparr>nr_id = nid, nr_record = s_record s\<rparr>)"
        "sh' = with_table (set_slot (ino_of nid) (s\<lparr>s_leases := l\<rparr>)) sh"
  using assms by (auto simp: cx_get_def split: option.splits)

lemma table_inv_cx_get: "table_inv sh \<Longrightarrow> cx_get nid sh = (r, sh') \<Longrightarrow> table_inv sh'"
  by (erule cx_get_cases) (auto simp: droppable_def dest: checked_add_1_pos intro!: table_inv_set_slot)

lemma cx_get_counts:
  assumes "cx_get nid sh = (Ok (Some nr), sh')"
  shows "leases_of sh' = (leases_of sh)(ino_of nid := Suc (leases_of sh (ino_of nid)))"
    "lookups_of sh' = lookups_of sh" "opens_of sh' = opens_of sh" "links_of sh' = links_of sh"
    "nr_id nr = nid" "sh_heap sh' = sh_heap sh"
  using assms
  by (rule cx_get_cases; force simp: counts_slot fun_eq_iff dest: unat_checked_add_1)+

lemma cx_get_Some_slot:
  assumes "cx_get nid sh = (Ok (Some nr), sh')"
  shows "\<exists>s. slot_at sh (ino_of nid) = Some s \<and> nr_record nr = s_record s \<and>
     slot_at sh' = (slot_at sh)(ino_of nid \<mapsto> s\<lparr>s_leases := s_leases s + 1\<rparr>)"
  using assms by (rule cx_get_cases) (auto simp: checked_add_def fun_eq_iff split: if_splits)

lemma cx_get_quiet:
  assumes "leases_of sh (ino_of nid) < 2 ^ 32 - 1" "slot_at sh (ino_of nid) \<noteq> None"
  obtains nr sh' where "cx_get nid sh = (Ok (Some nr), sh')"
  using assms by (auto simp: cx_get_def leases_of_def checked_add_def)

lemma node_ref_drop_no_slot:
  "slot_at sh (ino_of (nr_id nr)) = None \<Longrightarrow> slot_at (node_ref_drop nr sh) = slot_at sh"
  by (auto simp: node_ref_drop_def slot_at_maybe_drop fun_eq_iff)

lemma table_inv_node_ref_drop:
  assumes "table_inv sh" shows "table_inv (node_ref_drop nr sh)"
  using table_inv_maybe_drop [OF assms] table_inv_set_drop [OF assms]
  by (auto simp: node_ref_drop_def split: option.splits)

lemma node_ref_drop_counts:
  assumes "slot_at sh (ino_of (nr_id nr)) = Some s" "s_record s = nr_record nr"
  shows "leases_of (node_ref_drop nr sh) = (leases_of sh)(ino_of (nr_id nr) := leases_of sh (ino_of (nr_id nr)) - 1)"
    "lookups_of (node_ref_drop nr sh) = lookups_of sh" "opens_of (node_ref_drop nr sh) = opens_of sh"
    "links_of (node_ref_drop nr sh) = links_of sh"
  using assms by (auto simp: node_ref_drop_def counts_slot fun_eq_iff)

lemma heap_node_ref_drop [simp]: "sh_heap (node_ref_drop nr sh) = sh_heap sh"
  by (simp add: node_ref_drop_def split: option.splits)

subsection \<open>Names\<close>

lemma table_inv_cx_reparent: "table_inv sh \<Longrightarrow> table_inv (cx_reparent nid np sh)"
  using table_inv_set_slot [of sh "ino_of nid"] table_inv_slotD(3) [of sh "ino_of nid"]
  by (auto simp: cx_reparent_def droppable_def split: option.splits)

lemma pins_cx_reparent [simp]: "pins (cx_reparent nid np sh) = pins sh"
  by (auto simp: cx_reparent_def pins_set_slot pins_same_pin split: option.splits)

lemma table_inv_cx_add_link: "table_inv sh \<Longrightarrow> cx_add_link nid sh = (r, sh') \<Longrightarrow> table_inv sh'"
  by (auto simp: cx_add_link_def droppable_def split: option.splits intro!: table_inv_set_slot
      dest: checked_add_1_pos)

lemma pins_cx_add_link: "cx_add_link nid sh = (r, sh') \<Longrightarrow> pins sh' = pins sh"
  by (auto simp: cx_add_link_def pins_set_slot pins_same_pin split: option.splits)

lemma table_inv_cx_remove_link: "table_inv sh \<Longrightarrow> table_inv (cx_remove_link nid sh)"
  using table_inv_set_drop [of sh nid] table_inv_maybe_drop [of sh nid]
  by (auto simp: cx_remove_link_def split: option.splits)

lemma pins_cx_remove_link [simp]: "pins (cx_remove_link nid sh) = pins sh"
  by (auto simp: cx_remove_link_def pins_set_slot pins_same_pin split: option.splits)

subsection \<open>Lookups and opens\<close>

lemma table_inv_retain_lookup: "table_inv sh \<Longrightarrow> retain_lookup nid sh = (r, sh') \<Longrightarrow> table_inv sh'"
  by (auto simp: retain_lookup_def droppable_def split: option.splits intro!: table_inv_set_slot
      dest: checked_add_1_pos)

lemma retain_lookup_counts:
  assumes "retain_lookup nid sh = (r, sh')"
  shows "lookups_of sh' = (lookups_of sh)(ino_of nid := lookups_of sh (ino_of nid) + (if r = Ok () then 1 else 0))"
    "leases_of sh' = leases_of sh" "opens_of sh' = opens_of sh" "sh_heap sh' = sh_heap sh"
  using assms
  by (auto simp: retain_lookup_def counts_slot fun_eq_iff dest: unat_checked_add_1 split: option.splits)

lemma table_inv_add_open: "table_inv sh \<Longrightarrow> add_open n sh = (r, sh') \<Longrightarrow> table_inv sh'"
  by (auto simp: add_open_def droppable_def split: option.splits intro!: table_inv_set_slot
      dest: checked_add_1_pos)

lemma add_open_counts:
  assumes "add_open n sh = (r, sh')"
  shows "opens_of sh' = (opens_of sh)(n := opens_of sh n + (if r = Ok () then 1 else 0))"
    "leases_of sh' = leases_of sh" "lookups_of sh' = lookups_of sh" "sh_heap sh' = sh_heap sh"
  using assms
  by (auto simp: add_open_def counts_slot fun_eq_iff dest: unat_checked_add_1 split: option.splits)

lemma table_inv_remove_open: "table_inv sh \<Longrightarrow> table_inv (remove_open n sh)"
  using table_inv_set_drop [of sh "from_ino n"] table_inv_maybe_drop [of sh "from_ino n"]
  by (auto simp: remove_open_def split: option.splits)

lemma remove_open_counts [simp]:
  "opens_of (remove_open n sh) = (opens_of sh)(n := opens_of sh n - 1)"
  "lookups_of (remove_open n sh) = lookups_of sh" "leases_of (remove_open n sh) = leases_of sh"
  by (auto simp: remove_open_def counts_slot fun_eq_iff opens_of_def split: option.splits)

section \<open>Links and payloads\<close>

lemma links_cx_remove_link:
  "links_of (cx_remove_link nid sh) = (links_of sh)(ino_of nid := links_of sh (ino_of nid) - 1)"
  by (auto simp: cx_remove_link_def counts_slot fun_eq_iff links_of_def split: option.splits)

lemma links_cx_reparent [simp]: "links_of (cx_reparent nid np sh) = links_of sh"
  by (auto simp: cx_reparent_def counts_slot fun_eq_iff split: option.splits)

lemma links_cx_insert:
  assumes "table_inv sh" "cx_insert p parent sh = (Ok nid, sh')"
  shows "links_of sh' = (links_of sh)(ino_of nid := 1)" "links_of sh (ino_of nid) = 0"
proof -
  from slot_at_cx_insert [OF assms] obtain g
    where "slot_at sh' = (slot_at sh)(ino_of nid \<mapsto> fresh_slot sh g parent)" "slot_at sh (ino_of nid) = None" by metis
  then show "links_of sh' = (links_of sh)(ino_of nid := 1)" "links_of sh (ino_of nid) = 0"
    by (simp_all add: links_of_def fun_eq_iff)
qed

lemma payload_cx_insert:
  assumes "table_inv sh" "cx_insert p parent sh = (Ok nid, sh')" "slot_at sh' n = Some s"
  shows "payload sh' (s_record s) = (if n = ino_of nid then p else payload sh (s_record s))"
    "n \<noteq> ino_of nid \<Longrightarrow> slot_at sh n = Some s"
proof -
  from slot_at_cx_insert [OF assms(1,2)] obtain g where
    g: "slot_at sh' = (slot_at sh)(ino_of nid \<mapsto> fresh_slot sh g parent)" "sh_heap sh' = sh_heap sh @ [p]" by metis
  show "n \<noteq> ino_of nid \<Longrightarrow> slot_at sh n = Some s" using assms(3) g(1) by simp
  with assms(3) g table_inv_slotD(4) [OF assms(1)] show "payload sh' (s_record s) = (if n = ino_of nid then p else payload sh (s_record s))"
    by (auto simp: payload_def nth_append)
qed

end
