(* ===== verification/Node_Table_Steps.thy ===== *)
theory Node_Table_Steps
  imports Node_Table "HOL-Library.Multiset"
begin

text \<open>
  The node table under concurrency. Every access to \<^verbatim>\<open>Shared\<close> is one critical section of the
  table's mutex, so an execution of any number of threads is a sequence of critical sections in some
  order. The step relation below has one rule per critical section and tracks the multiset of live
  \<^verbatim>\<open>NodeRef\<close> leases. It puts no condition on who calls what: the invariants hold for every
  interleaving and for every filesystem.
\<close>

section \<open>States and steps\<close>

record 'n world =
  w_sh :: "'n shared"
  w_refs :: "node_ref multiset"

definition world_new :: "'n \<Rightarrow> 'n world" where
  "world_new root = \<lparr>w_sh = shared_new root, w_refs = {#}\<rparr>"

text \<open>The lease a critical section returns, if any.\<close>

fun got :: "node_ref option result \<Rightarrow> node_ref multiset" where
  "got (Ok (Some r)) = {#r#}"
| "got _ = {#}"

fun got_forgotten :: "node_ref option option result \<Rightarrow> node_ref multiset" where
  "got_forgotten (Ok (Some (Some r))) = {#r#}"
| "got_forgotten _ = {#}"

inductive tstep :: "'n world \<Rightarrow> 'n world \<Rightarrow> bool" where
  get: "cx_get nid sh = (r, sh') \<Longrightarrow> tstep \<lparr>w_sh = sh, w_refs = R\<rparr> \<lparr>w_sh = sh', w_refs = R + got r\<rparr>"
| drop_ref: "r \<in># R \<Longrightarrow>
    tstep \<lparr>w_sh = sh, w_refs = R\<rparr> \<lparr>w_sh = node_ref_drop r sh, w_refs = R - {#r#}\<rparr>"
| insert_node: "cx_insert p parent sh = (r', sh') \<Longrightarrow>
    tstep \<lparr>w_sh = sh, w_refs = R\<rparr> \<lparr>w_sh = sh', w_refs = R\<rparr>"
| reparent: "tstep \<lparr>w_sh = sh, w_refs = R\<rparr> \<lparr>w_sh = cx_reparent nid np sh, w_refs = R\<rparr>"
| add_link: "cx_add_link nid sh = (r'', sh') \<Longrightarrow>
    tstep \<lparr>w_sh = sh, w_refs = R\<rparr> \<lparr>w_sh = sh', w_refs = R\<rparr>"
| remove_link: "tstep \<lparr>w_sh = sh, w_refs = R\<rparr> \<lparr>w_sh = cx_remove_link nid sh, w_refs = R\<rparr>"
| retain: "retain_lookup nid sh = (r'', sh') \<Longrightarrow>
    tstep \<lparr>w_sh = sh, w_refs = R\<rparr> \<lparr>w_sh = sh', w_refs = R\<rparr>"
| forget_first: "forget_count n k sh = (fr, sh') \<Longrightarrow>
    tstep \<lparr>w_sh = sh, w_refs = R\<rparr> \<lparr>w_sh = sh', w_refs = R + got_forgotten fr\<rparr>"
| forget_second: "tstep \<lparr>w_sh = sh, w_refs = R\<rparr> \<lparr>w_sh = with_table (maybe_drop nid) sh, w_refs = R\<rparr>"
| open_node: "add_open n sh = (r'', sh') \<Longrightarrow>
    tstep \<lparr>w_sh = sh, w_refs = R\<rparr> \<lparr>w_sh = sh', w_refs = R\<rparr>"
| close_node: "tstep \<lparr>w_sh = sh, w_refs = R\<rparr> \<lparr>w_sh = remove_open n sh, w_refs = R\<rparr>"
| update: "tstep \<lparr>w_sh = sh, w_refs = R\<rparr> \<lparr>w_sh = set_payload a p sh, w_refs = R\<rparr>"

inductive_cases tstepE: "tstep w w'"

section \<open>Identities of nodes\<close>

text \<open>What the kernel knows a node by: its generation, and the record that holds its payload.\<close>

definition ident :: "'n shared \<Rightarrow> u64 \<Rightarrow> (u64 \<times> addr) option" where
  "ident sh n = map_option (\<lambda>s. (s_generation s, s_record s)) (slot_at sh n)"

text \<open>The three ways a critical section acts on identities.\<close>

inductive id_step :: "'n shared \<Rightarrow> 'n shared \<Rightarrow> bool" where
  keep: "ident sh' = ident sh \<Longrightarrow> t_free (sh_table sh') = t_free (sh_table sh) \<Longrightarrow>
    t_next_ino (sh_table sh') = t_next_ino (sh_table sh) \<Longrightarrow>
    length (sh_heap sh') = length (sh_heap sh) \<Longrightarrow> id_step sh sh'"
| reclaim: "ident sh n = Some (g, a) \<Longrightarrow> ident sh' = (ident sh)(n := None) \<Longrightarrow>
    t_free (sh_table sh') = t_free (sh_table sh) @ [(n, g + 1)] \<Longrightarrow>
    t_next_ino (sh_table sh') = t_next_ino (sh_table sh) \<Longrightarrow>
    length (sh_heap sh') = length (sh_heap sh) \<Longrightarrow> id_step sh sh'"
| reuse: "ident sh n = None \<Longrightarrow> t_free (sh_table sh) = t_free (sh_table sh') @ [(n, g)] \<Longrightarrow>
    t_next_ino (sh_table sh') = t_next_ino (sh_table sh) \<Longrightarrow>
    ident sh' = (ident sh)(n \<mapsto> (g, length (sh_heap sh))) \<Longrightarrow>
    length (sh_heap sh') = Suc (length (sh_heap sh)) \<Longrightarrow> id_step sh sh'"
| extend: "ident sh n = None \<Longrightarrow> t_free (sh_table sh) = [] \<Longrightarrow> t_free (sh_table sh') = [] \<Longrightarrow>
    n = t_next_ino (sh_table sh) \<Longrightarrow> checked_add n 1 = Some (t_next_ino (sh_table sh')) \<Longrightarrow>
    ident sh' = (ident sh)(n \<mapsto> (0, length (sh_heap sh))) \<Longrightarrow>
    length (sh_heap sh') = Suc (length (sh_heap sh)) \<Longrightarrow> id_step sh sh'"

lemma id_step_refl [simp]: "id_step sh sh"
  by (rule id_step.keep) auto

lemma id_step_set_slot:
  assumes "slot_at sh n = Some s" "s_record s' = s_record s" "s_generation s' = s_generation s"
  shows "id_step sh (with_table (set_slot n s') sh)"
  using assms by (intro id_step.keep) (auto simp: ident_def fun_eq_iff, auto simp: with_table_def set_slot_def)

lemma id_step_set_drop:
  assumes "slot_at sh (ino_of nid) = Some s" "s_record s' = s_record s" "s_generation s' = s_generation s"
  shows "id_step sh (with_table (maybe_drop nid) (with_table (set_slot (ino_of nid) s') sh))"
proof (cases "droppable s'")
  case False
  then have "with_table (maybe_drop nid) (with_table (set_slot (ino_of nid) s') sh)
      = with_table (set_slot (ino_of nid) s') sh"
    by (simp add: with_table_def maybe_drop_def set_slot_def)
  with id_step_set_slot [OF assms] show ?thesis by simp
next
  case True
  with assms show ?thesis
    by (intro id_step.reclaim [of sh "ino_of nid" "s_generation s" "s_record s"])
      (auto simp: ident_def fun_eq_iff slot_at_maybe_drop, auto simp: with_table_def maybe_drop_def set_slot_def)
qed

lemma maybe_drop_noop: "table_inv sh \<Longrightarrow> with_table (maybe_drop nid) sh = sh"
  by (auto simp: with_table_def maybe_drop_def table_inv_def live_ok_def slot_at_def
        split: option.splits)

lemma id_step_node_ref_drop: "table_inv sh \<Longrightarrow> id_step sh (node_ref_drop r sh)"
  by (auto simp: node_ref_drop_def maybe_drop_noop id_step_set_drop split: option.splits)

lemma id_step_cx_remove_link: "table_inv sh \<Longrightarrow> id_step sh (cx_remove_link nid sh)"
  by (auto simp: cx_remove_link_def maybe_drop_noop id_step_set_drop split: option.splits)

lemma id_step_remove_open: "table_inv sh \<Longrightarrow> id_step sh (remove_open n sh)"
  using id_step_set_drop [of sh "from_ino n"]
  by (auto simp: remove_open_def maybe_drop_noop split: option.splits)

lemma id_step_cx_insert:
  assumes inv: "table_inv sh" and ins: "cx_insert p parent sh = (r, sh')"
  shows "id_step sh sh'"
proof (cases "\<exists>nid. r = Ok nid")
  case False
  with cx_insert_not_Ok [OF ins] show ?thesis by auto
next
  case True
  then obtain nid where r: "r = Ok nid" by blast
  let ?n = "ino_of nid"
  from ins [unfolded r] obtain g t where a: "alloc (sh_table sh) = (Ok (?n, g), t)"
    and sh': "sh' = \<lparr>sh_table = set_slot ?n (fresh_slot sh g parent) t,
         sh_heap = sh_heap sh @ [p]\<rparr>" by (rule cx_insert_Ok)
  note fresh = alloc_fresh [OF inv a]
  have id': "ident sh' = (ident sh)(?n \<mapsto> (g, length (sh_heap sh)))" "ident sh ?n = None"
    using fresh(1,4) by (auto simp: ident_def fun_eq_iff sh' slot_at_def set_slot_def)
  have tab: "t_free (sh_table sh') = t_free t" "t_next_ino (sh_table sh') = t_next_ino t"
    "length (sh_heap sh') = Suc (length (sh_heap sh))" by (simp_all add: sh' set_slot_def)
  show ?thesis
  proof (cases "t_free (sh_table sh) = []")
    case True
    with a have "g = 0" "?n = t_next_ino (sh_table sh)" "checked_add ?n 1 = Some (t_next_ino t)" "t_free t = []"
      by (auto simp: alloc_def split: option.splits)
    with True id' tab show ?thesis by (intro id_step.extend) simp_all
  next
    case False
    with a have "last (t_free (sh_table sh)) = (?n, g)"
      "t = (sh_table sh)\<lparr>t_free := butlast (t_free (sh_table sh))\<rparr>" by (auto simp: alloc_def)
    with False have "t_free (sh_table sh) = t_free t @ [(?n, g)]" "t_next_ino t = t_next_ino (sh_table sh)"
      by (simp_all) (metis append_butlast_last_id)
    with id' tab show ?thesis by (intro id_step.reuse [of sh ?n sh' g]) simp_all
  qed
qed

lemma forget_count_slot:
  assumes "forget_count n k sh = (r, sh')"
  shows "(slot_at sh n = None \<and> sh' = sh \<and> r = Ok None) \<or>
    (\<exists>s s'. slot_at sh n = Some s \<and> sh' = with_table (set_slot n s') sh \<and> s_record s' = s_record s \<and>
       s_generation s' = s_generation s \<and> s_opens s' = s_opens s \<and> s_links s' = s_links s \<and>
       unat (s_lookups s') = unat (s_lookups s) - unat k \<and>
       (r = Ok (Some (Some \<lparr>nr_id = from_ino n, nr_record = s_record s\<rparr>)) \<and> s_lookups s' = 0 \<and>
          s_lookups s \<noteq> 0 \<and> unat (s_leases s') = Suc (unat (s_leases s)) \<or>
        r = Ok (Some None) \<and> s_leases s' = s_leases s \<and> (s_lookups s = 0 \<or> s_lookups s' \<noteq> 0) \<or>
        r = Panic \<and> s_leases s' = s_leases s \<and> s_leases s' \<noteq> 0))"
proof (cases "slot_at sh n")
  case None
  with assms show ?thesis by (simp add: forget_count_def)
next
  case (Some s)
  let ?s1 = "s\<lparr>s_lookups := saturating_sub (s_lookups s) k\<rparr>"
  consider (leased) l where "s_lookups s \<noteq> 0" "s_lookups ?s1 = 0" "checked_add (s_leases s) 1 = Some l"
      "r = Ok (Some (Some \<lparr>nr_id = from_ino n, nr_record = s_record s\<rparr>))"
      "sh' = with_table (set_slot n (?s1\<lparr>s_leases := l\<rparr>)) sh"
    | (full) "checked_add (s_leases s) 1 = None" "r = Panic" "sh' = with_table (set_slot n ?s1) sh"
    | (kept) "s_lookups s = 0 \<or> s_lookups ?s1 \<noteq> 0" "r = Ok (Some None)" "sh' = with_table (set_slot n ?s1) sh"
    using assms Some by (auto simp: forget_count_def Let_def split: option.splits if_splits)
  then show ?thesis
  proof cases
    case leased
    with Some show ?thesis
      by (intro disjI2 exI [of _ s] exI [of _ "?s1\<lparr>s_leases := l\<rparr>"])
        (auto simp: saturating_sub_eq_0_iff dest: unat_checked_add_1)
  next
    case full
    then have "s_leases s \<noteq> 0" by (auto simp: checked_add_def)
    with full Some show ?thesis by (intro disjI2 exI [of _ s] exI [of _ ?s1]) auto
  next
    case kept
    with Some show ?thesis by (intro disjI2 exI [of _ s] exI [of _ ?s1]) auto
  qed
qed

lemma table_inv_forget_count:
  assumes inv: "table_inv sh" and "forget_count n k sh = (r, sh')"
  shows "table_inv sh'"
  using forget_count_slot [OF assms(2)]
proof (elim disjE exE conjE)
  fix s s'
  assume s: "slot_at sh n = Some s" and sh': "sh' = with_table (set_slot n s') sh"
    and eq: "s_record s' = s_record s" "s_opens s' = s_opens s" "s_links s' = s_links s"
      "unat (s_lookups s') = unat (s_lookups s) - unat k"
    and "unat (s_leases s') = Suc (unat (s_leases s))"
  then have "\<not> droppable s'" by (auto simp: droppable_def)
  with s sh' eq inv show ?thesis by (auto intro: table_inv_set_slot)
next
  fix s s'
  assume s: "slot_at sh n = Some s" and sh': "sh' = with_table (set_slot n s') sh"
    and eq: "s_record s' = s_record s" "s_opens s' = s_opens s" "s_links s' = s_links s"
      "unat (s_lookups s') = unat (s_lookups s) - unat k" "s_leases s' = s_leases s"
    and "s_lookups s = 0"
  with table_inv_slotD(3) [OF inv s] have "\<not> droppable s'" by (auto simp: droppable_def)
  with s sh' eq inv show ?thesis by (auto intro: table_inv_set_slot)
qed (use inv in \<open>auto intro!: table_inv_set_slot simp: droppable_def\<close>)

lemma id_step_forget_count:
  assumes "forget_count n k sh = (r, sh')" shows "id_step sh sh'"
  using forget_count_slot [OF assms] by (auto intro: id_step_set_slot)

lemma forget_count_counts:
  assumes "forget_count n k sh = (r, sh')"
  shows "leases_of sh' = (leases_of sh)(n := leases_of sh n + size (got_forgotten r))"
    "lookups_of sh' = (lookups_of sh)(n := lookups_of sh n - unat k)" "opens_of sh' = opens_of sh"
  using forget_count_slot [OF assms] by (auto simp: counts_slot fun_eq_iff lookups_of_def)

text \<open>Every critical section keeps the table invariant and acts on identities in one of these ways.\<close>

lemma tstep_table:
  assumes "tstep w w'" "table_inv (w_sh w)"
  shows "table_inv (w_sh w') \<and> id_step (w_sh w) (w_sh w')"
  using assms
proof cases
  case (get nid sh r sh' R)
  with assms(2) show ?thesis
    by (auto simp: table_inv_cx_get elim!: cx_get_cases intro: id_step_set_slot)
next
  case (add_link nid sh r sh' R)
  with assms(2) show ?thesis
    by (auto simp: table_inv_cx_add_link) (auto simp: cx_add_link_def id_step_set_slot split: option.splits)
next
  case (reparent sh R nid np)
  with assms(2) show ?thesis
    by (auto simp: table_inv_cx_reparent) (auto simp: cx_reparent_def id_step_set_slot split: option.splits)
next
  case (retain nid sh r sh' R)
  with assms(2) show ?thesis
    by (auto simp: table_inv_retain_lookup) (auto simp: retain_lookup_def id_step_set_slot split: option.splits)
next
  case (open_node nid sh r sh' R)
  with assms(2) show ?thesis
    by (auto simp: table_inv_add_open) (auto simp: add_open_def id_step_set_slot split: option.splits)
next
  case (update sh R a p)
  with assms(2) show ?thesis by (auto intro: id_step.keep simp: ident_def fun_eq_iff)
next
  case (insert_node p parent sh r sh' R)
  with assms(2) show ?thesis by (simp add: table_inv_cx_insert [of sh] id_step_cx_insert [of sh])
next
  case (forget_first n k sh fr sh' R)
  with assms(2) show ?thesis by (simp add: table_inv_forget_count [of sh] id_step_forget_count [of n k sh])
qed (simp_all add: table_inv_node_ref_drop id_step_node_ref_drop table_inv_cx_remove_link
    id_step_cx_remove_link maybe_drop_noop table_inv_remove_open id_step_remove_open)

lemma id_step_stable:
  "id_step sh sh' \<Longrightarrow> ident sh n = Some i \<Longrightarrow> ident sh' n \<noteq> None \<Longrightarrow> ident sh' n = Some i"
  by (erule id_step.cases) (auto split: if_splits)

section \<open>Lease safety\<close>

text \<open>
  The invariant of a world: the table invariant; the lease count of every slot is the number of live
  leases on it; and the slot of a leased inode still holds the record of the lease.
\<close>

definition refs_on :: "node_ref multiset \<Rightarrow> u64 \<Rightarrow> nat" where
  "refs_on R n = size {#r \<in># R. ino_of (nr_id r) = n#}"

definition ref_valid :: "'n shared \<Rightarrow> node_ref \<Rightarrow> bool" where
  "ref_valid sh r \<longleftrightarrow> (\<exists>g. ident sh (ino_of (nr_id r)) = Some (g, nr_record r))"

definition world_inv :: "'n world \<Rightarrow> bool" where
  "world_inv w \<longleftrightarrow> table_inv (w_sh w) \<and> leases_of (w_sh w) = refs_on (w_refs w) \<and>
     (\<forall>r \<in># w_refs w. ref_valid (w_sh w) r)"

lemma refs_on_union [simp]: "refs_on (R + S) = (\<lambda>n. refs_on R n + refs_on S n)"
  by (simp add: refs_on_def fun_eq_iff)

lemma refs_on_empty [simp]: "refs_on {#} = (\<lambda>n. 0)"
  by (simp add: refs_on_def fun_eq_iff)

lemma refs_on_single [simp]: "refs_on {#r#} = (\<lambda>n. 0)(ino_of (nr_id r) := 1)"
  by (auto simp: refs_on_def fun_eq_iff)

lemma refs_on_add_mset [simp]:
  "refs_on (add_mset r R) = (refs_on R)(ino_of (nr_id r) := Suc (refs_on R (ino_of (nr_id r))))"
  by (auto simp: refs_on_def fun_eq_iff)

lemma refs_on_remove: "r \<in># R \<Longrightarrow> refs_on (R - {#r#}) = (refs_on R)(ino_of (nr_id r) := refs_on R (ino_of (nr_id r)) - 1)"
  by (auto simp: fun_eq_iff dest!: multi_member_split)

lemma refs_on_member: "r \<in># R \<Longrightarrow> 0 < refs_on R (ino_of (nr_id r))"
  by (auto dest!: multi_member_split)

lemma ident_slot: "ident sh n = Some (g, a) \<longleftrightarrow> (\<exists>s. slot_at sh n = Some s \<and> s_generation s = g \<and> s_record s = a)"
  by (auto simp: ident_def)

lemma tstep_leases:
  assumes "tstep w w'" "world_inv w"
  shows "leases_of (w_sh w') = refs_on (w_refs w')"
proof -
  have inv: "table_inv (w_sh w)" and l: "leases_of (w_sh w) = refs_on (w_refs w)"
    and v: "\<And>r. r \<in># w_refs w \<Longrightarrow> ref_valid (w_sh w) r"
    using assms(2) by (auto simp: world_inv_def)
  from assms(1) show ?thesis
  proof cases
    case (get nid sh r sh' R)
    from get(3) show ?thesis
    proof (rule cx_get_cases)
      fix s k
      assume r: "r = Ok (Some \<lparr>nr_id = nid, nr_record = s_record s\<rparr>)"
      from cx_get_counts(1) [OF get(3) [unfolded r]] l get(1,2) r show ?thesis
        by (simp add: fun_eq_iff)
    qed (use get l in auto)
  next
    case (drop_ref r R sh)
    with v [of r] have "ref_valid sh r" by simp
    then obtain s where "slot_at sh (ino_of (nr_id r)) = Some s" "s_record s = nr_record r"
      by (auto simp: ref_valid_def ident_slot)
    from node_ref_drop_counts(1) [OF this] drop_ref l show ?thesis by (simp add: refs_on_remove)
  next
    case (insert_node p parent sh r sh' R)
    with inv l counts_pins_eq(3) [OF pins_cx_insert [of sh p parent r sh']] show ?thesis by simp
  next
    case (add_link nid sh r sh' R)
    with l counts_pins_eq(3) [OF pins_cx_add_link [of nid sh r sh']] show ?thesis by simp
  next
    case (forget_first n k sh fr sh' R)
    from forget_count_counts(1) [OF forget_first(3)] forget_count_slot [OF forget_first(3)] l forget_first
    show ?thesis by (auto simp: fun_eq_iff)
  next
    case (retain nid sh r sh' R)
    with l retain_lookup_counts(2) [OF retain(3)] show ?thesis by simp
  next
    case (open_node n sh r sh' R)
    with l add_open_counts(2) [OF open_node(3)] show ?thesis by simp
  next
    case (update sh R a p)
    with l show ?thesis by (simp add: counts_pins_eq(3) [OF pins_set_payload])
  qed (use l in \<open>simp_all add: counts_pins_eq(3) [OF pins_cx_reparent] counts_pins_eq(3) [OF pins_cx_remove_link]\<close>)
qed

lemma world_inv_step:
  assumes "tstep w w'" "world_inv w" shows "world_inv w'"
proof -
  from assms(2) have inv: "table_inv (w_sh w)" and v: "\<And>r. r \<in># w_refs w \<Longrightarrow> ref_valid (w_sh w) r"
    by (auto simp: world_inv_def)
  note tab = tstep_table [OF assms(1) inv]
  note leases = tstep_leases [OF assms]
  have stable: "ref_valid (w_sh w') r" if "ref_valid (w_sh w) r" "r \<in># w_refs w'" for r
  proof -
    from that(2) leases refs_on_member have "0 < leases_of (w_sh w') (ino_of (nr_id r))" by metis
    then have "ident (w_sh w') (ino_of (nr_id r)) \<noteq> None" by (auto simp: ident_def dest: counted_slot(3))
    with that(1) tab show ?thesis by (auto simp: ref_valid_def dest: id_step_stable)
  qed
  have "ref_valid (w_sh w') r" if r: "r \<in># w_refs w'" for r
  proof (cases "r \<in># w_refs w")
    case True
    with stable r v show ?thesis by blast
  next
    case False
    from assms(1) r False show ?thesis
      by cases (auto simp: ref_valid_def ident_def dest: in_diffD elim!: cx_get_cases dest!: forget_count_slot)
  qed
  with tab leases show ?thesis by (auto simp: world_inv_def)
qed

lemma world_inv_new: "world_inv (world_new root)"
  unfolding world_inv_def world_new_def
  by (simp add: table_inv_new, simp add: leases_of_def shared_new_def set_slot_def
      slot_at_def table_new_def fun_eq_iff)

text \<open>All the worlds an execution passes through.\<close>

inductive trun :: "'n world \<Rightarrow> 'n world list \<Rightarrow> 'n world \<Rightarrow> bool" where
  trun_nil: "trun w [] w"
| trun_step: "trun w ws w' \<Longrightarrow> tstep w' w'' \<Longrightarrow> trun w (ws @ [w'']) w''"

lemma world_inv_run: "trun w ws w' \<Longrightarrow> world_inv w \<Longrightarrow> world_inv w'"
  by (induction rule: trun.induct) (auto intro: world_inv_step)

section \<open>Reclaimed numbers and generations\<close>

text \<open>
  The history of an execution: every (inode, generation, record) that was ever in the table, and the
  number of steps so far. A generation is a 64-bit counter that wraps, so the guarantee that a pair
  names one node for good is stated for executions of fewer than \<open>2 ^ 64\<close> steps.
\<close>

definition idents :: "'n shared \<Rightarrow> (u64 \<times> u64 \<times> addr) set" where
  "idents sh = {(n, g, a). ident sh n = Some (g, a)}"

inductive treach :: "'n \<Rightarrow> nat \<Rightarrow> (u64 \<times> u64 \<times> addr) set \<Rightarrow> 'n world \<Rightarrow> bool" for root where
  treach_init: "treach root 0 (idents (w_sh (world_new root))) (world_new root)"
| treach_step: "treach root k H w \<Longrightarrow> tstep w w' \<Longrightarrow> treach root (Suc k) (H \<union> idents (w_sh w')) w'"

text \<open>
  What the history satisfies: generations below the bound \<open>k\<close>; an inode of the history is live or
  free; the live generation is the greatest so far and the free one is above all; the record is
  determined; and nothing was recorded at or above the next number.
\<close>

definition gen_bound :: "nat \<Rightarrow> 'n shared \<Rightarrow> bool" where
  "gen_bound k sh \<longleftrightarrow> (\<forall>n g a. ident sh n = Some (g, a) \<longrightarrow> unat g \<le> k) \<and>
     (\<forall>(n, g) \<in> set (t_free (sh_table sh)). unat g \<le> k)"

definition hist_live :: "(u64 \<times> u64 \<times> addr) set \<Rightarrow> 'n shared \<Rightarrow> bool" where
  "hist_live H sh \<longleftrightarrow> (\<forall>n g a g' a'. (n, g, a) \<in> H \<longrightarrow> ident sh n = Some (g', a') \<longrightarrow>
     unat g \<le> unat g' \<and> (g = g' \<longrightarrow> a = a'))"

definition hist_free :: "(u64 \<times> u64 \<times> addr) set \<Rightarrow> 'n shared \<Rightarrow> bool" where
  "hist_free H sh \<longleftrightarrow> (\<forall>n g a g'. (n, g, a) \<in> H \<longrightarrow> (n, g') \<in> set (t_free (sh_table sh)) \<longrightarrow> unat g < unat g')"

definition hist_unique :: "(u64 \<times> u64 \<times> addr) set \<Rightarrow> 'n shared \<Rightarrow> bool" where
  "hist_unique H sh \<longleftrightarrow> (\<forall>n g a. (n, g, a) \<in> H \<longrightarrow> n < t_next_ino (sh_table sh) \<and> a < length (sh_heap sh)) \<and>
     (\<forall>n g a b. (n, g, a) \<in> H \<longrightarrow> (n, g, b) \<in> H \<longrightarrow> a = b) \<and>
     (\<forall>n g m h a. (n, g, a) \<in> H \<longrightarrow> (m, h, a) \<in> H \<longrightarrow> n = m \<and> g = h)"

definition hist_inv :: "nat \<Rightarrow> (u64 \<times> u64 \<times> addr) set \<Rightarrow> 'n shared \<Rightarrow> bool" where
  "hist_inv k H sh \<longleftrightarrow> gen_bound k sh \<and> hist_live H sh \<and> hist_free H sh \<and> hist_unique H sh \<and> idents sh \<subseteq> H"

lemma hist_inv_keep:
  assumes "hist_inv k H sh" "ident sh' = ident sh" "t_free (sh_table sh') = t_free (sh_table sh)"
    "t_next_ino (sh_table sh') = t_next_ino (sh_table sh)" "length (sh_heap sh') = length (sh_heap sh)"
  shows "hist_inv (Suc k) (H \<union> idents sh') sh'"
proof -
  have "H \<union> idents sh' = H" using assms by (auto simp: hist_inv_def idents_def)
  moreover have "gen_bound (Suc k) sh'"
    using assms by (fastforce simp: hist_inv_def gen_bound_def intro: le_SucI)
  ultimately show ?thesis
    using assms by (simp add: hist_inv_def hist_live_def hist_free_def hist_unique_def idents_def)
qed

lemma hist_inv_reclaim:
  assumes inv: "hist_inv k H sh" and fr: "free_ok sh" and k: "Suc k < 2 ^ 64" and n: "ident sh n = Some (g, a)"
    and id': "ident sh' = (ident sh)(n := None)" and f: "t_free (sh_table sh') = t_free (sh_table sh) @ [(n, g + 1)]"
    and rest: "t_next_ino (sh_table sh') = t_next_ino (sh_table sh)" "length (sh_heap sh') = length (sh_heap sh)"
  shows "hist_inv (Suc k) (H \<union> idents sh') sh'"
proof -
  have sub: "idents sh' \<subseteq> H" "H \<union> idents sh' = H"
    using inv id' by (auto simp: hist_inv_def idents_def split: if_splits)
  have "unat g \<le> k" using inv n by (auto simp: hist_inv_def gen_bound_def)
  with k have g1: "unat (g + 1) = Suc (unat g)" by (simp add: unat_word_ariths)
  have "gen_bound (Suc k) sh'"
    using inv \<open>unat g \<le> k\<close> g1 by (fastforce simp: hist_inv_def gen_bound_def id' f split: if_splits intro: le_SucI)
  moreover have "hist_live H sh'"
    using inv by (simp add: hist_inv_def hist_live_def id')
  moreover have "hist_free H sh'"
    unfolding hist_free_def
  proof (intro allI impI)
    fix m h b h'
    assume m: "(m, h, b) \<in> H" and fm: "(m, h') \<in> set (t_free (sh_table sh'))"
    show "unat h < unat h'"
    proof (cases "(m, h') \<in> set (t_free (sh_table sh))")
      case True
      with inv m show ?thesis by (auto simp: hist_inv_def hist_free_def)
    next
      case False
      with fm f have "m = n" "h' = g + 1" by auto
      moreover from inv m n \<open>m = n\<close> have "unat h \<le> unat g" by (auto simp: hist_inv_def hist_live_def)
      ultimately show ?thesis using g1 by simp
    qed
  qed
  moreover have "hist_unique H sh'"
    using inv by (simp add: hist_inv_def hist_unique_def rest)
  ultimately show ?thesis using sub by (simp add: hist_inv_def)
qed

lemma hist_inv_alloc:
  assumes inv: "hist_inv k H sh" and id': "ident sh' = (ident sh)(n \<mapsto> (g, length (sh_heap sh)))"
    and n: "ident sh n = None" "n < t_next_ino (sh_table sh')" "\<And>h b. (n, h, b) \<in> H \<Longrightarrow> unat h < unat g"
    and g: "unat g \<le> Suc k"
    and f: "set (t_free (sh_table sh')) \<subseteq> set (t_free (sh_table sh))" "n \<notin> fst ` set (t_free (sh_table sh'))"
    and rest: "t_next_ino (sh_table sh) \<le> t_next_ino (sh_table sh')" "length (sh_heap sh') = Suc (length (sh_heap sh))"
  shows "hist_inv (Suc k) (H \<union> idents sh') sh'"
proof -
  have H': "H \<union> idents sh' = insert (n, g, length (sh_heap sh)) H"
  proof -
    have "idents sh' = insert (n, g, length (sh_heap sh)) (idents sh)"
      using n(1) by (auto simp: idents_def id' split: if_splits)
    with inv show ?thesis by (auto simp: hist_inv_def)
  qed
  have "gen_bound (Suc k) sh'"
    using inv g f(1) by (fastforce simp: hist_inv_def gen_bound_def id' split: if_splits intro: le_SucI)
  moreover have "hist_live (insert (n, g, length (sh_heap sh)) H) sh'"
    using inv n(1,3) by (fastforce simp: hist_inv_def hist_live_def id' split: if_splits)
  moreover have "hist_free (insert (n, g, length (sh_heap sh)) H) sh'"
    unfolding hist_free_def
  proof (intro allI impI)
    fix m h b h'
    assume m: "(m, h, b) \<in> insert (n, g, length (sh_heap sh)) H" and fm: "(m, h') \<in> set (t_free (sh_table sh'))"
    from fm f(2) have "m \<noteq> n" by force
    with m have "(m, h, b) \<in> H" by simp
    with fm f(1) inv show "unat h < unat h'" unfolding hist_inv_def hist_free_def by blast
  qed
  moreover have "hist_unique (insert (n, g, length (sh_heap sh)) H) sh'"
  proof -
    have old: "m < t_next_ino (sh_table sh') \<and> a < length (sh_heap sh)" if "(m, h, a) \<in> H" for m h a
    proof -
      from inv that have "m < t_next_ino (sh_table sh)" "a < length (sh_heap sh)"
        by (auto simp: hist_inv_def hist_unique_def)
      with order_less_le_trans [OF _ rest(1)] show ?thesis by blast
    qed
    moreover have "(n, g, b) \<notin> H" for b using n(3) by blast
    ultimately show ?thesis
      using inv n(2) rest(2) unfolding hist_inv_def hist_unique_def by (auto dest: old simp: less_SucI)
  qed
  moreover have "idents sh' \<subseteq> insert (n, g, length (sh_heap sh)) H" using H' by blast
  ultimately show ?thesis by (simp add: hist_inv_def H')
qed

lemma hist_inv_step:
  assumes "id_step sh sh'" "hist_inv k H sh" "table_inv sh" "Suc k < 2 ^ 64"
  shows "hist_inv (Suc k) (H \<union> idents sh') sh'"
  using assms(1)
proof cases
  case keep
  with assms(2) show ?thesis by (intro hist_inv_keep) auto
next
  case (reclaim n g a)
  with assms show ?thesis by (intro hist_inv_reclaim [of k H sh n g a]) (auto simp: table_inv_def)
next
  case (reuse n g)
  note fr = assms(3) [unfolded table_inv_def free_ok_def reuse(2)]
  have fn: "(n, g) \<in> set (t_free (sh_table sh))" by (simp add: reuse(2))
  then have g: "unat g \<le> Suc k" using assms(2) by (auto simp: hist_inv_def gen_bound_def)
  have lt: "unat h < unat g" if "(n, h, b) \<in> H" for h b
    using assms(2) that fn unfolding hist_inv_def hist_free_def by blast
  from fr have n: "n < t_next_ino (sh_table sh)" "n \<notin> fst ` set (t_free (sh_table sh'))" by auto
  with reuse assms(2) g lt show ?thesis by (intro hist_inv_alloc [of k H sh sh' n g]) auto
next
  case (extend n)
  have "(n, h, b) \<notin> H" for h b
    using assms(2) extend(4) by (auto simp: hist_inv_def hist_unique_def)
  moreover have "n < t_next_ino (sh_table sh')" using extend(5) by (rule checked_add_1_less)
  ultimately show ?thesis
    using extend assms(2) by (intro hist_inv_alloc [of k H sh sh' n 0]) (auto simp: less_imp_le)
qed

lemma treach_inv: "treach root k H w \<Longrightarrow> k < 2 ^ 64 \<Longrightarrow> world_inv w \<and> hist_inv k H (w_sh w)"
proof (induction rule: treach.induct)
  case treach_init
  have "ident (w_sh (world_new root)) = [1 \<mapsto> (0, 0)]"
    by (auto simp: ident_def world_new_def shared_new_def set_slot_def table_new_def slot_at_def fun_eq_iff)
  moreover have "sh_table (w_sh (world_new root)) = sh_table (shared_new root)"
    "t_free (sh_table (shared_new root)) = []" "t_next_ino (sh_table (shared_new root)) = 2"
    "length (sh_heap (w_sh (world_new root))) = 1"
    by (simp_all add: world_new_def shared_new_def set_slot_def table_new_def)
  ultimately show ?case
    by (auto simp: world_inv_new hist_inv_def gen_bound_def hist_live_def hist_free_def hist_unique_def idents_def
        split: if_splits)
next
  case (treach_step k H w w')
  then have IH: "world_inv w" "hist_inv k H (w_sh w)" by simp_all
  then have tab: "table_inv (w_sh w)" by (simp add: world_inv_def)
  with tstep_table [OF treach_step(2)] have "id_step (w_sh w) (w_sh w')" by blast
  from hist_inv_step [OF this IH(2) tab treach_step(4)] world_inv_step [OF treach_step(2) IH(1)]
  show ?case by blast
qed

text \<open>
  C7. A lease keeps its inode: for as long as a \<^verbatim>\<open>NodeRef\<close> is live, whatever any thread does,
  the inode it names stays in the table with the same record and generation, so the number is neither
  reclaimed nor handed out again, and \<^verbatim>\<open>Arc::ptr_eq\<close> in the lease's destructor holds.
\<close>

theorem lease_safety:
  assumes "trun (world_new root) ws w" and "tstep w w'"
    and "r \<in># w_refs w" and "r \<in># w_refs w'"
  shows "\<exists>s s'. slot_at (w_sh w) (ino_of (nr_id r)) = Some s \<and> s_record s = nr_record r \<and>
    slot_at (w_sh w') (ino_of (nr_id r)) = Some s' \<and> s_record s' = nr_record r \<and>
    s_generation s' = s_generation s"
proof -
  from world_inv_run [OF assms(1) world_inv_new] have w: "world_inv w" .
  from world_inv_step [OF assms(2) w] have w': "world_inv w'" .
  from w assms(3) obtain g where g: "ident (w_sh w) (ino_of (nr_id r)) = Some (g, nr_record r)"
    by (auto simp: world_inv_def ref_valid_def)
  from w' assms(4) obtain g' where g': "ident (w_sh w') (ino_of (nr_id r)) = Some (g', nr_record r)"
    by (auto simp: world_inv_def ref_valid_def)
  from tstep_table [OF assms(2)] w have "id_step (w_sh w) (w_sh w')" by (simp add: world_inv_def)
  from id_step_stable [OF this g] g' have "g' = g" by simp
  with g g' show ?thesis by (auto simp: ident_slot)
qed

text \<open>A lease on the root, taken and kept across the removal of its only link.\<close>

definition leased_root :: "unit world" where
  "leased_root = \<lparr>w_sh = snd (cx_get ROOT (shared_new ())), w_refs = {#\<lparr>nr_id = ROOT, nr_record = 0\<rparr>#}\<rparr>"

lemma cx_get_root: "cx_get ROOT (shared_new root) = (Ok (Some \<lparr>nr_id = ROOT, nr_record = 0\<rparr>), snd (cx_get ROOT (shared_new root)))"
  by (simp add: cx_get_def shared_new_def slot_at_def set_slot_def table_new_def ROOT_def checked_add_def)

lemma leased_root_step: "tstep (world_new ()) leased_root"
  using tstep.get [OF cx_get_root [of "()"], of "{#}"] by (simp add: world_new_def leased_root_def)

theorem lease_safety_witness:
  "\<exists>s'. slot_at (cx_remove_link ROOT (snd (cx_get ROOT (shared_new ())))) 1 = Some s' \<and> s_record s' = 0"
proof -
  have run: "trun (world_new ()) [leased_root] leased_root"
    using trun_step [OF trun_nil leased_root_step] by simp
  let ?w = "\<lparr>w_sh = cx_remove_link ROOT (snd (cx_get ROOT (shared_new ()))), w_refs = {#\<lparr>nr_id = ROOT, nr_record = 0\<rparr>#}\<rparr>"
  have "tstep leased_root ?w"
    unfolding leased_root_def by (rule tstep.remove_link)
  from lease_safety [OF run this, of "\<lparr>nr_id = ROOT, nr_record = 0\<rparr>"] show ?thesis
    by (auto simp: leased_root_def ROOT_def)
qed

text \<open>
  C8. An inode number and a generation name one node for good: in every execution of fewer than
  \<open>2 ^ 64\<close> critical sections, whatever the interleaving, two nodes that were ever in the table
  under the same pair are the same node, and one node has one pair.
\<close>

theorem generation_unique:
  assumes "treach root k H w" and "k < 2 ^ 64"
    and "(n, g, a) \<in> H" and "(m, h, b) \<in> H"
  shows "(n, g) = (m, h) \<longleftrightarrow> a = b"
  using treach_inv [OF assms(1,2)] assms(3,4) unfolding hist_inv_def hist_unique_def by blast

text \<open>A number used twice: a node is created, removed and reclaimed, and another one takes its number.\<close>

definition reuse1 :: "unit shared" where
  "reuse1 = snd (cx_insert () ROOT (shared_new ()))"

definition reuse2 :: "unit shared" where
  "reuse2 = cx_remove_link (NodeId 2) reuse1"

definition reuse3 :: "unit shared" where
  "reuse3 = snd (cx_insert () ROOT reuse2)"

lemma tstep_insert_snd:
  "tstep \<lparr>w_sh = sh, w_refs = R\<rparr> \<lparr>w_sh = snd (cx_insert p parent sh), w_refs = R\<rparr>"
  by (rule tstep.insert_node [of p parent sh "fst (cx_insert p parent sh)"]) simp

lemmas table_eval = shared_new_def table_new_def set_slot_def with_table_def slot_at_def alloc_def
  maybe_drop_def droppable_def checked_add_def saturating_sub_def ROOT_def from_ino_def bt_remove_def
  cx_insert_def cx_remove_link_def cx_get_def

lemma reuse_ident: "ident reuse1 2 = Some (0, 1)" "ident reuse3 2 = Some (1, 2)"
  by (simp_all add: ident_def reuse1_def reuse2_def reuse3_def table_eval)

lemma reuse_idents: "(2, 0, 1) \<in> idents reuse1" "(2, 1, 2) \<in> idents reuse3"
  by (simp_all add: idents_def reuse_ident)

lemma reuse_run: "\<exists>H w. treach () 3 H w \<and> (2, 0, 1) \<in> H \<and> (2, 1, 2) \<in> H"
proof -
  let ?w = "\<lambda>sh. \<lparr>w_sh = sh, w_refs = {#}\<rparr>"
  have steps: "tstep (world_new ()) (?w reuse1)" "tstep (?w reuse1) (?w reuse2)" "tstep (?w reuse2) (?w reuse3)"
    unfolding world_new_def reuse1_def reuse2_def reuse3_def
    by (rule tstep_insert_snd tstep.remove_link)+
  from treach_step [OF treach_step [OF treach_step [OF treach_init steps(1)] steps(2)] steps(3)]
  have "treach () 3 (idents (w_sh (world_new ())) \<union> idents reuse1 \<union> idents reuse2 \<union> idents reuse3) (?w reuse3)"
    by (simp add: numeral_3_eq_3)
  with reuse_idents show ?thesis by blast
qed

theorem generation_unique_witness:
  "\<exists>H w. treach () 3 H w \<and> (2, 0, 1) \<in> H \<and> (2, 1, 2) \<in> H \<and>
     ((2::u64, 0::u64) = (2, 1) \<longleftrightarrow> (1::addr) = 2)"
proof -
  from reuse_run obtain H w where H: "treach () 3 H w" "(2, 0, 1) \<in> H" "(2, 1, 2) \<in> H" by blast
  from generation_unique [OF H(1) _ H(2,3)] have "(2::u64, 0::u64) = (2, 1) \<longleftrightarrow> (1::addr) = 2" by simp
  with H show ?thesis by blast
qed

text \<open>
  C9. The table invariant and the lease accounting hold in every interleaving: inode numbers on the
  free list are distinct and not in use, no slot that could be dropped stays, and the lease count of
  every inode is the number of live leases on it.
\<close>

theorem table_always_consistent:
  assumes "trun (world_new root) ws w"
  shows "table_inv (w_sh w) \<and> (\<forall>n. leases_of (w_sh w) n = refs_on (w_refs w) n)"
  using world_inv_run [OF assms world_inv_new] by (simp add: world_inv_def)

theorem table_always_consistent_witness:
  "table_inv (w_sh leased_root) \<and> leases_of (w_sh leased_root) 1 = 1"
  using table_always_consistent [of "()" "[leased_root]" leased_root] trun_step [OF trun_nil leased_root_step]
  by (simp add: leased_root_def ROOT_def)

end
