(* ===== verification/Table_Effects.thy ===== *)
theory Table_Effects
  imports Node_Table_Steps
begin

text \<open>
  A calculus for sequences of critical sections made by one request. An operation has the effect
  \<open>eff dl dop\<close> when it keeps the table invariant, transforms the lookup counts by \<open>dl\<close> and the open
  counts by \<open>dop\<close>, leaves the lease counts alone, and keeps every lease valid. Effects compose, and
  bracketing an operation by taking and dropping a lease does not change its effect.
\<close>

definition lease_ok :: "'n shared \<Rightarrow> node_ref \<Rightarrow> bool" where
  "lease_ok sh r \<longleftrightarrow> (\<exists>s. slot_at sh (ino_of (nr_id r)) = Some s \<and> s_record s = nr_record r \<and> s_leases s \<noteq> 0)"

definition eff :: "((u64 \<Rightarrow> nat) \<Rightarrow> u64 \<Rightarrow> nat) \<Rightarrow> ((u64 \<Rightarrow> nat) \<Rightarrow> u64 \<Rightarrow> nat) \<Rightarrow> 'n shared \<Rightarrow> 'n shared \<Rightarrow> bool" where
  "eff dl dop sh sh' \<longleftrightarrow> table_inv sh' \<and> lookups_of sh' = dl (lookups_of sh) \<and> opens_of sh' = dop (opens_of sh) \<and>
     leases_of sh' = leases_of sh \<and> (\<forall>r. lease_ok sh r \<longrightarrow> lease_ok sh' r)"

definition bump :: "u64 \<Rightarrow> (u64 \<Rightarrow> nat) \<Rightarrow> u64 \<Rightarrow> nat" where
  "bump n f = f(n := Suc (f n))"

definition lower :: "u64 \<Rightarrow> nat \<Rightarrow> (u64 \<Rightarrow> nat) \<Rightarrow> u64 \<Rightarrow> nat" where
  "lower n k f = f(n := f n - k)"

lemma eff_refl: "table_inv sh \<Longrightarrow> eff id id sh sh"
  by (simp add: eff_def)

lemma eff_trans: "eff dl dop sh sh' \<Longrightarrow> eff dl' dop' sh' sh'' \<Longrightarrow> eff (dl' \<circ> dl) (dop' \<circ> dop) sh sh''"
  by (simp add: eff_def)

lemma eff_id_trans: "eff id id sh sh' \<Longrightarrow> eff dl dop sh' sh'' \<Longrightarrow> eff dl dop sh sh''"
  "eff dl dop sh sh' \<Longrightarrow> eff id id sh' sh'' \<Longrightarrow> eff dl dop sh sh''"
  by (simp_all add: eff_def)

lemma effD:
  assumes "eff dl dop sh sh'"
  shows "table_inv sh'" "lookups_of sh' = dl (lookups_of sh)" "opens_of sh' = dop (opens_of sh)"
    "leases_of sh' = leases_of sh" "lease_ok sh r \<Longrightarrow> lease_ok sh' r"
  using assms by (simp_all add: eff_def)

text \<open>A lease stays valid as long as the step is one on identities that keeps the lease count.\<close>

lemma lease_ok_alt: "lease_ok sh r \<longleftrightarrow> ref_valid sh r \<and> 0 < leases_of sh (ino_of (nr_id r))"
  by (auto simp: lease_ok_def ref_valid_def ident_slot leases_of_def unat_gt_0 split: option.splits)

lemma lease_ok_id_step:
  assumes "id_step sh sh'" "lease_ok sh r" "0 < leases_of sh' (ino_of (nr_id r))"
  shows "lease_ok sh' r"
proof -
  have "ident sh' (ino_of (nr_id r)) \<noteq> None" using counted_slot(3) [OF assms(3)] by (simp add: ident_def)
  with assms show ?thesis by (auto simp: lease_ok_alt ref_valid_def dest: id_step_stable)
qed

lemma effI:
  assumes "table_inv sh'" "id_step sh sh'" "lookups_of sh' = dl (lookups_of sh)" "opens_of sh' = dop (opens_of sh)"
    "leases_of sh' = leases_of sh"
  shows "eff dl dop sh sh'"
  using assms by (auto simp: eff_def lease_ok_alt dest: lease_ok_id_step)

section \<open>Effects of the critical sections\<close>

lemma eff_pins:
  assumes "tstep \<lparr>w_sh = sh, w_refs = R\<rparr> \<lparr>w_sh = sh', w_refs = R'\<rparr>" "table_inv sh" "pins sh' = pins sh"
  shows "eff id id sh sh'"
  using tstep_table [OF assms(1)] assms(2) by (intro effI) (simp_all add: counts_pins_eq [OF assms(3)])

lemma eff_cx_insert: "table_inv sh \<Longrightarrow> cx_insert p parent sh = (r, sh') \<Longrightarrow> eff id id sh sh'"
  by (rule eff_pins [OF tstep.insert_node]) (auto dest: pins_cx_insert)

lemma eff_cx_reparent: "table_inv sh \<Longrightarrow> eff id id sh (cx_reparent nid np sh)"
  by (rule eff_pins [OF tstep.reparent]) auto

lemma eff_cx_add_link: "table_inv sh \<Longrightarrow> cx_add_link nid sh = (r, sh') \<Longrightarrow> eff id id sh sh'"
  by (rule eff_pins [OF tstep.add_link]) (auto dest: pins_cx_add_link)

lemma eff_cx_remove_link: "table_inv sh \<Longrightarrow> eff id id sh (cx_remove_link nid sh)"
  by (rule eff_pins [OF tstep.remove_link]) auto

lemma eff_set_payload: "table_inv sh \<Longrightarrow> eff id id sh (set_payload a p sh)"
  by (rule eff_pins [OF tstep.update]) auto

lemma eff_maybe_drop: "table_inv sh \<Longrightarrow> eff id id sh (with_table (maybe_drop nid) sh)"
  by (simp add: maybe_drop_noop eff_refl)

lemma eff_retain_lookup:
  assumes "table_inv sh" "retain_lookup nid sh = (r, sh')"
  shows "eff (if r = Ok () then bump (ino_of nid) else id) id sh sh'"
  using tstep_table [OF tstep.retain [OF assms(2)]] assms(1) retain_lookup_counts [OF assms(2)]
  by (intro effI) (auto simp: bump_def fun_eq_iff)

lemma eff_add_open:
  assumes "table_inv sh" "add_open n sh = (r, sh')"
  shows "eff id (if r = Ok () then bump n else id) sh sh'"
  using tstep_table [OF tstep.open_node [OF assms(2)]] assms(1) add_open_counts [OF assms(2)]
  by (intro effI) (auto simp: bump_def fun_eq_iff)

lemma eff_remove_open: "table_inv sh \<Longrightarrow> eff id (lower n 1) sh (remove_open n sh)"
  using tstep_table [OF tstep.close_node] by (intro effI) (auto simp: lower_def)

section \<open>Leases as brackets\<close>

text \<open>
  \<open>leased nid sh nr sh'\<close>: a lease has just been taken. The bracket rule: whatever happens under the
  lease, dropping it leaves the effect of what happened.
\<close>

lemma lease_taken:
  assumes inv: "table_inv sh" and get: "cx_get nid sh = (Ok (Some nr), sh1)"
  shows "table_inv sh1" "lease_ok sh1 nr" "nr_id nr = nid"
    and "lease_ok sh r \<Longrightarrow> lease_ok sh1 r" and "lookups_of sh1 = lookups_of sh" "opens_of sh1 = opens_of sh"
    and "leases_of sh1 = bump (ino_of nid) (leases_of sh)"
proof -
  note c = cx_get_counts [OF get]
  note t = tstep_table [OF tstep.get [OF get]]
  show "table_inv sh1" using t inv by simp
  show "leases_of sh1 = bump (ino_of nid) (leases_of sh)" "lookups_of sh1 = lookups_of sh" "opens_of sh1 = opens_of sh"
    "nr_id nr = nid" using c by (simp_all add: bump_def)
  have "id_step sh sh1" using t inv by simp
  then show "lease_ok sh1 r" if "lease_ok sh r"
    using that lease_ok_id_step [of sh sh1 r] c(1) by (simp add: lease_ok_alt)
  show "lease_ok sh1 nr"
    using cx_get_Some_slot [OF get] c by (auto simp: lease_ok_alt ref_valid_def ident_slot)
qed

lemma eff_bracket_from:
  assumes l1: "leases_of sh1 = bump (ino_of (nr_id nr)) (leases_of sh)" and ok: "\<And>r. lease_ok sh r \<Longrightarrow> lease_ok sh1 r"
    and nr: "lease_ok sh1 nr" and body: "eff dl dop sh1 sh2"
  shows "eff (\<lambda>_. dl (lookups_of sh1)) (\<lambda>_. dop (opens_of sh1)) sh (node_ref_drop nr sh2)"
proof -
  have nr2: "lease_ok sh2 nr" and inv2: "table_inv sh2" using body nr by (auto simp: eff_def)
  then obtain s where s: "slot_at sh2 (ino_of (nr_id nr)) = Some s" "s_record s = nr_record nr"
    by (auto simp: lease_ok_def)
  note d = node_ref_drop_counts [OF s]
  have leases: "leases_of (node_ref_drop nr sh2) = leases_of sh"
    using d(1) effD(4) [OF body] l1 by (simp add: bump_def)
  have "lease_ok (node_ref_drop nr sh2) r" if "lease_ok sh r" for r
    using lease_ok_id_step [OF id_step_node_ref_drop [OF inv2]] ok [OF that] body that leases
    by (auto simp: eff_def lease_ok_alt)
  with leases d body show ?thesis
    by (simp add: eff_def table_inv_node_ref_drop)
qed

lemma eff_bracket:
  assumes "table_inv sh" "cx_get nid sh = (Ok (Some nr), sh1)" "eff dl dop sh1 sh2"
  shows "eff dl dop sh (node_ref_drop nr sh2)"
proof -
  note t = lease_taken [OF assms(1,2)]
  from eff_bracket_from [of sh1 nr sh dl dop sh2] t assms(3)
  have "eff (\<lambda>_. dl (lookups_of sh1)) (\<lambda>_. dop (opens_of sh1)) sh (node_ref_drop nr sh2)" by simp
  with t show ?thesis by (simp add: eff_def)
qed

text \<open>The notification of \<^verbatim>\<open>forget\<close> runs under a lease taken when the count reached zero.\<close>

lemma eff_forget_bracket:
  assumes inv: "table_inv sh" and f: "forget_count n k sh = (Ok (Some (Some nr)), sh1)" and body: "eff id id sh1 sh2"
  shows "eff (lower n (unat k)) id sh (node_ref_drop nr sh2)"
proof -
  note c = forget_count_counts [OF f]
  note t = tstep_table [OF tstep.forget_first [OF f]]
  from forget_count_slot [OF f] have id: "nr_id nr = from_ino n" by auto
  have l1: "leases_of sh1 = bump (ino_of (nr_id nr)) (leases_of sh)" using c by (simp add: id bump_def)
  have "id_step sh sh1" using t inv by simp
  then have ok: "lease_ok sh1 r" if "lease_ok sh r" for r
    using that lease_ok_id_step [of sh sh1 r] c(1) by (simp add: lease_ok_alt)
  have nr: "lease_ok sh1 nr"
    using forget_count_slot [OF f] by (auto simp: lease_ok_def)
  from eff_bracket_from [OF l1 ok nr body] c show ?thesis by (simp add: eff_def lower_def)
qed

lemma eff_forget_none:
  assumes inv: "table_inv sh" and f: "forget_count n k sh = (r, sh1)" and r: "r = Ok None \<or> r = Ok (Some None) \<or> r = Panic"
  shows "eff (lower n (unat k)) id sh sh1"
proof -
  have "got_forgotten r = {#}" using r by auto
  with forget_count_counts [OF f] tstep_table [OF tstep.forget_first [OF f]] inv show ?thesis
    by (intro effI) (auto simp: lower_def)
qed

section \<open>Lists of accepted entries\<close>

definition add_ids :: "node_id list \<Rightarrow> (u64 \<Rightarrow> nat) \<Rightarrow> u64 \<Rightarrow> nat" where
  "add_ids ids f n = f n + count_list (map ino_of ids) n"

definition drop_ids :: "node_id list \<Rightarrow> (u64 \<Rightarrow> nat) \<Rightarrow> u64 \<Rightarrow> nat" where
  "drop_ids ids f n = f n - count_list (map ino_of ids) n"

lemma add_ids_Nil [simp]: "add_ids [] = id"
  by (simp add: add_ids_def fun_eq_iff)

lemma add_ids_append: "add_ids (ids @ ids') = add_ids ids' \<circ> add_ids ids"
  by (simp add: add_ids_def fun_eq_iff)

lemma add_ids_single: "add_ids [nid] = bump (ino_of nid)"
  by (simp add: add_ids_def bump_def fun_eq_iff)

lemma drop_add_ids [simp]: "drop_ids ids (add_ids ids f) = f"
  by (simp add: drop_ids_def add_ids_def fun_eq_iff)

lemma drop_ids_Nil [simp]: "drop_ids [] = id"
  by (simp add: drop_ids_def fun_eq_iff)

lemma drop_ids_Cons: "drop_ids (nid # ids) = drop_ids ids \<circ> lower (ino_of nid) 1"
  by (auto simp: drop_ids_def lower_def fun_eq_iff)

end
