(* ===== verification/Handle_Table.thy ===== *)
theory Handle_Table
  imports Fuse_Types
begin

text \<open>
  Open handles (\<^verbatim>\<open>runtime.rs\<close>): the record of an open file or directory, its leases, and the
  table that numbers them. The critical sections of a record are functions on its state; the second
  half runs them as a state machine in which other threads hold leases while one thread closes the
  record, with the condition variable written out.
\<close>

section \<open>Records\<close>

record handle_state =
  hs_active :: u32
  hs_closing :: bool
  hs_taken :: bool

record 'h handle_record =
  hr_node :: node_id
  hr_payload :: 'h
  hr_state :: handle_state

definition handle_record_new :: "node_id \<Rightarrow> 'h \<Rightarrow> 'h handle_record" where
  "handle_record_new nid p = \<lparr>hr_node = nid, hr_payload = p,
     hr_state = \<lparr>hs_active = 0, hs_closing = False, hs_taken = False\<rparr>\<rparr>"

text \<open>\<^verbatim>\<open>acquire\<close>: \<open>Ok None\<close> once the record is closing, a panic on overflow.\<close>

definition acquire :: "handle_state \<Rightarrow> unit option result \<times> handle_state" where
  "acquire s = (if hs_closing s then (Ok None, s)
     else (case checked_add (hs_active s) 1 of
             None \<Rightarrow> (Panic, s)
           | Some n \<Rightarrow> (Ok (Some ()), s\<lparr>hs_active := n\<rparr>)))"

text \<open>\<^verbatim>\<open>Drop for HandleLease\<close>: the state, and whether the waiters are notified.\<close>

definition lease_drop :: "handle_state \<Rightarrow> bool \<times> handle_state" where
  "lease_drop s = (let n = saturating_sub (hs_active s) 1
     in (n = 0 \<and> hs_closing s, s\<lparr>hs_active := n\<rparr>))"

text \<open>
  \<^verbatim>\<open>close_and_take\<close>, in its two parts: raise \<open>closing\<close>, then test the loop condition. The test
  either marks the payload as taken or waits.
\<close>

definition begin_close :: "handle_state \<Rightarrow> handle_state" where
  "begin_close s = s\<lparr>hs_closing := True\<rparr>"

definition try_take :: "handle_state \<Rightarrow> handle_state option" where
  "try_take s = (if hs_active s \<noteq> 0 then None else Some (s\<lparr>hs_taken := True\<rparr>))"

text \<open>With no other thread, waiting for a lease to be dropped never ends.\<close>

definition close_and_take :: "'h handle_record \<Rightarrow> 'h result \<times> 'h handle_record" where
  "close_and_take r = (case try_take (begin_close (hr_state r)) of
     None \<Rightarrow> (Blocks, r\<lparr>hr_state := begin_close (hr_state r)\<rparr>)
   | Some s \<Rightarrow> (Ok (hr_payload r), r\<lparr>hr_state := s\<rparr>))"

section \<open>The table\<close>

record ('h, 'd) handle_table =
  ht_files :: "(u64, 'h handle_record) btree"
  ht_dirs :: "(u64, 'd handle_record) btree"
  ht_next_fh :: u64

definition handle_table_new :: "('h, 'd) handle_table" where
  "handle_table_new = \<lparr>ht_files = [], ht_dirs = [], ht_next_fh = 1\<rparr>"

definition next_handle :: "('h, 'd) handle_table \<Rightarrow> u64 result \<times> ('h, 'd) handle_table" where
  "next_handle t = (case checked_add (ht_next_fh t) 1 of
     None \<Rightarrow> (Panic, t)
   | Some n \<Rightarrow> (Ok (ht_next_fh t), t\<lparr>ht_next_fh := n\<rparr>))"

definition add_file :: "node_id \<Rightarrow> 'h \<Rightarrow> ('h, 'd) handle_table \<Rightarrow> u64 result \<times> ('h, 'd) handle_table" where
  "add_file nid h = bnd next_handle (\<lambda>fh t.
     (Ok fh, t\<lparr>ht_files := bt_insert fh (handle_record_new nid h) (ht_files t)\<rparr>))"

definition add_dir :: "node_id \<Rightarrow> 'd \<Rightarrow> ('h, 'd) handle_table \<Rightarrow> u64 result \<times> ('h, 'd) handle_table" where
  "add_dir nid d = bnd next_handle (\<lambda>fh t.
     (Ok fh, t\<lparr>ht_dirs := bt_insert fh (handle_record_new nid d) (ht_dirs t)\<rparr>))"

subsection \<open>Invariant\<close>

text \<open>
  Handle numbers are below \<open>ht_next_fh\<close>, so a new one is fresh, and no number names both a file
  and a directory. Between requests no record of the table is leased or closing.
\<close>

definition quiescent :: "handle_state \<Rightarrow> bool" where
  "quiescent s \<longleftrightarrow> hs_active s = 0 \<and> \<not> hs_closing s \<and> \<not> hs_taken s"

definition records_inv :: "u64 \<Rightarrow> (u64, 'h handle_record) btree \<Rightarrow> bool" where
  "records_inv next_fh m \<longleftrightarrow> bt_sorted m \<and>
     (\<forall>fh r. bt_get m fh = Some r \<longrightarrow> 0 < fh \<and> fh < next_fh \<and> quiescent (hr_state r))"

definition handles_inv :: "('h, 'd) handle_table \<Rightarrow> bool" where
  "handles_inv t \<longleftrightarrow> 0 < ht_next_fh t \<and> records_inv (ht_next_fh t) (ht_files t) \<and>
     records_inv (ht_next_fh t) (ht_dirs t) \<and>
     (\<forall>fh. bt_get (ht_files t) fh = None \<or> bt_get (ht_dirs t) fh = None)"

text \<open>How many handles are open on an inode.\<close>

definition opens_on :: "(u64, 'h handle_record) btree \<Rightarrow> u64 \<Rightarrow> nat" where
  "opens_on m n = length (filter (\<lambda>p. ino_of (hr_node (snd p)) = n) m)"

definition handle_count :: "('h, 'd) handle_table \<Rightarrow> u64 \<Rightarrow> nat" where
  "handle_count t n = opens_on (ht_files t) n + opens_on (ht_dirs t) n"

lemma handles_inv_new: "handles_inv handle_table_new"
  by (simp add: handles_inv_def records_inv_def handle_table_new_def)

lemma set_bt_insert: "bt_sorted m \<Longrightarrow> set (bt_insert k v m) = insert (k, v) {p \<in> set m. fst p \<noteq> k}"
  by (induction k v m rule: bt_insert.induct) (auto simp: bt_sorted_def)

lemma opens_on_insert_new:
  assumes "bt_get m k = None"
  shows "opens_on (bt_insert k r m) = (opens_on m)(ino_of (hr_node r) := Suc (opens_on m (ino_of (hr_node r))))"
  using assms by (induction k r m rule: bt_insert.induct) (auto simp: opens_on_def fun_eq_iff split: if_splits)

lemma opens_on_insert_same:
  assumes "bt_sorted m" "bt_get m k = Some r" "hr_node r' = hr_node r"
  shows "opens_on (bt_insert k r' m) = opens_on m"
  using assms
  by (induction k r' m rule: bt_insert.induct)
    (auto simp: opens_on_def fun_eq_iff bt_sorted_def split: if_splits dest!: bt_get_SomeD)

lemma opens_on_remove:
  assumes "bt_sorted m" "bt_get m k = Some r"
  shows "opens_on (bt_remove k m) = (opens_on m)(ino_of (hr_node r) := opens_on m (ino_of (hr_node r)) - 1)"
  using assms
proof (induction m)
  case (Cons p m)
  show ?case
  proof (cases "fst p = k")
    case True
    with Cons.prems have "k \<notin> fst ` set m" by (auto simp: bt_sorted_def)
    with True Cons.prems have "bt_remove k (p # m) = m" "r = snd p"
      using bt_remove_absent [of m k] by (auto simp: bt_remove_def bt_get_None_iff)
    then show ?thesis by (auto simp: opens_on_def fun_eq_iff)
  next
    case False
    with Cons have IH: "opens_on (bt_remove k m) = (opens_on m)(ino_of (hr_node r) := opens_on m (ino_of (hr_node r)) - 1)"
      and mem: "(k, r) \<in> set m" by (auto simp: bt_sorted_def dest: bt_get_SomeD)
    then have "0 < opens_on m (ino_of (hr_node r))"
      by (auto simp: opens_on_def filter_empty_conv intro!: bexI [of _ "(k, r)"])
    moreover have "opens_on (bt_remove k (p # m)) n = opens_on (bt_remove k m) n + (if ino_of (hr_node (snd p)) = n then 1 else 0)"
      "opens_on (p # m) n = opens_on m n + (if ino_of (hr_node (snd p)) = n then 1 else 0)" for n
      using False by (auto simp: opens_on_def bt_remove_def)
    ultimately show ?thesis using IH by (auto simp: fun_eq_iff)
  qed
qed simp

lemma opens_on_pos: "bt_get m k = Some r \<Longrightarrow> 0 < opens_on m (ino_of (hr_node r))"
  by (auto simp: opens_on_def filter_empty_conv dest!: bt_get_SomeD intro!: bexI [of _ "(k, r)"])

lemma handles_inv_fresh:
  assumes "handles_inv t" shows "bt_get (ht_files t) (ht_next_fh t) = None" "bt_get (ht_dirs t) (ht_next_fh t) = None"
  using assms unfolding handles_inv_def records_inv_def by (metis less_irrefl not_None_eq)+

lemma next_handle_cases:
  assumes "next_handle t = (r, t')"
  obtains (full) "r = Panic" "t' = t" | (got) n where "r = Ok (ht_next_fh t)" "checked_add (ht_next_fh t) 1 = Some n"
    "t' = t\<lparr>ht_next_fh := n\<rparr>"
  using assms by (auto simp: next_handle_def split: option.splits)

lemma add_file_cases:
  assumes "add_file nid h t = (r, t')"
  obtains (full) "r = Panic" "t' = t" | (added) n where "r = Ok (ht_next_fh t)" "checked_add (ht_next_fh t) 1 = Some n"
    "t' = t\<lparr>ht_next_fh := n, ht_files := bt_insert (ht_next_fh t) (handle_record_new nid h) (ht_files t)\<rparr>"
  using assms unfolding add_file_def by (auto elim!: bnd_cases next_handle_cases)

lemma add_dir_cases:
  assumes "add_dir nid h t = (r, t')"
  obtains (full) "r = Panic" "t' = t" | (added) n where "r = Ok (ht_next_fh t)" "checked_add (ht_next_fh t) 1 = Some n"
    "t' = t\<lparr>ht_next_fh := n, ht_dirs := bt_insert (ht_next_fh t) (handle_record_new nid h) (ht_dirs t)\<rparr>"
  using assms unfolding add_dir_def by (auto elim!: bnd_cases next_handle_cases)

lemma quiescent_new [simp]: "quiescent (hr_state (handle_record_new nid h))"
  by (simp add: quiescent_def handle_record_new_def)

lemma hr_node_new [simp]: "hr_node (handle_record_new nid h) = nid"
  by (simp add: handle_record_new_def)

lemma records_inv_mono: "records_inv k m \<Longrightarrow> k < k' \<Longrightarrow> records_inv k' m"
  unfolding records_inv_def by (meson less_trans)

lemma records_inv_insert:
  "records_inv k m \<Longrightarrow> 0 < fh \<Longrightarrow> fh < k \<Longrightarrow> quiescent (hr_state r) \<Longrightarrow> records_inv k (bt_insert fh r m)"
  unfolding records_inv_def by (simp add: bt_sorted_insert)

lemma records_inv_remove: "records_inv k m \<Longrightarrow> records_inv k (bt_remove fh m)"
  unfolding records_inv_def by (simp add: bt_sorted_remove)

lemma handles_inv_add:
  assumes inv: "handles_inv t" and n: "checked_add (ht_next_fh t) 1 = Some n"
  shows "handles_inv (t\<lparr>ht_next_fh := n, ht_files := bt_insert (ht_next_fh t) (handle_record_new nid h) (ht_files t)\<rparr>)"
    and "handles_inv (t\<lparr>ht_next_fh := n, ht_dirs := bt_insert (ht_next_fh t) (handle_record_new nid d) (ht_dirs t)\<rparr>)"
proof -
  note parts = inv [unfolded handles_inv_def]
  note fresh = handles_inv_fresh [OF inv]
  have lt: "ht_next_fh t < n" using n by (rule checked_add_1_less)
  have pos: "0 < ht_next_fh t" using parts by blast
  have n0: "0 < n" using pos lt by (rule less_trans)
  have old: "records_inv n (ht_files t)" "records_inv n (ht_dirs t)"
    using parts lt records_inv_mono by blast+
  show "handles_inv (t\<lparr>ht_next_fh := n, ht_files := bt_insert (ht_next_fh t) (handle_record_new nid h) (ht_files t)\<rparr>)"
    unfolding handles_inv_def using parts fresh old n0 records_inv_insert [OF old(1) pos lt quiescent_new]
    by simp
  show "handles_inv (t\<lparr>ht_next_fh := n, ht_dirs := bt_insert (ht_next_fh t) (handle_record_new nid d) (ht_dirs t)\<rparr>)"
    unfolding handles_inv_def using parts fresh old n0 records_inv_insert [OF old(2) pos lt quiescent_new]
    by simp
qed

lemma handles_inv_add_file: "handles_inv t \<Longrightarrow> add_file nid h t = (r, t') \<Longrightarrow> handles_inv t'"
  by (erule add_file_cases) (simp_all add: handles_inv_add)

lemma handles_inv_add_dir: "handles_inv t \<Longrightarrow> add_dir nid h t = (r, t') \<Longrightarrow> handles_inv t'"
  by (erule add_dir_cases) (simp_all add: handles_inv_add)

lemma handle_count_add_file:
  "handles_inv t \<Longrightarrow> add_file nid h t = (Ok fh, t') \<Longrightarrow>
     handle_count t' = (handle_count t)(ino_of nid := Suc (handle_count t (ino_of nid)))"
  by (erule add_file_cases) (auto simp: handle_count_def fun_eq_iff opens_on_insert_new handles_inv_fresh)

lemma handle_count_add_dir:
  "handles_inv t \<Longrightarrow> add_dir nid h t = (Ok fh, t') \<Longrightarrow>
     handle_count t' = (handle_count t)(ino_of nid := Suc (handle_count t (ino_of nid)))"
  by (erule add_dir_cases) (auto simp: handle_count_def fun_eq_iff opens_on_insert_new handles_inv_fresh)

lemma handles_inv_remove:
  assumes "handles_inv t"
  shows "handles_inv (t\<lparr>ht_files := bt_remove fh (ht_files t)\<rparr>)" "handles_inv (t\<lparr>ht_dirs := bt_remove fh (ht_dirs t)\<rparr>)"
  using assms by (auto simp: handles_inv_def records_inv_remove)

lemma handle_count_remove:
  assumes "handles_inv t"
  shows "bt_get (ht_files t) fh = Some r \<Longrightarrow> handle_count (t\<lparr>ht_files := bt_remove fh (ht_files t)\<rparr>)
      = (handle_count t)(ino_of (hr_node r) := handle_count t (ino_of (hr_node r)) - 1)"
    and "bt_get (ht_dirs t) fh = Some r' \<Longrightarrow> handle_count (t\<lparr>ht_dirs := bt_remove fh (ht_dirs t)\<rparr>)
      = (handle_count t)(ino_of (hr_node r') := handle_count t (ino_of (hr_node r')) - 1)"
proof -
  have s: "bt_sorted (ht_files t)" "bt_sorted (ht_dirs t)" using assms by (simp_all add: handles_inv_def records_inv_def)
  show "handle_count (t\<lparr>ht_files := bt_remove fh (ht_files t)\<rparr>)
      = (handle_count t)(ino_of (hr_node r) := handle_count t (ino_of (hr_node r)) - 1)"
    if "bt_get (ht_files t) fh = Some r"
    using opens_on_remove [OF s(1) that] opens_on_pos [OF that] by (auto simp: handle_count_def fun_eq_iff)
  show "handle_count (t\<lparr>ht_dirs := bt_remove fh (ht_dirs t)\<rparr>)
      = (handle_count t)(ino_of (hr_node r') := handle_count t (ino_of (hr_node r')) - 1)"
    if "bt_get (ht_dirs t) fh = Some r'"
    using opens_on_remove [OF s(2) that] opens_on_pos [OF that] by (auto simp: handle_count_def fun_eq_iff)
qed

lemma handles_inv_quiescent:
  "handles_inv t \<Longrightarrow> bt_get (ht_files t) fh = Some r \<Longrightarrow> quiescent (hr_state r)"
  "handles_inv t \<Longrightarrow> bt_get (ht_dirs t) fh = Some r' \<Longrightarrow> quiescent (hr_state r')"
  by (auto simp: handles_inv_def records_inv_def)

lemma close_and_take_quiescent:
  "quiescent (hr_state r) \<Longrightarrow> \<exists>r'. close_and_take r = (Ok (hr_payload r), r')"
  by (simp add: close_and_take_def try_take_def begin_close_def quiescent_def)

end
