(* ===== verification/Node_Fs.thy ===== *)
theory Node_Fs
  imports Table_Effects Handle_Table
begin

text \<open>
  The filesystem interface of \<^verbatim>\<open>node_fs.rs\<close>. The trait \<^verbatim>\<open>NodeFs\<close> becomes a record with one field
  per method; an implementation of the trait is a value of that record. A method sees the
  filesystem's own state and, through \<^verbatim>\<open>Cx\<close>, the runtime's shared node table. A borrowed node is
  the address of its payload. The record \<open>default_node_fs\<close> holds the default methods of the trait, and
  the locale \<open>node_fs_contract\<close> states what the runtime relies on.
\<close>

section \<open>Directory sinks\<close>

text \<open>
  A \<^verbatim>\<open>DirSink\<close> accepts entries until its buffer is full. It remembers what it accepted; whether it
  accepts one more entry depends on those. A rejected entry leaves it unchanged.
\<close>

record 'e sink =
  sk_accepts :: "'e list \<Rightarrow> 'e \<Rightarrow> bool"
  sk_items :: "'e list"

definition sink_add :: "'e \<Rightarrow> 'e sink \<Rightarrow> bool \<times> 'e sink" where
  "sink_add e k = (if sk_accepts k (sk_items k) e then (True, k\<lparr>sk_items := sk_items k @ [e]\<rparr>) else (False, k))"

type_synonym dir_item = "os_str \<times> node_id \<times> file_kind \<times> u64"
type_synonym dir_sink = "dir_item sink"

record entry_reply =
  er_ino :: u64
  er_generation :: u64
  er_attr :: node_attr

type_synonym plus_item = "os_str \<times> entry_reply \<times> u64"

text \<open>A \<^verbatim>\<open>RuntimePlusSink\<close> converts the attributes of an entry to the kernel's format, which can panic.\<close>

record plus_sink =
  ps_sink :: "plus_item sink"
  ps_panics :: "plus_item \<Rightarrow> bool"

text \<open>
  The \<^verbatim>\<open>PlusDirSink\<close> the runtime passes to a filesystem: \<^verbatim>\<open>Accounting\<close> in
  \<^verbatim>\<open>Runtime::readdirplus\<close>. It resolves the entry against the node table, offers it to the kernel's
  buffer, and counts a lookup for what the kernel accepted.
\<close>

record accounting =
  ac_inner :: plus_sink
  ac_accepted :: "node_id list"

definition plus_entry :: "node_id \<Rightarrow> node_attr \<Rightarrow> 'n shared \<Rightarrow> entry_reply result" where
  "plus_entry nid attr sh = (case slot_at sh (ino_of nid) of
     None \<Rightarrow> Err ENOENT
   | Some s \<Rightarrow> Ok \<lparr>er_ino = ino_of nid, er_generation = s_generation s, er_attr = attr\<rparr>)"

definition plus_add :: "os_str \<Rightarrow> node_id \<Rightarrow> node_attr \<Rightarrow> u64 \<Rightarrow> ('n shared \<times> accounting) \<Rightarrow>
    bool result \<times> ('n shared \<times> accounting)" where
  "plus_add nm nid attr off st = (case st of (sh, ac) \<Rightarrow>
     (case plus_entry nid attr sh of
        Ok e \<Rightarrow>
          if ps_panics (ac_inner ac) (nm, e, off) then (Panic, (sh, ac))
          else (case sink_add (nm, e, off) (ps_sink (ac_inner ac)) of
             (False, k) \<Rightarrow> (Ok False, (sh, ac\<lparr>ac_inner := (ac_inner ac)\<lparr>ps_sink := k\<rparr>\<rparr>))
           | (True, k) \<Rightarrow>
               let ac = ac\<lparr>ac_inner := (ac_inner ac)\<lparr>ps_sink := k\<rparr>\<rparr> in
               if nm \<noteq> ''.'' \<and> nm \<noteq> ''..''
               then (case retain_lookup nid sh of
                       (Ok _, sh') \<Rightarrow> (Ok True, (sh', ac\<lparr>ac_accepted := ac_accepted ac @ [nid]\<rparr>))
                     | (Err _, sh') \<Rightarrow> (Ok True, (sh', ac))
                     | (Panic, sh') \<Rightarrow> (Panic, (sh', ac))
                     | (Blocks, sh') \<Rightarrow> (Blocks, (sh', ac)))
               else (Ok True, (sh, ac)))
      | _ \<Rightarrow> (Ok False, (sh, ac))))"

section \<open>The trait\<close>

text \<open>A callback runs on the filesystem's state and the shared table.\<close>

type_synonym ('fs, 'n, 'a) call = "('fs \<times> 'n shared, errno, 'a) prog"

text \<open>A directory read also updates the open directory (its interior state) and the sink.\<close>

type_synonym ('fs, 'n, 'd, 'k) dir_call = "('fs \<times> 'n shared \<times> 'd \<times> 'k, errno, unit) prog"

record ('fs, 'n, 'h, 'd) node_fs =
  fs_posix_locks :: bool
  fs_supports_flock :: bool
  fs_supports_readdirplus :: bool
  fs_root :: "'fs \<Rightarrow> 'n \<times> 'fs"
  fs_populate :: "('fs, 'n, unit) call"
  fs_init :: "('fs \<times> conn_info, errno, unit) prog"
  fs_destroy :: "('fs, errno, unit) prog"
  fs_forget :: "addr \<Rightarrow> ('fs, 'n, unit) call"
  fs_getattr :: "addr \<Rightarrow> 'h option \<Rightarrow> caller \<Rightarrow> ('fs, 'n, node_attr) call"
  fs_entry_attr :: "addr \<Rightarrow> caller \<Rightarrow> ('fs, 'n, node_attr) call"
  fs_setattr :: "addr \<Rightarrow> 'h option \<Rightarrow> set_attr \<Rightarrow> caller \<Rightarrow> ('fs, 'n, node_attr) call"
  fs_wants_fallback_handle :: "addr \<Rightarrow> 'fs \<times> 'n shared \<Rightarrow> bool"
  fs_lookup :: "node_id \<Rightarrow> os_str \<Rightarrow> caller \<Rightarrow> ('fs, 'n, node_id option) call"
  fs_readlink :: "addr \<Rightarrow> caller \<Rightarrow> ('fs, 'n, os_str) call"
  fs_mknod :: "node_id \<Rightarrow> os_str \<Rightarrow> u32 \<Rightarrow> u32 \<Rightarrow> u32 \<Rightarrow> caller \<Rightarrow> ('fs, 'n, node_id) call"
  fs_mkdir :: "node_id \<Rightarrow> os_str \<Rightarrow> u32 \<Rightarrow> u32 \<Rightarrow> caller \<Rightarrow> ('fs, 'n, node_id) call"
  fs_symlink :: "node_id \<Rightarrow> os_str \<Rightarrow> os_str \<Rightarrow> caller \<Rightarrow> ('fs, 'n, node_id) call"
  fs_unlink :: "node_id \<Rightarrow> os_str \<Rightarrow> caller \<Rightarrow> ('fs, 'n, unit) call"
  fs_rmdir :: "node_id \<Rightarrow> os_str \<Rightarrow> caller \<Rightarrow> ('fs, 'n, unit) call"
  fs_rename :: "node_id \<Rightarrow> os_str \<Rightarrow> node_id \<Rightarrow> os_str \<Rightarrow> u32 \<Rightarrow> caller \<Rightarrow> ('fs, 'n, unit) call"
  fs_link :: "node_id \<Rightarrow> node_id \<Rightarrow> os_str \<Rightarrow> caller \<Rightarrow> ('fs, 'n, node_id) call"
  fs_open :: "addr \<Rightarrow> int \<Rightarrow> caller \<Rightarrow> ('fs, 'n, 'h opened) call"
  fs_read :: "addr \<Rightarrow> 'h \<Rightarrow> u64 \<Rightarrow> nat \<Rightarrow> caller \<Rightarrow> ('fs, 'n, bytes) call"
  fs_write :: "addr \<Rightarrow> 'h \<Rightarrow> bytes \<Rightarrow> u64 \<Rightarrow> caller \<Rightarrow> ('fs, 'n, nat) call"
  fs_flush :: "addr \<Rightarrow> 'h \<Rightarrow> caller \<Rightarrow> ('fs, 'n, unit) call"
  fs_release :: "addr \<Rightarrow> 'h \<Rightarrow> caller \<Rightarrow> ('fs, 'n, unit) call"
  fs_fsync :: "addr \<Rightarrow> 'h \<Rightarrow> bool \<Rightarrow> caller \<Rightarrow> ('fs, 'n, unit) call"
  fs_opendir :: "addr \<Rightarrow> int \<Rightarrow> caller \<Rightarrow> ('fs, 'n, 'd opened) call"
  fs_readdir :: "addr \<Rightarrow> node_id \<Rightarrow> node_id \<Rightarrow> u64 \<Rightarrow> caller \<Rightarrow> ('fs, 'n, 'd, dir_sink) dir_call"
  fs_readdirplus :: "addr \<Rightarrow> node_id \<Rightarrow> node_id \<Rightarrow> u64 \<Rightarrow> caller \<Rightarrow> ('fs, 'n, 'd, accounting) dir_call"
  fs_releasedir :: "addr \<Rightarrow> 'd \<Rightarrow> caller \<Rightarrow> ('fs, 'n, unit) call"
  fs_fsyncdir :: "addr \<Rightarrow> 'd \<Rightarrow> bool \<Rightarrow> caller \<Rightarrow> ('fs, 'n, unit) call"
  fs_statfs :: "caller \<Rightarrow> ('fs, 'n, stat_fs) call"
  fs_setxattr :: "addr \<Rightarrow> os_str \<Rightarrow> bytes \<Rightarrow> int \<Rightarrow> caller \<Rightarrow> ('fs, 'n, unit) call"
  fs_getxattr :: "addr \<Rightarrow> os_str \<Rightarrow> nat \<Rightarrow> caller \<Rightarrow> ('fs, 'n, xattr_reply) call"
  fs_listxattr :: "addr \<Rightarrow> nat \<Rightarrow> caller \<Rightarrow> ('fs, 'n, xattr_reply) call"
  fs_removexattr :: "addr \<Rightarrow> os_str \<Rightarrow> caller \<Rightarrow> ('fs, 'n, unit) call"
  fs_access :: "addr \<Rightarrow> int \<Rightarrow> caller \<Rightarrow> ('fs, 'n, unit) call"
  fs_create :: "node_id \<Rightarrow> os_str \<Rightarrow> u32 \<Rightarrow> u32 \<Rightarrow> int \<Rightarrow> caller \<Rightarrow> ('fs, 'n, node_id \<times> 'h opened) call"
  fs_fallocate :: "addr \<Rightarrow> 'h \<Rightarrow> int \<Rightarrow> u64 \<Rightarrow> u64 \<Rightarrow> caller \<Rightarrow> ('fs, 'n, unit) call"
  fs_lseek :: "addr \<Rightarrow> 'h \<Rightarrow> u64 \<Rightarrow> int \<Rightarrow> caller \<Rightarrow> ('fs, 'n, u64) call"
  fs_getlk :: "addr \<Rightarrow> 'h \<Rightarrow> u64 \<Rightarrow> file_lock \<Rightarrow> caller \<Rightarrow> ('fs, 'n, file_lock) call"
  fs_setlk :: "addr \<Rightarrow> 'h \<Rightarrow> u64 \<Rightarrow> file_lock \<Rightarrow> bool \<Rightarrow> caller \<Rightarrow> ('fs, 'n, unit) call"
  fs_flock :: "addr \<Rightarrow> 'h \<Rightarrow> int \<Rightarrow> caller \<Rightarrow> ('fs, 'n, unit) call"
  fs_copy_file_range :: "node_id \<Rightarrow> u64 \<Rightarrow> node_id \<Rightarrow> u64 \<Rightarrow> u64 \<Rightarrow> int \<Rightarrow> caller \<Rightarrow> ('fs, 'n, nat) call"

text \<open>
  The default methods. The trait has none for \<^verbatim>\<open>root\<close> and \<^verbatim>\<open>getattr\<close>, which are arguments here.
\<close>

definition default_node_fs :: "('fs \<Rightarrow> 'n \<times> 'fs) \<Rightarrow>
    (addr \<Rightarrow> 'h option \<Rightarrow> caller \<Rightarrow> ('fs, 'n, node_attr) call) \<Rightarrow> ('fs, 'n, 'h, 'd) node_fs" where
  "default_node_fs root getattr = \<lparr>
     fs_posix_locks = False, fs_supports_flock = False, fs_supports_readdirplus = False,
     fs_root = root,
     fs_populate = ret (),
     fs_init = ret (),
     fs_destroy = ret (),
     fs_forget = (\<lambda>_. ret ()),
     fs_getattr = getattr,
     fs_entry_attr = (\<lambda>node. getattr node None),
     fs_setattr = (\<lambda>_ _ _ _. fail ENOSYS),
     fs_wants_fallback_handle = (\<lambda>_ _. False),
     fs_lookup = (\<lambda>_ _ _. fail ENOSYS),
     fs_readlink = (\<lambda>_ _. fail ENOSYS),
     fs_mknod = (\<lambda>_ _ _ _ _ _. fail ENOSYS),
     fs_mkdir = (\<lambda>_ _ _ _ _. fail ENOSYS),
     fs_symlink = (\<lambda>_ _ _ _. fail ENOSYS),
     fs_unlink = (\<lambda>_ _ _. fail ENOSYS),
     fs_rmdir = (\<lambda>_ _ _. fail ENOSYS),
     fs_rename = (\<lambda>_ _ _ _ _ _. fail ENOSYS),
     fs_link = (\<lambda>_ _ _ _. fail ENOSYS),
     fs_open = (\<lambda>_ _ _. fail ENOSYS),
     fs_read = (\<lambda>_ _ _ _ _. fail ENOSYS),
     fs_write = (\<lambda>_ _ _ _ _. fail ENOSYS),
     fs_flush = (\<lambda>_ _ _. ret ()),
     fs_release = (\<lambda>_ _ _. ret ()),
     fs_fsync = (\<lambda>_ _ _ _. ret ()),
     fs_opendir = (\<lambda>_ _ _. fail ENOSYS),
     fs_readdir = (\<lambda>_ _ _ _ _. fail ENOSYS),
     fs_readdirplus = (\<lambda>_ _ _ _ _. fail ENOSYS),
     fs_releasedir = (\<lambda>_ _ _. ret ()),
     fs_fsyncdir = (\<lambda>_ _ _ _. ret ()),
     fs_statfs = (\<lambda>_. ret (default_stat_fs\<lparr>sf_bsize := 512, sf_namelen := 255\<rparr>)),
     fs_setxattr = (\<lambda>_ _ _ _ _. fail ENOSYS),
     fs_getxattr = (\<lambda>_ _ _ _. fail ENOSYS),
     fs_listxattr = (\<lambda>_ _ _. fail ENOSYS),
     fs_removexattr = (\<lambda>_ _ _. fail ENOSYS),
     fs_access = (\<lambda>_ _ _. ret ()),
     fs_create = (\<lambda>_ _ _ _ _ _. fail ENOSYS),
     fs_fallocate = (\<lambda>_ _ _ _ _ _. fail ENOSYS),
     fs_lseek = (\<lambda>_ _ _ _ _. fail ENOSYS),
     fs_getlk = (\<lambda>_ _ _ _ _. fail ENOSYS),
     fs_setlk = (\<lambda>_ _ _ _ _ _. fail ENOSYS),
     fs_flock = (\<lambda>_ _ _ _. fail ENOSYS),
     fs_copy_file_range = (\<lambda>_ _ _ _ _ _ _. fail ENOSYS)\<rparr>"

section \<open>What the runtime relies on\<close>

text \<open>
  A filesystem reaches the shared table only through the methods of \<^verbatim>\<open>Cx\<close>: it can take and drop
  leases and create, move and remove names, on every path out of a callback. It cannot touch the
  lookup and open counts. A \<^verbatim>\<open>readdirplus\<close> reaches the counts and the kernel's buffer only by calls of
  \<^verbatim>\<open>add\<close> on the sink it is given, in any number and between any other steps (\<open>plus_calls\<close>, whose flag says
  whether one of the calls did not return); it does not hide the panic of such a call behind a success.
\<close>

definition quiet :: "('fs, 'n, 'a) call \<Rightarrow> bool" where
  "quiet m \<longleftrightarrow> (\<forall>fs sh r fs' sh'. table_inv sh \<longrightarrow> m (fs, sh) = (r, fs', sh') \<longrightarrow> eff id id sh sh')"

definition quiet_dir :: "('fs, 'n, 'd, 'k) dir_call \<Rightarrow> bool" where
  "quiet_dir m \<longleftrightarrow> (\<forall>fs sh d k r fs' sh' d' k'. table_inv sh \<longrightarrow> m (fs, sh, d, k) = (r, fs', sh', d', k') \<longrightarrow>
     eff id id sh sh')"

inductive plus_calls :: "'n shared \<times> accounting \<Rightarrow> bool \<Rightarrow> 'n shared \<times> accounting \<Rightarrow> bool" for s where
  calls_start: "plus_calls s False s"
| calls_other: "plus_calls s p (sh, ac) \<Longrightarrow> eff id id sh sh' \<Longrightarrow> plus_calls s p (sh', ac)"
| calls_add: "plus_calls s p (sh, ac) \<Longrightarrow> plus_add nm nid attr off (sh, ac) = (r, (sh', ac')) \<Longrightarrow>
    plus_calls s (p \<or> (\<forall>b. r \<noteq> Ok b)) (sh', ac')"

definition quiet_plus :: "('fs, 'n, 'd, accounting) dir_call \<Rightarrow> bool" where
  "quiet_plus m \<longleftrightarrow> (\<forall>fs sh d ac r fs' sh' d' ac'. table_inv sh \<longrightarrow> m (fs, sh, d, ac) = (r, fs', sh', d', ac') \<longrightarrow>
     (\<exists>p. plus_calls (sh, ac) p (sh', ac') \<and> (p \<longrightarrow> r \<noteq> Ok ())))"

lemma quiet_ret [simp, intro]: "quiet (ret a)" and quiet_fail [simp, intro]: "quiet (fail e)"
  by (simp_all add: quiet_def eff_refl)

lemma quiet_dir_fail [simp, intro]: "quiet_dir (fail e)"
  by (simp add: quiet_dir_def eff_refl)

lemma quiet_plus_fail [simp, intro]: "quiet_plus (fail e)"
  by (auto simp: quiet_plus_def intro: calls_start)

lemma quiet_bnd [intro]:
  assumes "quiet m" "\<And>a. quiet (f a)" shows "quiet (bnd m f)"
  unfolding quiet_def
proof (intro allI impI)
  fix fs sh r fs' sh'
  assume inv: "table_inv sh" and "bnd m f (fs, sh) = (r, fs', sh')"
  from this(2) show "eff id id sh sh'"
  proof (cases rule: bnd_cases)
    case (ok a s)
    obtain fs1 sh1 where s: "s = (fs1, sh1)" by (cases s)
    have 1: "eff id id sh sh1" using assms(1) inv ok(1) by (auto simp: quiet_def s)
    with assms(2) ok(2) have "eff id id sh1 sh'" by (auto simp: quiet_def s dest: effD(1))
    with 1 show ?thesis by (rule eff_id_trans)
  qed (use assms(1) inv in \<open>auto simp: quiet_def\<close>)
qed

text \<open>Offering an entry: the table changes by one lookup exactly when the entry was recorded.\<close>

lemma plus_add_effect:
  assumes inv: "table_inv sh" and "plus_add nm nid attr off (sh, ac) = (r, (sh', ac'))"
  shows "\<exists>ids. ac_accepted ac' = ac_accepted ac @ ids \<and> eff (add_ids ids) id sh sh'"
proof (cases "\<exists>e k. plus_entry nid attr sh = Ok e \<and> \<not> ps_panics (ac_inner ac) (nm, e, off) \<and>
    sink_add (nm, e, off) (ps_sink (ac_inner ac)) = (True, k) \<and> nm \<noteq> ''.'' \<and> nm \<noteq> ''..''")
  case False
  with assms(2) have "sh' = sh" "ac_accepted ac' = ac_accepted ac"
    by (auto simp: plus_add_def Let_def plus_entry_def split: outcome.splits prod.splits bool.splits if_splits option.splits)
  with eff_refl [OF inv] show ?thesis by (intro exI [of _ "[]"]) simp
next
  case True
  obtain q sh1 where q: "retain_lookup nid sh = (q, sh1)" by (cases "retain_lookup nid sh")
  note e = eff_retain_lookup [OF inv q]
  have "q = Ok () \<and> sh' = sh1 \<and> ac_accepted ac' = ac_accepted ac @ [nid] \<or>
      q \<noteq> Ok () \<and> sh' = sh1 \<and> ac_accepted ac' = ac_accepted ac"
    using True assms(2) q by (auto simp: plus_add_def Let_def split: outcome.splits)
  then show ?thesis
  proof
    assume "q = Ok () \<and> sh' = sh1 \<and> ac_accepted ac' = ac_accepted ac @ [nid]"
    with e show ?thesis by (intro exI [of _ "[nid]"]) (simp add: add_ids_single)
  next
    assume "q \<noteq> Ok () \<and> sh' = sh1 \<and> ac_accepted ac' = ac_accepted ac"
    with e show ?thesis by (intro exI [of _ "[]"]) simp
  qed
qed

text \<open>Any sequence of offers: the table changes by one lookup for every entry that was recorded.\<close>

lemma plus_calls_effect:
  assumes "plus_calls (sh, ac) p s'" "table_inv sh"
  shows "\<exists>ids. ac_accepted (snd s') = ac_accepted ac @ ids \<and> eff (add_ids ids) id sh (fst s')"
  using assms
proof (induction rule: plus_calls.induct)
  case calls_start
  from eff_refl [OF this] show ?case by (intro exI [of _ "[]"]) (simp add: id_def)
next
  case (calls_other p sh1 ac1 sh2)
  then show ?case by (auto intro: eff_id_trans(2))
next
  case (calls_add p sh1 ac1 nm nid attr off r sh2 ac2)
  from calls_add.IH [OF calls_add.prems, unfolded fst_conv snd_conv] obtain ids where
    ids: "ac_accepted ac1 = ac_accepted ac @ ids" "eff (add_ids ids) id sh sh1" by blast
  from plus_add_effect [OF effD(1) [OF ids(2)] calls_add.hyps(2)] obtain js where
    js: "ac_accepted ac2 = ac_accepted ac1 @ js" "eff (add_ids js) id sh1 sh2" by blast
  from eff_trans [OF ids(2) js(2)] ids(1) js(1) show ?case
    by (intro exI [of _ "ids @ js"]) (simp add: add_ids_append comp_def id_def)
qed

lemma plus_calls_trans: "plus_calls s1 q s2 \<Longrightarrow> plus_calls s p s1 \<Longrightarrow> plus_calls s (p \<or> q) s2"
  by (induction rule: plus_calls.induct) (auto intro: calls_other dest: calls_add)

text \<open>
  What is in the kernel's buffer is what was recorded: when every call returned, the entries added to the buffer are, apart from the
  dots, those of the recorded nodes, in order, and none of them fails to convert.
\<close>

definition told :: "plus_item list \<Rightarrow> u64 list" where
  "told items = map (\<lambda>(nm, e, off). er_ino e) (filter (\<lambda>(nm, e, off). nm \<noteq> ''.'' \<and> nm \<noteq> ''..'') items)"

lemma plus_add_told:
  assumes "plus_add nm nid attr off (sh, ac) = (Ok b, (sh', ac'))"
  shows "\<exists>items ids. sk_items (ps_sink (ac_inner ac')) = sk_items (ps_sink (ac_inner ac)) @ items \<and>
    ac_accepted ac' = ac_accepted ac @ ids \<and> map ino_of ids = told items \<and> (\<forall>x \<in> set items. \<not> ps_panics (ac_inner ac) x) \<and>
    ps_panics (ac_inner ac') = ps_panics (ac_inner ac)"
proof (cases "slot_at sh (ino_of nid)")
  case None
  with assms show ?thesis by (intro exI [of _ "[]"]) (simp add: plus_add_def plus_entry_def told_def)
next
  case (Some s)
  let ?x = "(nm, \<lparr>er_ino = ino_of nid, er_generation = s_generation s, er_attr = attr\<rparr>, off)"
  have np: "\<not> ps_panics (ac_inner ac) ?x" using assms Some by (auto simp: plus_add_def plus_entry_def)
  show ?thesis
  proof (cases "sk_accepts (ps_sink (ac_inner ac)) (sk_items (ps_sink (ac_inner ac))) ?x")
    case False
    with assms Some np show ?thesis by (intro exI [of _ "[]"]) (auto simp: plus_add_def plus_entry_def sink_add_def told_def)
  next
    case True
    show ?thesis
    proof (cases "nm = ''.'' \<or> nm = ''..''")
      case dots: True
      with assms Some np True show ?thesis
        by (intro exI [of _ "[?x]"] exI [of _ "[]"]) (auto simp: plus_add_def plus_entry_def sink_add_def told_def)
    next
      case False
      with assms Some np True show ?thesis
        by (intro exI [of _ "[?x]"] exI [of _ "[nid]"])
          (auto simp: plus_add_def plus_entry_def sink_add_def told_def retain_lookup_def Let_def split: option.splits)
    qed
  qed
qed

lemma plus_calls_told:
  assumes "plus_calls (sh, ac) p s'" "\<not> p"
  shows "\<exists>items ids. sk_items (ps_sink (ac_inner (snd s'))) = sk_items (ps_sink (ac_inner ac)) @ items \<and>
    ac_accepted (snd s') = ac_accepted ac @ ids \<and> map ino_of ids = told items \<and> (\<forall>x \<in> set items. \<not> ps_panics (ac_inner ac) x) \<and>
    ps_panics (ac_inner (snd s')) = ps_panics (ac_inner ac)"
  using assms
proof (induction rule: plus_calls.induct)
  case calls_start
  then show ?case by (intro exI [of _ "[]"]) (simp add: told_def)
next
  case (calls_add p sh1 ac1 nm nid attr off r sh2 ac2)
  from calls_add.prems obtain b where b: "r = Ok b" by blast
  from calls_add.IH calls_add.prems obtain items ids where 1: "sk_items (ps_sink (ac_inner ac1)) = sk_items (ps_sink (ac_inner ac)) @ items"
    "ac_accepted ac1 = ac_accepted ac @ ids" "map ino_of ids = told items" "\<forall>x \<in> set items. \<not> ps_panics (ac_inner ac) x"
    "ps_panics (ac_inner ac1) = ps_panics (ac_inner ac)" by auto
  from plus_add_told [OF calls_add.hyps(2) [unfolded b]] obtain more js where
    2: "sk_items (ps_sink (ac_inner ac2)) = sk_items (ps_sink (ac_inner ac1)) @ more" "ac_accepted ac2 = ac_accepted ac1 @ js"
    "map ino_of js = told more" "\<forall>x \<in> set more. \<not> ps_panics (ac_inner ac1) x" "ps_panics (ac_inner ac2) = ps_panics (ac_inner ac1)" by blast
  from 1 2 show ?case by (intro exI [of _ "items @ more"] exI [of _ "ids @ js"]) (auto simp: told_def)
qed auto

locale node_fs_contract =
  fixes F :: "('fs, 'n, 'h, 'd) node_fs"
  assumes quiet_populate: "quiet (fs_populate F)"
    and quiet_forget: "quiet (fs_forget F a)"
    and forget_no_error: "fst (fs_forget F a st) \<noteq> Err e"
    and quiet_attrs: "quiet (fs_getattr F a oh c)" "quiet (fs_entry_attr F a c)" "quiet (fs_setattr F a oh sa c)"
      "quiet (fs_readlink F a c)" "quiet (fs_access F a msk c)" "quiet (fs_statfs F c)"
    and quiet_xattrs: "quiet (fs_setxattr F a nm bs i c)" "quiet (fs_getxattr F a nm sz c)"
      "quiet (fs_listxattr F a sz c)" "quiet (fs_removexattr F a nm c)"
    and quiet_names: "quiet (fs_lookup F p nm c)" "quiet (fs_mknod F p nm mode rdev um c)"
      "quiet (fs_mkdir F p nm mode um c)" "quiet (fs_symlink F p nm tgt c)" "quiet (fs_unlink F p nm c)"
      "quiet (fs_rmdir F p nm c)" "quiet (fs_rename F p nm p' nm' fl c)" "quiet (fs_link F nid p nm c)"
      "quiet (fs_create F p nm mode um i c)" "quiet (fs_copy_file_range F n1 o1 n2 o2 len i c)"
    and quiet_files: "quiet (fs_open F a i c)" "quiet (fs_read F a h off sz c)" "quiet (fs_write F a h bs off c)"
      "quiet (fs_flush F a h c)" "quiet (fs_release F a h c)" "quiet (fs_fsync F a h b c)"
      "quiet (fs_fallocate F a h i off len c)" "quiet (fs_lseek F a h off i c)" "quiet (fs_getlk F a h own lk c)"
      "quiet (fs_setlk F a h own lk b c)" "quiet (fs_flock F a h i c)"
    and quiet_dirs: "quiet (fs_opendir F a i c)" "quiet (fs_releasedir F a d c)" "quiet (fs_fsyncdir F a d b c)"
    and quiet_readdir: "quiet_dir (fs_readdir F a this par off c)"
    and quiet_readdirplus: "quiet_plus (fs_readdirplus F a this par off c)"
begin

lemmas quiet_all [simp] = quiet_populate quiet_forget quiet_attrs quiet_xattrs quiet_names quiet_files quiet_dirs

end

end
