(* ===== verification/Fs_Calls.thy ===== *)
theory Fs_Calls
  imports Node_Fs
begin

text \<open>
  How a filesystem written against nodes uses the context it is given: it leases a node for a while, reads
  and writes the store, and changes the table. The lemmas say that each of these keeps the contract of the
  runtime if its parts do.
\<close>

section \<open>Combinators\<close>

text \<open>
  \<^verbatim>\<open>if let Some(node) = cx.get(id)\<close>: a lease for the length of the body, dropped on every way out of it, or else
  the alternative; and \<^verbatim>\<open>cx.get(id).ok_or(ENOENT)?\<close>.
\<close>

definition lease_or :: "('fs, 'n, 'a) call \<Rightarrow> node_id \<Rightarrow> (addr \<Rightarrow> ('fs, 'n, 'a) call) \<Rightarrow> ('fs, 'n, 'a) call" where
  "lease_or absent nid body s = (case s of (fs, sh) \<Rightarrow> (case cx_get nid sh of
     (Ok None, sh') \<Rightarrow> absent (fs, sh')
   | (Ok (Some nr), sh') \<Rightarrow> (case body (nr_record nr) (fs, sh') of (r, (fs2, sh2)) \<Rightarrow> (r, (fs2, node_ref_drop nr sh2)))
   | (Err e, sh') \<Rightarrow> (Err e, (fs, sh'))
   | (Panic, sh') \<Rightarrow> (Panic, (fs, sh'))
   | (Blocks, sh') \<Rightarrow> (Blocks, (fs, sh'))))"

definition leased :: "node_id \<Rightarrow> (addr \<Rightarrow> ('fs, 'n, 'a) call) \<Rightarrow> ('fs, 'n, 'a) call" where
  "leased = lease_or (fail ENOENT)"

definition on_nodes :: "('n shared \<Rightarrow> 'n shared) \<Rightarrow> ('fs, 'n, unit) call" where
  "on_nodes f s = (case s of (fs, sh) \<Rightarrow> (Ok (), (fs, f sh)))"

definition with_state :: "('n shared \<Rightarrow> 'b) \<Rightarrow> ('b \<Rightarrow> ('fs, 'n, 'a) call) \<Rightarrow> ('fs, 'n, 'a) call" where
  "with_state f body s = body (f (snd s)) s"

section \<open>They keep the contract\<close>

lemma quietI:
  assumes "\<And>fs sh r fs' sh'. table_inv sh \<Longrightarrow> m (fs, sh) = (r, (fs', sh')) \<Longrightarrow> eff id id sh sh'"
  shows "quiet m"
  using assms by (auto simp: quiet_def)

lemma quietD: "quiet m \<Longrightarrow> table_inv sh \<Longrightarrow> m (fs, sh) = (r, (fs', sh')) \<Longrightarrow> eff id id sh sh'"
  by (auto simp: quiet_def)

lemma quiet_pure:
  assumes "\<And>fs sh. snd (snd (m (fs, sh))) = sh" shows "quiet m"
  by (rule quietI) (metis assms eff_refl snd_conv)

lemma quiet_with_state: "(\<And>x. quiet (body x)) \<Longrightarrow> quiet (with_state f body)"
  by (auto simp: quiet_def with_state_def)

lemma quiet_ok_or: "quiet (ok_or e x)"
  by (cases x) (auto intro: quiet_pure)

lemma cx_get_unchanged: "cx_get nid sh = (g, sh1) \<Longrightarrow> \<nexists>nr. g = Ok (Some nr) \<Longrightarrow> sh1 = sh"
  by (auto simp: cx_get_def split: option.splits outcome.splits prod.splits if_splits)

lemma quiet_lease_or:
  assumes "quiet absent" "\<And>a. quiet (body a)" shows "quiet (lease_or absent nid body)"
proof (rule quietI)
  fix fs sh r fs' sh' assume inv: "table_inv sh" and run: "lease_or absent nid body (fs, sh) = (r, fs', sh')"
  obtain g sh1 where g: "cx_get nid sh = (g, sh1)" by (cases "cx_get nid sh")
  show "eff id id sh sh'"
  proof (cases "\<exists>nr. g = Ok (Some nr)")
    case True
    then obtain nr where nr: "g = Ok (Some nr)" by blast
    obtain r2 fs2 sh2 where b: "body (nr_record nr) (fs, sh1) = (r2, fs2, sh2)" by (cases "body (nr_record nr) (fs, sh1)") auto
    with run g nr have "sh' = node_ref_drop nr sh2" by (simp add: lease_or_def)
    with eff_bracket [OF inv g [unfolded nr] quietD [OF assms(2) lease_taken(1) [OF inv g [unfolded nr]] b]] show ?thesis by simp
  next
    case False
    with cx_get_unchanged [OF g] False run g inv show ?thesis
      by (auto simp: lease_or_def eff_refl split: outcome.splits option.splits dest: quietD [OF assms(1)])
  qed
qed

lemma quiet_leased: "(\<And>a. quiet (body a)) \<Longrightarrow> quiet (leased nid body)"
  unfolding leased_def by (intro quiet_lease_or quiet_fail)

lemma quiet_on_nodes: "(\<And>sh. table_inv sh \<Longrightarrow> eff id id sh (f sh)) \<Longrightarrow> quiet (on_nodes f)"
  by (auto simp: quiet_def on_nodes_def)

section \<open>Leases around reads and writes of the store\<close>

text \<open>
  A lease around a body that changes only the store leaves the table as it was: the slot was retained before, so dropping the
  lease does not release it.
\<close>

lemma lease_bracket:
  assumes inv: "table_inv sh" and s: "slot_at sh (ino_of nid) = Some s" and l: "checked_add (s_leases s) 1 = Some l"
    and sh1_def: "sh1 = with_table (set_slot (ino_of nid) (s\<lparr>s_leases := l\<rparr>)) sh"
  shows "cx_get nid sh = (Ok (Some \<lparr>nr_id = nid, nr_record = s_record s\<rparr>), sh1)"
    and "node_ref_drop \<lparr>nr_id = nid, nr_record = s_record s\<rparr> (sh1\<lparr>sh_heap := h\<rparr>) = sh\<lparr>sh_heap := h\<rparr>"
proof -
  show "cx_get nid sh = (Ok (Some \<lparr>nr_id = nid, nr_record = s_record s\<rparr>), sh1)"
    by (simp add: cx_get_def s l sh1_def)
  have restored: "saturating_sub l 1 = s_leases s"
    by (simp add: word_unat_eq_iff unat_checked_add_1 [OF l])
  have slot: "slot_at (sh1\<lparr>sh_heap := h\<rparr>) (ino_of nid) = Some (s\<lparr>s_leases := l\<rparr>)"
    by (simp add: slot_at_def sh1_def with_table_def set_slot_def)
  have "with_table (set_slot (ino_of nid) (s\<lparr>s_leases := l, s_leases := s_leases s\<rparr>)) (sh1\<lparr>sh_heap := h\<rparr>) = sh\<lparr>sh_heap := h\<rparr>"
    using inv s by (simp add: sh1_def with_table_def set_slot_def bt_insert_twice bt_insert_same table_inv_def slot_at_def)
  moreover have "with_table (maybe_drop nid) (sh\<lparr>sh_heap := h\<rparr>) = sh\<lparr>sh_heap := h\<rparr>"
    using table_inv_slotD(3) [OF inv s] s by (simp add: with_table_def maybe_drop_def slot_at_def)
  ultimately show "node_ref_drop \<lparr>nr_id = nid, nr_record = s_record s\<rparr> (sh1\<lparr>sh_heap := h\<rparr>) = sh\<lparr>sh_heap := h\<rparr>"
    by (simp add: node_ref_drop_def slot restored)
qed

lemma lease_or_store:
  assumes inv: "table_inv sh" and s: "slot_at sh (ino_of nid) = Some s"
    and body: "\<And>sh1. sh_heap sh1 = sh_heap sh \<Longrightarrow> body (s_record s) (fs, sh1) = (r, (fs', sh1\<lparr>sh_heap := h\<rparr>))"
  shows "lease_or absent nid body (fs, sh) = (r, (fs', sh\<lparr>sh_heap := h\<rparr>)) \<or> fst (lease_or absent nid body (fs, sh)) = Panic"
proof (cases "checked_add (s_leases s) 1")
  case None
  then show ?thesis by (simp add: lease_or_def cx_get_def s)
next
  case (Some l)
  note b = lease_bracket [OF inv s Some refl]
  show ?thesis by (simp add: lease_or_def b(1) body b(2))
qed

lemma lease_or_absent: "slot_at sh (ino_of nid) = None \<Longrightarrow> lease_or absent nid body (fs, sh) = absent (fs, sh)"
  by (simp add: lease_or_def cx_get_def)

section \<open>Streams of directory reads\<close>

text \<open>
  The reads of one stream, as the kernel makes them: each with an empty buffer, resumed at the cookie of
  the last entry received, until a read returns nothing.
\<close>

fun dir_stream :: "(u64 \<Rightarrow> ('fs, 'n, 'd, dir_sink) dir_call) \<Rightarrow> (dir_item list \<Rightarrow> dir_item \<Rightarrow> bool) \<Rightarrow> nat \<Rightarrow> u64 \<Rightarrow>
    ('fs \<times> 'n shared \<times> 'd) \<Rightarrow> dir_item list result \<times> ('fs \<times> 'n shared \<times> 'd)" where
  "dir_stream rd fits 0 offset s = (Blocks, s)"
| "dir_stream rd fits (Suc n) offset (fs, sh, d) =
     (case rd offset (fs, sh, d, \<lparr>sk_accepts = fits, sk_items = []\<rparr>) of
        (Ok _, (fs', sh', d', k)) \<Rightarrow>
          if sk_items k = [] then (Ok [], (fs', sh', d'))
          else (case dir_stream rd fits n (snd (snd (snd (last (sk_items k))))) (fs', sh', d') of
                  (Ok items, s') \<Rightarrow> (Ok (sk_items k @ items), s')
                | (r, s') \<Rightarrow> (r, s'))
      | (Err e, (fs', sh', d', k)) \<Rightarrow> (Err e, (fs', sh', d'))
      | (Panic, (fs', sh', d', k)) \<Rightarrow> (Panic, (fs', sh', d'))
      | (Blocks, (fs', sh', d', k)) \<Rightarrow> (Blocks, (fs', sh', d')))"

end
