(* ===== verification/Conv.thy ===== *)
theory Conv
  imports Node_Fs "HOL-Library.Monad_Syntax"
begin

unbundle bit_operations_syntax

text \<open>
  The conversions between the typed values and the structs of libfuse (\<^verbatim>\<open>conv.rs\<close>, in its
  Linux configuration): file kinds and mode bits, times, \<^verbatim>\<open>stat\<close>, entry parameters, \<^verbatim>\<open>setattr\<close>
  requests and \<^verbatim>\<open>statvfs\<close>. Signed C integers are words read with \<open>sint\<close>; \<open>None\<close> is the panic of an
  arithmetic overflow check or of the standard library's time arithmetic. The theorems say which
  values survive a conversion and which make it panic.
\<close>

section \<open>Signed arithmetic\<close>

type_synonym i32 = "32 word"
type_synonym i64 = "64 word"

text \<open>The result of a signed 64-bit operation, with the overflow check of the compiler.\<close>

definition i64_of_int :: "int \<Rightarrow> i64 option" where
  "i64_of_int i = (if - (2 ^ 63) \<le> i \<and> i < 2 ^ 63 then Some (word_of_int i) else None)"

lemma sint_word_of_int_64: "- (2 ^ 63) \<le> i \<Longrightarrow> i < 2 ^ 63 \<Longrightarrow> sint (word_of_int i :: i64) = i"
  using signed_take_bit_int_eq_self [of 63 i] by (simp add: sint_sbintrunc')

lemma i64_of_int_SomeD: "i64_of_int i = Some w \<Longrightarrow> sint w = i"
  by (auto simp: i64_of_int_def sint_word_of_int_64 split: if_splits)

lemma i64_of_int_in: "- (2 ^ 63) \<le> i \<Longrightarrow> i < 2 ^ 63 \<Longrightarrow> i64_of_int i = Some (word_of_int i)"
  by (simp add: i64_of_int_def)

lemma i64_range: "- (2 ^ 63) \<le> sint (w :: i64)" "sint (w :: i64) < 2 ^ 63"
  using sint_ge [of w] sint_lt [of w] by simp_all

lemma uint_of_sint_nonneg: "0 \<le> sint (w :: i64) \<Longrightarrow> uint w = sint w"
  using i64_range [of w] uint_sint [of w] take_bit_int_eq_self [of "sint w" 64] by simp

section \<open>File kinds\<close>

definition S_IFMT :: u32 where "S_IFMT = 0xF000"
definition S_IFREG :: u32 where "S_IFREG = 0x8000"
definition S_IFDIR :: u32 where "S_IFDIR = 0x4000"
definition S_IFLNK :: u32 where "S_IFLNK = 0xA000"
definition S_IFCHR :: u32 where "S_IFCHR = 0x2000"
definition S_IFBLK :: u32 where "S_IFBLK = 0x6000"
definition S_IFIFO :: u32 where "S_IFIFO = 0x1000"
definition S_IFSOCK :: u32 where "S_IFSOCK = 0xC000"

lemmas mode_consts = S_IFMT_def S_IFREG_def S_IFDIR_def S_IFLNK_def S_IFCHR_def S_IFBLK_def S_IFIFO_def S_IFSOCK_def

fun kind_to_mode_bits :: "file_kind \<Rightarrow> u32" where
  "kind_to_mode_bits RegularFile = S_IFREG"
| "kind_to_mode_bits Directory = S_IFDIR"
| "kind_to_mode_bits Symlink = S_IFLNK"
| "kind_to_mode_bits CharDevice = S_IFCHR"
| "kind_to_mode_bits BlockDevice = S_IFBLK"
| "kind_to_mode_bits NamedPipe = S_IFIFO"
| "kind_to_mode_bits Socket = S_IFSOCK"

definition mode_bits_to_kind :: "u32 \<Rightarrow> file_kind option" where
  "mode_bits_to_kind mode =
     (let m = mode AND S_IFMT in
      if m = S_IFREG then Some RegularFile
      else if m = S_IFDIR then Some Directory
      else if m = S_IFLNK then Some Symlink
      else if m = S_IFCHR then Some CharDevice
      else if m = S_IFBLK then Some BlockDevice
      else if m = S_IFIFO then Some NamedPipe
      else if m = S_IFSOCK then Some Socket
      else None)"

text \<open>The permission bits that \<^verbatim>\<open>attr_to_stat\<close> keeps, and the mode it builds.\<close>

definition PERM_MASK :: u32 where "PERM_MASK = 0xFFF"

lemma kind_bits_masks: "kind_to_mode_bits k AND S_IFMT = kind_to_mode_bits k" "kind_to_mode_bits k AND PERM_MASK = 0"
  by (cases k; simp add: mode_consts PERM_MASK_def)+

lemma masks_disjoint: "PERM_MASK AND S_IFMT = 0" "PERM_MASK AND PERM_MASK = PERM_MASK"
  by (simp_all add: PERM_MASK_def S_IFMT_def)

lemma mode_of_kind:
  "(kind_to_mode_bits k OR (w AND PERM_MASK)) AND S_IFMT = kind_to_mode_bits k"
  "(kind_to_mode_bits k OR (w AND PERM_MASK)) AND PERM_MASK = w AND PERM_MASK"
  by (simp_all add: bit.conj_disj_distrib2 kind_bits_masks and.assoc masks_disjoint)

lemma mode_bits_to_kind_kind: "m AND S_IFMT = kind_to_mode_bits k \<Longrightarrow> mode_bits_to_kind m = Some k"
  by (cases k) (simp_all add: mode_bits_to_kind_def Let_def mode_consts)

section \<open>Times\<close>

text \<open>
  A \<^verbatim>\<open>SystemTime\<close> holds a signed 64-bit number of seconds and a nanosecond part, and its
  arithmetic panics outside that range. A \<^verbatim>\<open>Duration\<close> is a non-negative number of nanoseconds whose
  seconds fit 64 bits.
\<close>

definition time_ok :: "system_time \<Rightarrow> bool" where
  "time_ok t \<longleftrightarrow> - (2 ^ 63) * 1000000000 \<le> t \<and> t < 2 ^ 63 * 1000000000"

definition duration_new :: "u64 \<Rightarrow> u32 \<Rightarrow> int option" where
  "duration_new secs nanos =
     (if uint secs + uint nanos div 1000000000 < 2 ^ 64 then Some (uint secs * 1000000000 + uint nanos) else None)"

definition time_plus :: "system_time \<Rightarrow> int \<Rightarrow> system_time option" where
  "time_plus t d = (if time_ok (t + d) then Some (t + d) else None)"

definition time_minus :: "system_time \<Rightarrow> int \<Rightarrow> system_time option" where
  "time_minus t d = (if time_ok (t - d) then Some (t - d) else None)"

definition system_time_to_secs_nsecs :: "system_time \<Rightarrow> (i64 \<times> i64) option" where
  "system_time_to_secs_nsecs t =
     (if UNIX_EPOCH \<le> t
      then let d = t - UNIX_EPOCH in Some (word_of_int (d div 1000000000), word_of_int (d mod 1000000000))
      else let d = UNIX_EPOCH - t;
               secs = (word_of_int (d div 1000000000) :: i64);
               nsecs = (word_of_int (d mod 1000000000) :: i64)
           in if nsecs = 0
              then do { s \<leftarrow> i64_of_int (- sint secs); Some (s, 0) }
              else do {
                m \<leftarrow> i64_of_int (- sint secs);
                s \<leftarrow> i64_of_int (sint m - 1);
                n \<leftarrow> i64_of_int (1000000000 - sint nsecs);
                Some (s, n) })"

definition secs_nsecs_to_system_time :: "i64 \<Rightarrow> i64 \<Rightarrow> system_time option" where
  "secs_nsecs_to_system_time secs nsecs =
     (if 0 \<le> sint secs
      then do { d \<leftarrow> duration_new secs (ucast nsecs); time_plus UNIX_EPOCH d }
      else do {
        m \<leftarrow> i64_of_int (- sint secs);
        d \<leftarrow> duration_new m 0;
        t \<leftarrow> time_minus UNIX_EPOCH d;
        e \<leftarrow> duration_new 0 (ucast nsecs);
        time_plus t e })"

text \<open>Splitting a time is division with a non-negative remainder, on both sides of the epoch.\<close>

lemma neg_div_mod_1e9:
  fixes d :: int
  shows "(- d) div 1000000000 = (if d mod 1000000000 = 0 then - (d div 1000000000) else - (d div 1000000000) - 1)"
    "(- d) mod 1000000000 = (if d mod 1000000000 = 0 then 0 else 1000000000 - d mod 1000000000)"
  by (simp_all add: zdiv_zminus1_eq_if zmod_zminus1_eq_if)

lemma time_okD: "time_ok t \<Longrightarrow> - (2 ^ 63) \<le> t div 1000000000 \<and> t div 1000000000 < 2 ^ 63"
  by (auto simp: time_ok_def)

lemma sint_nsec [simp]: "sint (word_of_int (t mod 1000000000) :: i64) = t mod 1000000000"
proof (rule sint_word_of_int_64)
  have "0 \<le> t mod 1000000000" "t mod 1000000000 < 1000000000" by simp_all
  then show "- (2 ^ 63) \<le> t mod 1000000000" "t mod 1000000000 < 2 ^ 63" by simp_all
qed

lemma time_split_pos:
  assumes "time_ok t" "0 \<le> t"
  shows "system_time_to_secs_nsecs t = Some (word_of_int (t div 1000000000), word_of_int (t mod 1000000000))"
  using assms by (simp add: system_time_to_secs_nsecs_def UNIX_EPOCH_def Let_def)

lemma time_split_neg:
  assumes "time_ok t" "t < 0" "t \<noteq> - (2 ^ 63) * 1000000000"
  shows "system_time_to_secs_nsecs t = Some (word_of_int (t div 1000000000), word_of_int (t mod 1000000000))"
proof -
  define d where "d = - t"
  have t: "t = - d" by (simp add: d_def)
  have d: "0 < d" "d < 2 ^ 63 * 1000000000" using assms by (auto simp: time_ok_def d_def)
  then have q: "0 \<le> d div 1000000000" "d div 1000000000 < 2 ^ 63" by auto
  have s: "sint (word_of_int (d div 1000000000) :: i64) = d div 1000000000"
    by (rule sint_word_of_int_64) (use q in auto)
  have r: "0 \<le> d mod 1000000000" "d mod 1000000000 < 1000000000" by simp_all
  have z: "(word_of_int (d mod 1000000000) :: i64) = 0 \<longleftrightarrow> d mod 1000000000 = 0"
    by (metis sint_nsec sint_0 of_int_0)
  have m: "i64_of_int (- (d div 1000000000)) = Some (word_of_int (- (d div 1000000000)))"
    by (rule i64_of_int_in) (use q in auto)
  have sm: "sint (word_of_int (- (d div 1000000000)) :: i64) = - (d div 1000000000)"
    by (rule sint_word_of_int_64) (use q in auto)
  have m1: "i64_of_int (- (d div 1000000000) - 1) = Some (word_of_int (- (d div 1000000000) - 1))"
    by (rule i64_of_int_in) (use q in auto)
  have n: "i64_of_int (1000000000 - d mod 1000000000) = Some (word_of_int (1000000000 - d mod 1000000000))"
    by (rule i64_of_int_in) (use r in auto)
  show ?thesis
    using d(1) by (simp add: system_time_to_secs_nsecs_def UNIX_EPOCH_def t Let_def s z m sm m1 n neg_div_mod_1e9
        del: of_int_minus of_int_diff)
qed

lemma time_split:
  "time_ok t \<Longrightarrow> t \<noteq> - (2 ^ 63) * 1000000000 \<Longrightarrow>
    system_time_to_secs_nsecs t = Some (word_of_int (t div 1000000000), word_of_int (t mod 1000000000))"
  using time_split_pos time_split_neg by (cases "0 \<le> t") auto

lemma uint_nsec_u32:
  assumes "0 \<le> sint (nsecs :: i64)" "sint nsecs < 1000000000" shows "uint (ucast nsecs :: u32) = sint nsecs"
  using assms uint_of_sint_nonneg [OF assms(1)] by (simp add: uint_up_ucast is_up unsigned_ucast_eq take_bit_int_eq_self)

text \<open>Joining a pair with a proper nanosecond part gives the time, unless negating the seconds overflows.\<close>

lemma time_join:
  assumes "0 \<le> sint nsecs" "sint nsecs < 1000000000"
  shows "secs_nsecs_to_system_time secs nsecs =
    (if sint secs = - (2 ^ 63) then None else Some (sint secs * 1000000000 + sint nsecs))"
proof (cases "0 \<le> sint secs")
  case True
  with assms i64_range(2) [of secs] show ?thesis
    by (simp add: secs_nsecs_to_system_time_def duration_new_def uint_of_sint_nonneg uint_nsec_u32 time_plus_def time_ok_def
        UNIX_EPOCH_def)
next
  case False
  note r = i64_range(1) [of secs]
  show ?thesis
  proof (cases "sint secs = - (2 ^ 63)")
    case True
    then show ?thesis by (simp add: secs_nsecs_to_system_time_def i64_of_int_def)
  next
    case neq: False
    have m: "i64_of_int (- sint secs) = Some (word_of_int (- sint secs))"
      by (rule i64_of_int_in) (use neq r False in auto)
    have "sint (word_of_int (- sint secs) :: i64) = - sint secs"
      by (rule sint_word_of_int_64) (use neq r False in auto)
    then have u: "uint (word_of_int (- sint secs) :: i64) = - sint secs"
      using False by (subst uint_of_sint_nonneg) auto
    from False neq r assms show ?thesis
      by (simp add: secs_nsecs_to_system_time_def m duration_new_def u uint_nsec_u32 time_plus_def time_minus_def time_ok_def
          UNIX_EPOCH_def del: of_int_minus)
  qed
qed

section \<open>Attributes\<close>

text \<open>The \<^verbatim>\<open>stat\<close> struct of 64-bit Linux. The fields not written are zero.\<close>

record raw_stat =
  st_ino :: u64
  st_mode :: u32
  st_nlink :: u64
  st_uid :: u32
  st_gid :: u32
  st_rdev :: u64
  st_size :: i64
  st_blocks :: i64
  st_blksize :: i64
  st_atim :: "i64 \<times> i64"
  st_mtim :: "i64 \<times> i64"
  st_ctim :: "i64 \<times> i64"

definition zeroed_stat :: raw_stat where
  "zeroed_stat = \<lparr>st_ino = 0, st_mode = 0, st_nlink = 0, st_uid = 0, st_gid = 0, st_rdev = 0, st_size = 0, st_blocks = 0,
     st_blksize = 0, st_atim = (0, 0), st_mtim = (0, 0), st_ctim = (0, 0)\<rparr>"

definition attr_to_stat :: "u64 \<Rightarrow> node_attr \<Rightarrow> raw_stat option" where
  "attr_to_stat ino attr = do {
     atime \<leftarrow> system_time_to_secs_nsecs (na_atime attr);
     mtime \<leftarrow> system_time_to_secs_nsecs (na_mtime attr);
     ctime \<leftarrow> system_time_to_secs_nsecs (na_ctime attr);
     Some (zeroed_stat\<lparr>
       st_ino := ino,
       st_mode := kind_to_mode_bits (na_kind attr) OR (ucast (na_perm attr) AND PERM_MASK),
       st_nlink := ucast (na_nlink attr),
       st_uid := na_uid attr,
       st_gid := na_gid attr,
       st_rdev := ucast (na_rdev attr),
       st_size := na_size attr,
       st_blocks := na_blocks attr,
       st_blksize := ucast (na_blksize attr),
       st_atim := atime, st_mtim := mtime, st_ctim := ctime\<rparr>) }"

text \<open>
  The parameters of an entry reply. The timeouts, which the code converts to floating-point seconds,
  are kept in nanoseconds.
\<close>

record entry_param =
  ep_ino :: u64
  ep_generation :: u64
  ep_attr :: raw_stat
  ep_attr_timeout :: nat
  ep_entry_timeout :: nat

definition entry_to_entry_param :: "u64 \<Rightarrow> u64 \<Rightarrow> node_attr \<Rightarrow> nat \<Rightarrow> entry_param option" where
  "entry_to_entry_param ino generation attr ttl = do {
     st \<leftarrow> attr_to_stat ino attr;
     Some \<lparr>ep_ino = ino, ep_generation = generation, ep_attr = st, ep_attr_timeout = ttl, ep_entry_timeout = ttl\<rparr> }"

definition negative_entry_param :: "nat \<Rightarrow> entry_param" where
  "negative_entry_param ttl =
     \<lparr>ep_ino = 0, ep_generation = 0, ep_attr = zeroed_stat, ep_attr_timeout = 0, ep_entry_timeout = ttl\<rparr>"

subsection \<open>Decoding \<^verbatim>\<open>setattr\<close>\<close>

text \<open>
  The bits of \<^verbatim>\<open>to_set\<close> are constants of \<^verbatim>\<open>fuse_lowlevel.h\<close>, which the bindings take from the
  installed header: they are a parameter here. What the code relies on is that they are pairwise
  disjoint single bits.
\<close>

record to_set_bits =
  fs_mode_bit :: nat
  fs_uid_bit :: nat
  fs_gid_bit :: nat
  fs_size_bit :: nat
  fs_atime_bit :: nat
  fs_mtime_bit :: nat
  fs_atime_now_bit :: nat
  fs_mtime_now_bit :: nat
  fs_ctime_bit :: nat

definition bit_list :: "to_set_bits \<Rightarrow> nat list" where
  "bit_list B = [fs_mode_bit B, fs_uid_bit B, fs_gid_bit B, fs_size_bit B, fs_atime_bit B, fs_mtime_bit B, fs_atime_now_bit B,
     fs_mtime_now_bit B, fs_ctime_bit B]"

definition distinct_bits :: "to_set_bits \<Rightarrow> bool" where
  "distinct_bits B \<longleftrightarrow> distinct (bit_list B) \<and> list_all (\<lambda>i. i < 32) (bit_list B)"

text \<open>\<^verbatim>\<open>to_set & FLAG != 0\<close>.\<close>

definition has_flag :: "u32 \<Rightarrow> nat \<Rightarrow> bool" where
  "has_flag to_set i \<longleftrightarrow> to_set AND push_bit i 1 \<noteq> 0"

definition time_field :: "u32 \<Rightarrow> nat \<Rightarrow> nat \<Rightarrow> i64 \<times> i64 \<Rightarrow> time_or_now option option" where
  "time_field to_set now_bit at_bit ts =
     (if has_flag to_set now_bit then Some (Some Now)
      else if has_flag to_set at_bit
      then do { t \<leftarrow> secs_nsecs_to_system_time (fst ts) (snd ts); Some (Some (SpecificTime t)) }
      else Some None)"

definition ctime_field :: "u32 \<Rightarrow> nat \<Rightarrow> i64 \<times> i64 \<Rightarrow> system_time option option" where
  "ctime_field to_set at_bit ts =
     (if has_flag to_set at_bit then do { t \<leftarrow> secs_nsecs_to_system_time (fst ts) (snd ts); Some (Some t) } else Some None)"

definition setattr_from_raw :: "to_set_bits \<Rightarrow> raw_stat option \<Rightarrow> i32 \<Rightarrow> set_attr option" where
  "setattr_from_raw B attr to_set = (case attr of
     None \<Rightarrow> Some default_set_attr
   | Some st \<Rightarrow> do {
       atime \<leftarrow> time_field to_set (fs_atime_now_bit B) (fs_atime_bit B) (st_atim st);
       mtime \<leftarrow> time_field to_set (fs_mtime_now_bit B) (fs_mtime_bit B) (st_mtim st);
       ctime \<leftarrow> ctime_field to_set (fs_ctime_bit B) (st_ctim st);
       Some (default_set_attr\<lparr>
         sa_mode := if has_flag to_set (fs_mode_bit B) then Some (st_mode st) else None,
         sa_uid := if has_flag to_set (fs_uid_bit B) then Some (st_uid st) else None,
         sa_gid := if has_flag to_set (fs_gid_bit B) then Some (st_gid st) else None,
         sa_size := if has_flag to_set (fs_size_bit B) then Some (st_size st) else None,
         sa_atime := atime, sa_mtime := mtime, sa_ctime := ctime\<rparr>) })"

section \<open>Filesystem statistics\<close>

record raw_statvfs =
  f_bsize :: u64
  f_frsize :: u64
  f_blocks :: u64
  f_bfree :: u64
  f_bavail :: u64
  f_files :: u64
  f_ffree :: u64
  f_namemax :: u64

definition statfs_to_raw :: "stat_fs \<Rightarrow> raw_statvfs" where
  "statfs_to_raw s = \<lparr>f_bsize = ucast (sf_bsize s), f_frsize = ucast (sf_frsize s), f_blocks = sf_blocks s, f_bfree = sf_bfree s,
     f_bavail = sf_bavail s, f_files = sf_files s, f_ffree = sf_ffree s, f_namemax = ucast (sf_namelen s)\<rparr>"

section \<open>What the conversions keep\<close>

subsection \<open>Requests\<close>

text \<open>
  The kernel's side of \<^verbatim>\<open>setattr\<close>, as specification: which bits a request sets and which values
  it stores.
\<close>

definition opt_bit :: "bool \<Rightarrow> nat \<Rightarrow> nat list" where
  "opt_bit b i = (if b then [i] else [])"

definition request_bits :: "to_set_bits \<Rightarrow> set_attr \<Rightarrow> nat list" where
  "request_bits B s =
     opt_bit (sa_mode s \<noteq> None) (fs_mode_bit B) @ opt_bit (sa_uid s \<noteq> None) (fs_uid_bit B) @
     opt_bit (sa_gid s \<noteq> None) (fs_gid_bit B) @ opt_bit (sa_size s \<noteq> None) (fs_size_bit B) @
     opt_bit (sa_atime s \<noteq> None) (fs_atime_bit B) @ opt_bit (sa_atime s = Some Now) (fs_atime_now_bit B) @
     opt_bit (sa_mtime s \<noteq> None) (fs_mtime_bit B) @ opt_bit (sa_mtime s = Some Now) (fs_mtime_now_bit B) @
     opt_bit (sa_ctime s \<noteq> None) (fs_ctime_bit B)"

definition encode_bits :: "nat list \<Rightarrow> u32" where
  "encode_bits is = foldr (\<lambda>i w. push_bit i 1 OR w) is 0"

definition split_time :: "system_time \<Rightarrow> i64 \<times> i64" where
  "split_time t = (word_of_int (t div 1000000000), word_of_int (t mod 1000000000))"

fun chosen_time :: "time_or_now option \<Rightarrow> i64 \<times> i64" where
  "chosen_time (Some (SpecificTime t)) = split_time t"
| "chosen_time _ = (0, 0)"

definition request_stat :: "set_attr \<Rightarrow> raw_stat" where
  "request_stat s = zeroed_stat\<lparr>
     st_mode := (case sa_mode s of None \<Rightarrow> 0 | Some m \<Rightarrow> m),
     st_uid := (case sa_uid s of None \<Rightarrow> 0 | Some u \<Rightarrow> u),
     st_gid := (case sa_gid s of None \<Rightarrow> 0 | Some g \<Rightarrow> g),
     st_size := (case sa_size s of None \<Rightarrow> 0 | Some z \<Rightarrow> z),
     st_atim := chosen_time (sa_atime s), st_mtim := chosen_time (sa_mtime s),
     st_ctim := (case sa_ctime s of None \<Rightarrow> (0, 0) | Some t \<Rightarrow> split_time t)\<rparr>"

text \<open>Times whose seconds can be negated, and requests made of them that Linux can express.\<close>

definition time_safe :: "system_time \<Rightarrow> bool" where
  "time_safe t \<longleftrightarrow> - (2 ^ 63 - 1) * 1000000000 \<le> t \<and> t < 2 ^ 63 * 1000000000"

fun time_or_now_safe :: "time_or_now option \<Rightarrow> bool" where
  "time_or_now_safe (Some (SpecificTime t)) = time_safe t"
| "time_or_now_safe _ = True"

definition linux_request :: "set_attr \<Rightarrow> bool" where
  "linux_request s \<longleftrightarrow> sa_crtime s = None \<and> sa_flags s = None \<and> time_or_now_safe (sa_atime s) \<and>
     time_or_now_safe (sa_mtime s) \<and> (case sa_ctime s of None \<Rightarrow> True | Some t \<Rightarrow> time_safe t)"

lemma time_safe_join: "time_safe t \<Longrightarrow> secs_nsecs_to_system_time (fst (split_time t)) (snd (split_time t)) = Some t"
proof -
  assume "time_safe t"
  then have q: "- (2 ^ 63) < t div 1000000000" "t div 1000000000 < 2 ^ 63" by (auto simp: time_safe_def)
  then have "sint (word_of_int (t div 1000000000) :: i64) = t div 1000000000"
    by (intro sint_word_of_int_64) auto
  with q show ?thesis by (simp add: split_time_def time_join)
qed

lemma time_safe_split: "time_safe t \<Longrightarrow> system_time_to_secs_nsecs t = Some (split_time t)"
  unfolding split_time_def by (rule time_split) (auto simp: time_safe_def time_ok_def)

lemma has_flag_iff: "i < 32 \<Longrightarrow> has_flag w i \<longleftrightarrow> bit w i"
proof -
  assume i: "i < 32"
  have "w AND push_bit i 1 = 0 \<longleftrightarrow> (\<forall>j. \<not> bit (w AND push_bit i 1) j)"
    by (auto intro: bit_word_eqI)
  with i show ?thesis by (simp only: has_flag_def bit_and_iff bit_push_1) auto
qed

lemma bit_encode: "j < 32 \<Longrightarrow> bit (encode_bits is) j \<longleftrightarrow> j \<in> set is"
  by (induction "is") (auto simp: encode_bits_def bit_or_iff bit_exp_iff)

lemma in_opt_bit [simp]: "j \<in> set (opt_bit b i) \<longleftrightarrow> b \<and> j = i"
  by (auto simp: opt_bit_def)

lemma flag_encode: "i < 32 \<Longrightarrow> has_flag (encode_bits is) i \<longleftrightarrow> i \<in> set is"
  by (simp add: has_flag_iff bit_encode)

lemma request_flags:
  fixes s :: set_attr
  assumes "distinct_bits B"
  defines "w \<equiv> encode_bits (request_bits B s)"
  shows "has_flag w (fs_mode_bit B) \<longleftrightarrow> sa_mode s \<noteq> None" "has_flag w (fs_uid_bit B) \<longleftrightarrow> sa_uid s \<noteq> None"
    "has_flag w (fs_gid_bit B) \<longleftrightarrow> sa_gid s \<noteq> None" "has_flag w (fs_size_bit B) \<longleftrightarrow> sa_size s \<noteq> None"
    "has_flag w (fs_atime_bit B) \<longleftrightarrow> sa_atime s \<noteq> None" "has_flag w (fs_atime_now_bit B) \<longleftrightarrow> sa_atime s = Some Now"
    "has_flag w (fs_mtime_bit B) \<longleftrightarrow> sa_mtime s \<noteq> None" "has_flag w (fs_mtime_now_bit B) \<longleftrightarrow> sa_mtime s = Some Now"
    "has_flag w (fs_ctime_bit B) \<longleftrightarrow> sa_ctime s \<noteq> None"
  using assms(1) unfolding w_def distinct_bits_def bit_list_def
  by (simp_all add: flag_encode request_bits_def not_sym)

lemma time_field_request:
  assumes "has_flag w now \<longleftrightarrow> x = Some Now" "has_flag w at \<longleftrightarrow> x \<noteq> None" "time_or_now_safe x"
  shows "time_field w now at (chosen_time x) = Some x"
proof (cases x)
  case (Some y)
  with assms show ?thesis by (cases y) (simp_all add: time_field_def time_safe_join)
qed (use assms in \<open>simp add: time_field_def\<close>)

text \<open>
  C35. Decoding a \<^verbatim>\<open>setattr\<close> request recovers exactly what the kernel encoded: for every request
  that Linux can express (no creation time, no flags, times whose seconds are above the least 64-bit
  value) and every assignment of distinct bits to the fields, \<open>setattr_from_raw\<close> returns the request,
  a time-of-now bit taking precedence over the explicit time.
\<close>

theorem setattr_roundtrip:
  assumes "distinct_bits B" "linux_request s"
  shows "setattr_from_raw B (Some (request_stat s)) (encode_bits (request_bits B s)) = Some s"
proof -
  note fl = request_flags [OF assms(1), of s]
  let ?w = "encode_bits (request_bits B s)"
  have t: "time_field ?w (fs_atime_now_bit B) (fs_atime_bit B) (chosen_time (sa_atime s)) = Some (sa_atime s)"
    "time_field ?w (fs_mtime_now_bit B) (fs_mtime_bit B) (chosen_time (sa_mtime s)) = Some (sa_mtime s)"
    using assms(2) by (intro time_field_request fl; simp add: linux_request_def)+
  have c: "ctime_field ?w (fs_ctime_bit B) (st_ctim (request_stat s)) = Some (sa_ctime s)"
    using assms(2) by (auto simp: ctime_field_def fl(9) linux_request_def request_stat_def time_safe_join split: option.splits)
  have st: "st_atim (request_stat s) = chosen_time (sa_atime s)" "st_mtim (request_stat s) = chosen_time (sa_mtime s)"
    by (simp_all add: request_stat_def)
  show ?thesis
    using assms(2) unfolding setattr_from_raw_def
    by (simp add: st t c fl linux_request_def default_set_attr_def)
      (auto simp: request_stat_def intro!: set_attr.equality split: option.splits)
qed

text \<open>The bits of \<^verbatim>\<open>fuse_lowlevel.h\<close>.\<close>

definition header_bits :: to_set_bits where
  "header_bits = \<lparr>fs_mode_bit = 0, fs_uid_bit = 1, fs_gid_bit = 2, fs_size_bit = 3, fs_atime_bit = 4, fs_mtime_bit = 5,
     fs_atime_now_bit = 7, fs_mtime_now_bit = 8, fs_ctime_bit = 10\<rparr>"

definition touch_request :: set_attr where
  "touch_request = default_set_attr\<lparr>sa_size := Some 5, sa_atime := Some Now, sa_mtime := Some (SpecificTime (- 1))\<rparr>"

theorem setattr_roundtrip_witness:
  "setattr_from_raw header_bits (Some (request_stat touch_request)) (encode_bits (request_bits header_bits touch_request)) =
    Some touch_request"
  by (rule setattr_roundtrip)
    (simp_all add: distinct_bits_def bit_list_def header_bits_def linux_request_def touch_request_def default_set_attr_def
      time_safe_def)

text \<open>
  C36. A reply's \<^verbatim>\<open>stat\<close> carries the attributes: kind and permission bits read back from the mode
  word, sizes, counts and owners are unchanged, and the three times read back exactly, also before the
  epoch.
\<close>

theorem attr_stat_roundtrip:
  assumes "time_safe (na_atime a)" "time_safe (na_mtime a)" "time_safe (na_ctime a)"
  shows "\<exists>st. attr_to_stat n a = Some st \<and> st_ino st = n \<and> mode_bits_to_kind (st_mode st) = Some (na_kind a) \<and>
    st_mode st AND PERM_MASK = ucast (na_perm a) AND PERM_MASK \<and> unat (st_nlink st) = unat (na_nlink a) \<and>
    st_uid st = na_uid a \<and> st_gid st = na_gid a \<and> unat (st_rdev st) = unat (na_rdev a) \<and> st_size st = na_size a \<and>
    st_blocks st = na_blocks a \<and> unat (st_blksize st) = unat (na_blksize a) \<and>
    case_prod secs_nsecs_to_system_time (st_atim st) = Some (na_atime a) \<and>
    case_prod secs_nsecs_to_system_time (st_mtim st) = Some (na_mtime a) \<and>
    case_prod secs_nsecs_to_system_time (st_ctim st) = Some (na_ctime a)"
proof -
  have w: "unat (ucast (x :: u32) :: u64) = unat x" for x
    by (simp add: unsigned_ucast_eq take_bit_nat_eq_self order_less_trans [OF unsigned_less])
  show ?thesis
    using assms time_safe_join [of "na_atime a"] time_safe_join [of "na_mtime a"] time_safe_join [of "na_ctime a"]
    by (simp add: attr_to_stat_def time_safe_split mode_of_kind mode_bits_to_kind_kind w case_prod_beta)
qed

definition old_attr :: node_attr where
  "old_attr = default_attr\<lparr>na_kind := Symlink, na_perm := 0x1FF, na_size := 5, na_mtime := - 1\<rparr>"

theorem attr_stat_roundtrip_witness:
  "\<exists>st. attr_to_stat 9 old_attr = Some st \<and> mode_bits_to_kind (st_mode st) = Some Symlink \<and> st_mode st AND PERM_MASK = 0x1FF \<and>
    case_prod secs_nsecs_to_system_time (st_mtim st) = Some (- 1)"
  using attr_stat_roundtrip [of old_attr 9]
  by (auto simp: old_attr_def default_attr_def UNIX_EPOCH_def time_safe_def PERM_MASK_def)

text \<open>
  C37. For every representable time, splitting it into seconds and nanoseconds is division with a
  non-negative remainder, and joining the parts gives the time back. The only failures are at the end
  of the range: the least time cannot be split, and no time in the least second can be joined, because
  the code negates the seconds.
\<close>

theorem time_roundtrip:
  assumes "time_ok t"
  shows "(system_time_to_secs_nsecs t = None \<longleftrightarrow> t = - (2 ^ 63) * 1000000000) \<and>
    (case system_time_to_secs_nsecs t of
       None \<Rightarrow> True
     | Some (s, n) \<Rightarrow> sint s = t div 1000000000 \<and> sint n = t mod 1000000000 \<and>
         secs_nsecs_to_system_time s n = (if t div 1000000000 = - (2 ^ 63) then None else Some t))"
proof (cases "t = - (2 ^ 63) * 1000000000")
  case True
  have "sint (word_of_int (2 ^ 63) :: i64) = - (2 ^ 63)" by (simp add: sint_sbintrunc')
  then have "i64_of_int (- sint (word_of_int (2 ^ 63) :: i64)) = None" by (simp add: i64_of_int_def)
  then have "system_time_to_secs_nsecs t = None"
    by (simp add: True system_time_to_secs_nsecs_def UNIX_EPOCH_def Let_def)
  with True show ?thesis by simp
next
  case False
  note q = time_okD [OF assms]
  then have "sint (word_of_int (t div 1000000000) :: i64) = t div 1000000000"
    by (intro sint_word_of_int_64) auto
  with time_split [OF assms False] False show ?thesis by (simp add: time_join)
qed

theorem time_roundtrip_witness:
  "time_ok (- 1500000000) \<and> system_time_to_secs_nsecs (- 1500000000) = Some (word_of_int (- 2), 500000000) \<and>
    system_time_to_secs_nsecs (- (2 ^ 63) * 1000000000) = None"
  using time_roundtrip [of "- 1500000000"] time_roundtrip [of "- (2 ^ 63) * 1000000000"] time_split [of "- 1500000000"]
  by (simp add: time_ok_def)

end
