(* ===== verification/Memory_Fs.thy ===== *)
theory Memory_Fs
  imports Fs_Calls Conv
begin

unbundle bit_operations_syntax

text \<open>
  The in-memory filesystem (\<^verbatim>\<open>examples/memory_fs.rs\<close>), a full implementation of \<^verbatim>\<open>NodeFs\<close>. Its nodes live in the store of
  the runtime; each holds its data behind a lock. One definition per method, and \<open>memory_fs_ops\<close> collects them.

  The methods run one after another here, so a lock is never contended; what remains of it is its poisoning: a panic while a
  write guard is held leaves the lock poisoned, and every later \<^verbatim>\<open>unwrap\<close> of it panics. The clock is a sequence of readings.
\<close>

section \<open>Data\<close>

record mem_entry =
  me_id :: node_id
  me_kind :: file_kind

datatype content =
    DirContent "(os_str, mem_entry) btree"
  | FileContent bytes
  | SymlinkContent os_str
  | SpecialContent

record node_data =
  nd_kind :: file_kind
  nd_content :: content
  nd_perm :: u16
  nd_uid :: u32
  nd_gid :: u32
  nd_rdev :: u32
  nd_nlink :: u32
  nd_atime :: system_time
  nd_mtime :: system_time
  nd_ctime :: system_time
  nd_crtime :: system_time
  nd_xattrs :: "(os_str, bytes) btree"

text \<open>\<^verbatim>\<open>RwLock<NodeData>\<close>: the data, and whether the lock is poisoned.\<close>

record mem_node =
  mn_poisoned :: bool
  mn_data :: node_data

record memory_fs =
  mf_uid :: u32
  mf_gid :: u32
  mf_clock :: "nat \<Rightarrow> system_time"
  mf_ticks :: nat

type_synonym 'a mem_call = "(memory_fs, mem_node, 'a) call"

definition memory_fs_new :: "u32 \<Rightarrow> u32 \<Rightarrow> (nat \<Rightarrow> system_time) \<Rightarrow> memory_fs" where
  "memory_fs_new uid gid clock = \<lparr>mf_uid = uid, mf_gid = gid, mf_clock = clock, mf_ticks = 0\<rparr>"

text \<open>\<^verbatim>\<open>SystemTime::now()\<close>, wherever the filesystem itself is part of the state.\<close>

definition tick :: "memory_fs \<Rightarrow> system_time \<times> memory_fs" where
  "tick fs = (mf_clock fs (mf_ticks fs), fs\<lparr>mf_ticks := Suc (mf_ticks fs)\<rparr>)"

definition system_now :: "(memory_fs \<times> 'x, errno, system_time) prog" where
  "system_now s = (case tick (fst s) of (t, fs) \<Rightarrow> (Ok t, (fs, snd s)))"

definition node_data_new :: "system_time \<Rightarrow> file_kind \<Rightarrow> content \<Rightarrow> u16 \<Rightarrow> u32 \<Rightarrow> u32 \<Rightarrow> u32 \<Rightarrow> node_data" where
  "node_data_new now kind content perm uid gid rdev =
     \<lparr>nd_kind = kind, nd_content = content, nd_perm = perm, nd_uid = uid, nd_gid = gid, nd_rdev = rdev,
      nd_nlink = (if kind = Directory then 2 else 1),
      nd_atime = now, nd_mtime = now, nd_ctime = now, nd_crtime = now, nd_xattrs = []\<rparr>"

definition mem_node_new :: "system_time \<Rightarrow> file_kind \<Rightarrow> content \<Rightarrow> u16 \<Rightarrow> u32 \<Rightarrow> u32 \<Rightarrow> u32 \<Rightarrow> mem_node" where
  "mem_node_new now kind content perm uid gid rdev =
     \<lparr>mn_poisoned = False, mn_data = node_data_new now kind content perm uid gid rdev\<rparr>"

definition nd_size :: "node_data \<Rightarrow> u64" where
  "nd_size d = (case nd_content d of
     FileContent v \<Rightarrow> of_nat (length v)
   | SymlinkContent s \<Rightarrow> of_nat (length s)
   | DirContent entries \<Rightarrow> of_nat (length entries)
   | SpecialContent \<Rightarrow> 0)"

definition nd_attr :: "node_data \<Rightarrow> node_attr" where
  "nd_attr d = default_attr\<lparr>na_size := nd_size d, na_kind := nd_kind d, na_perm := nd_perm d, na_uid := nd_uid d,
     na_gid := nd_gid d, na_rdev := nd_rdev d, na_nlink := nd_nlink d, na_atime := nd_atime d, na_mtime := nd_mtime d,
     na_ctime := nd_ctime d, na_crtime := nd_crtime d\<rparr>"

definition touch :: "system_time \<Rightarrow> node_data \<Rightarrow> node_data" where
  "touch now d = d\<lparr>nd_mtime := now, nd_ctime := now\<rparr>"

section \<open>Guards\<close>

text \<open>\<^verbatim>\<open>Node::read\<close>: a panic under a read guard does not poison the lock.\<close>

definition read_node :: "addr \<Rightarrow> (node_data \<Rightarrow> 'a result) \<Rightarrow> 'a mem_call" where
  "read_node a f s = (let n = payload (snd s) a in if mn_poisoned n then (Panic, s) else (f (mn_data n), s))"

text \<open>\<^verbatim>\<open>Node::write\<close>: the body runs on the data and may read the clock; a panic poisons the lock.\<close>

definition write_node :: "addr \<Rightarrow> (memory_fs \<times> node_data, errno, 'a) prog \<Rightarrow> 'a mem_call" where
  "write_node a body s = (case s of (fs, sh) \<Rightarrow>
     let n = payload sh a in
     if mn_poisoned n then (Panic, s)
     else (case body (fs, mn_data n) of (r, (fs', d)) \<Rightarrow>
       (r, (fs', set_payload a \<lparr>mn_poisoned = (case r of Panic \<Rightarrow> True | _ \<Rightarrow> False), mn_data = d\<rparr> sh))))"

definition modify :: "(node_data \<Rightarrow> node_data) \<Rightarrow> (memory_fs \<times> node_data, errno, unit) prog" where
  "modify f s = (Ok (), (fst s, f (snd s)))"

text \<open>\<^verbatim>\<open>if let Some(node) = cx.get(id) { let mut node = node.write(); .. }\<close>\<close>

definition write_leased :: "node_id \<Rightarrow> (memory_fs \<times> node_data, errno, unit) prog \<Rightarrow> unit mem_call" where
  "write_leased nid body = lease_or (ret ()) nid (\<lambda>a. write_node a body)"

section \<open>Directories\<close>

definition check_new_entry :: "node_id \<Rightarrow> os_str \<Rightarrow> unit mem_call" where
  "check_new_entry parent name = leased parent (\<lambda>a. read_node a (\<lambda>d.
     case nd_content d of
       DirContent entries \<Rightarrow> if bt_get entries name \<noteq> None then Err EEXIST else Ok ()
     | _ \<Rightarrow> Err ENOTDIR))"

definition mem_entry_of :: "node_id \<Rightarrow> os_str \<Rightarrow> mem_entry mem_call" where
  "mem_entry_of parent name = leased parent (\<lambda>a. read_node a (\<lambda>d.
     case nd_content d of
       DirContent entries \<Rightarrow> (case bt_get entries name of None \<Rightarrow> Err ENOENT | Some e \<Rightarrow> Ok e)
     | _ \<Rightarrow> Err ENOTDIR))"

definition mem_kind :: "node_id \<Rightarrow> file_kind mem_call" where
  "mem_kind nid = leased nid (\<lambda>a. read_node a (\<lambda>d. Ok (nd_kind d)))"

definition put_entry :: "os_str \<Rightarrow> mem_entry \<Rightarrow> node_data \<Rightarrow> node_data" where
  "put_entry name e d = (case nd_content d of
     DirContent entries \<Rightarrow> d\<lparr>nd_content := DirContent (bt_insert name e entries)\<rparr> | _ \<Rightarrow> d)"

definition remove_name :: "os_str \<Rightarrow> node_data \<Rightarrow> node_data" where
  "remove_name name d = (case nd_content d of
     DirContent entries \<Rightarrow> d\<lparr>nd_content := DirContent (bt_remove name entries)\<rparr> | _ \<Rightarrow> d)"

text \<open>\<^verbatim>\<open>node.nlink += 1\<close> and \<^verbatim>\<open>node.nlink = node.nlink.saturating_sub(1)\<close>\<close>

definition more_links :: "(memory_fs \<times> node_data, errno, unit) prog" where
  "more_links s = (case checked_add (nd_nlink (snd s)) 1 of
     None \<Rightarrow> (Panic, s) | Some n \<Rightarrow> (Ok (), (fst s, (snd s)\<lparr>nd_nlink := n\<rparr>)))"

definition fewer_links :: "node_data \<Rightarrow> node_data" where
  "fewer_links d = d\<lparr>nd_nlink := saturating_sub (nd_nlink d) 1\<rparr>"

definition link_into :: "node_id \<Rightarrow> os_str \<Rightarrow> mem_entry \<Rightarrow> system_time \<Rightarrow> unit mem_call" where
  "link_into parent name e now = write_leased parent (
     bnd (modify (put_entry name e)) (\<lambda>_.
     bnd (if me_kind e = Directory then more_links else ret ()) (\<lambda>_.
     modify (touch now))))"

definition insert_node :: "'n \<Rightarrow> node_id \<Rightarrow> ('fs, 'n, node_id) call" where
  "insert_node p parent s = (case s of (fs, sh) \<Rightarrow> (case cx_insert p parent sh of (r, sh') \<Rightarrow> (r, (fs, sh'))))"

definition create_child :: "node_id \<Rightarrow> os_str \<Rightarrow> file_kind \<Rightarrow> content \<Rightarrow> u16 \<Rightarrow> u32 \<Rightarrow> node_id mem_call" where
  "create_child parent name kind content perm rdev =
     bnd (check_new_entry parent name) (\<lambda>_.
     bnd system_now (\<lambda>now. (\<lambda>s.
       bnd (insert_node (mem_node_new now kind content perm (mf_uid (fst s)) (mf_gid (fst s)) rdev) parent) (\<lambda>nid.
       bnd system_now (\<lambda>now.
       bnd (link_into parent name \<lparr>me_id = nid, me_kind = kind\<rparr> now) (\<lambda>_.
       ret nid))) s)))"

section \<open>Attributes\<close>

definition mem_root :: "memory_fs \<Rightarrow> mem_node \<times> memory_fs" where
  "mem_root fs = (case tick fs of (now, fs') \<Rightarrow>
     (mem_node_new now Directory (DirContent []) 0x1ED (mf_uid fs) (mf_gid fs) 0, fs'))"

definition mem_getattr :: "addr \<Rightarrow> unit option \<Rightarrow> caller \<Rightarrow> node_attr mem_call" where
  "mem_getattr a oh c = read_node a (\<lambda>d. Ok (nd_attr d))"

definition mem_opendir :: "addr \<Rightarrow> int \<Rightarrow> caller \<Rightarrow> unit opened mem_call" where
  "mem_opendir a flags c = read_node a (\<lambda>d. if nd_kind d \<noteq> Directory then Err ENOTDIR else Ok (opened_new ()))"

text \<open>
  \<^verbatim>\<open>Vec::resize\<close> panics with a capacity overflow when the length does not fit \<^verbatim>\<open>isize\<close>; that the allocator provides
  what fits is assumed.
\<close>

definition ISIZE_MAX :: nat where
  "ISIZE_MAX = 2 ^ 63 - 1"

definition resize :: "nat \<Rightarrow> bytes \<Rightarrow> bytes option" where
  "resize n bs = (if n \<le> ISIZE_MAX then Some (take n bs @ replicate (n - length bs) 0) else None)"

definition set_owner :: "set_attr \<Rightarrow> node_data \<Rightarrow> node_data" where
  "set_owner sa d =
     (let d = (case sa_mode sa of None \<Rightarrow> d | Some mode \<Rightarrow> d\<lparr>nd_perm := ucast (mode AND PERM_MASK)\<rparr>);
          d = (case sa_uid sa of None \<Rightarrow> d | Some uid \<Rightarrow> d\<lparr>nd_uid := uid\<rparr>)
      in (case sa_gid sa of None \<Rightarrow> d | Some gid \<Rightarrow> d\<lparr>nd_gid := gid\<rparr>))"

definition set_size :: "set_attr \<Rightarrow> (memory_fs \<times> node_data, errno, unit) prog" where
  "set_size sa s = (case (sa_size sa, nd_content (snd s)) of
     (Some sz, FileContent bs) \<Rightarrow> (case resize (unat sz) bs of
        None \<Rightarrow> (Panic, s)
      | Some bs' \<Rightarrow> (Ok (), (fst s, (snd s)\<lparr>nd_content := FileContent bs'\<rparr>)))
   | _ \<Rightarrow> (Ok (), s))"

fun time_or :: "system_time \<Rightarrow> time_or_now \<Rightarrow> system_time" where
  "time_or now (SpecificTime t) = t"
| "time_or now Now = now"

definition set_changed :: "set_attr \<Rightarrow> bool" where
  "set_changed sa \<longleftrightarrow> sa_mode sa \<noteq> None \<or> sa_uid sa \<noteq> None \<or> sa_gid sa \<noteq> None \<or> sa_size sa \<noteq> None \<or>
     sa_atime sa \<noteq> None \<or> sa_mtime sa \<noteq> None"

definition set_times :: "set_attr \<Rightarrow> system_time \<Rightarrow> node_data \<Rightarrow> node_data" where
  "set_times sa now d =
     (let d = (case sa_atime sa of None \<Rightarrow> d | Some t \<Rightarrow> d\<lparr>nd_atime := time_or now t\<rparr>);
          d = (case sa_mtime sa of None \<Rightarrow> d | Some t \<Rightarrow> d\<lparr>nd_mtime := time_or now t\<rparr>)
      in (case sa_ctime sa of
            Some t \<Rightarrow> d\<lparr>nd_ctime := t\<rparr>
          | None \<Rightarrow> if set_changed sa then d\<lparr>nd_ctime := now\<rparr> else d))"

definition mem_setattr :: "addr \<Rightarrow> unit option \<Rightarrow> set_attr \<Rightarrow> caller \<Rightarrow> node_attr mem_call" where
  "mem_setattr a oh sa c = write_node a (
     bnd system_now (\<lambda>now.
     bnd (modify (set_owner sa)) (\<lambda>_.
     bnd (set_size sa) (\<lambda>_.
     bnd (modify (set_times sa now)) (\<lambda>_ s.
     (Ok (nd_attr (snd s)), s))))))"

definition mem_readlink :: "addr \<Rightarrow> caller \<Rightarrow> os_str mem_call" where
  "mem_readlink a c = read_node a (\<lambda>d. case nd_content d of SymlinkContent target \<Rightarrow> Ok target | _ \<Rightarrow> Err EINVAL)"

section \<open>Names\<close>

text \<open>A lookup that reports a missing name as \<open>None\<close>.\<close>

definition optional :: "'a mem_call \<Rightarrow> 'a option mem_call" where
  "optional m s = (case m s of
     (Ok v, s') \<Rightarrow> (Ok (Some v), s')
   | (Err e, s') \<Rightarrow> (if e = ENOENT then Ok None else Err e, s')
   | (Panic, s') \<Rightarrow> (Panic, s')
   | (Blocks, s') \<Rightarrow> (Blocks, s'))"

definition mem_lookup :: "node_id \<Rightarrow> os_str \<Rightarrow> caller \<Rightarrow> node_id option mem_call" where
  "mem_lookup parent name c = bnd (optional (mem_entry_of parent name)) (\<lambda>x. ret (map_option me_id x))"

definition mknod_kind :: "u32 \<Rightarrow> (file_kind \<times> content) option" where
  "mknod_kind mode = (let m = mode AND S_IFMT in
     if m = S_IFREG then Some (RegularFile, FileContent [])
     else if m = S_IFIFO then Some (NamedPipe, SpecialContent)
     else if m = S_IFSOCK then Some (Socket, SpecialContent)
     else if m = S_IFCHR then Some (CharDevice, SpecialContent)
     else if m = S_IFBLK then Some (BlockDevice, SpecialContent)
     else None)"

definition mem_mknod :: "node_id \<Rightarrow> os_str \<Rightarrow> u32 \<Rightarrow> u32 \<Rightarrow> u32 \<Rightarrow> caller \<Rightarrow> node_id mem_call" where
  "mem_mknod parent name mode rdev umask c = (case mknod_kind mode of
     None \<Rightarrow> fail EINVAL
   | Some (kind, content) \<Rightarrow> create_child parent name kind content (ucast (mode AND PERM_MASK)) rdev)"

definition mem_mkdir :: "node_id \<Rightarrow> os_str \<Rightarrow> u32 \<Rightarrow> u32 \<Rightarrow> caller \<Rightarrow> node_id mem_call" where
  "mem_mkdir parent name mode umask c = create_child parent name Directory (DirContent []) (ucast (mode AND PERM_MASK)) 0"

definition mem_symlink :: "node_id \<Rightarrow> os_str \<Rightarrow> os_str \<Rightarrow> caller \<Rightarrow> node_id mem_call" where
  "mem_symlink parent name target c = create_child parent name Symlink (SymlinkContent target) 0x1FF 0"

definition mem_create :: "node_id \<Rightarrow> os_str \<Rightarrow> u32 \<Rightarrow> u32 \<Rightarrow> int \<Rightarrow> caller \<Rightarrow> (node_id \<times> unit opened) mem_call" where
  "mem_create parent name mode umask flags c =
     bnd (create_child parent name RegularFile (FileContent []) (ucast (mode AND PERM_MASK)) 0) (\<lambda>nid. ret (nid, opened_new ()))"

definition mem_unlink :: "node_id \<Rightarrow> os_str \<Rightarrow> caller \<Rightarrow> unit mem_call" where
  "mem_unlink parent name c = bnd (mem_entry_of parent name) (\<lambda>e.
     bnd (mem_kind (me_id e)) (\<lambda>kind.
     if kind = Directory then fail EISDIR
     else bnd system_now (\<lambda>now.
       bnd (write_leased parent (modify (\<lambda>d. touch now (remove_name name d)))) (\<lambda>_.
       bnd (write_leased (me_id e) (modify (\<lambda>d. (fewer_links d)\<lparr>nd_ctime := now\<rparr>))) (\<lambda>_.
       on_nodes (cx_remove_link (me_id e)))))))"

text \<open>The lease on the child lasts to the end of the method.\<close>

definition mem_rmdir :: "node_id \<Rightarrow> os_str \<Rightarrow> caller \<Rightarrow> unit mem_call" where
  "mem_rmdir parent name c = bnd (mem_entry_of parent name) (\<lambda>e.
     leased (me_id e) (\<lambda>child.
       bnd (read_node child (\<lambda>d. case nd_content d of
              DirContent entries \<Rightarrow> if entries = [] then Ok () else Err ENOTEMPTY
            | _ \<Rightarrow> Err ENOTDIR)) (\<lambda>_.
       bnd system_now (\<lambda>now.
       bnd (write_leased parent (modify (\<lambda>d. touch now (fewer_links (remove_name name d))))) (\<lambda>_.
       bnd (write_leased (me_id e) (modify (\<lambda>d. d\<lparr>nd_nlink := 0, nd_ctime := now\<rparr>))) (\<lambda>_.
       on_nodes (cx_remove_link (me_id e))))))))"

text \<open>What may be replaced by a rename: only an empty directory by a directory, only a file by a file.\<close>

definition check_replaced :: "bool \<Rightarrow> node_id \<Rightarrow> unit mem_call" where
  "check_replaced target_is_dir nid = leased nid (\<lambda>a. read_node a (\<lambda>d.
     case nd_content d of
       DirContent entries \<Rightarrow>
         if \<not> target_is_dir then Err EISDIR else if entries \<noteq> [] then Err ENOTEMPTY else Ok ()
     | _ \<Rightarrow> if target_is_dir then Err ENOTDIR else Ok ()))"

definition exchange_entry :: "node_id \<Rightarrow> os_str \<Rightarrow> mem_entry \<Rightarrow> mem_entry option mem_call" where
  "exchange_entry parent name e = lease_or (ret None) parent (\<lambda>a. write_node a (\<lambda>s.
     case nd_content (snd s) of
       DirContent entries \<Rightarrow> (Ok (bt_get entries name), (fst s, put_entry name e (snd s)))
     | _ \<Rightarrow> (Err ENOTDIR, s)))"

definition drop_replaced :: "node_id \<Rightarrow> mem_entry \<Rightarrow> system_time \<Rightarrow> unit mem_call" where
  "drop_replaced newparent old now =
     bnd (if me_kind old = Directory then write_leased newparent (modify fewer_links) else ret ()) (\<lambda>_.
     bnd (write_leased (me_id old) (modify (\<lambda>d.
       (if me_kind old = Directory then d\<lparr>nd_nlink := 0\<rparr> else fewer_links d)\<lparr>nd_ctime := now\<rparr>))) (\<lambda>_.
     on_nodes (cx_remove_link (me_id old))))"

text \<open>The changes of a rename, once everything is checked.\<close>

definition move_entry :: "node_id \<Rightarrow> os_str \<Rightarrow> node_id \<Rightarrow> os_str \<Rightarrow> mem_entry \<Rightarrow> system_time \<Rightarrow> unit mem_call" where
  "move_entry parent name newparent newname e now =
     bnd (write_leased parent (modify (\<lambda>d. touch now (remove_name name d)))) (\<lambda>_.
     bnd (exchange_entry newparent newname e) (\<lambda>replaced.
     bnd (write_leased newparent (modify (touch now))) (\<lambda>_.
     bnd (if me_kind e = Directory \<and> parent \<noteq> newparent
          then bnd (on_nodes (cx_reparent (me_id e) newparent)) (\<lambda>_.
               bnd (write_leased parent (modify fewer_links)) (\<lambda>_.
               write_leased newparent more_links))
          else ret ()) (\<lambda>_.
     case replaced of None \<Rightarrow> ret () | Some old \<Rightarrow> drop_replaced newparent old now))))"

definition mem_rename :: "node_id \<Rightarrow> os_str \<Rightarrow> node_id \<Rightarrow> os_str \<Rightarrow> u32 \<Rightarrow> caller \<Rightarrow> unit mem_call" where
  "mem_rename parent name newparent newname flags c =
     bnd (mem_entry_of parent name) (\<lambda>e.
     bnd (mem_kind (me_id e)) (\<lambda>kind.
     bnd (optional (mem_entry_of newparent newname)) (\<lambda>existing.
     if map_option me_id existing = Some (me_id e) then ret ()
     else bnd (case existing of None \<Rightarrow> ret () | Some x \<Rightarrow> check_replaced (kind = Directory) (me_id x)) (\<lambda>_.
       bnd system_now (move_entry parent name newparent newname \<lparr>me_id = me_id e, me_kind = kind\<rparr>)))))"

definition add_link_to :: "node_id \<Rightarrow> unit mem_call" where
  "add_link_to nid s = (case s of (fs, sh) \<Rightarrow> (case cx_add_link nid sh of (r, sh') \<Rightarrow> (r, (fs, sh'))))"

definition mem_link :: "node_id \<Rightarrow> node_id \<Rightarrow> os_str \<Rightarrow> caller \<Rightarrow> node_id mem_call" where
  "mem_link nid newparent newname c = bnd (mem_kind nid) (\<lambda>kind.
     if kind = Directory then fail EPERM
     else bnd (check_new_entry newparent newname) (\<lambda>_.
       bnd system_now (\<lambda>now.
       bnd (mem_kind nid) (\<lambda>kind.
       bnd (link_into newparent newname \<lparr>me_id = nid, me_kind = kind\<rparr> now) (\<lambda>_.
       bnd (add_link_to nid) (\<lambda>_.
       bnd (write_leased nid (bnd more_links (\<lambda>_. modify (\<lambda>d. d\<lparr>nd_ctime := now\<rparr>)))) (\<lambda>_.
       ret nid)))))))"

section \<open>Files\<close>

definition mem_open :: "addr \<Rightarrow> int \<Rightarrow> caller \<Rightarrow> unit opened mem_call" where
  "mem_open a flags c = read_node a (\<lambda>d. if nd_kind d = Directory then Err EISDIR else Ok (opened_new ()))"

text \<open>The sums of an offset and a length are checked additions of \<^verbatim>\<open>usize\<close>.\<close>

definition mem_read :: "addr \<Rightarrow> unit \<Rightarrow> u64 \<Rightarrow> nat \<Rightarrow> caller \<Rightarrow> bytes mem_call" where
  "mem_read a h offset sz c = read_node a (\<lambda>d.
     case nd_content d of
       FileContent content \<Rightarrow>
         if unat offset \<ge> length content then Ok []
         else if unat offset + sz \<ge> 2 ^ 64 then Panic
         else let end = min (unat offset + sz) (length content) in Ok (take (end - unat offset) (drop (unat offset) content))
     | _ \<Rightarrow> Err EISDIR)"

definition write_at :: "nat \<Rightarrow> bytes \<Rightarrow> bytes \<Rightarrow> bytes option" where
  "write_at offset dat content =
     (let end = offset + length dat in
      if end \<ge> 2 ^ 64 then None
      else case (if end > length content then resize end content else Some content) of
             None \<Rightarrow> None
           | Some content \<Rightarrow> Some (take offset content @ dat @ drop end content))"

definition mem_write :: "addr \<Rightarrow> unit \<Rightarrow> bytes \<Rightarrow> u64 \<Rightarrow> caller \<Rightarrow> nat mem_call" where
  "mem_write a h dat offset c = bnd system_now (\<lambda>now.
     write_node a (\<lambda>s. case nd_content (snd s) of
       FileContent content \<Rightarrow> (case write_at (unat offset) dat content of
           None \<Rightarrow> (Panic, s)
         | Some content' \<Rightarrow> (Ok (length dat), (fst s, touch now ((snd s)\<lparr>nd_content := FileContent content'\<rparr>))))
     | _ \<Rightarrow> (Err EISDIR, s)))"

text \<open>The loop over the entries of a directory, from position \<open>i\<close>, until the sink is full.\<close>

fun add_entries :: "nat \<Rightarrow> (os_str \<times> mem_entry) list \<Rightarrow> dir_sink \<Rightarrow> dir_sink" where
  "add_entries i [] k = k"
| "add_entries i ((name, e) # es) k = (case sink_add (name, me_id e, me_kind e, of_nat (i + 3)) k of
     (True, k') \<Rightarrow> add_entries (Suc i) es k'
   | (False, k') \<Rightarrow> k')"

definition list_entries :: "node_id \<Rightarrow> node_id \<Rightarrow> u64 \<Rightarrow> (os_str, mem_entry) btree \<Rightarrow> dir_sink \<Rightarrow> dir_sink" where
  "list_entries this parent offset entries k =
     (case (if offset < 1 then sink_add (''.'', this, Directory, 1) k else (True, k)) of
        (False, k) \<Rightarrow> k
      | (True, k) \<Rightarrow>
         (case (if offset < 2 then sink_add (''..'', parent, Directory, 2) k else (True, k)) of
            (False, k) \<Rightarrow> k
          | (True, k) \<Rightarrow> (let skip = unat (max offset 2) - 2 in add_entries skip (drop skip entries) k)))"

definition mem_readdir :: "addr \<Rightarrow> node_id \<Rightarrow> node_id \<Rightarrow> u64 \<Rightarrow> caller \<Rightarrow> (memory_fs, mem_node, unit, dir_sink) dir_call" where
  "mem_readdir a this parent offset c s = (case s of (fs, sh, dh, k) \<Rightarrow>
     let n = payload sh a in
     if mn_poisoned n then (Panic, s)
     else (case nd_content (mn_data n) of
         DirContent entries \<Rightarrow> (Ok (), (fs, sh, dh, list_entries this parent offset entries k))
       | _ \<Rightarrow> (Err ENOTDIR, s)))"

section \<open>Extended attributes\<close>

definition mem_setxattr :: "addr \<Rightarrow> os_str \<Rightarrow> bytes \<Rightarrow> int \<Rightarrow> caller \<Rightarrow> unit mem_call" where
  "mem_setxattr a name val flags c = write_node a (\<lambda>s.
     let exists = bt_get (nd_xattrs (snd s)) name \<noteq> None in
     if flags AND 1 \<noteq> 0 \<and> exists then (Err EEXIST, s)
     else if flags AND 2 \<noteq> 0 \<and> \<not> exists then (Err ENODATA, s)
     else bnd (modify (\<lambda>d. d\<lparr>nd_xattrs := bt_insert name val (nd_xattrs d)\<rparr>)) (\<lambda>_.
          bnd system_now (\<lambda>now. modify (\<lambda>d. d\<lparr>nd_ctime := now\<rparr>))) s)"

definition mem_getxattr :: "addr \<Rightarrow> os_str \<Rightarrow> nat \<Rightarrow> caller \<Rightarrow> xattr_reply mem_call" where
  "mem_getxattr a name sz c = read_node a (\<lambda>d.
     case bt_get (nd_xattrs d) name of
       None \<Rightarrow> Err ENODATA
     | Some val \<Rightarrow> Ok (if sz = 0 then XSize (length val) else XData val))"

definition os_bytes :: "os_str \<Rightarrow> bytes" where
  "os_bytes s = map (\<lambda>ch. of_nat (of_char ch)) s"

definition mem_listxattr :: "addr \<Rightarrow> nat \<Rightarrow> caller \<Rightarrow> xattr_reply mem_call" where
  "mem_listxattr a sz c = read_node a (\<lambda>d.
     let names = concat (map (\<lambda>name. os_bytes name @ [0]) (bt_keys (nd_xattrs d)))
     in Ok (if sz = 0 then XSize (length names) else XData names))"

definition mem_removexattr :: "addr \<Rightarrow> os_str \<Rightarrow> caller \<Rightarrow> unit mem_call" where
  "mem_removexattr a name c = write_node a (\<lambda>s.
     if bt_get (nd_xattrs (snd s)) name = None then (Err ENODATA, s)
     else bnd (modify (\<lambda>d. d\<lparr>nd_xattrs := bt_remove name (nd_xattrs d)\<rparr>)) (\<lambda>_.
          bnd system_now (\<lambda>now. modify (\<lambda>d. d\<lparr>nd_ctime := now\<rparr>))) s)"

section \<open>The filesystem\<close>

definition memory_fs_ops :: "(memory_fs, mem_node, unit, unit) node_fs" where
  "memory_fs_ops = (default_node_fs mem_root mem_getattr)
     \<lparr>fs_opendir := mem_opendir, fs_setattr := mem_setattr, fs_readlink := mem_readlink, fs_lookup := mem_lookup,
      fs_mknod := mem_mknod, fs_mkdir := mem_mkdir, fs_symlink := mem_symlink, fs_create := mem_create,
      fs_unlink := mem_unlink, fs_rmdir := mem_rmdir, fs_rename := mem_rename, fs_link := mem_link,
      fs_open := mem_open, fs_read := mem_read, fs_write := mem_write, fs_readdir := mem_readdir,
      fs_setxattr := mem_setxattr, fs_getxattr := mem_getxattr, fs_listxattr := mem_listxattr,
      fs_removexattr := mem_removexattr\<rparr>"

end
