(* ===== verification/Runtime.thy ===== *)
theory Runtime
  imports Node_Fs
begin

text \<open>
  The request handlers of \<^verbatim>\<open>Runtime\<close> (\<^verbatim>\<open>runtime.rs\<close>), one definition per method, for an
  arbitrary filesystem \<open>F\<close>. Leases are brackets: \<open>with_node\<close>, \<open>with_file\<close> and \<open>with_dir\<close> run a
  body and then the destructor of the lease, whatever the body's outcome.
\<close>

section \<open>State\<close>

record ('fs, 'n, 'h, 'd) runtime =
  rt_fs :: 'fs
  rt_shared :: "'n shared"
  rt_handles :: "('h, 'd) handle_table"
  rt_ttl :: nat
  rt_negative_ttl :: nat
  rt_parallel_dirops :: bool

type_synonym ('fs, 'n, 'h, 'd, 'a) rt_op = "(('fs, 'n, 'h, 'd) runtime, errno, 'a) prog"

datatype lookup_reply = Found entry_reply | Negative

record open_reply =
  or_fh :: u64
  or_hints :: open_hints

text \<open>Durations are in nanoseconds.\<close>

definition runtime_new :: "('fs, 'n, 'h, 'd) node_fs \<Rightarrow> 'fs \<Rightarrow> unit result \<times> ('fs, 'n, 'h, 'd) runtime" where
  "runtime_new F fs0 = (case fs_root F fs0 of (root, fs1) \<Rightarrow>
     (case fs_populate F (fs1, shared_new root) of (r, fs2, sh) \<Rightarrow>
       (r, \<lparr>rt_fs = fs2, rt_shared = sh, rt_handles = handle_table_new, rt_ttl = 1000000000,
            rt_negative_ttl = 1000000000, rt_parallel_dirops = False\<rparr>)))"

definition set_ttl :: "nat \<Rightarrow> ('fs, 'n, 'h, 'd) runtime \<Rightarrow> ('fs, 'n, 'h, 'd) runtime" where
  "set_ttl d rt = rt\<lparr>rt_ttl := d\<rparr>"

definition set_negative_ttl :: "nat \<Rightarrow> ('fs, 'n, 'h, 'd) runtime \<Rightarrow> ('fs, 'n, 'h, 'd) runtime" where
  "set_negative_ttl d rt = rt\<lparr>rt_negative_ttl := d\<rparr>"

definition set_parallel_dirops :: "bool \<Rightarrow> ('fs, 'n, 'h, 'd) runtime \<Rightarrow> ('fs, 'n, 'h, 'd) runtime" where
  "set_parallel_dirops b rt = rt\<lparr>rt_parallel_dirops := b\<rparr>"

section \<open>Calls and leases\<close>

definition callback :: "('fs, 'n, 'a) call \<Rightarrow> ('fs, 'n, 'h, 'd, 'a) rt_op" where
  "callback m rt = (case m (rt_fs rt, rt_shared rt) of (r, fs, sh) \<Rightarrow> (r, rt\<lparr>rt_fs := fs, rt_shared := sh\<rparr>))"

definition on_table :: "('n shared \<Rightarrow> 'a result \<times> 'n shared) \<Rightarrow> ('fs, 'n, 'h, 'd, 'a) rt_op" where
  "on_table m rt = (case m (rt_shared rt) of (r, sh) \<Rightarrow> (r, rt\<lparr>rt_shared := sh\<rparr>))"

definition on_handles :: "(('h, 'd) handle_table \<Rightarrow> 'a result \<times> ('h, 'd) handle_table) \<Rightarrow> ('fs, 'n, 'h, 'd, 'a) rt_op" where
  "on_handles m rt = (case m (rt_handles rt) of (r, t) \<Rightarrow> (r, rt\<lparr>rt_handles := t\<rparr>))"

definition drop_node :: "node_ref \<Rightarrow> ('fs, 'n, 'h, 'd) runtime \<Rightarrow> ('fs, 'n, 'h, 'd) runtime" where
  "drop_node nr rt = rt\<lparr>rt_shared := node_ref_drop nr (rt_shared rt)\<rparr>"

definition with_node :: "node_id \<Rightarrow> (node_ref \<Rightarrow> ('fs, 'n, 'h, 'd, 'a) rt_op) \<Rightarrow> ('fs, 'n, 'h, 'd, 'a) rt_op" where
  "with_node nid body = bnd (on_table (cx_get nid)) (\<lambda>x. case x of
      None \<Rightarrow> fail ENOENT
    | Some nr \<Rightarrow> (\<lambda>rt. case body nr rt of (r, rt') \<Rightarrow> (r, drop_node nr rt')))"

subsection \<open>File handles\<close>

text \<open>\<^verbatim>\<open>Runtime::file\<close>: the record, looked up, checked against the inode, and leased.\<close>

definition file_lease :: "u64 \<Rightarrow> u64 \<Rightarrow> ('h, 'd) handle_table \<Rightarrow> (u64 \<times> 'h) result \<times> ('h, 'd) handle_table" where
  "file_lease n fh t = (case bt_get (ht_files t) fh of
     None \<Rightarrow> (Err EBADF, t)
   | Some r \<Rightarrow>
       if ino_of (hr_node r) \<noteq> n then (Err EBADF, t)
       else (case acquire (hr_state r) of
           (Ok (Some _), s) \<Rightarrow> (Ok (fh, hr_payload r), t\<lparr>ht_files := bt_insert fh (r\<lparr>hr_state := s\<rparr>) (ht_files t)\<rparr>)
         | (Ok None, s) \<Rightarrow> (Err EBADF, t)
         | (Err e, s) \<Rightarrow> (Err e, t)
         | (Panic, s) \<Rightarrow> (Panic, t)
         | (Blocks, s) \<Rightarrow> (Blocks, t)))"

definition file_lease_drop :: "u64 \<Rightarrow> ('h, 'd) handle_table \<Rightarrow> ('h, 'd) handle_table" where
  "file_lease_drop fh t = (case bt_get (ht_files t) fh of
     None \<Rightarrow> t
   | Some r \<Rightarrow> t\<lparr>ht_files := bt_insert fh (r\<lparr>hr_state := snd (lease_drop (hr_state r))\<rparr>) (ht_files t)\<rparr>)"

definition with_lease :: "(u64 \<times> 'h) option \<Rightarrow> ('h option \<Rightarrow> ('fs, 'n, 'h, 'd, 'a) rt_op) \<Rightarrow> ('fs, 'n, 'h, 'd, 'a) rt_op" where
  "with_lease x body rt = (case x of
     None \<Rightarrow> body None rt
   | Some (fh, h) \<Rightarrow> (case body (Some h) rt of (r, rt') \<Rightarrow> (r, rt'\<lparr>rt_handles := file_lease_drop fh (rt_handles rt')\<rparr>)))"

definition with_file :: "u64 \<Rightarrow> u64 \<Rightarrow> ('h \<Rightarrow> ('fs, 'n, 'h, 'd, 'a) rt_op) \<Rightarrow> ('fs, 'n, 'h, 'd, 'a) rt_op" where
  "with_file n fh body = bnd (on_handles (file_lease n fh)) (\<lambda>x. with_lease (Some x) (\<lambda>h. body (the h)))"

text \<open>
  The handle \<^verbatim>\<open>getattr\<close> and \<^verbatim>\<open>setattr\<close> pass: the named one, or else the most recently opened
  one on the inode that can still be leased, if the filesystem wants it.
\<close>

fun find_lease :: "u64 \<Rightarrow> (u64 \<times> 'h handle_record) list \<Rightarrow> (u64 \<times> 'h handle_record) option result" where
  "find_lease n [] = Ok None"
| "find_lease n ((fh, r) # rs) =
     (if ino_of (hr_node r) = n
      then (case acquire (hr_state r) of
              (Ok (Some _), s) \<Rightarrow> Ok (Some (fh, r\<lparr>hr_state := s\<rparr>))
            | (Ok None, s) \<Rightarrow> find_lease n rs
            | (Err e, s) \<Rightarrow> Err e
            | (Panic, s) \<Rightarrow> Panic
            | (Blocks, s) \<Rightarrow> Blocks)
      else find_lease n rs)"

definition fallback_lease :: "u64 \<Rightarrow> ('h, 'd) handle_table \<Rightarrow> (u64 \<times> 'h) option result \<times> ('h, 'd) handle_table" where
  "fallback_lease n t = (case find_lease n (rev (ht_files t)) of
     Ok None \<Rightarrow> (Ok None, t)
   | Ok (Some (fh, r)) \<Rightarrow> (Ok (Some (fh, hr_payload r)), t\<lparr>ht_files := bt_insert fh r (ht_files t)\<rparr>)
   | Err e \<Rightarrow> (Err e, t) | Panic \<Rightarrow> (Panic, t) | Blocks \<Rightarrow> (Blocks, t))"

definition optional_file :: "('fs, 'n, 'h, 'd) node_fs \<Rightarrow> u64 \<Rightarrow> addr \<Rightarrow> u64 option \<Rightarrow>
    ('fs, 'n, 'h, 'd, (u64 \<times> 'h) option) rt_op" where
  "optional_file F n node fh rt = (case fh of
     Some fh \<Rightarrow> bnd (on_handles (file_lease n fh)) (\<lambda>x. ret (Some x)) rt
   | None \<Rightarrow>
       let is_open = (case slot_at (rt_shared rt) n of None \<Rightarrow> False | Some s \<Rightarrow> s_opens s > 0)
       in if \<not> is_open \<or> \<not> fs_wants_fallback_handle F node (rt_fs rt, rt_shared rt) then (Ok None, rt)
          else on_handles (fallback_lease n) rt)"

subsection \<open>Directory handles\<close>

definition dir_lease :: "u64 \<Rightarrow> u64 \<Rightarrow> ('h, 'd) handle_table \<Rightarrow> 'd result \<times> ('h, 'd) handle_table" where
  "dir_lease n fh t = (case bt_get (ht_dirs t) fh of
     None \<Rightarrow> (Err EBADF, t)
   | Some r \<Rightarrow>
       if ino_of (hr_node r) \<noteq> n then (Err EBADF, t)
       else (case acquire (hr_state r) of
           (Ok (Some _), s) \<Rightarrow> (Ok (hr_payload r), t\<lparr>ht_dirs := bt_insert fh (r\<lparr>hr_state := s\<rparr>) (ht_dirs t)\<rparr>)
         | (Ok None, s) \<Rightarrow> (Err EBADF, t)
         | (Err e, s) \<Rightarrow> (Err e, t)
         | (Panic, s) \<Rightarrow> (Panic, t)
         | (Blocks, s) \<Rightarrow> (Blocks, t)))"

text \<open>Dropping a directory lease; the interior state of the open directory is written back.\<close>

definition dir_lease_drop :: "u64 \<Rightarrow> 'd \<Rightarrow> ('h, 'd) handle_table \<Rightarrow> ('h, 'd) handle_table" where
  "dir_lease_drop fh d t = (case bt_get (ht_dirs t) fh of
     None \<Rightarrow> t
   | Some r \<Rightarrow> t\<lparr>ht_dirs := bt_insert fh (r\<lparr>hr_payload := d, hr_state := snd (lease_drop (hr_state r))\<rparr>) (ht_dirs t)\<rparr>)"

definition with_dir :: "u64 \<Rightarrow> u64 \<Rightarrow> ('d \<Rightarrow> ('fs, 'n, 'h, 'd) runtime \<Rightarrow> ('a result \<times> 'd) \<times> ('fs, 'n, 'h, 'd) runtime) \<Rightarrow>
    ('fs, 'n, 'h, 'd, 'a) rt_op" where
  "with_dir n fh body = bnd (on_handles (dir_lease n fh)) (\<lambda>d rt.
     case body d rt of ((r, d'), rt') \<Rightarrow> (r, rt'\<lparr>rt_handles := dir_lease_drop fh d' (rt_handles rt')\<rparr>))"

section \<open>Entries and forgetting\<close>

text \<open>The critical section that ends \<^verbatim>\<open>entry_for\<close>: one more lookup, and the generation to report.\<close>

definition entry_retain :: "node_id \<Rightarrow> node_attr \<Rightarrow> 'n shared \<Rightarrow> entry_reply result \<times> 'n shared" where
  "entry_retain nid attr sh = (case slot_at sh (ino_of nid) of
     None \<Rightarrow> (Err ENOENT, sh)
   | Some s \<Rightarrow> (case checked_add (s_lookups s) 1 of
       None \<Rightarrow> (Panic, sh)
     | Some l \<Rightarrow> (Ok \<lparr>er_ino = ino_of nid, er_generation = s_generation s, er_attr = attr\<rparr>,
                  with_table (set_slot (ino_of nid) (s\<lparr>s_lookups := l\<rparr>)) sh)))"

definition entry_for :: "('fs, 'n, 'h, 'd) node_fs \<Rightarrow> node_id \<Rightarrow> caller \<Rightarrow> ('fs, 'n, 'h, 'd, entry_reply) rt_op" where
  "entry_for F nid c = with_node nid (\<lambda>nr.
     bnd (callback (fs_entry_attr F (nr_record nr) c)) (\<lambda>attr. on_table (entry_retain nid attr)))"

definition rt_init :: "('fs, 'n, 'h, 'd) node_fs \<Rightarrow> conn_info \<Rightarrow> ('fs, 'n, 'h, 'd) runtime \<Rightarrow>
    unit result \<times> conn_info \<times> ('fs, 'n, 'h, 'd) runtime" where
  "rt_init F conn rt =
     (let conn1 = (if rt_parallel_dirops rt then snd (set_enabled ParallelDirectoryOperations True conn) else conn)
      in case fs_init F (rt_fs rt, conn1) of (r, fs, conn2) \<Rightarrow> (r, conn2, rt\<lparr>rt_fs := fs\<rparr>))"

definition rt_destroy :: "('fs, 'n, 'h, 'd) node_fs \<Rightarrow> ('fs, 'n, 'h, 'd, unit) rt_op" where
  "rt_destroy F rt = (case fs_destroy F (rt_fs rt) of (r, fs) \<Rightarrow> (r, rt\<lparr>rt_fs := fs\<rparr>))"

definition rt_forget :: "('fs, 'n, 'h, 'd) node_fs \<Rightarrow> u64 \<Rightarrow> u64 \<Rightarrow> ('fs, 'n, 'h, 'd, unit) rt_op" where
  "rt_forget F n nlookup = bnd (on_table (forget_count n nlookup)) (\<lambda>x. case x of
     None \<Rightarrow> ret ()
   | Some (Some nr) \<Rightarrow> (\<lambda>rt. case callback (fs_forget F (nr_record nr)) rt of (r, rt') \<Rightarrow> (r, drop_node nr rt'))
   | Some None \<Rightarrow> on_table (\<lambda>sh. (Ok (), with_table (maybe_drop (from_ino n)) sh)))"

section \<open>Requests on a node\<close>

definition rt_statfs :: "('fs, 'n, 'h, 'd) node_fs \<Rightarrow> u64 \<Rightarrow> caller \<Rightarrow> ('fs, 'n, 'h, 'd, stat_fs) rt_op" where
  "rt_statfs F n c = callback (fs_statfs F c)"

definition rt_getattr :: "('fs, 'n, 'h, 'd) node_fs \<Rightarrow> u64 \<Rightarrow> u64 option \<Rightarrow> caller \<Rightarrow> ('fs, 'n, 'h, 'd, node_attr) rt_op" where
  "rt_getattr F n fh c = with_node (from_ino n) (\<lambda>nr.
     bnd (optional_file F n (nr_record nr) fh) (\<lambda>x. with_lease x (\<lambda>h. callback (fs_getattr F (nr_record nr) h c))))"

definition rt_setattr :: "('fs, 'n, 'h, 'd) node_fs \<Rightarrow> u64 \<Rightarrow> u64 option \<Rightarrow> set_attr \<Rightarrow> caller \<Rightarrow> ('fs, 'n, 'h, 'd, node_attr) rt_op" where
  "rt_setattr F n fh sa c = with_node (from_ino n) (\<lambda>nr.
     bnd (optional_file F n (nr_record nr) fh) (\<lambda>x. with_lease x (\<lambda>h. callback (fs_setattr F (nr_record nr) h sa c))))"

definition rt_readlink :: "('fs, 'n, 'h, 'd) node_fs \<Rightarrow> u64 \<Rightarrow> caller \<Rightarrow> ('fs, 'n, 'h, 'd, os_str) rt_op" where
  "rt_readlink F n c = with_node (from_ino n) (\<lambda>nr. callback (fs_readlink F (nr_record nr) c))"

definition rt_access :: "('fs, 'n, 'h, 'd) node_fs \<Rightarrow> u64 \<Rightarrow> int \<Rightarrow> caller \<Rightarrow> ('fs, 'n, 'h, 'd, unit) rt_op" where
  "rt_access F n msk c = with_node (from_ino n) (\<lambda>nr. callback (fs_access F (nr_record nr) msk c))"

definition rt_setxattr :: "('fs, 'n, 'h, 'd) node_fs \<Rightarrow> u64 \<Rightarrow> os_str \<Rightarrow> bytes \<Rightarrow> int \<Rightarrow> caller \<Rightarrow> ('fs, 'n, 'h, 'd, unit) rt_op" where
  "rt_setxattr F n nm val flags c = with_node (from_ino n) (\<lambda>nr. callback (fs_setxattr F (nr_record nr) nm val flags c))"

definition rt_getxattr :: "('fs, 'n, 'h, 'd) node_fs \<Rightarrow> u64 \<Rightarrow> os_str \<Rightarrow> nat \<Rightarrow> caller \<Rightarrow> ('fs, 'n, 'h, 'd, xattr_reply) rt_op" where
  "rt_getxattr F n nm sz c = with_node (from_ino n) (\<lambda>nr. callback (fs_getxattr F (nr_record nr) nm sz c))"

definition rt_listxattr :: "('fs, 'n, 'h, 'd) node_fs \<Rightarrow> u64 \<Rightarrow> nat \<Rightarrow> caller \<Rightarrow> ('fs, 'n, 'h, 'd, xattr_reply) rt_op" where
  "rt_listxattr F n sz c = with_node (from_ino n) (\<lambda>nr. callback (fs_listxattr F (nr_record nr) sz c))"

definition rt_removexattr :: "('fs, 'n, 'h, 'd) node_fs \<Rightarrow> u64 \<Rightarrow> os_str \<Rightarrow> caller \<Rightarrow> ('fs, 'n, 'h, 'd, unit) rt_op" where
  "rt_removexattr F n nm c = with_node (from_ino n) (\<lambda>nr. callback (fs_removexattr F (nr_record nr) nm c))"

section \<open>Requests on an open file\<close>

definition rt_open :: "('fs, 'n, 'h, 'd) node_fs \<Rightarrow> u64 \<Rightarrow> int \<Rightarrow> caller \<Rightarrow> ('fs, 'n, 'h, 'd, open_reply) rt_op" where
  "rt_open F n flags c = with_node (from_ino n) (\<lambda>nr.
     bnd (callback (fs_open F (nr_record nr) flags c)) (\<lambda>opened.
     bnd (on_table (add_open n)) (\<lambda>_.
     bnd (on_handles (add_file (from_ino n) (op_handle opened))) (\<lambda>fh.
     ret \<lparr>or_fh = fh, or_hints = op_hints opened\<rparr>))))"

text \<open>
  \<^verbatim>\<open>read\<close> runs the reply continuation on the data or the error before the leases are dropped.
\<close>

definition reply_with :: "('a result \<Rightarrow> 'r) \<Rightarrow> ('s, errno, 'a) prog \<Rightarrow> ('s, errno, 'r) prog" where
  "reply_with reply m s = (case m s of
     (Ok a, s') \<Rightarrow> (Ok (reply (Ok a)), s')
   | (Err e, s') \<Rightarrow> (Ok (reply (Err e)), s')
   | (Panic, s') \<Rightarrow> (Panic, s')
   | (Blocks, s') \<Rightarrow> (Blocks, s'))"

definition rt_read :: "('fs, 'n, 'h, 'd) node_fs \<Rightarrow> u64 \<Rightarrow> u64 \<Rightarrow> u64 \<Rightarrow> nat \<Rightarrow> caller \<Rightarrow> (bytes result \<Rightarrow> 'r) \<Rightarrow> ('fs, 'n, 'h, 'd, 'r) rt_op" where
  "rt_read F n fh off sz c reply = reply_with reply (with_node (from_ino n) (\<lambda>nr.
     with_file n fh (\<lambda>h. callback (fs_read F (nr_record nr) h off sz c))))"

definition rt_write :: "('fs, 'n, 'h, 'd) node_fs \<Rightarrow> u64 \<Rightarrow> u64 \<Rightarrow> bytes \<Rightarrow> u64 \<Rightarrow> caller \<Rightarrow> ('fs, 'n, 'h, 'd, nat) rt_op" where
  "rt_write F n fh dat off c = with_node (from_ino n) (\<lambda>nr.
     with_file n fh (\<lambda>h. callback (fs_write F (nr_record nr) h dat off c)))"

definition rt_flush :: "('fs, 'n, 'h, 'd) node_fs \<Rightarrow> u64 \<Rightarrow> u64 \<Rightarrow> caller \<Rightarrow> ('fs, 'n, 'h, 'd, unit) rt_op" where
  "rt_flush F n fh c = with_node (from_ino n) (\<lambda>nr.
     with_file n fh (\<lambda>h. callback (fs_flush F (nr_record nr) h c)))"

definition rt_fsync :: "('fs, 'n, 'h, 'd) node_fs \<Rightarrow> u64 \<Rightarrow> u64 \<Rightarrow> bool \<Rightarrow> caller \<Rightarrow> ('fs, 'n, 'h, 'd, unit) rt_op" where
  "rt_fsync F n fh datasync c = with_node (from_ino n) (\<lambda>nr.
     with_file n fh (\<lambda>h. callback (fs_fsync F (nr_record nr) h datasync c)))"

definition rt_fallocate :: "('fs, 'n, 'h, 'd) node_fs \<Rightarrow> u64 \<Rightarrow> u64 \<Rightarrow> int \<Rightarrow> u64 \<Rightarrow> u64 \<Rightarrow> caller \<Rightarrow> ('fs, 'n, 'h, 'd, unit) rt_op" where
  "rt_fallocate F n fh mode off len c = with_node (from_ino n) (\<lambda>nr.
     with_file n fh (\<lambda>h. callback (fs_fallocate F (nr_record nr) h mode off len c)))"

definition rt_lseek :: "('fs, 'n, 'h, 'd) node_fs \<Rightarrow> u64 \<Rightarrow> u64 \<Rightarrow> u64 \<Rightarrow> int \<Rightarrow> caller \<Rightarrow> ('fs, 'n, 'h, 'd, u64) rt_op" where
  "rt_lseek F n fh off whence c = with_node (from_ino n) (\<lambda>nr.
     with_file n fh (\<lambda>h. callback (fs_lseek F (nr_record nr) h off whence c)))"

definition rt_getlk :: "('fs, 'n, 'h, 'd) node_fs \<Rightarrow> u64 \<Rightarrow> u64 \<Rightarrow> u64 \<Rightarrow> file_lock \<Rightarrow> caller \<Rightarrow> ('fs, 'n, 'h, 'd, file_lock) rt_op" where
  "rt_getlk F n fh owner requested c = with_node (from_ino n) (\<lambda>nr.
     with_file n fh (\<lambda>h. callback (fs_getlk F (nr_record nr) h owner requested c)))"

definition rt_setlk :: "('fs, 'n, 'h, 'd) node_fs \<Rightarrow> u64 \<Rightarrow> u64 \<Rightarrow> u64 \<Rightarrow> file_lock \<Rightarrow> bool \<Rightarrow> caller \<Rightarrow> ('fs, 'n, 'h, 'd, unit) rt_op" where
  "rt_setlk F n fh owner lk sleep c = with_node (from_ino n) (\<lambda>nr.
     with_file n fh (\<lambda>h. callback (fs_setlk F (nr_record nr) h owner lk sleep c)))"

definition rt_flock :: "('fs, 'n, 'h, 'd) node_fs \<Rightarrow> u64 \<Rightarrow> u64 \<Rightarrow> int \<Rightarrow> caller \<Rightarrow> ('fs, 'n, 'h, 'd, unit) rt_op" where
  "rt_flock F n fh operation c = with_node (from_ino n) (\<lambda>nr.
     with_file n fh (\<lambda>h. callback (fs_flock F (nr_record nr) h operation c)))"

definition rt_release :: "('fs, 'n, 'h, 'd) node_fs \<Rightarrow> u64 \<Rightarrow> u64 \<Rightarrow> caller \<Rightarrow> ('fs, 'n, 'h, 'd, unit) rt_op" where
  "rt_release F n fh c rt = (case bt_get (ht_files (rt_handles rt)) fh of
     None \<Rightarrow> (Err EBADF, rt)
   | Some r \<Rightarrow>
       if ino_of (hr_node r) \<noteq> n then (Err EBADF, rt)
       else with_node (from_ino n) (\<lambda>nr.
              bnd (on_table (\<lambda>sh. (Ok (), remove_open n sh))) (\<lambda>_.
              bnd (\<lambda>rt. (fst (close_and_take r), rt)) (\<lambda>h.
              callback (fs_release F (nr_record nr) h c))))
            (rt\<lparr>rt_handles := (rt_handles rt)\<lparr>ht_files := bt_remove fh (ht_files (rt_handles rt))\<rparr>\<rparr>))"

section \<open>Requests on an open directory\<close>

definition rt_opendir :: "('fs, 'n, 'h, 'd) node_fs \<Rightarrow> u64 \<Rightarrow> int \<Rightarrow> caller \<Rightarrow> ('fs, 'n, 'h, 'd, open_reply) rt_op" where
  "rt_opendir F n flags c = with_node (from_ino n) (\<lambda>nr.
     bnd (callback (fs_opendir F (nr_record nr) flags c)) (\<lambda>opened.
     bnd (on_table (add_open n)) (\<lambda>_.
     bnd (on_handles (add_dir (from_ino n) (op_handle opened))) (\<lambda>fh.
     ret \<lparr>or_fh = fh, or_hints = op_hints opened\<rparr>))))"

text \<open>The directory a listing reports as the parent.\<close>

definition parent_of :: "u64 \<Rightarrow> ('fs, 'n, 'h, 'd, node_id) rt_op" where
  "parent_of n rt = ok_or ENOENT (map_option s_parent (slot_at (rt_shared rt) n)) rt"

definition dir_callback :: "('fs, 'n, 'd, 'k) dir_call \<Rightarrow> 'k \<Rightarrow> 'd \<Rightarrow> ('fs, 'n, 'h, 'd) runtime \<Rightarrow>
    (unit result \<times> 'd \<times> 'k) \<times> ('fs, 'n, 'h, 'd) runtime" where
  "dir_callback m k d rt = (case m (rt_fs rt, rt_shared rt, d, k) of
     (r, fs, sh, d', k') \<Rightarrow> ((r, d', k'), rt\<lparr>rt_fs := fs, rt_shared := sh\<rparr>))"

text \<open>A successful listing returns the sink as the filesystem left it.\<close>

definition rt_readdir :: "('fs, 'n, 'h, 'd) node_fs \<Rightarrow> u64 \<Rightarrow> u64 \<Rightarrow> u64 \<Rightarrow> dir_sink \<Rightarrow> caller \<Rightarrow> ('fs, 'n, 'h, 'd, dir_sink) rt_op" where
  "rt_readdir F n fh off k c = with_node (from_ino n) (\<lambda>nr.
     bnd (parent_of n) (\<lambda>par.
     with_dir n fh (\<lambda>d rt.
       case dir_callback (fs_readdir F (nr_record nr) (from_ino n) par off c) k d rt of
         ((Ok _, d', k'), rt') \<Rightarrow> ((Ok k', d'), rt')
       | ((Err e, d', k'), rt') \<Rightarrow> ((Err e, d'), rt')
       | ((Panic, d', k'), rt') \<Rightarrow> ((Panic, d'), rt')
       | ((Blocks, d', k'), rt') \<Rightarrow> ((Blocks, d'), rt'))))"

text \<open>
  A failed \<^verbatim>\<open>readdirplus\<close> gives back the lookups of the entries the kernel's buffer had accepted,
  one \<^verbatim>\<open>forget\<close> at a time.
\<close>

primrec forget_all :: "('fs, 'n, 'h, 'd) node_fs \<Rightarrow> node_id list \<Rightarrow> ('fs, 'n, 'h, 'd, unit) rt_op" where
  "forget_all F [] = ret ()"
| "forget_all F (nid # ids) = bnd (rt_forget F (ino_of nid) 1) (\<lambda>_. forget_all F ids)"

definition plus_result :: "('fs, 'n, 'h, 'd) node_fs \<Rightarrow> (unit result \<times> 'd \<times> accounting) \<Rightarrow> ('fs, 'n, 'h, 'd) runtime \<Rightarrow>
    ((plus_sink \<times> node_id list) result \<times> 'd) \<times> ('fs, 'n, 'h, 'd) runtime" where
  "plus_result F x rt = (case x of
     (Ok _, d, ac) \<Rightarrow> ((Ok (ac_inner ac, ac_accepted ac), d), rt)
   | (Err e, d, ac) \<Rightarrow> (case bnd (forget_all F (ac_accepted ac)) (\<lambda>_. fail e) rt of (r, rt') \<Rightarrow> ((r, d), rt'))
   | (Panic, d, ac) \<Rightarrow> ((Panic, d), rt)
   | (Blocks, d, ac) \<Rightarrow> ((Blocks, d), rt))"

definition rt_readdirplus :: "('fs, 'n, 'h, 'd) node_fs \<Rightarrow> u64 \<Rightarrow> u64 \<Rightarrow> u64 \<Rightarrow> plus_sink \<Rightarrow> caller \<Rightarrow> ('fs, 'n, 'h, 'd, plus_sink \<times> node_id list) rt_op" where
  "rt_readdirplus F n fh off k c = with_node (from_ino n) (\<lambda>nr.
     bnd (parent_of n) (\<lambda>par.
     with_dir n fh (\<lambda>d rt.
       case dir_callback (fs_readdirplus F (nr_record nr) (from_ino n) par off c)
              \<lparr>ac_inner = k, ac_accepted = []\<rparr> d rt of
         (x, rt') \<Rightarrow> plus_result F x rt')))"

definition rt_fsyncdir :: "('fs, 'n, 'h, 'd) node_fs \<Rightarrow> u64 \<Rightarrow> u64 \<Rightarrow> bool \<Rightarrow> caller \<Rightarrow> ('fs, 'n, 'h, 'd, unit) rt_op" where
  "rt_fsyncdir F n fh datasync c = with_node (from_ino n) (\<lambda>nr.
     with_dir n fh (\<lambda>d rt. case callback (fs_fsyncdir F (nr_record nr) d datasync c) rt of (r, rt') \<Rightarrow> ((r, d), rt')))"

definition rt_releasedir :: "('fs, 'n, 'h, 'd) node_fs \<Rightarrow> u64 \<Rightarrow> u64 \<Rightarrow> caller \<Rightarrow> ('fs, 'n, 'h, 'd, unit) rt_op" where
  "rt_releasedir F n fh c rt = (case bt_get (ht_dirs (rt_handles rt)) fh of
     None \<Rightarrow> (Err EBADF, rt)
   | Some r \<Rightarrow>
       if ino_of (hr_node r) \<noteq> n then (Err EBADF, rt)
       else with_node (from_ino n) (\<lambda>nr.
              bnd (on_table (\<lambda>sh. (Ok (), remove_open n sh))) (\<lambda>_.
              bnd (\<lambda>rt. (fst (close_and_take r), rt)) (\<lambda>h.
              callback (fs_releasedir F (nr_record nr) h c))))
            (rt\<lparr>rt_handles := (rt_handles rt)\<lparr>ht_dirs := bt_remove fh (ht_dirs (rt_handles rt))\<rparr>\<rparr>))"

section \<open>Requests on names\<close>

definition rt_lookup :: "('fs, 'n, 'h, 'd) node_fs \<Rightarrow> u64 \<Rightarrow> os_str \<Rightarrow> caller \<Rightarrow> ('fs, 'n, 'h, 'd, lookup_reply) rt_op" where
  "rt_lookup F parent nm c = bnd (callback (fs_lookup F (from_ino parent) nm c)) (\<lambda>x. case x of
     Some nid \<Rightarrow> bnd (entry_for F nid c) (\<lambda>e. ret (Found e))
   | None \<Rightarrow> ret Negative)"

definition rt_mknod :: "('fs, 'n, 'h, 'd) node_fs \<Rightarrow> u64 \<Rightarrow> os_str \<Rightarrow> u32 \<Rightarrow> u32 \<Rightarrow> u32 \<Rightarrow> caller \<Rightarrow> ('fs, 'n, 'h, 'd, entry_reply) rt_op" where
  "rt_mknod F parent nm mode rdev umask c = bnd (callback (fs_mknod F (from_ino parent) nm mode rdev umask c)) (\<lambda>nid. entry_for F nid c)"

definition rt_mkdir :: "('fs, 'n, 'h, 'd) node_fs \<Rightarrow> u64 \<Rightarrow> os_str \<Rightarrow> u32 \<Rightarrow> u32 \<Rightarrow> caller \<Rightarrow> ('fs, 'n, 'h, 'd, entry_reply) rt_op" where
  "rt_mkdir F parent nm mode umask c = bnd (callback (fs_mkdir F (from_ino parent) nm mode umask c)) (\<lambda>nid. entry_for F nid c)"

definition rt_symlink :: "('fs, 'n, 'h, 'd) node_fs \<Rightarrow> u64 \<Rightarrow> os_str \<Rightarrow> os_str \<Rightarrow> caller \<Rightarrow> ('fs, 'n, 'h, 'd, entry_reply) rt_op" where
  "rt_symlink F parent nm target c = bnd (callback (fs_symlink F (from_ino parent) nm target c)) (\<lambda>nid. entry_for F nid c)"

definition rt_link :: "('fs, 'n, 'h, 'd) node_fs \<Rightarrow> u64 \<Rightarrow> u64 \<Rightarrow> os_str \<Rightarrow> caller \<Rightarrow> ('fs, 'n, 'h, 'd, entry_reply) rt_op" where
  "rt_link F n newparent newname c = bnd (callback (fs_link F (from_ino n) (from_ino newparent) newname c)) (\<lambda>nid. entry_for F nid c)"

definition rt_unlink :: "('fs, 'n, 'h, 'd) node_fs \<Rightarrow> u64 \<Rightarrow> os_str \<Rightarrow> caller \<Rightarrow> ('fs, 'n, 'h, 'd, unit) rt_op" where
  "rt_unlink F parent nm c = callback (fs_unlink F (from_ino parent) nm c)"

definition rt_rmdir :: "('fs, 'n, 'h, 'd) node_fs \<Rightarrow> u64 \<Rightarrow> os_str \<Rightarrow> caller \<Rightarrow> ('fs, 'n, 'h, 'd, unit) rt_op" where
  "rt_rmdir F parent nm c = callback (fs_rmdir F (from_ino parent) nm c)"

definition rt_rename :: "('fs, 'n, 'h, 'd) node_fs \<Rightarrow> u64 \<Rightarrow> os_str \<Rightarrow> u64 \<Rightarrow> os_str \<Rightarrow> u32 \<Rightarrow> caller \<Rightarrow> ('fs, 'n, 'h, 'd, unit) rt_op" where
  "rt_rename F parent nm newparent newname flags c = callback (fs_rename F (from_ino parent) nm (from_ino newparent) newname flags c)"

definition rt_create :: "('fs, 'n, 'h, 'd) node_fs \<Rightarrow> u64 \<Rightarrow> os_str \<Rightarrow> u32 \<Rightarrow> u32 \<Rightarrow> int \<Rightarrow> caller \<Rightarrow> ('fs, 'n, 'h, 'd, entry_reply \<times> open_reply) rt_op" where
  "rt_create F parent nm mode umask flags c = bnd (callback (fs_create F (from_ino parent) nm mode umask flags c)) (\<lambda>(nid, opened).
     bnd (entry_for F nid c) (\<lambda>entry.
     bnd (on_table (add_open (ino_of nid))) (\<lambda>_.
     bnd (on_handles (add_file nid (op_handle opened))) (\<lambda>fh.
     ret (entry, \<lparr>or_fh = fh, or_hints = op_hints opened\<rparr>)))))"

definition rt_copy_file_range :: "('fs, 'n, 'h, 'd) node_fs \<Rightarrow> u64 \<Rightarrow> u64 \<Rightarrow> u64 \<Rightarrow> u64 \<Rightarrow> u64 \<Rightarrow> int \<Rightarrow> caller \<Rightarrow> ('fs, 'n, 'h, 'd, nat) rt_op" where
  "rt_copy_file_range F n_in off_in n_out off_out len flags c = callback (fs_copy_file_range F (from_ino n_in) off_in (from_ino n_out) off_out len flags c)"

end
