(* ===== verification/Ffi.thy ===== *)
theory Ffi
  imports Conv Runtime
begin

text \<open>
  The glue between the runtime and the C structs (\<^verbatim>\<open>ffi.rs\<close>): \<^verbatim>\<open>fuse_file_info\<close>, \<^verbatim>\<open>fuse_conn_info\<close>
  and the size-limited directory buffer \<^verbatim>\<open>RawDirentBuf\<close>. How libfuse lays out one directory entry is a
  parameter. The main result is that the buffer implements the abstract sink of the runtime: after any
  sequence of offers it holds exactly the images of the accepted entries and never exceeds its capacity.
\<close>

section \<open>Open files and connections\<close>

record file_info =
  fi_handle :: u64
  fi_open_flags :: int
  fi_lock_owner :: u64
  fi_direct_io :: bool
  fi_keep_cache :: bool
  fi_nonseekable :: bool
  fi_cache_readdir :: bool
  fi_parallel_direct_writes :: bool

text \<open>A pointer that may be null is an option.\<close>

definition fi_fh :: "file_info option \<Rightarrow> u64" where
  "fi_fh fi = (case fi of None \<Rightarrow> 0 | Some f \<Rightarrow> fi_handle f)"

definition fi_fh_opt :: "file_info option \<Rightarrow> u64 option" where
  "fi_fh_opt fi = map_option fi_handle fi"

definition fi_flags :: "file_info option \<Rightarrow> int" where
  "fi_flags fi = (case fi of None \<Rightarrow> 0 | Some f \<Rightarrow> fi_open_flags f)"

text \<open>
  The field \<^verbatim>\<open>parallel_direct_writes\<close> exists only in newer versions of libfuse, which the build
  detects: \<open>has_pdw\<close>.
\<close>

definition apply_open :: "bool \<Rightarrow> u64 \<Rightarrow> open_hints \<Rightarrow> file_info option \<Rightarrow> file_info option" where
  "apply_open has_pdw fh hints fi = map_option (\<lambda>f.
     let f = f\<lparr>fi_handle := fh, fi_direct_io := oh_direct_io hints, fi_keep_cache := oh_keep_cache hints,
               fi_nonseekable := oh_nonseekable hints, fi_cache_readdir := oh_cache_readdir hints\<rparr>
     in if has_pdw then f\<lparr>fi_parallel_direct_writes := (oh_direct_io hints \<and> oh_parallel_direct_writes hints)\<rparr> else f) fi"

record raw_conn =
  rc_proto_major :: u32
  rc_proto_minor :: u32
  rc_max_write :: u32
  rc_max_readahead :: u32
  rc_capable :: u32
  rc_want :: u32

definition conn_read :: "raw_conn \<Rightarrow> conn_info" where
  "conn_read conn = conn_from_raw (rc_proto_major conn) (rc_proto_minor conn) (rc_max_write conn) (rc_max_readahead conn)
     (rc_capable conn) (rc_want conn)"

definition conn_apply :: "conn_info \<Rightarrow> raw_conn \<Rightarrow> raw_conn" where
  "conn_apply info conn =
     conn\<lparr>rc_max_write := ci_max_write info, rc_max_readahead := ci_max_readahead info, rc_want := ci_want info\<rparr>"

section \<open>The directory buffer\<close>

text \<open>
  \<^verbatim>\<open>fuse_add_direntry\<close> and \<^verbatim>\<open>fuse_add_direntry_plus\<close>: called without a buffer they return the size of the
  entry, which depends on the name only; called with a buffer they write the entry if it fits.
\<close>

record direntry_format =
  df_size :: "os_str \<Rightarrow> nat"
  df_image :: "os_str \<Rightarrow> raw_stat \<Rightarrow> u64 \<Rightarrow> bytes"
  df_plus_size :: "os_str \<Rightarrow> nat"
  df_plus_image :: "os_str \<Rightarrow> entry_param \<Rightarrow> u64 \<Rightarrow> bytes"

text \<open>Writing an image into \<open>n\<close> zeroed bytes.\<close>

definition write_entry :: "nat \<Rightarrow> bytes \<Rightarrow> bytes" where
  "write_entry n im = (if length im \<le> n then im @ replicate (n - length im) 0 else replicate n 0)"

lemma length_write_entry [simp]: "length (write_entry n im) = n"
  by (simp add: write_entry_def)

datatype dirent_format = Plain | Plus

record dirent_buf =
  db_capacity :: nat
  db_buf :: bytes
  db_format :: dirent_format
  db_ttl :: nat

definition dirent_buf_new :: "nat \<Rightarrow> dirent_buf" where
  "dirent_buf_new cap = \<lparr>db_capacity = cap, db_buf = [], db_format = Plain, db_ttl = 0\<rparr>"

definition dirent_buf_new_plus :: "nat \<Rightarrow> nat \<Rightarrow> dirent_buf" where
  "dirent_buf_new_plus cap ttl = \<lparr>db_capacity = cap, db_buf = [], db_format = Plus, db_ttl = ttl\<rparr>"

text \<open>\<^verbatim>\<open>DirSink::add\<close>; \<open>None\<close> is the \<^verbatim>\<open>unreachable!\<close> of a buffer of the other format.\<close>

definition dirent_add :: "direntry_format \<Rightarrow> dir_item \<Rightarrow> dirent_buf \<Rightarrow> (bool \<times> dirent_buf) option" where
  "dirent_add D item b = (case item of (nm, nid, kind, next_offset) \<Rightarrow>
     if \<not> no_nul nm then Some (True, b)
     else let st = zeroed_stat\<lparr>st_ino := ino_of nid, st_mode := kind_to_mode_bits kind\<rparr>
          in (case db_format b of
                Plain \<Rightarrow>
                  let entry_size = df_size D nm
                  in if length (db_buf b) + entry_size > db_capacity b then Some (False, b)
                     else Some (True, b\<lparr>db_buf := db_buf b @ write_entry entry_size (df_image D nm st next_offset)\<rparr>)
              | Plus \<Rightarrow> None))"

text \<open>\<^verbatim>\<open>RuntimePlusSink::add\<close>; \<open>None\<close> is a panic in the conversion of the attributes.\<close>

definition dirent_add_plus :: "direntry_format \<Rightarrow> plus_item \<Rightarrow> dirent_buf \<Rightarrow> (bool \<times> dirent_buf) option" where
  "dirent_add_plus D item b = (case item of (nm, e, next_offset) \<Rightarrow>
     if \<not> no_nul nm then Some (True, b)
     else (case entry_to_entry_param (er_ino e) (er_generation e) (er_attr e) (db_ttl b) of
         None \<Rightarrow> None
       | Some param \<Rightarrow>
           let entry_size = df_plus_size D nm
           in if length (db_buf b) + entry_size > db_capacity b then Some (False, b)
              else Some (True, b\<lparr>db_buf := db_buf b @ write_entry entry_size (df_plus_image D nm param next_offset)\<rparr>)))"

section \<open>The buffer as a sink\<close>

text \<open>
  The runtime sees a sink: the list of accepted entries and a predicate that says whether one more is
  accepted. The bytes of the buffer are the images of the accepted entries, names with an interior NUL
  having none.
\<close>

definition item_image :: "direntry_format \<Rightarrow> dir_item \<Rightarrow> bytes" where
  "item_image D item = (case item of (nm, nid, kind, off) \<Rightarrow>
     if no_nul nm
     then write_entry (df_size D nm) (df_image D nm (zeroed_stat\<lparr>st_ino := ino_of nid, st_mode := kind_to_mode_bits kind\<rparr>) off)
     else [])"

definition plus_image :: "direntry_format \<Rightarrow> nat \<Rightarrow> plus_item \<Rightarrow> bytes" where
  "plus_image D ttl item = (case item of (nm, e, off) \<Rightarrow>
     if no_nul nm
     then (case entry_to_entry_param (er_ino e) (er_generation e) (er_attr e) ttl of
             None \<Rightarrow> [] | Some param \<Rightarrow> write_entry (df_plus_size D nm) (df_plus_image D nm param off))
     else [])"

definition image_sink :: "('e \<Rightarrow> bytes) \<Rightarrow> ('e \<Rightarrow> bool) \<Rightarrow> nat \<Rightarrow> 'e sink" where
  "image_sink img skip capacity =
     \<lparr>sk_accepts = (\<lambda>items item. skip item \<or> length (concat (map img items)) + length (img item) \<le> capacity), sk_items = []\<rparr>"

definition dirent_sink :: "direntry_format \<Rightarrow> nat \<Rightarrow> dir_sink" where
  "dirent_sink D cap = image_sink (item_image D) (\<lambda>(nm, _). \<not> no_nul nm) cap"

definition dirent_plus_sink :: "direntry_format \<Rightarrow> nat \<Rightarrow> nat \<Rightarrow> plus_sink" where
  "dirent_plus_sink D cap ttl =
     \<lparr>ps_sink = image_sink (plus_image D ttl) (\<lambda>(nm, _). \<not> no_nul nm) cap,
      ps_panics = (\<lambda>(nm, e, _). no_nul nm \<and> entry_to_entry_param (er_ino e) (er_generation e) (er_attr e) ttl = None)\<rparr>"

text \<open>What a buffer and a sink that went through the same offers have in common.\<close>

definition holds_images :: "('e \<Rightarrow> bytes) \<Rightarrow> dirent_buf \<Rightarrow> 'e sink \<Rightarrow> bool" where
  "holds_images img b k \<longleftrightarrow> db_buf b = concat (map img (sk_items k)) \<and> length (db_buf b) \<le> db_capacity b"

text \<open>Offering a list of entries one after the other, to a buffer and to a sink.\<close>

fun buffer_offers :: "('e \<Rightarrow> dirent_buf \<Rightarrow> (bool \<times> dirent_buf) option) \<Rightarrow> 'e list \<Rightarrow> dirent_buf \<Rightarrow>
    (bool list \<times> dirent_buf) option" where
  "buffer_offers add [] b = Some ([], b)"
| "buffer_offers add (e # es) b = do {
     (r, b') \<leftarrow> add e b;
     (rs, b'') \<leftarrow> buffer_offers add es b';
     Some (r # rs, b'') }"

fun sink_offers :: "'e list \<Rightarrow> 'e sink \<Rightarrow> bool list \<times> 'e sink" where
  "sink_offers [] k = ([], k)"
| "sink_offers (e # es) k = (case sink_add e k of (r, k') \<Rightarrow> (case sink_offers es k' of (rs, k'') \<Rightarrow> (r # rs, k'')))"

text \<open>The interface of a buffer: one offer of an entry, for any image of entries.\<close>

locale entry_buffer =
  fixes add :: "'e \<Rightarrow> dirent_buf \<Rightarrow> (bool \<times> dirent_buf) option"
    and img :: "'e \<Rightarrow> bytes" and skip :: "'e \<Rightarrow> bool" and ready :: "dirent_buf \<Rightarrow> bool"
    and panics :: "'e \<Rightarrow> bool"
  assumes add_panics: "ready b \<Longrightarrow> panics e \<Longrightarrow> add e b = None"
    and add_ready: "ready b \<Longrightarrow> \<not> panics e \<Longrightarrow>
      add e b = Some (if skip e \<or> length (db_buf b) + length (img e) \<le> db_capacity b
        then (True, b\<lparr>db_buf := db_buf b @ img e\<rparr>) else (False, b))"
    and ready_update: "ready (b\<lparr>db_buf := bs\<rparr>) = ready b"
    and skip_image: "skip e \<Longrightarrow> img e = []"
begin

lemma add_simulates:
  assumes "ready b" "\<not> panics e" "holds_images img b k"
    "sk_accepts k = sk_accepts (image_sink img skip (db_capacity b))"
  obtains r b' k' where "add e b = Some (r, b')" "sink_add e k = (r, k')" "holds_images img b' k'" "ready b'"
    "db_capacity b' = db_capacity b" "sk_accepts k' = sk_accepts k"
proof (cases "skip e \<or> length (db_buf b) + length (img e) \<le> db_capacity b")
  case True
  with assms have "sink_add e k = (True, k\<lparr>sk_items := sk_items k @ [e]\<rparr>)"
    by (auto simp: sink_add_def image_sink_def holds_images_def)
  moreover have "holds_images img (b\<lparr>db_buf := db_buf b @ img e\<rparr>) (k\<lparr>sk_items := sk_items k @ [e]\<rparr>)"
    using True assms(3) skip_image by (auto simp: holds_images_def)
  ultimately show ?thesis
    using that [of True "b\<lparr>db_buf := db_buf b @ img e\<rparr>" "k\<lparr>sk_items := sk_items k @ [e]\<rparr>"] add_ready [OF assms(1,2)] True
    by (simp add: ready_update assms(1))
next
  case False
  with assms have "sink_add e k = (False, k)" by (auto simp: sink_add_def image_sink_def holds_images_def)
  with that [of False b k] add_ready [OF assms(1,2)] False assms show ?thesis by simp
qed

lemma offers_simulates:
  assumes "ready b" "list_all (\<lambda>e. \<not> panics e) es" "holds_images img b k"
    "sk_accepts k = sk_accepts (image_sink img skip (db_capacity b))"
  shows "\<exists>rs b' k'. buffer_offers add es b = Some (rs, b') \<and> sink_offers es k = (rs, k') \<and> holds_images img b' k' \<and>
    db_capacity b' = db_capacity b"
  using assms
proof (induction es arbitrary: b k)
  case (Cons e es)
  obtain r b1 k1 where 1: "add e b = Some (r, b1)" "sink_add e k = (r, k1)" "holds_images img b1 k1" "ready b1"
    "db_capacity b1 = db_capacity b" "sk_accepts k1 = sk_accepts k"
    using add_simulates [of b e k] Cons.prems by auto
  have "\<exists>rs b' k'. buffer_offers add es b1 = Some (rs, b') \<and> sink_offers es k1 = (rs, k') \<and> holds_images img b' k' \<and>
      db_capacity b' = db_capacity b1"
    using Cons.IH [of b1 k1] Cons.prems 1 by auto
  then obtain rs b' k' where 2: "buffer_offers add es b1 = Some (rs, b')" "sink_offers es k1 = (rs, k')" "holds_images img b' k'"
    "db_capacity b' = db_capacity b1"
    by blast
  then have "buffer_offers add (e # es) b = Some (r # rs, b')" "sink_offers (e # es) k = (r # rs, k')" using 1 by simp_all
  with 1(5) 2(3,4) show ?case by metis
qed auto

end

interpretation plain_buffer: entry_buffer "dirent_add D" "item_image D" "\<lambda>(nm, _). \<not> no_nul nm" "\<lambda>b. db_format b = Plain" "\<lambda>_. False"
  by unfold_locales (auto simp: dirent_add_def item_image_def Let_def split: prod.splits)

interpretation plus_buffer: entry_buffer "dirent_add_plus D" "plus_image D ttl" "\<lambda>(nm, _). \<not> no_nul nm" "\<lambda>b. db_ttl b = ttl"
    "\<lambda>(nm, e, _). no_nul nm \<and> entry_to_entry_param (er_ino e) (er_generation e) (er_attr e) ttl = None"
  by unfold_locales (auto simp: dirent_add_plus_def plus_image_def Let_def split: prod.splits option.splits)

text \<open>
  C30. The directory buffers implement the sink of the runtime. Offered the same entries in the same order, buffer
  and sink give the same answers; the bytes of the buffer are the images of the entries the sink holds, in
  order, and never exceed the size the kernel asked for. A plus buffer panics only where the conversion of the
  attributes does.
\<close>

theorem dirent_buffers_refine_sinks:
  fixes plain_items :: "dir_item list" and plus_items :: "plus_item list"
  assumes "list_all (\<lambda>x. \<not> ps_panics (dirent_plus_sink D cap ttl) x) plus_items"
  shows "(\<exists>rs b k. buffer_offers (dirent_add D) plain_items (dirent_buf_new cap) = Some (rs, b) \<and>
      sink_offers plain_items (dirent_sink D cap) = (rs, k) \<and>
      db_buf b = concat (map (item_image D) (sk_items k)) \<and> length (db_buf b) \<le> cap) \<and>
    (\<exists>rs b k. buffer_offers (dirent_add_plus D) plus_items (dirent_buf_new_plus cap ttl) = Some (rs, b) \<and>
      sink_offers plus_items (ps_sink (dirent_plus_sink D cap ttl)) = (rs, k) \<and>
      db_buf b = concat (map (plus_image D ttl) (sk_items k)) \<and> length (db_buf b) \<le> cap)"
proof (intro conjI)
  show "\<exists>rs b k. buffer_offers (dirent_add D) plain_items (dirent_buf_new cap) = Some (rs, b) \<and>
      sink_offers plain_items (dirent_sink D cap) = (rs, k) \<and>
      db_buf b = concat (map (item_image D) (sk_items k)) \<and> length (db_buf b) \<le> cap"
    using plain_buffer.offers_simulates [of "dirent_buf_new cap" plain_items D "dirent_sink D cap"]
    by (fastforce simp: dirent_buf_new_def holds_images_def dirent_sink_def image_sink_def list_all_iff)
next
  have "list_all (\<lambda>x. \<not> (case x of (nm, e, _) \<Rightarrow> no_nul nm \<and>
      entry_to_entry_param (er_ino e) (er_generation e) (er_attr e) ttl = None)) plus_items"
    using assms by (simp add: dirent_plus_sink_def)
  with plus_buffer.offers_simulates [of "dirent_buf_new_plus cap ttl" ttl plus_items D "ps_sink (dirent_plus_sink D cap ttl)"]
  show "\<exists>rs b k. buffer_offers (dirent_add_plus D) plus_items (dirent_buf_new_plus cap ttl) = Some (rs, b) \<and>
      sink_offers plus_items (ps_sink (dirent_plus_sink D cap ttl)) = (rs, k) \<and>
      db_buf b = concat (map (plus_image D ttl) (sk_items k)) \<and> length (db_buf b) \<le> cap"
    by (fastforce simp: dirent_buf_new_plus_def holds_images_def dirent_plus_sink_def image_sink_def)
qed

text \<open>A layout with entries of eight bytes, or sixteen with attributes, and their name.\<close>

definition demo_format :: direntry_format where
  "demo_format = \<lparr>df_size = (\<lambda>nm. 8 + length nm), df_image = (\<lambda>nm st off. replicate (8 + length nm) 1),
     df_plus_size = (\<lambda>nm. 16 + length nm), df_plus_image = (\<lambda>nm p off. replicate (16 + length nm) 1)\<rparr>"

theorem dirent_buffers_refine_sinks_witness:
  "\<exists>rs b k. buffer_offers (dirent_add_plus demo_format) [(''a'', \<lparr>er_ino = 1, er_generation = 0, er_attr = default_attr\<rparr>, 1)]
      (dirent_buf_new_plus 64 0) = Some (rs, b) \<and> sink_offers [(''a'', \<lparr>er_ino = 1, er_generation = 0, er_attr = default_attr\<rparr>, 1)]
      (ps_sink (dirent_plus_sink demo_format 64 0)) = (rs, k) \<and>
    db_buf b = concat (map (plus_image demo_format 0) (sk_items k)) \<and> length (db_buf b) \<le> 64"
proof -
  have "entry_to_entry_param 1 0 default_attr 0 \<noteq> None"
    using time_safe_split [of 0]
    by (simp add: entry_to_entry_param_def attr_to_stat_def default_attr_def UNIX_EPOCH_def time_safe_def)
  then have "list_all (\<lambda>x. \<not> ps_panics (dirent_plus_sink demo_format 64 0) x)
      [(''a'', \<lparr>er_ino = 1, er_generation = 0, er_attr = default_attr\<rparr>, 1)]"
    by (simp add: dirent_plus_sink_def)
  from dirent_buffers_refine_sinks [OF this] show ?thesis by blast
qed

end
