(* ===== verification/File_Lock.thy ===== *)
theory File_Lock
  imports Conv
begin

text \<open>
  POSIX record locks (\<^verbatim>\<open>file_lock.rs\<close>): the conversions between \<^verbatim>\<open>FileLock\<close>, an inclusive
  range of unsigned offsets, and \<^verbatim>\<open>struct flock\<close>, a start and a length in signed fields, and the
  \<^verbatim>\<open>fcntl\<close> helpers, with the system call as a parameter. The conversions are inverse to each other on
  everything they accept.
\<close>

section \<open>The raw lock\<close>

type_synonym i16 = "16 word"

definition F_RDLCK :: i16 where "F_RDLCK = 0"
definition F_WRLCK :: i16 where "F_WRLCK = 1"
definition F_UNLCK :: i16 where "F_UNLCK = 2"
definition SEEK_SET :: i16 where "SEEK_SET = 0"

lemmas lock_consts = F_RDLCK_def F_WRLCK_def F_UNLCK_def SEEK_SET_def

record raw_flock =
  l_type :: i16
  l_whence :: i16
  l_start :: i64
  l_len :: i64
  l_pid :: i32

definition zeroed_flock :: raw_flock where
  "zeroed_flock = \<lparr>l_type = 0, l_whence = 0, l_start = 0, l_len = 0, l_pid = 0\<rparr>"

section \<open>Conversions\<close>

text \<open>\<^verbatim>\<open>off_t::try_from\<close> and \<^verbatim>\<open>pid_t::try_from\<close> on unsigned values; the bits of a value in range are kept.\<close>

definition try_signed :: "'a::len word \<Rightarrow> 'a word option" where
  "try_signed w = (if unat w < 2 ^ (LENGTH('a) - 1) then Some w else None)"

fun lock_type :: "lock_kind \<Rightarrow> i16" where
  "lock_type LockRead = F_RDLCK"
| "lock_type LockWrite = F_WRLCK"
| "lock_type LockUnlock = F_UNLCK"

definition res_or :: "errno \<Rightarrow> 'a option \<Rightarrow> ('a \<Rightarrow> 'b result) \<Rightarrow> 'b result" where
  "res_or e x f = (case x of None \<Rightarrow> Err e | Some a \<Rightarrow> f a)"

definition to_flock :: "file_lock \<Rightarrow> raw_flock result" where
  "to_flock lk =
     (if fl_end lk < fl_start lk then Err EINVAL
      else res_or EOVERFLOW (try_signed (fl_start lk)) (\<lambda>start.
           res_or EOVERFLOW
             (if fl_end lk = - 1 then Some 0
              else Option.bind (Option.bind (checked_sub (fl_end lk) (fl_start lk)) (\<lambda>n. checked_add n 1)) try_signed) (\<lambda>len.
           res_or EOVERFLOW (try_signed (fl_pid lk)) (\<lambda>pid.
           Ok (zeroed_flock\<lparr>l_type := lock_type (fl_kind lk), l_whence := SEEK_SET, l_start := start, l_len := len,
                 l_pid := pid\<rparr>)))))"

definition lock_kind_of :: "i16 \<Rightarrow> lock_kind option" where
  "lock_kind_of t =
     (if t = F_RDLCK then Some LockRead
      else if t = F_WRLCK then Some LockWrite
      else if t = F_UNLCK then Some LockUnlock
      else None)"

definition from_flock :: "raw_flock \<Rightarrow> file_lock result" where
  "from_flock rl =
     (if l_whence rl \<noteq> SEEK_SET \<or> sint (l_start rl) < 0 \<or> sint (l_len rl) < 0 then Err EINVAL
      else res_or EINVAL (lock_kind_of (l_type rl)) (\<lambda>kind.
           res_or EINVAL (if l_len rl = 0 then Some (- 1) else checked_add (l_start rl) (l_len rl - 1)) (\<lambda>end.
           Ok \<lparr>fl_kind = kind, fl_start = l_start rl, fl_end = end,
               fl_pid = (if 0 \<le> sint (l_pid rl) then l_pid rl else 0)\<rparr>)))"

section \<open>Locks on a descriptor\<close>

text \<open>
  \<^verbatim>\<open>fcntl\<close> on the borrowed descriptor is a parameter: it fails with an error number, or succeeds
  and may have written the lock.
\<close>

datatype lock_command = F_GETLK | F_SETLK | F_SETLKW

type_synonym fcntl = "lock_command \<Rightarrow> raw_flock \<Rightarrow> int + raw_flock"

definition getlk :: "fcntl \<Rightarrow> file_lock \<Rightarrow> file_lock result" where
  "getlk fcntl requested = (case to_flock requested of
     Ok lock \<Rightarrow> (case fcntl F_GETLK lock of
         Inl e \<Rightarrow> Err (errno_from_io (Some e))
       | Inr lock' \<Rightarrow> from_flock lock')
   | Err e \<Rightarrow> Err e | Panic \<Rightarrow> Panic | Blocks \<Rightarrow> Blocks)"

definition setlk :: "fcntl \<Rightarrow> file_lock \<Rightarrow> bool \<Rightarrow> unit result" where
  "setlk fcntl requested block = (case to_flock requested of
     Ok lock \<Rightarrow> (case fcntl (if block then F_SETLKW else F_SETLK) lock of
         Inl e \<Rightarrow> Err (errno_from_io (Some e))
       | Inr _ \<Rightarrow> Ok ())
   | Err e \<Rightarrow> Err e | Panic \<Rightarrow> Panic | Blocks \<Rightarrow> Blocks)"

section \<open>The conversions are inverse\<close>

lemma try_signed_iff: "try_signed (w :: 'a::len word) = Some v \<longleftrightarrow> v = w \<and> unat w < 2 ^ (LENGTH('a) - 1)"
  by (auto simp: try_signed_def)

lemma try_signed_None: "try_signed (w :: 'a::len word) = None \<longleftrightarrow> 2 ^ (LENGTH('a) - 1) \<le> unat w"
  by (auto simp: try_signed_def)

lemma lock_type_kind: "lock_kind_of t = Some k \<longleftrightarrow> t = lock_type k"
  by (cases k) (auto simp: lock_kind_of_def lock_consts)

lemma res_or_Ok: "res_or e x f = Ok b \<longleftrightarrow> (\<exists>a. x = Some a \<and> f a = Ok b)"
  by (simp add: res_or_def split: option.splits)

lemma sint_nonneg_iff: "0 \<le> sint (w :: 'a::len word) \<longleftrightarrow> unat w < 2 ^ (LENGTH('a) - 1)"
proof
  assume nn: "0 \<le> sint w"
  have lt: "sint w < 2 ^ (LENGTH('a) - 1)" using sint_lt [of w] by simp
  also have "\<dots> \<le> (2 :: int) ^ LENGTH('a)" by (rule power_increasing) auto
  finally have "take_bit LENGTH('a) (sint w) = sint w" using nn by (intro take_bit_int_eq_self)
  then have "uint w = sint w" by (simp only: uint_sint)
  with lt have "int (unat w) < int (2 ^ (LENGTH('a) - 1))" by simp
  then show "unat w < 2 ^ (LENGTH('a) - 1)" by (simp only: of_nat_less_iff)
next
  assume "unat w < 2 ^ (LENGTH('a) - 1)"
  then have "int (unat w) < int (2 ^ (LENGTH('a) - 1))" by (simp only: of_nat_less_iff)
  then have "uint w < 2 ^ (LENGTH('a) - 1)" by simp
  moreover have "- (2 ^ (LENGTH('a) - 1)) \<le> uint w" by (rule order_trans [of _ 0]) simp_all
  ultimately have "sint w = uint w" by (simp only: sint_uint signed_take_bit_int_eq_self One_nat_def)
  then show "0 \<le> sint w" by simp
qed

text \<open>What the two conversions compute, as conditions on naturals.\<close>

lemma unat_max: "unat (- 1 :: u64) = 2 ^ 64 - 1"
  by (simp add: unsigned_minus_1_eq_mask mask_eq_exp_minus_1)

lemma word64_max_iff: "(w :: u64) = - 1 \<longleftrightarrow> unat w = 2 ^ 64 - 1"
  using unat_max by (metis word_unat_eq_iff)

lemma lock_length:
  assumes "unat (s :: u64) \<le> unat e" "e \<noteq> - 1"
  shows "Option.bind (checked_sub e s) (\<lambda>n. checked_add n 1) = Some (e - s + 1)" "unat (e - s + 1) = unat e - unat s + 1"
proof -
  have n: "unat (e - s) = unat e - unat s" using assms(1) by (simp add: unat_sub word_le_nat_alt)
  have "unat e \<noteq> 2 ^ 64 - 1" "unat e < 2 ^ 64" using assms(2) unsigned_less [of e] by (simp_all add: word64_max_iff)
  then have lt: "unat (e - s) + unat (1 :: u64) < 2 ^ 64" using n by simp
  then have c: "checked_add (e - s) 1 = Some (e - s + 1)" by (simp add: checked_add_def)
  with assms(1) show "Option.bind (checked_sub e s) (\<lambda>n. checked_add n 1) = Some (e - s + 1)"
    by (simp add: checked_sub_def word_le_nat_alt)
  show "unat (e - s + 1) = unat e - unat s + 1" using unat_checked_add [OF c] n by simp
qed

lemma to_flock_Ok_iff:
  "to_flock lk = Ok l \<longleftrightarrow>
    unat (fl_start lk) \<le> unat (fl_end lk) \<and> unat (fl_start lk) < 2 ^ 63 \<and> unat (fl_pid lk) < 2 ^ 31 \<and>
    (fl_end lk = - 1 \<or> unat (fl_end lk) - unat (fl_start lk) + 1 < 2 ^ 63) \<and>
    l = \<lparr>l_type = lock_type (fl_kind lk), l_whence = SEEK_SET, l_start = fl_start lk,
         l_len = (if fl_end lk = - 1 then 0 else fl_end lk - fl_start lk + 1), l_pid = fl_pid lk\<rparr>"
proof (cases "unat (fl_start lk) \<le> unat (fl_end lk)")
  case False
  then show ?thesis by (simp add: to_flock_def word_less_nat_alt)
next
  case True
  note len = lock_length [OF True]
  show ?thesis
  proof (cases "fl_end lk = - 1")
    case True
    with \<open>unat (fl_start lk) \<le> unat (fl_end lk)\<close> show ?thesis
      by (auto simp: to_flock_def word_less_nat_alt res_or_Ok try_signed_iff zeroed_flock_def)
  next
    case False
    with True len show ?thesis
      by (auto simp: to_flock_def word_less_nat_alt res_or_Ok try_signed_iff zeroed_flock_def)
  qed
qed

lemma from_flock_Ok_iff:
  "from_flock l = Ok lk \<longleftrightarrow>
    l_whence l = SEEK_SET \<and> l_type l = lock_type (fl_kind lk) \<and> unat (l_start l) < 2 ^ 63 \<and> unat (l_len l) < 2 ^ 63 \<and>
    fl_start lk = l_start l \<and> fl_end lk = (if l_len l = 0 then - 1 else l_start l + (l_len l - 1)) \<and>
    fl_pid lk = (if unat (l_pid l) < 2 ^ 31 then l_pid l else 0)"
proof (cases "unat (l_start l) < 2 ^ 63 \<and> unat (l_len l) < 2 ^ 63")
  case False
  then show ?thesis using sint_nonneg_iff [of "l_start l"] sint_nonneg_iff [of "l_len l"] by (auto simp: from_flock_def)
next
  case True
  have "unat (l_len l - 1) = unat (l_len l) - 1" if "l_len l \<noteq> 0" using that by (simp add: unat_minus_one)
  with True have "checked_add (l_start l) (l_len l - 1) = Some (l_start l + (l_len l - 1))" if "l_len l \<noteq> 0"
    using that by (auto simp: checked_add_def)
  with True sint_nonneg_iff [of "l_start l"] sint_nonneg_iff [of "l_len l"] sint_nonneg_iff [of "l_pid l"] show ?thesis
    by (auto simp: from_flock_def res_or_Ok lock_type_kind intro!: file_lock.equality)
qed

text \<open>
  C38. The conversions between \<^verbatim>\<open>FileLock\<close> and \<^verbatim>\<open>struct flock\<close> are inverse to each other: a lock converts to
  a raw lock exactly when the raw lock converts back to it and has a non-negative process id.
\<close>

theorem flock_roundtrip: "to_flock lk = Ok l \<longleftrightarrow> from_flock l = Ok lk \<and> 0 \<le> sint (l_pid l)"
proof
  assume "to_flock lk = Ok l"
  then show "from_flock l = Ok lk \<and> 0 \<le> sint (l_pid l)"
    using lock_length(2) [of "fl_start lk" "fl_end lk"]
    by (auto simp: to_flock_Ok_iff from_flock_Ok_iff sint_nonneg_iff word_unat_eq_iff)
next
  assume *: "from_flock l = Ok lk \<and> 0 \<le> sint (l_pid l)"
  show "to_flock lk = Ok l"
  proof (cases "l_len l = 0")
    case True
    with * show ?thesis by (simp add: to_flock_Ok_iff from_flock_Ok_iff sint_nonneg_iff unat_max)
  next
    case False
    then have "unat (l_len l - 1) = unat (l_len l) - 1" "0 < unat (l_len l)" by (simp_all add: unat_minus_one unat_gt_0)
    moreover have "unat (l_start l) < 2 ^ 63" "unat (l_len l) < 2 ^ 63" using * by (auto simp: from_flock_Ok_iff)
    ultimately have "unat (l_start l + (l_len l - 1)) = unat (l_start l) + (unat (l_len l) - 1)"
      by (subst unat_add_lem [THEN iffD1]) auto
    with * False show ?thesis
      by (auto simp: to_flock_Ok_iff from_flock_Ok_iff sint_nonneg_iff word64_max_iff)
  qed
qed

text \<open>A lock that \<^verbatim>\<open>struct flock\<close> can hold.\<close>

definition fits_flock :: "file_lock \<Rightarrow> bool" where
  "fits_flock lk \<longleftrightarrow> unat (fl_start lk) < 2 ^ 63 \<and> unat (fl_pid lk) < 2 ^ 31 \<and>
     (unat (fl_end lk) = 2 ^ 64 - 1 \<or> unat (fl_end lk) - unat (fl_start lk) + 1 < 2 ^ 63)"

lemma to_flock_cases:
  "to_flock lk = (if fl_end lk < fl_start lk then Err EINVAL else if fits_flock lk then to_flock lk else Err EOVERFLOW)"
  using lock_length [of "fl_start lk" "fl_end lk"]
  by (auto simp: to_flock_def res_or_def fits_flock_def word64_max_iff word_less_nat_alt not_less try_signed_def split: option.splits)

text \<open>
  A converted lock covers the same bytes: the inclusive range of the typed lock and the start and
  length of the raw one, where length zero means to the end of the file. A lock that does not convert is
  rejected with \<^verbatim>\<open>EINVAL\<close> when its range is inverted and with \<^verbatim>\<open>EOVERFLOW\<close> when a field is too small.
\<close>

theorem to_flock_meaning:
  "case to_flock lk of
     Ok l \<Rightarrow> (\<forall>b :: u64. (fl_start lk \<le> b \<and> b \<le> fl_end lk) =
         (l_start l \<le> b \<and> (l_len l = 0 \<or> unat b < unat (l_start l) + unat (l_len l))))
   | Err e \<Rightarrow> fl_end lk < fl_start lk \<and> e = EINVAL \<or> fl_start lk \<le> fl_end lk \<and> \<not> fits_flock lk \<and> e = EOVERFLOW
   | _ \<Rightarrow> False"
proof (cases "fl_start lk \<le> fl_end lk \<and> fits_flock lk")
  case False
  then show ?thesis by (subst to_flock_cases) auto
next
  case True
  define l where "l = \<lparr>l_type = lock_type (fl_kind lk), l_whence = SEEK_SET, l_start = fl_start lk,
         l_len = (if fl_end lk = - 1 then 0 else fl_end lk - fl_start lk + 1), l_pid = fl_pid lk\<rparr>"
  from True have "to_flock lk = Ok l"
    by (simp add: to_flock_Ok_iff fits_flock_def l_def word_le_nat_alt word64_max_iff)
  moreover have "unat b \<le> unat (fl_end lk) \<longleftrightarrow> unat b < unat (l_start l) + unat (l_len l)" if "fl_end lk \<noteq> - 1" for b :: u64
    using that True lock_length(2) [of "fl_start lk" "fl_end lk"] by (auto simp: l_def word_le_nat_alt)
  moreover have "l_len l \<noteq> 0" if "fl_end lk \<noteq> - 1"
    using that True lock_length(2) [of "fl_start lk" "fl_end lk"] by (auto simp: l_def word_le_nat_alt word_unat_eq_iff)
  moreover have "b \<le> fl_end lk" if "fl_end lk = - 1" for b :: u64 using that by simp
  ultimately show ?thesis by (cases "fl_end lk = - 1") (auto simp: l_def word_le_nat_alt)
qed

end
