(* ===== verification/Runtime_Inv.thy ===== *)
theory Runtime_Inv
  imports Runtime
begin

text \<open>
  The invariant of the runtime and its preservation by every request. A request is described by what
  its reply gives the kernel: \<open>tab_op f\<close> for operations that touch only the node table, \<open>hop f\<close> for
  operations that may also use open handles, where \<open>f\<close> maps the returned value to the change of the
  lookup counts. The rules follow the structure of the handlers.
\<close>

section \<open>Operations on the node table\<close>

definition on_ok :: "('a \<Rightarrow> (u64 \<Rightarrow> nat) \<Rightarrow> u64 \<Rightarrow> nat) \<Rightarrow> 'a result \<Rightarrow> (u64 \<Rightarrow> nat) \<Rightarrow> u64 \<Rightarrow> nat" where
  "on_ok f r = (case r of Ok a \<Rightarrow> f a | _ \<Rightarrow> id)"

lemma on_ok_simps [simp]: "on_ok f (Ok a) = f a" "on_ok f (Err e) = id" "on_ok f Panic = id" "on_ok f Blocks = id"
  "on_ok (\<lambda>_. id) r = id"
  by (auto simp: on_ok_def split: outcome.splits)

definition tab_op :: "('a \<Rightarrow> (u64 \<Rightarrow> nat) \<Rightarrow> u64 \<Rightarrow> nat) \<Rightarrow> ('fs, 'n, 'h, 'd, 'a) rt_op \<Rightarrow> bool" where
  "tab_op f m \<longleftrightarrow> (\<forall>rt r rt'. table_inv (rt_shared rt) \<longrightarrow> m rt = (r, rt') \<longrightarrow>
     rt_handles rt' = rt_handles rt \<and> eff (on_ok f r) id (rt_shared rt) (rt_shared rt'))"

lemma tab_opD:
  assumes "tab_op f m" "table_inv (rt_shared rt)" "m rt = (r, rt')"
  shows "rt_handles rt' = rt_handles rt" "eff (on_ok f r) id (rt_shared rt) (rt_shared rt')"
  using assms by (auto simp: tab_op_def)

lemma tab_op_ret [intro]: "tab_op (\<lambda>_. id) (ret a)"
  by (auto simp: tab_op_def eff_refl)

lemma tab_op_ret_same [intro]: "f a = id \<Longrightarrow> tab_op f (ret a)"
  unfolding tab_op_def by (metis eff_refl on_ok_simps(1) prod.inject ret_simp)

lemma tab_op_fail [intro]: "tab_op f (fail e)"
  by (auto simp: tab_op_def eff_refl)

lemma tab_op_callback [intro]: "quiet m \<Longrightarrow> tab_op (\<lambda>_. id) (callback m)"
  by (auto simp: tab_op_def quiet_def callback_def split: prod.splits)

lemma tab_op_bnd [intro]:
  assumes m: "tab_op (\<lambda>_. id) m" and g: "\<And>a. tab_op f (g a)"
  shows "tab_op f (bnd m g)"
  unfolding tab_op_def
proof (intro allI impI)
  fix rt r rt'
  assume inv: "table_inv (rt_shared rt)" and "bnd m g rt = (r, rt')"
  from this(2) show "rt_handles rt' = rt_handles rt \<and> eff (on_ok f r) id (rt_shared rt) (rt_shared rt')"
  proof (cases rule: bnd_cases)
    case (ok a s)
    note 1 = tab_opD [OF m inv ok(1)]
    note 2 = tab_opD [OF g effD(1) [OF 1(2)] ok(2)]
    from 1 2 show ?thesis by (auto intro: eff_id_trans)
  qed (use tab_opD [OF m inv] in auto)
qed

lemma with_node_cases:
  assumes "with_node nid body rt = (r, rt')"
  obtains (failed) "r = Err ENOENT \<or> r = Panic" "rt' = rt"
    | (leased) nr sh1 rt2 where "cx_get nid (rt_shared rt) = (Ok (Some nr), sh1)"
        "body nr (rt\<lparr>rt_shared := sh1\<rparr>) = (r, rt2)" "rt' = drop_node nr rt2"
proof -
  obtain g sh1 where get: "cx_get nid (rt_shared rt) = (g, sh1)" by (cases "cx_get nid (rt_shared rt)")
  from get show thesis
  proof (cases rule: cx_get_cases)
    case (leased s l)
    let ?nr = "\<lparr>nr_id = nid, nr_record = s_record s\<rparr>"
    obtain q rt2 where q: "body ?nr (rt\<lparr>rt_shared := sh1\<rparr>) = (q, rt2)" by fastforce
    with assms get leased(3) have "r = q" "rt' = drop_node ?nr rt2"
      by (auto simp: with_node_def bnd_def on_table_def)
    with q get leased(3) show thesis by (intro that(2) [of ?nr sh1 rt2]) auto
  qed (use assms get that(1) in \<open>auto simp: with_node_def bnd_def on_table_def\<close>)
qed

lemma tab_op_with_node [intro]:
  assumes body: "\<And>nr. tab_op f (body nr)" shows "tab_op f (with_node nid body)"
  unfolding tab_op_def
proof (intro allI impI)
  fix rt r rt'
  assume inv: "table_inv (rt_shared rt)" and w: "with_node nid body rt = (r, rt')"
  from w show "rt_handles rt' = rt_handles rt \<and> eff (on_ok f r) id (rt_shared rt) (rt_shared rt')"
  proof (cases rule: with_node_cases)
    case (leased nr sh1 rt2)
    with tab_opD [OF body _ leased(2)] lease_taken(1) [OF inv leased(1)]
    have b: "rt_handles rt2 = rt_handles rt" "eff (on_ok f r) id sh1 (rt_shared rt2)" by simp_all
    with eff_bracket [OF inv leased(1) b(2)] leased(3) show ?thesis by (simp add: drop_node_def)
  qed (use inv in \<open>auto simp: eff_refl\<close>)
qed

text \<open>An entry reply is one lookup of its inode.\<close>

definition entry_delta :: "entry_reply \<Rightarrow> (u64 \<Rightarrow> nat) \<Rightarrow> u64 \<Rightarrow> nat" where
  "entry_delta e = bump (er_ino e)"

lemma entry_retain_cases:
  "\<exists>q. retain_lookup nid sh = (q, snd (entry_retain nid attr sh)) \<and>
     (case fst (entry_retain nid attr sh) of Ok e \<Rightarrow> q = Ok () \<and> er_ino e = ino_of nid | _ \<Rightarrow> q \<noteq> Ok ())"
  by (auto simp: entry_retain_def retain_lookup_def split: option.splits)

lemma tab_op_entry_retain: "tab_op entry_delta (on_table (entry_retain nid attr))"
  unfolding tab_op_def
proof (intro allI impI)
  fix rt r rt'
  assume inv: "table_inv (rt_shared rt)" and "on_table (entry_retain nid attr) rt = (r, rt')"
  then have r: "r = fst (entry_retain nid attr (rt_shared rt))" "rt' = rt\<lparr>rt_shared := snd (entry_retain nid attr (rt_shared rt))\<rparr>"
    by (auto simp: on_table_def split: prod.splits)
  from entry_retain_cases [of nid "rt_shared rt" attr] obtain q
    where q: "retain_lookup nid (rt_shared rt) = (q, rt_shared rt')"
      "case r of Ok e \<Rightarrow> q = Ok () \<and> er_ino e = ino_of nid | _ \<Rightarrow> q \<noteq> Ok ()" by (auto simp: r)
  from eff_retain_lookup [OF inv q(1)] q(2) show "rt_handles rt' = rt_handles rt \<and> eff (on_ok entry_delta r) id (rt_shared rt) (rt_shared rt')"
    by (auto simp: r(2) entry_delta_def on_ok_def split: outcome.splits)
qed

lemma tab_op_maybe_drop: "tab_op (\<lambda>_. id) (on_table (\<lambda>sh. (Ok (), with_table (maybe_drop nid) sh)))"
  by (auto simp: tab_op_def on_table_def eff_maybe_drop)

section \<open>Operations on handles\<close>

definition hop :: "('a \<Rightarrow> (u64 \<Rightarrow> nat) \<Rightarrow> u64 \<Rightarrow> nat) \<Rightarrow> ('fs, 'n, 'h, 'd, 'a) rt_op \<Rightarrow> bool" where
  "hop f m \<longleftrightarrow> (\<forall>rt r rt'. table_inv (rt_shared rt) \<longrightarrow> handles_inv (rt_handles rt) \<longrightarrow> m rt = (r, rt') \<longrightarrow>
     handles_inv (rt_handles rt') \<and> handle_count (rt_handles rt') = handle_count (rt_handles rt) \<and>
     eff (on_ok f r) id (rt_shared rt) (rt_shared rt'))"

lemma hop_tab [intro]: "tab_op f m \<Longrightarrow> hop f m"
  by (auto simp: tab_op_def hop_def)

lemma hopD:
  assumes "hop f m" "table_inv (rt_shared rt)" "handles_inv (rt_handles rt)" "m rt = (r, rt')"
  shows "handles_inv (rt_handles rt')" "handle_count (rt_handles rt') = handle_count (rt_handles rt)"
    "eff (on_ok f r) id (rt_shared rt) (rt_shared rt')"
  using assms by (auto simp: hop_def)

lemma hop_bnd:
  assumes m: "tab_op (\<lambda>_. id) m" and g: "\<And>a. hop f (g a)"
  shows "hop f (bnd m g)"
  unfolding hop_def
proof (intro allI impI)
  fix rt r rt'
  assume inv: "table_inv (rt_shared rt)" "handles_inv (rt_handles rt)" and "bnd m g rt = (r, rt')"
  from this(3) show "handles_inv (rt_handles rt') \<and> handle_count (rt_handles rt') = handle_count (rt_handles rt) \<and>
     eff (on_ok f r) id (rt_shared rt) (rt_shared rt')"
  proof (cases rule: bnd_cases)
    case (ok a s)
    note 1 = tab_opD [OF m inv(1) ok(1)]
    with inv(2) have h: "handles_inv (rt_handles s)" by simp
    note 2 = hopD [OF g effD(1) [OF 1(2)] h ok(2)]
    from 1 2 show ?thesis by (auto intro: eff_id_trans)
  qed (use tab_opD [OF m inv(1)] inv(2) in auto)
qed

lemma hop_with_node:
  assumes body: "\<And>nr. hop f (body nr)" shows "hop f (with_node nid body)"
  unfolding hop_def
proof (intro allI impI)
  fix rt r rt'
  assume inv: "table_inv (rt_shared rt)" "handles_inv (rt_handles rt)" and w: "with_node nid body rt = (r, rt')"
  from w show "handles_inv (rt_handles rt') \<and> handle_count (rt_handles rt') = handle_count (rt_handles rt) \<and>
     eff (on_ok f r) id (rt_shared rt) (rt_shared rt')"
  proof (cases rule: with_node_cases)
    case (leased nr sh1 rt2)
    with hopD [OF body _ _ leased(2)] lease_taken(1) [OF inv(1) leased(1)] inv(2)
    have b: "handles_inv (rt_handles rt2)" "handle_count (rt_handles rt2) = handle_count (rt_handles rt)"
      "eff (on_ok f r) id sh1 (rt_shared rt2)" by simp_all
    with eff_bracket [OF inv(1) leased(1) b(3)] leased(3) show ?thesis by (simp add: drop_node_def)
  qed (use inv in \<open>auto simp: eff_refl\<close>)
qed

text \<open>Taking and dropping a handle lease restores the table.\<close>

lemma bt_insert_back: "bt_sorted m \<Longrightarrow> bt_get m k = Some v \<Longrightarrow> bt_insert k v (bt_insert k w m) = m"
  by (induction k w m rule: bt_insert.induct)
    (auto simp: bt_sorted_def split: if_splits dest!: bt_get_SomeD)

lemma saturating_sub_add_1: "checked_add (x::'a::len word) 1 = Some y \<Longrightarrow> saturating_sub y 1 = x"
  using unat_checked_add_1 [of x y] by (intro word_unat_eq_iff [THEN iffD2]) simp

lemma lease_drop_acquire: "acquire s = (Ok (Some ()), s') \<Longrightarrow> snd (lease_drop s') = s"
  by (auto simp: acquire_def lease_drop_def Let_def saturating_sub_add_1 split: if_splits option.splits)

lemma file_lease_cases:
  assumes "file_lease n fh t = (q, t')"
  obtains (failed) "t' = t" "\<nexists>x. q = Ok x"
    | (leased) r s where "bt_get (ht_files t) fh = Some r" "acquire (hr_state r) = (Ok (Some ()), s)"
        "q = Ok (fh, hr_payload r)" "t' = t\<lparr>ht_files := bt_insert fh (r\<lparr>hr_state := s\<rparr>) (ht_files t)\<rparr>"
  using assms by (auto simp: file_lease_def split: option.splits if_splits prod.splits outcome.splits)

lemma file_lease_restored:
  assumes "handles_inv t" "file_lease n fh t = (Ok x, t')"
  shows "file_lease_drop (fst x) t' = t"
  using assms(2)
proof (cases rule: file_lease_cases)
  case (leased r s)
  have "bt_sorted (ht_files t)" using assms(1) by (simp add: handles_inv_def records_inv_def)
  with leased show ?thesis
    by (simp add: file_lease_drop_def lease_drop_acquire bt_insert_back)
qed auto

lemma find_lease_Some:
  assumes "find_lease n rs = Ok (Some (fh, r'))"
  shows "\<exists>r s. (fh, r) \<in> set rs \<and> acquire (hr_state r) = (Ok (Some ()), s) \<and> r' = r\<lparr>hr_state := s\<rparr> \<and> ino_of (hr_node r) = n"
  using assms
proof (induction rs)
  case (Cons p rs)
  obtain k r where p: "p = (k, r)" by (cases p)
  obtain q s where a: "acquire (hr_state r) = (q, s)" by fastforce
  from Cons a show ?case
    by (cases q) (auto simp: p split: if_splits option.splits)
qed simp

lemma fallback_lease_cases:
  assumes "fallback_lease n t = (q, t')" "bt_sorted (ht_files t)"
  obtains (failed) "t' = t" "\<nexists>x. q = Ok (Some x)"
    | (leased) fh r s where "bt_get (ht_files t) fh = Some r" "acquire (hr_state r) = (Ok (Some ()), s)"
        "q = Ok (Some (fh, hr_payload r))" "t' = t\<lparr>ht_files := bt_insert fh (r\<lparr>hr_state := s\<rparr>) (ht_files t)\<rparr>"
proof (cases "\<exists>x. find_lease n (rev (ht_files t)) = Ok (Some x)")
  case False
  with assms(1) show ?thesis
    by (intro failed) (auto simp: fallback_lease_def split: outcome.splits option.splits)
next
  case True
  then obtain fh r' where f: "find_lease n (rev (ht_files t)) = Ok (Some (fh, r'))" by fastforce
  from find_lease_Some [OF this] obtain r s where "(fh, r) \<in> set (ht_files t)"
    "acquire (hr_state r) = (Ok (Some ()), s)" "r' = r\<lparr>hr_state := s\<rparr>" by auto
  with f assms show ?thesis
    by (intro leased) (auto simp: fallback_lease_def bt_get_Some_iff)
qed

lemma with_lease_restores:
  assumes "file_lease_drop fh t' = t" "tab_op f (body (Some h))" "table_inv (rt_shared rt)" "rt_handles rt = t'"
    and "with_lease (Some (fh, h)) body rt = (r, rt2)"
  shows "rt_handles rt2 = t" "eff (on_ok f r) id (rt_shared rt) (rt_shared rt2)"
  using tab_opD [OF assms(2,3)] assms(1,4,5) by (auto simp: with_lease_def split: prod.splits)

lemma hop_with_file:
  assumes body: "\<And>h. tab_op f (body h)" shows "hop f (with_file n fh body)"
  unfolding hop_def
proof (intro allI impI)
  fix rt r rt'
  assume inv: "table_inv (rt_shared rt)" "handles_inv (rt_handles rt)" and w: "with_file n fh body rt = (r, rt')"
  obtain q t' where q: "file_lease n fh (rt_handles rt) = (q, t')" by fastforce
  from q show "handles_inv (rt_handles rt') \<and> handle_count (rt_handles rt') = handle_count (rt_handles rt) \<and>
     eff (on_ok f r) id (rt_shared rt) (rt_shared rt')"
  proof (cases rule: file_lease_cases)
    case (leased rc s)
    with file_lease_restored [OF inv(2)] q have restored: "file_lease_drop fh t' = rt_handles rt" by fastforce
    from w q leased(3) have "with_lease (Some (fh, hr_payload rc)) (\<lambda>h. body (the h)) (rt\<lparr>rt_handles := t'\<rparr>) = (r, rt')"
      by (simp add: with_file_def bnd_def on_handles_def)
    from with_lease_restores [OF restored _ _ _ this, of f] body inv show ?thesis by simp
  qed (use w q inv in \<open>auto simp: with_file_def bnd_def on_handles_def eff_refl split: outcome.splits\<close>)
qed

lemma hop_optional_file:
  assumes body: "\<And>h. tab_op f (body h)" shows "hop f (bnd (optional_file F n node fh) (\<lambda>x. with_lease x body))"
  unfolding hop_def
proof (intro allI impI)
  fix rt r rt'
  assume inv: "table_inv (rt_shared rt)" "handles_inv (rt_handles rt)"
    and w: "bnd (optional_file F n node fh) (\<lambda>x. with_lease x body) rt = (r, rt')"
  obtain q rt1 where q: "optional_file F n node fh rt = (q, rt1)" by fastforce
  have sorted: "bt_sorted (ht_files (rt_handles rt))" using inv(2) by (simp add: handles_inv_def records_inv_def)
  have sh: "rt_shared rt1 = rt_shared rt"
    using q by (auto simp: optional_file_def Let_def on_handles_def bnd_def split: option.splits prod.splits outcome.splits if_splits)
  consider (none) "\<nexists>x. q = Ok (Some x)" "rt_handles rt1 = rt_handles rt"
    | (some) fh' h where "q = Ok (Some (fh', h))" "file_lease_drop fh' (rt_handles rt1) = rt_handles rt"
  proof (cases fh)
    case (Some k)
    obtain p t' where p: "file_lease n k (rt_handles rt) = (p, t')" by fastforce
    with q Some have rt1: "rt1 = rt\<lparr>rt_handles := t'\<rparr>" "q = (case p of Ok x \<Rightarrow> Ok (Some x) | Err e \<Rightarrow> Err e | Panic \<Rightarrow> Panic | Blocks \<Rightarrow> Blocks)"
      by (auto simp: optional_file_def on_handles_def bnd_def split: outcome.splits)
    from p show ?thesis
    proof (cases rule: file_lease_cases)
      case (leased rc s)
      with file_lease_restored [OF inv(2)] p rt1 show ?thesis by (intro that(2) [of k "hr_payload rc"]) fastforce+
    qed (use rt1 that(1) in \<open>auto split: outcome.splits\<close>)
  next
    case None
    show ?thesis
    proof (cases "rt1 = rt \<and> q = Ok None")
      case True
      with that(1) show ?thesis by simp
    next
      case False
      with q None have "fallback_lease n (rt_handles rt) = (q, rt_handles rt1)"
        by (auto simp: optional_file_def Let_def on_handles_def split: if_splits prod.splits)
      from this sorted show ?thesis
      proof (cases rule: fallback_lease_cases)
        case (leased fh' rc s)
        then show ?thesis using sorted
          by (intro that(2) [of fh' "hr_payload rc"]) (simp_all add: file_lease_drop_def lease_drop_acquire bt_insert_back)
      qed (use that(1) in auto)
    qed
  qed
  then show "handles_inv (rt_handles rt') \<and> handle_count (rt_handles rt') = handle_count (rt_handles rt) \<and>
     eff (on_ok f r) id (rt_shared rt) (rt_shared rt')"
  proof cases
    case none
    have inv1: "table_inv (rt_shared rt1)" using inv(1) sh by simp
    from w q none(1) show ?thesis
      using tab_opD [OF body inv1, of None] none(2) inv sh
      by (auto simp: bnd_def with_lease_def eff_refl split: outcome.splits option.splits)
  next
    case some
    from w q some(1) have "with_lease (Some (fh', h)) body rt1 = (r, rt')" by (simp add: bnd_def)
    from with_lease_restores [OF some(2) _ _ _ this, of f] body inv sh show ?thesis by simp
  qed
qed

subsection \<open>Directory handles\<close>

lemma dir_lease_cases:
  assumes "dir_lease n fh t = (q, t')"
  obtains (failed) "t' = t" "\<nexists>x. q = Ok x" "q \<noteq> Blocks"
    | (leased) r s where "bt_get (ht_dirs t) fh = Some r" "acquire (hr_state r) = (Ok (Some ()), s)"
        "q = Ok (hr_payload r)" "t' = t\<lparr>ht_dirs := bt_insert fh (r\<lparr>hr_state := s\<rparr>) (ht_dirs t)\<rparr>"
  using assms
  by (auto simp: dir_lease_def acquire_def split: option.splits if_splits prod.splits outcome.splits)

text \<open>Dropping the lease leaves the record quiescent, with the listing state it now has.\<close>

lemma dir_lease_restored:
  assumes inv: "handles_inv t" and r: "bt_get (ht_dirs t) fh = Some r" and a: "acquire (hr_state r) = (Ok (Some ()), s)"
    and t': "t' = t\<lparr>ht_dirs := bt_insert fh (r\<lparr>hr_state := s\<rparr>) (ht_dirs t)\<rparr>"
  shows "handles_inv (dir_lease_drop fh d t')" "handle_count (dir_lease_drop fh d t') = handle_count t"
proof -
  let ?r = "r\<lparr>hr_payload := d\<rparr>"
  have twice: "bt_insert fh y (bt_insert fh x m) = bt_insert fh y m" for x y and m :: "(u64, 'd handle_record) btree"
    by (induction fh x m rule: bt_insert.induct) auto
  have drop_eq: "dir_lease_drop fh d t' = t\<lparr>ht_dirs := bt_insert fh ?r (ht_dirs t)\<rparr>"
    by (simp add: dir_lease_drop_def t' lease_drop_acquire [OF a] twice)
  have d: "records_inv (ht_next_fh t) (ht_dirs t)" using inv by (simp add: handles_inv_def)
  then have "records_inv (ht_next_fh t) (bt_insert fh ?r (ht_dirs t))"
    using r by (intro records_inv_insert) (auto simp: records_inv_def)
  with inv r show "handles_inv (dir_lease_drop fh d t')"
    unfolding drop_eq by (auto simp: handles_inv_def)
  show "handle_count (dir_lease_drop fh d t') = handle_count t"
    unfolding drop_eq using opens_on_insert_same [OF _ r, of ?r] d
    by (simp add: handle_count_def records_inv_def fun_eq_iff)
qed

lemma with_dir_cases:
  assumes "with_dir n fh body rt = (r, rt')" and inv: "handles_inv (rt_handles rt)"
  obtains (failed) "\<nexists>x. r = Ok x" "r \<noteq> Blocks" "rt' = rt"
    | (leased) d t1 d' rt2 where "body d (rt\<lparr>rt_handles := t1\<rparr>) = ((r, d'), rt2)" "rt_shared rt' = rt_shared rt2"
        "rt_handles rt2 = t1 \<Longrightarrow> handles_inv (rt_handles rt') \<and> handle_count (rt_handles rt') = handle_count (rt_handles rt)"
proof -
  obtain q t1 where q: "dir_lease n fh (rt_handles rt) = (q, t1)" by fastforce
  from q show thesis
  proof (cases rule: dir_lease_cases)
    case (leased rc s)
    obtain r' d' rt2 where b: "body (hr_payload rc) (rt\<lparr>rt_handles := t1\<rparr>) = ((r', d'), rt2)" by (metis surj_pair)
    with assms(1) q leased(3) have "r' = r" "rt' = rt2\<lparr>rt_handles := dir_lease_drop fh d' (rt_handles rt2)\<rparr>"
      by (auto simp: with_dir_def bnd_def on_handles_def)
    with b dir_lease_restored [OF inv leased(1,2,4)] show thesis
      by (intro that(2) [of "hr_payload rc" t1 d' rt2]) auto
  qed (use assms(1) q that(1) in \<open>auto simp: with_dir_def bnd_def on_handles_def split: outcome.splits\<close>)
qed

definition dir_op :: "('a \<Rightarrow> (u64 \<Rightarrow> nat) \<Rightarrow> u64 \<Rightarrow> nat) \<Rightarrow>
    ('d \<Rightarrow> ('fs, 'n, 'h, 'd) runtime \<Rightarrow> ('a result \<times> 'd) \<times> ('fs, 'n, 'h, 'd) runtime) \<Rightarrow> bool" where
  "dir_op f body \<longleftrightarrow> (\<forall>d rt r d' rt'. table_inv (rt_shared rt) \<longrightarrow> body d rt = ((r, d'), rt') \<longrightarrow>
     rt_handles rt' = rt_handles rt \<and> eff (on_ok f r) id (rt_shared rt) (rt_shared rt'))"

lemma hop_with_dir:
  assumes "dir_op f body" shows "hop f (with_dir n fh body)"
  unfolding hop_def
proof (intro allI impI)
  fix rt r rt'
  assume inv: "table_inv (rt_shared rt)" "handles_inv (rt_handles rt)" and w: "with_dir n fh body rt = (r, rt')"
  from w inv(2) show "handles_inv (rt_handles rt') \<and> handle_count (rt_handles rt') = handle_count (rt_handles rt) \<and>
     eff (on_ok f r) id (rt_shared rt) (rt_shared rt')"
  proof (cases rule: with_dir_cases)
    case (leased d t1 d' rt2)
    have "table_inv (rt_shared (rt\<lparr>rt_handles := t1\<rparr>))" using inv(1) by simp
    with assms leased(1) have "rt_handles rt2 = t1" "eff (on_ok f r) id (rt_shared rt) (rt_shared rt2)"
      unfolding dir_op_def by fastforce+
    with leased(2,3) show ?thesis by simp
  next
    case failed
    with inv show ?thesis by (cases r) (auto simp: eff_refl)
  qed
qed

lemma tab_op_parent_of: "tab_op (\<lambda>_. id) (parent_of n)"
  by (auto simp: tab_op_def parent_of_def ok_or_def eff_refl split: option.splits)

end
