(* ===== verification/Runtime_Ops.thy ===== *)
theory Runtime_Ops
  imports Runtime_Inv
begin

text \<open>
  Every request keeps the invariant of the runtime. The invariant between requests: the node table and
  the handle table are consistent, no lease is live, and every open handle is counted by its inode.
  A request that returns changes the lookup counts by exactly what its reply tells the kernel; one that
  panics may leave lookups or opens counted that nobody will give back, never the reverse.
\<close>

section \<open>Invariant\<close>

definition rt_inv :: "('fs, 'n, 'h, 'd) runtime \<Rightarrow> bool" where
  "rt_inv rt \<longleftrightarrow> table_inv (rt_shared rt) \<and> handles_inv (rt_handles rt) \<and>
     (\<forall>n. handle_count (rt_handles rt) n \<le> opens_of (rt_shared rt) n) \<and> (\<forall>n. leases_of (rt_shared rt) n = 0)"

definition rt_exact :: "('fs, 'n, 'h, 'd) runtime \<Rightarrow> bool" where
  "rt_exact rt \<longleftrightarrow> opens_of (rt_shared rt) = handle_count (rt_handles rt)"

definition returned :: "'a result \<Rightarrow> bool" where
  "returned r \<longleftrightarrow> r \<noteq> Panic \<and> r \<noteq> Blocks"

definition rt_ok :: "('a result \<Rightarrow> (u64 \<Rightarrow> nat) \<Rightarrow> u64 \<Rightarrow> nat) \<Rightarrow> ('fs, 'n, 'h, 'd, 'a) rt_op \<Rightarrow> bool" where
  "rt_ok dl m \<longleftrightarrow> (\<forall>rt r rt'. rt_inv rt \<longrightarrow> m rt = (r, rt') \<longrightarrow>
     rt_inv rt' \<and> (\<forall>n. dl r (lookups_of (rt_shared rt)) n \<le> lookups_of (rt_shared rt') n) \<and>
     (returned r \<longrightarrow> lookups_of (rt_shared rt') = dl r (lookups_of (rt_shared rt)) \<and> (rt_exact rt \<longrightarrow> rt_exact rt')))"

lemma rt_okD:
  assumes "rt_ok dl m" "rt_inv rt" "m rt = (r, rt')"
  shows "rt_inv rt'" "dl r (lookups_of (rt_shared rt)) n \<le> lookups_of (rt_shared rt') n"
    "returned r \<Longrightarrow> lookups_of (rt_shared rt') = dl r (lookups_of (rt_shared rt))"
    "returned r \<Longrightarrow> rt_exact rt \<Longrightarrow> rt_exact rt'"
  using assms by (auto simp: rt_ok_def)

lemma rt_ok_hop: "hop f m \<Longrightarrow> rt_ok (on_ok f) m"
  unfolding rt_ok_def
proof (intro allI impI)
  fix rt r rt'
  assume h: "hop f m" and inv: "rt_inv rt" and m: "m rt = (r, rt')"
  from inv have t: "table_inv (rt_shared rt)" "handles_inv (rt_handles rt)" by (simp_all add: rt_inv_def)
  from hopD [OF h t m] inv
  show "rt_inv rt' \<and> (\<forall>n. on_ok f r (lookups_of (rt_shared rt)) n \<le> lookups_of (rt_shared rt') n) \<and>
     (returned r \<longrightarrow> lookups_of (rt_shared rt') = on_ok f r (lookups_of (rt_shared rt)) \<and> (rt_exact rt \<longrightarrow> rt_exact rt'))"
    by (simp add: rt_inv_def rt_exact_def eff_def)
qed

section \<open>Opening\<close>

definition grows :: "((u64 \<Rightarrow> nat) \<Rightarrow> u64 \<Rightarrow> nat) \<Rightarrow> bool" where
  "grows dl \<longleftrightarrow> (\<forall>f n. f n \<le> dl f n)"

text \<open>
  What opening does: on success one more open and one more handle on the same inode; on failure
  nothing; on a panic possibly an open without its handle.
\<close>

definition open_rel :: "('a \<Rightarrow> (u64 \<Rightarrow> nat) \<Rightarrow> u64 \<Rightarrow> nat) \<Rightarrow> 'a result \<Rightarrow> ('fs, 'n, 'h, 'd) runtime \<Rightarrow> ('fs, 'n, 'h, 'd) runtime \<Rightarrow> bool" where
  "open_rel f r rt rt' \<longleftrightarrow> handles_inv (rt_handles rt') \<and>
     (case r of
        Ok a \<Rightarrow> \<exists>n. eff (f a) (bump n) (rt_shared rt) (rt_shared rt') \<and>
          handle_count (rt_handles rt') = bump n (handle_count (rt_handles rt))
      | Panic \<Rightarrow> handle_count (rt_handles rt') = handle_count (rt_handles rt) \<and>
          (\<exists>dl dop. grows dl \<and> grows dop \<and> eff dl dop (rt_shared rt) (rt_shared rt'))
      | _ \<Rightarrow> handle_count (rt_handles rt') = handle_count (rt_handles rt) \<and> eff id id (rt_shared rt) (rt_shared rt'))"

definition open_op :: "('a \<Rightarrow> (u64 \<Rightarrow> nat) \<Rightarrow> u64 \<Rightarrow> nat) \<Rightarrow> ('fs, 'n, 'h, 'd, 'a) rt_op \<Rightarrow> bool" where
  "open_op f m \<longleftrightarrow> (\<forall>rt r rt'. table_inv (rt_shared rt) \<longrightarrow> handles_inv (rt_handles rt) \<longrightarrow> m rt = (r, rt') \<longrightarrow> open_rel f r rt rt')"

lemma grows_id [simp]: "grows id" and grows_bump [simp]: "grows (bump n)"
  by (auto simp: grows_def bump_def)

lemma grows_comp: "grows f \<Longrightarrow> grows g \<Longrightarrow> grows (f \<circ> g)"
  unfolding grows_def comp_def by (meson order_trans)

lemma rt_ok_open: "open_op f m \<Longrightarrow> rt_ok (on_ok f) m"
  unfolding rt_ok_def
proof (intro allI impI)
  fix rt r rt'
  assume "open_op f m" and inv: "rt_inv rt" and "m rt = (r, rt')"
  then have o: "open_rel f r rt rt'" by (auto simp: open_op_def rt_inv_def)
  have le: "handle_count (rt_handles rt) n \<le> opens_of (rt_shared rt) n" for n using inv by (simp add: rt_inv_def)
  have bump_mono: "bump k (handle_count (rt_handles rt)) n \<le> bump k (opens_of (rt_shared rt)) n" for k n
    using le by (simp add: bump_def)
  have trans: "grows dop \<Longrightarrow> handle_count (rt_handles rt) n \<le> dop (opens_of (rt_shared rt)) n" for dop n
    using le [of n] by (auto simp: grows_def intro: order_trans)
  from o inv le bump_mono trans show "rt_inv rt' \<and> (\<forall>n. on_ok f r (lookups_of (rt_shared rt)) n \<le> lookups_of (rt_shared rt') n) \<and>
     (returned r \<longrightarrow> lookups_of (rt_shared rt') = on_ok f r (lookups_of (rt_shared rt)) \<and> (rt_exact rt \<longrightarrow> rt_exact rt'))"
    by (cases r) (auto simp: open_rel_def rt_inv_def rt_exact_def eff_def returned_def grows_def)
qed

lemma open_op_bnd:
  assumes m: "tab_op (\<lambda>_. id) m" and g: "\<And>a. open_op f (g a)" shows "open_op f (bnd m g)"
  unfolding open_op_def
proof (intro allI impI)
  fix rt r rt'
  assume inv: "table_inv (rt_shared rt)" "handles_inv (rt_handles rt)" and "bnd m g rt = (r, rt')"
  from this(3) show "open_rel f r rt rt'"
  proof (cases rule: bnd_cases)
    case (ok a s)
    note 1 = tab_opD [OF m inv(1) ok(1)]
    with g ok(2) inv(2) have "open_rel f r s rt'" by (auto simp: open_op_def eff_def)
    with 1 show ?thesis
      by (auto simp: open_rel_def split: outcome.splits intro: eff_id_trans)
  qed (use tab_opD [OF m inv(1)] inv(2) in \<open>auto simp: open_rel_def intro!: exI [of _ id]\<close>)
qed

lemma open_op_with_node:
  assumes body: "\<And>nr. open_op f (body nr)" shows "open_op f (with_node nid body)"
  unfolding open_op_def
proof (intro allI impI)
  fix rt r rt'
  assume inv: "table_inv (rt_shared rt)" "handles_inv (rt_handles rt)" and w: "with_node nid body rt = (r, rt')"
  from w show "open_rel f r rt rt'"
  proof (cases rule: with_node_cases)
    case (leased nr sh1 rt2)
    with body inv(2) lease_taken(1) [OF inv(1) leased(1)] have "open_rel f r (rt\<lparr>rt_shared := sh1\<rparr>) rt2"
      by (auto simp: open_op_def)
    then show ?thesis unfolding leased(3) open_rel_def drop_node_def
      by (auto split: outcome.splits intro: eff_bracket [OF inv(1) leased(1)])
  qed (use inv in \<open>auto simp: open_rel_def eff_refl intro!: exI [of _ id]\<close>)
qed

text \<open>The end of \<^verbatim>\<open>open\<close>, \<^verbatim>\<open>opendir\<close> and \<^verbatim>\<open>create\<close>: count the open, then number the handle.\<close>

definition adds_handle :: "node_id \<Rightarrow> (('h, 'd) handle_table \<Rightarrow> u64 result \<times> ('h, 'd) handle_table) \<Rightarrow> bool" where
  "adds_handle nid g \<longleftrightarrow> (\<forall>t r t'. handles_inv t \<longrightarrow> g t = (r, t') \<longrightarrow> handles_inv t' \<and>
     (case r of Ok fh \<Rightarrow> handle_count t' = bump (ino_of nid) (handle_count t) | _ \<Rightarrow> r = Panic \<and> t' = t))"

lemma adds_handle_file: "adds_handle nid (add_file nid h)"
  unfolding adds_handle_def
  by (auto simp: handles_inv_add_file bump_def split: outcome.splits dest: handle_count_add_file elim: add_file_cases)

lemma adds_handle_dir: "adds_handle nid (add_dir nid h)"
  unfolding adds_handle_def
  by (auto simp: handles_inv_add_dir bump_def split: outcome.splits dest: handle_count_add_dir elim: add_dir_cases)

lemma open_op_tail:
  assumes g: "adds_handle nid g" and f: "\<And>fh. f (h fh) = id"
  shows "open_op f (bnd (on_table (add_open (ino_of nid))) (\<lambda>_. bnd (on_handles g) (\<lambda>fh. ret (h fh))))"
  unfolding open_op_def
proof (intro allI impI)
  fix rt r rt'
  assume inv: "table_inv (rt_shared rt)" "handles_inv (rt_handles rt)"
    and m: "bnd (on_table (add_open (ino_of nid))) (\<lambda>_. bnd (on_handles g) (\<lambda>fh. ret (h fh))) rt = (r, rt')"
  obtain q sh where q: "add_open (ino_of nid) (rt_shared rt) = (q, sh)" by fastforce
  note e = eff_add_open [OF inv(1) q]
  obtain q2 t where q2: "g (rt_handles rt) = (q2, t)" by fastforce
  with g inv(2) have t: "handles_inv t" "case q2 of Ok fh \<Rightarrow> handle_count t = bump (ino_of nid) (handle_count (rt_handles rt)) | _ \<Rightarrow> q2 = Panic \<and> t = rt_handles rt"
    by (auto simp: adds_handle_def)
  have panic: "grows dop \<Longrightarrow> eff id dop (rt_shared rt) sh \<Longrightarrow>
      \<exists>dl. grows dl \<and> (\<exists>dop. grows dop \<and> eff dl dop (rt_shared rt) sh)" for dop
    by (intro exI [of _ id]) auto
  from m q q2 e t inv f show "open_rel f r rt rt'"
    by (cases q; cases q2) (auto simp: bnd_def on_table_def on_handles_def open_rel_def
        intro: panic [OF grows_bump] panic [OF grows_id])
qed

section \<open>Closing\<close>

text \<open>
  The body of \<^verbatim>\<open>release\<close> and \<^verbatim>\<open>releasedir\<close>, run after the record left the table: the inode is
  still there because the open counts it, nothing is leased, so neither the lease nor the wait can
  fail, and the payload reaches the filesystem.
\<close>

definition release_body :: "u64 \<Rightarrow> 'p handle_record \<Rightarrow> (node_ref \<Rightarrow> 'p \<Rightarrow> ('fs, 'n, unit) call) \<Rightarrow> ('fs, 'n, 'h, 'd, unit) rt_op" where
  "release_body n r cb = with_node (from_ino n) (\<lambda>nr.
     bnd (on_table (\<lambda>sh. (Ok (), remove_open n sh))) (\<lambda>_.
     bnd (\<lambda>rt. (fst (close_and_take r), rt)) (\<lambda>h. callback (cb nr h))))"

lemma release_body_effect:
  assumes inv: "table_inv (rt_shared rt)" and open_n: "0 < opens_of (rt_shared rt) n" and idle: "leases_of (rt_shared rt) n = 0"
    and q: "quiescent (hr_state rc)" and cb: "\<And>nr h. quiet (cb nr h)" and m: "release_body n rc cb rt = (r, rt')"
  shows "rt_handles rt' = rt_handles rt" "eff id (lower n 1) (rt_shared rt) (rt_shared rt')"
    "\<exists>nr sh1 rt2. cx_get (from_ino n) (rt_shared rt) = (Ok (Some nr), sh1) \<and>
      callback (cb nr (hr_payload rc)) (rt\<lparr>rt_shared := remove_open n sh1\<rparr>) = (r, rt2) \<and> rt' = drop_node nr rt2"
proof -
  have slot: "slot_at (rt_shared rt) n \<noteq> None" using open_n by (rule counted_slot(2))
  obtain nr sh1 where get: "cx_get (from_ino n) (rt_shared rt) = (Ok (Some nr), sh1)"
    using cx_get_quiet [of "rt_shared rt" "from_ino n"] idle slot by auto
  obtain rc' where take: "close_and_take rc = (Ok (hr_payload rc), rc')" using close_and_take_quiescent [OF q] by blast
  let ?rt1 = "rt\<lparr>rt_shared := remove_open n sh1\<rparr>"
  obtain rt2 where b: "callback (cb nr (hr_payload rc)) ?rt1 = (r, rt2)" and rt': "rt' = drop_node nr rt2"
    using m get take by (auto simp: release_body_def with_node_def bnd_def on_table_def split: prod.splits)
  have inv1: "table_inv sh1" by (rule lease_taken(1) [OF inv get])
  note e1 = eff_remove_open [OF inv1, of n]
  have e2: "rt_handles rt2 = rt_handles rt" "eff id id (remove_open n sh1) (rt_shared rt2)"
    using tab_opD [OF tab_op_callback [OF cb] _ b] effD(1) [OF e1] by auto
  from eff_bracket [OF inv get eff_id_trans(2) [OF e1 e2(2)]] e2(1)
  show "rt_handles rt' = rt_handles rt" "eff id (lower n 1) (rt_shared rt) (rt_shared rt')"
    by (simp_all add: rt' drop_node_def)
  show "\<exists>nr sh1 rt2. cx_get (from_ino n) (rt_shared rt) = (Ok (Some nr), sh1) \<and>
      callback (cb nr (hr_payload rc)) (rt\<lparr>rt_shared := remove_open n sh1\<rparr>) = (r, rt2) \<and> rt' = drop_node nr rt2"
    using get b rt' by blast
qed

lemma rt_ok_release_pattern:
  assumes m: "\<And>rt. m rt = (case get rt of
      None \<Rightarrow> (Err EBADF, rt)
    | Some r \<Rightarrow> if ino_of (hr_node r) \<noteq> n then (Err EBADF, rt) else release_body n r cb (rt\<lparr>rt_handles := without rt\<rparr>))"
    and cb: "\<And>nr h. quiet (cb nr h)"
    and t: "\<And>rt r. handles_inv (rt_handles rt) \<Longrightarrow> get rt = Some r \<Longrightarrow> handles_inv (without rt) \<and> quiescent (hr_state r) \<and>
        0 < handle_count (rt_handles rt) (ino_of (hr_node r)) \<and>
        handle_count (without rt) = lower (ino_of (hr_node r)) 1 (handle_count (rt_handles rt))"
  shows "rt_ok (on_ok (\<lambda>_. id)) m"
  unfolding rt_ok_def
proof (intro allI impI)
  fix rt r rt'
  assume inv: "rt_inv rt" and mrt: "m rt = (r, rt')"
  let ?goal = "rt_inv rt' \<and> (\<forall>k. on_ok (\<lambda>_. id) r (lookups_of (rt_shared rt)) k \<le> lookups_of (rt_shared rt') k) \<and>
     (returned r \<longrightarrow> lookups_of (rt_shared rt') = on_ok (\<lambda>_. id) r (lookups_of (rt_shared rt)) \<and> (rt_exact rt \<longrightarrow> rt_exact rt'))"
  show ?goal
  proof (cases "\<exists>rc. get rt = Some rc \<and> ino_of (hr_node rc) = n")
    case False
    with mrt inv show ?thesis by (auto simp: m split: option.splits if_splits)
  next
    case True
    then obtain rc where rc: "get rt = Some rc" "ino_of (hr_node rc) = n" by blast
    with mrt have b: "release_body n rc cb (rt\<lparr>rt_handles := without rt\<rparr>) = (r, rt')" by (simp add: m)
    have i: "handles_inv (rt_handles rt)" "table_inv (rt_shared rt)" "leases_of (rt_shared rt) n = 0"
      "handle_count (rt_handles rt) k \<le> opens_of (rt_shared rt) k" for k
      using inv by (simp_all add: rt_inv_def)
    note t' = t [OF i(1) rc(1), unfolded rc(2)]
    have "0 < opens_of (rt_shared rt) n" using t' i(4) [of n] by linarith
    with release_body_effect [OF _ _ _ _ cb b] i t'
    have e: "rt_handles rt' = without rt" "eff id (lower n 1) (rt_shared rt) (rt_shared rt')" by simp_all
    have "handle_count (rt_handles rt') k \<le> opens_of (rt_shared rt') k" for k
      using i(4) t' effD(3) [OF e(2)] e(1) by (simp add: lower_def diff_le_mono)
    with e t' inv show ?thesis
      by (simp add: rt_inv_def rt_exact_def eff_def)
  qed
qed

section \<open>Every request\<close>

text \<open>A directory listing with attributes: the kernel is told about the entries it accepted, and only about those.\<close>

definition plus_delta :: "plus_sink \<times> node_id list \<Rightarrow> (u64 \<Rightarrow> nat) \<Rightarrow> u64 \<Rightarrow> nat" where
  "plus_delta x = add_ids (snd x)"

lemma drop_prefix_grows: "grows (drop_ids js \<circ> add_ids (js @ rest))"
  by (simp add: grows_def drop_ids_def add_ids_def)

text \<open>The reply of \<^verbatim>\<open>lookup\<close>: a negative entry is no lookup.\<close>

fun lookup_delta :: "lookup_reply \<Rightarrow> (u64 \<Rightarrow> nat) \<Rightarrow> u64 \<Rightarrow> nat" where
  "lookup_delta (Found e) = entry_delta e"
| "lookup_delta Negative = id"

context node_fs_contract
begin

lemma tab_op_entry_for [intro]: "tab_op entry_delta (entry_for F nid c)"
  unfolding entry_for_def by (intro tab_op_with_node tab_op_bnd tab_op_callback tab_op_entry_retain) simp

lemma tab_op_forget_none: "tab_op (\<lambda>_. id) (callback (fs_forget F a))"
  by (intro tab_op_callback) simp

lemma forget_effect:
  assumes inv: "table_inv (rt_shared rt)" and m: "rt_forget F n k rt = (r, rt')"
  shows "rt_handles rt' = rt_handles rt" "eff (lower n (unat k)) id (rt_shared rt) (rt_shared rt')"
proof -
  obtain q sh1 where f: "forget_count n k (rt_shared rt) = (q, sh1)" by fastforce
  consider (nr) nr where "q = Ok (Some (Some nr))" | (quick) "q = Ok None \<or> q = Ok (Some None) \<or> q = Panic"
    using forget_count_slot [OF f] by blast
  then have "rt_handles rt' = rt_handles rt \<and> eff (lower n (unat k)) id (rt_shared rt) (rt_shared rt')"
  proof cases
    case nr
    obtain rt2 where b: "callback (fs_forget F (nr_record nr)) (rt\<lparr>rt_shared := sh1\<rparr>) = (r, rt2)" and rt': "rt' = drop_node nr rt2"
      using m f nr by (auto simp: rt_forget_def bnd_def on_table_def split: prod.splits)
    have "table_inv sh1" using tstep_table [OF tstep.forget_first [OF f]] inv by simp
    with tab_opD [OF tab_op_forget_none _ b] have "rt_handles rt2 = rt_handles rt" "eff id id sh1 (rt_shared rt2)" by simp_all
    with eff_forget_bracket [OF inv f [unfolded nr]] show ?thesis by (simp add: rt' drop_node_def)
  next
    case quick
    note e = eff_forget_none [OF inv f quick]
    have "rt_handles rt' = rt_handles rt \<and> rt_shared rt' = sh1"
      using quick m f maybe_drop_noop [OF effD(1) [OF e]] by (auto simp: rt_forget_def bnd_def on_table_def)
    with e show ?thesis by simp
  qed
  then show "rt_handles rt' = rt_handles rt" "eff (lower n (unat k)) id (rt_shared rt) (rt_shared rt')" by simp_all
qed

lemma forget_not_Err: "rt_forget F n k rt \<noteq> (Err e, rt')"
proof
  assume m: "rt_forget F n k rt = (Err e, rt')"
  obtain q sh1 where f: "forget_count n k (rt_shared rt) = (q, sh1)" by fastforce
  from forget_count_slot [OF f] have "\<nexists>e. q = Err e" by auto
  moreover have "fst (callback (fs_forget F a) rt2) \<noteq> Err e" for a and rt2 :: "('fs, 'n, 'h, 'd) runtime"
    using forget_no_error [of a "(rt_fs rt2, rt_shared rt2)" e] by (auto simp: callback_def split: prod.splits)
  ultimately show False
    using m f by (auto simp: rt_forget_def bnd_def on_table_def split: outcome.splits option.splits prod.splits)
      (metis fst_conv)+
qed

lemma forget_all_effect:
  assumes "table_inv (rt_shared rt)" "forget_all F ids rt = (r, rt')"
  shows "rt_handles rt' = rt_handles rt \<and>
    (\<exists>js rest. ids = js @ rest \<and> eff (drop_ids js) id (rt_shared rt) (rt_shared rt') \<and> (returned r \<longrightarrow> rest = [] \<and> r = Ok ()))"
  using assms
proof (induction ids arbitrary: rt)
  case Nil
  then have "rt' = rt" "r = Ok ()" by simp_all
  moreover have "eff (drop_ids []) id (rt_shared rt) (rt_shared rt)"
    unfolding drop_ids_Nil by (rule eff_refl [OF Nil.prems(1)])
  ultimately show ?case by blast
next
  case (Cons nid ids)
  from Cons.prems(2) have "bnd (rt_forget F (ino_of nid) 1) (\<lambda>_. forget_all F ids) rt = (r, rt')" by simp
  then show ?case
  proof (cases rule: bnd_cases)
    case (ok a s)
    note 1 = forget_effect [OF Cons.prems(1) ok(1)]
    from Cons.IH [OF effD(1) [OF 1(2)] ok(2)] obtain js rest where IH: "rt_handles rt' = rt_handles s" "ids = js @ rest"
      "eff (drop_ids js) id (rt_shared s) (rt_shared rt')" "returned r \<longrightarrow> rest = [] \<and> r = Ok ()" by blast
    have "eff (drop_ids (nid # js)) id (rt_shared rt) (rt_shared rt')"
      using eff_trans [OF 1(2) IH(3)] by (simp add: drop_ids_Cons)
    moreover have "nid # ids = (nid # js) @ rest" using IH(2) by simp
    moreover have "rt_handles rt' = rt_handles rt" using 1(1) IH(1) by simp
    ultimately show ?thesis using IH(4) by blast
  next
    case (err e)
    with forget_not_Err show ?thesis by blast
  next
    case panic
    from forget_effect [OF Cons.prems(1) panic(1)] have "rt_handles rt' = rt_handles rt"
      "eff (drop_ids [nid]) id (rt_shared rt) (rt_shared rt')" by (simp_all add: drop_ids_Cons)
    moreover have "nid # ids = [nid] @ ids" "\<not> returned r" by (simp_all add: returned_def panic(2))
    ultimately show ?thesis by blast
  next
    case blocks
    from forget_effect [OF Cons.prems(1) blocks(1)] have "rt_handles rt' = rt_handles rt"
      "eff (drop_ids [nid]) id (rt_shared rt) (rt_shared rt')" by (simp_all add: drop_ids_Cons)
    moreover have "nid # ids = [nid] @ ids" "\<not> returned r" by (simp_all add: returned_def blocks(2))
    ultimately show ?thesis by blast
  qed
qed

lemma plus_result_effect:
  assumes inv: "table_inv (rt_shared rt)" and cb: "quiet_plus m"
    and c: "dir_callback m \<lparr>ac_inner = k, ac_accepted = []\<rparr> d rt = (x, rt1)"
    and p: "plus_result F x rt1 = ((r, d'), rt')"
  shows "rt_handles rt' = rt_handles rt \<and> (\<exists>dl. eff dl id (rt_shared rt) (rt_shared rt') \<and>
    (if returned r then dl = on_ok plus_delta r else grows dl))"
proof -
  obtain q d1 ac where x: "x = (q, d1, ac)" by (metis surj_pair)
  from c inv cb obtain p where h: "rt_handles rt1 = rt_handles rt"
    and pc: "plus_calls (rt_shared rt, \<lparr>ac_inner = k, ac_accepted = []\<rparr>) p (rt_shared rt1, ac)"
    by (force simp: dir_callback_def quiet_plus_def x split: prod.splits)
  from plus_calls_effect [OF pc inv] have e: "eff (add_ids (ac_accepted ac)) id (rt_shared rt) (rt_shared rt1)" by auto
  have g: "grows (add_ids ids)" for ids by (simp add: grows_def add_ids_def)
  show ?thesis
  proof (cases "\<exists>er. q = Err er")
    case False
    with p x h e g show ?thesis by (cases q) (auto simp: plus_result_def plus_delta_def returned_def)
  next
    case True
    then obtain er where q: "q = Err er" by blast
    obtain r2 rt2 where f: "forget_all F (ac_accepted ac) rt1 = (r2, rt2)" by fastforce
    from forget_all_effect [OF effD(1) [OF e] f] obtain js rest where js: "rt_handles rt2 = rt_handles rt1"
      "ac_accepted ac = js @ rest" "eff (drop_ids js) id (rt_shared rt1) (rt_shared rt2)"
      "returned r2 \<longrightarrow> rest = [] \<and> r2 = Ok ()" by blast
    from p x q f have rt': "rt' = rt2" "r = (case r2 of Ok _ \<Rightarrow> Err er | Err e \<Rightarrow> Err e | Panic \<Rightarrow> Panic | Blocks \<Rightarrow> Blocks)"
      by (auto simp: plus_result_def bnd_def split: outcome.splits)
    note both = eff_trans [OF e js(3), simplified]
    show ?thesis
    proof (cases "returned r2")
      case True
      with js(2,4) both have "eff id id (rt_shared rt) (rt_shared rt')" "r = Err er"
        by (simp_all add: rt' fun_eq_iff o_def id_def eff_def)
      with rt' js h show ?thesis by (auto simp: returned_def)
    next
      case False
      then have "\<not> returned r" by (auto simp: rt'(2) returned_def)
      with both drop_prefix_grows [of js rest] js(1,2) rt'(1) h show ?thesis by auto
    qed
  qed
qed

lemma rt_ok_readdirplus: "rt_ok (on_ok plus_delta) (rt_readdirplus F n fh off k c)"
  unfolding rt_ok_def
proof (intro allI impI)
  fix rt r rt'
  assume inv: "rt_inv rt" and m: "rt_readdirplus F n fh off k c rt = (r, rt')"
  then have t: "table_inv (rt_shared rt)" "handles_inv (rt_handles rt)" by (simp_all add: rt_inv_def)
  have "handles_inv (rt_handles rt') \<and> handle_count (rt_handles rt') = handle_count (rt_handles rt) \<and>
     (\<exists>dl. eff dl id (rt_shared rt) (rt_shared rt') \<and> (if returned r then dl = on_ok plus_delta r else grows dl))"
    using m unfolding rt_readdirplus_def
  proof (cases rule: with_node_cases)
    case failed
    then have "eff id id (rt_shared rt) (rt_shared rt')" "if returned r then id = on_ok plus_delta r else grows id"
      using t by (auto simp: eff_refl returned_def)
    with failed t show ?thesis by blast
  next
    case (leased nr sh1 rt2)
    let ?rt1 = "rt\<lparr>rt_shared := sh1\<rparr>"
    have inv1: "table_inv (rt_shared ?rt1)" "handles_inv (rt_handles ?rt1)"
      using lease_taken(1) [OF t(1) leased(1)] t by simp_all
    have "handles_inv (rt_handles rt2) \<and> handle_count (rt_handles rt2) = handle_count (rt_handles rt) \<and>
     (\<exists>dl. eff dl id sh1 (rt_shared rt2) \<and> (if returned r then dl = on_ok plus_delta r else grows dl))"
      using leased(2)
    proof (cases rule: bnd_cases)
      case (ok par s)
      then have s: "s = ?rt1" by (auto simp: parent_of_def ok_or_def split: option.splits)
      then have "handles_inv (rt_handles s)" using inv1(2) by simp
      with ok(2) show ?thesis
      proof (cases rule: with_dir_cases)
        case failed
        then have "eff id id sh1 (rt_shared rt2)" "if returned r then id = on_ok plus_delta r else grows id"
          using inv1 s by (cases r; auto simp: eff_refl returned_def)+
        with failed s t show ?thesis by auto
      next
        case (leased d t1 d' rt3)
        then obtain x rt4 where x: "dir_callback (fs_readdirplus F (nr_record nr) (from_ino n) par off c)
              \<lparr>ac_inner = k, ac_accepted = []\<rparr> d (s\<lparr>rt_handles := t1\<rparr>) = (x, rt4)" "plus_result F x rt4 = ((r, d'), rt3)"
          by (auto split: prod.splits)
        from plus_result_effect [OF _ quiet_readdirplus x] inv1 s leased(2,3) show ?thesis by auto
      qed
    qed (use inv1 t in \<open>auto simp: parent_of_def ok_or_def returned_def split: option.splits intro!: exI [of _ id] eff_refl\<close>)
    then obtain dl where d: "handles_inv (rt_handles rt2)" "handle_count (rt_handles rt2) = handle_count (rt_handles rt)"
      "eff dl id sh1 (rt_shared rt2)" "if returned r then dl = on_ok plus_delta r else grows dl" by blast
    from eff_bracket [OF t(1) leased(1) d(3)] d leased(3) show ?thesis by (auto simp: drop_node_def)
  qed
  then obtain dl where "handles_inv (rt_handles rt')" "handle_count (rt_handles rt') = handle_count (rt_handles rt)"
    "eff dl id (rt_shared rt) (rt_shared rt')" "if returned r then dl = on_ok plus_delta r else grows dl" by blast
  with inv show "rt_inv rt' \<and> (\<forall>k. on_ok plus_delta r (lookups_of (rt_shared rt)) k \<le> lookups_of (rt_shared rt') k) \<and>
     (returned r \<longrightarrow> lookups_of (rt_shared rt') = on_ok plus_delta r (lookups_of (rt_shared rt)) \<and> (rt_exact rt \<longrightarrow> rt_exact rt'))"
    by (cases r) (auto simp: rt_inv_def rt_exact_def eff_def returned_def grows_def)
qed

text \<open>
  The entries that a \<^verbatim>\<open>readdirplus\<close> leaves in the kernel's buffer are, apart from the dots, those of the nodes that it reports as
  counted.
\<close>

lemma plus_result_told:
  assumes inv: "table_inv (rt_shared rt)" and cb: "quiet_plus m"
    and c: "dir_callback m \<lparr>ac_inner = k, ac_accepted = []\<rparr> d rt = (x, rt1)"
    and p: "plus_result F x rt1 = ((Ok (k', ids), d'), rt')"
  shows "\<exists>items. sk_items (ps_sink k') = sk_items (ps_sink k) @ items \<and> map ino_of ids = told items \<and>
    (\<forall>y \<in> set items. \<not> ps_panics k y)"
proof -
  from p obtain u d1 ac where x: "x = (Ok u, d1, ac)" and k': "k' = ac_inner ac" "ids = ac_accepted ac"
    by (cases x) (auto simp: plus_result_def bnd_def split: outcome.splits prod.splits)
  from c inv cb obtain p where "plus_calls (rt_shared rt, \<lparr>ac_inner = k, ac_accepted = []\<rparr>) p (rt_shared rt1, ac)" "\<not> p"
    by (force simp: dir_callback_def quiet_plus_def x split: prod.splits)
  from plus_calls_told [OF this] k' show ?thesis by auto
qed

lemma readdirplus_told:
  assumes inv: "rt_inv rt" and m: "rt_readdirplus F n fh off k c rt = (Ok (k', ids), rt')"
  shows "\<exists>items. sk_items (ps_sink k') = sk_items (ps_sink k) @ items \<and> map ino_of ids = told items \<and>
    (\<forall>y \<in> set items. \<not> ps_panics k y)"
  using m unfolding rt_readdirplus_def
proof (cases rule: with_node_cases)
  case (leased nr sh1 rt2)
  have t: "table_inv (rt_shared rt)" "handles_inv (rt_handles rt)" using inv by (simp_all add: rt_inv_def)
  from leased(2) show ?thesis
  proof (cases rule: bnd_cases)
    case (ok par s)
    then have s: "s = rt\<lparr>rt_shared := sh1\<rparr>" by (auto simp: parent_of_def ok_or_def split: option.splits)
    with t have "handles_inv (rt_handles s)" "table_inv (rt_shared s)" using lease_taken(1) [OF t(1) leased(1)] by simp_all
    from ok(2) this(1) show ?thesis
    proof (cases rule: with_dir_cases)
      case (leased d t1 d' rt3)
      then obtain x rt4 where x: "dir_callback (fs_readdirplus F (nr_record nr) (from_ino n) par off c)
            \<lparr>ac_inner = k, ac_accepted = []\<rparr> d (s\<lparr>rt_handles := t1\<rparr>) = (x, rt4)" "plus_result F x rt4 = ((Ok (k', ids), d'), rt3)"
        by (auto split: prod.splits)
      from plus_result_told [OF _ quiet_readdirplus x] \<open>table_inv (rt_shared s)\<close> show ?thesis by simp
    qed auto
  qed auto
qed auto

text \<open>
  The other requests, by the structure of their definitions. Every request that returns an entry
  gives one lookup for it; no other request changes a lookup count.
\<close>

lemma rt_ok_forget: "rt_ok (\<lambda>_. lower n (unat k)) (rt_forget F n k)"
  unfolding rt_ok_def
proof (intro allI impI)
  fix rt r rt'
  assume inv: "rt_inv rt" and m: "rt_forget F n k rt = (r, rt')"
  then have "table_inv (rt_shared rt)" by (simp add: rt_inv_def)
  from forget_effect [OF this m] inv
  show "rt_inv rt' \<and> (\<forall>j. lower n (unat k) (lookups_of (rt_shared rt)) j \<le> lookups_of (rt_shared rt') j) \<and>
     (returned r \<longrightarrow> lookups_of (rt_shared rt') = lower n (unat k) (lookups_of (rt_shared rt)) \<and> (rt_exact rt \<longrightarrow> rt_exact rt'))"
    by (simp add: rt_inv_def rt_exact_def eff_def)
qed

lemma rt_ok_calls:
  "rt_ok (on_ok (\<lambda>_. id)) (rt_statfs F n c)" "rt_ok (on_ok (\<lambda>_. id)) (rt_readlink F n c)"
  "rt_ok (on_ok (\<lambda>_. id)) (rt_access F n msk c)" "rt_ok (on_ok (\<lambda>_. id)) (rt_setxattr F n nm val i c)"
  "rt_ok (on_ok (\<lambda>_. id)) (rt_getxattr F n nm sz c)" "rt_ok (on_ok (\<lambda>_. id)) (rt_listxattr F n sz c)"
  "rt_ok (on_ok (\<lambda>_. id)) (rt_removexattr F n nm c)" "rt_ok (on_ok (\<lambda>_. id)) (rt_unlink F p nm c)"
  "rt_ok (on_ok (\<lambda>_. id)) (rt_rmdir F p nm c)" "rt_ok (on_ok (\<lambda>_. id)) (rt_rename F p nm p' nm' fl c)"
  "rt_ok (on_ok (\<lambda>_. id)) (rt_copy_file_range F n1 o1 n2 o2 len i c)"
  unfolding rt_statfs_def rt_readlink_def rt_access_def rt_setxattr_def rt_getxattr_def rt_listxattr_def
    rt_removexattr_def rt_unlink_def rt_rmdir_def rt_rename_def rt_copy_file_range_def
  by (intro rt_ok_hop hop_tab tab_op_with_node tab_op_callback quiet_all)+

lemma rt_ok_attr: "rt_ok (on_ok (\<lambda>_. id)) (rt_getattr F n ofh c)" "rt_ok (on_ok (\<lambda>_. id)) (rt_setattr F n ofh sa c)"
  unfolding rt_getattr_def rt_setattr_def
  by (intro rt_ok_hop hop_with_node hop_optional_file tab_op_callback quiet_all)+

lemma rt_ok_file:
  "rt_ok (on_ok (\<lambda>_. id)) (rt_write F n fh bs off c)" "rt_ok (on_ok (\<lambda>_. id)) (rt_flush F n fh c)"
  "rt_ok (on_ok (\<lambda>_. id)) (rt_fsync F n fh b c)" "rt_ok (on_ok (\<lambda>_. id)) (rt_fallocate F n fh i off len c)"
  "rt_ok (on_ok (\<lambda>_. id)) (rt_lseek F n fh off i c)" "rt_ok (on_ok (\<lambda>_. id)) (rt_getlk F n fh own lk c)"
  "rt_ok (on_ok (\<lambda>_. id)) (rt_setlk F n fh own lk b c)" "rt_ok (on_ok (\<lambda>_. id)) (rt_flock F n fh i c)"
  unfolding rt_write_def rt_flush_def rt_fsync_def rt_fallocate_def rt_lseek_def rt_getlk_def rt_setlk_def rt_flock_def
  by (intro rt_ok_hop hop_with_node hop_with_file tab_op_callback quiet_all)+

lemma hop_reply_with: "hop (\<lambda>_. id) m \<Longrightarrow> hop (\<lambda>_. id) (reply_with reply m)"
  unfolding hop_def reply_with_def by (fastforce split: prod.splits outcome.splits)

lemma rt_ok_read: "rt_ok (on_ok (\<lambda>_. id)) (rt_read F n fh off sz c reply)"
  unfolding rt_read_def
  by (intro rt_ok_hop hop_reply_with hop_with_node hop_with_file tab_op_callback quiet_all)

lemma rt_ok_entries:
  "rt_ok (on_ok entry_delta) (rt_mknod F p nm mode rdev um c)" "rt_ok (on_ok entry_delta) (rt_mkdir F p nm mode um c)"
  "rt_ok (on_ok entry_delta) (rt_symlink F p nm tgt c)" "rt_ok (on_ok entry_delta) (rt_link F n p nm c)"
  unfolding rt_mknod_def rt_mkdir_def rt_symlink_def rt_link_def
  by (intro rt_ok_hop hop_tab tab_op_bnd tab_op_callback tab_op_entry_for quiet_all)+

lemma tab_op_map:
  assumes "tab_op f m" "\<And>a. g (h a) = f a" shows "tab_op g (bnd m (\<lambda>a. ret (h a)))"
  unfolding tab_op_def
proof (intro allI impI)
  fix rt r rt'
  assume inv: "table_inv (rt_shared rt)" and "bnd m (\<lambda>a. ret (h a)) rt = (r, rt')"
  from this(2) show "rt_handles rt' = rt_handles rt \<and> eff (on_ok g r) id (rt_shared rt) (rt_shared rt')"
    by (cases rule: bnd_cases) (use tab_opD [OF assms(1) inv] assms(2) in fastforce)+
qed

lemma rt_ok_lookup: "rt_ok (on_ok lookup_delta) (rt_lookup F p nm c)"
proof -
  have found: "tab_op lookup_delta (bnd (entry_for F nid c) (\<lambda>e. ret (Found e)))" for nid
    by (rule tab_op_map [OF tab_op_entry_for]) simp
  have "tab_op lookup_delta (case x of Some nid \<Rightarrow> bnd (entry_for F nid c) (\<lambda>e. ret (Found e)) | None \<Rightarrow> ret Negative)" for x
    by (cases x) (auto simp: found intro: tab_op_ret_same)
  then show ?thesis unfolding rt_lookup_def
    by (intro rt_ok_hop hop_tab tab_op_bnd tab_op_callback quiet_all)
qed

lemma rt_ok_opens:
  "rt_ok (on_ok (\<lambda>_. id)) (rt_open F n i c)" "rt_ok (on_ok (\<lambda>_. id)) (rt_opendir F n i c)"
proof -
  have "open_op (\<lambda>_. id) (bnd (on_table (add_open n)) (\<lambda>_. bnd (on_handles (add_file (from_ino n) x)) (\<lambda>fh. ret (y fh))))"
    "open_op (\<lambda>_. id) (bnd (on_table (add_open n)) (\<lambda>_. bnd (on_handles (add_dir (from_ino n) z)) (\<lambda>fh. ret (y fh))))"
    for x z and y :: "u64 \<Rightarrow> open_reply"
    by (rule open_op_tail [where nid = "from_ino n", unfolded ino_of_from_ino]; simp add: adds_handle_file adds_handle_dir)+
  note tails = this
  show "rt_ok (on_ok (\<lambda>_. id)) (rt_open F n i c)" unfolding rt_open_def
    by (rule rt_ok_open, rule open_op_with_node, rule open_op_bnd) (auto intro: tails)
  show "rt_ok (on_ok (\<lambda>_. id)) (rt_opendir F n i c)" unfolding rt_opendir_def
    by (rule rt_ok_open, rule open_op_with_node, rule open_op_bnd) (auto intro: tails)
qed

text \<open>
  \<^verbatim>\<open>create\<close> counts the lookup of its entry first. The inode is then in the table, so counting the
  open cannot fail with an error.
\<close>

lemma open_op_create_tail:
  "open_op (entry_delta \<circ> fst) (bnd (entry_for F nid c) (\<lambda>entry.
     bnd (on_table (add_open (ino_of nid))) (\<lambda>_.
     bnd (on_handles (add_file nid h)) (\<lambda>fh. ret (entry, y fh)))))"
  unfolding open_op_def
proof (intro allI impI)
  fix rt r rt'
  assume inv: "table_inv (rt_shared rt)" "handles_inv (rt_handles rt)"
    and m: "bnd (entry_for F nid c) (\<lambda>entry. bnd (on_table (add_open (ino_of nid))) (\<lambda>_.
     bnd (on_handles (add_file nid h)) (\<lambda>fh. ret (entry, y fh)))) rt = (r, rt')"
  from m show "open_rel (entry_delta \<circ> fst) r rt rt'"
  proof (cases rule: bnd_cases)
    case (ok e s)
    note 1 = tab_opD [OF tab_op_entry_for inv(1) ok(1)]
    have ino: "er_ino e = ino_of nid" using ok(1)
      by (auto simp: entry_for_def on_table_def entry_retain_def elim!: with_node_cases bnd_cases split: prod.splits option.splits)
    have pos: "0 < lookups_of (rt_shared s) (ino_of nid)"
      using effD(2) [OF 1(2)] ino by (simp add: entry_delta_def bump_def)
    have hs: "handles_inv (rt_handles s)" using 1 inv(2) by simp
    let ?tail = "bnd (on_table (add_open (ino_of nid))) (\<lambda>_. bnd (on_handles (add_file nid h)) (\<lambda>fh. ret (e, y fh)))"
    have "open_op (\<lambda>_. id) ?tail" by (rule open_op_tail [OF adds_handle_file]) simp
    with ok(2) effD(1) [OF 1(2)] hs have rel: "open_rel (\<lambda>_. id) r s rt'" by (auto simp: open_op_def)
    have "\<nexists>x. r = Err x" "r \<noteq> Blocks"
      using ok(2) counted_slot(1) [OF pos]
      by (auto simp: bnd_def on_table_def on_handles_def add_open_def add_file_def next_handle_def split: option.splits)
    moreover have "\<exists>fh. r = Ok (e, y fh)" if "\<exists>a. r = Ok a"
      using that ok(2) by (auto elim!: bnd_cases)
    ultimately consider fh where "r = Ok (e, y fh)" | "r = Panic" by (cases r) auto
    then show ?thesis
    proof cases
      case 1
      with rel obtain n where n: "eff id (bump n) (rt_shared s) (rt_shared rt')"
        "handle_count (rt_handles rt') = bump n (handle_count (rt_handles rt))" "handles_inv (rt_handles rt')"
        by (auto simp: open_rel_def \<open>rt_handles s = rt_handles rt\<close>)
      have "eff (entry_delta e) (bump n) (rt_shared rt) (rt_shared rt')"
        using eff_trans [OF tab_opD(2) [OF tab_op_entry_for inv(1) ok(1)] n(1)] by simp
      with 1 n show ?thesis by (auto simp: open_rel_def)
    next
      case 2
      with rel obtain dl dop where d: "grows dl" "grows dop" "eff dl dop (rt_shared s) (rt_shared rt')"
        and h: "handle_count (rt_handles rt') = handle_count (rt_handles rt)" "handles_inv (rt_handles rt')"
        by (auto simp: open_rel_def \<open>rt_handles s = rt_handles rt\<close>)
      have "eff (dl \<circ> entry_delta e) (dop \<circ> id) (rt_shared rt) (rt_shared rt')"
        using eff_trans [OF tab_opD(2) [OF tab_op_entry_for inv(1) ok(1)] d(3)] by simp
      moreover have "grows (dl \<circ> entry_delta e)" "grows (dop \<circ> id)"
        using d(1,2) by (simp_all add: grows_comp entry_delta_def)
      ultimately show ?thesis using h 2 unfolding open_rel_def by auto
    qed
  next
    case (err x)
    from tab_opD [OF tab_op_entry_for inv(1) err(1)] inv(2) err(2) show ?thesis by (simp add: open_rel_def)
  next
    case panic
    from tab_opD [OF tab_op_entry_for inv(1) panic(1)] inv(2) panic(2) show ?thesis
      unfolding open_rel_def by simp (meson grows_id)
  next
    case blocks
    from tab_opD [OF tab_op_entry_for inv(1) blocks(1)] inv(2) blocks(2) show ?thesis by (simp add: open_rel_def)
  qed
qed

lemma rt_ok_create: "rt_ok (on_ok (entry_delta \<circ> fst)) (rt_create F p nm mode um i c)"
  unfolding rt_create_def
  by (rule rt_ok_open, rule open_op_bnd) (auto split: prod.splits intro: open_op_create_tail)

lemma rt_ok_release: "rt_ok (on_ok (\<lambda>_. id)) (rt_release F n fh c)"
  by (rule rt_ok_release_pattern [where get = "\<lambda>rt. bt_get (ht_files (rt_handles rt)) fh" and n = n
        and without = "\<lambda>rt. (rt_handles rt)\<lparr>ht_files := bt_remove fh (ht_files (rt_handles rt))\<rparr>"
        and cb = "\<lambda>nr h. fs_release F (nr_record nr) h c"])
    (auto simp: rt_release_def release_body_def handles_inv_remove handles_inv_quiescent handle_count_remove lower_def
        handle_count_def opens_on_pos split: option.splits)

lemma rt_ok_releasedir: "rt_ok (on_ok (\<lambda>_. id)) (rt_releasedir F n fh c)"
  by (rule rt_ok_release_pattern [where get = "\<lambda>rt. bt_get (ht_dirs (rt_handles rt)) fh" and n = n
        and without = "\<lambda>rt. (rt_handles rt)\<lparr>ht_dirs := bt_remove fh (ht_dirs (rt_handles rt))\<rparr>"
        and cb = "\<lambda>nr h. fs_releasedir F (nr_record nr) h c"])
    (auto simp: rt_releasedir_def release_body_def handles_inv_remove handles_inv_quiescent handle_count_remove lower_def
        handle_count_def opens_on_pos split: option.splits)

lemma rt_ok_readdir: "rt_ok (on_ok (\<lambda>_. id)) (rt_readdir F n fh off k c)"
proof -
  have "dir_op (\<lambda>_. id) (\<lambda>d rt. case dir_callback (fs_readdir F a this par off c) k d rt of
         ((Ok _, d', k'), rt') \<Rightarrow> ((Ok k', d'), rt')
       | ((Err e, d', k'), rt') \<Rightarrow> ((Err e, d'), rt')
       | ((Panic, d', k'), rt') \<Rightarrow> ((Panic, d'), rt')
       | ((Blocks, d', k'), rt') \<Rightarrow> ((Blocks, d'), rt'))" for a this par
    using quiet_readdir [of a this par off c]
    by (fastforce simp: dir_op_def dir_callback_def quiet_dir_def split: prod.splits outcome.splits)
  then show ?thesis unfolding rt_readdir_def
    by (intro rt_ok_hop hop_with_node hop_bnd tab_op_parent_of hop_with_dir)
qed

lemma rt_ok_fsyncdir: "rt_ok (on_ok (\<lambda>_. id)) (rt_fsyncdir F n fh b c)"
proof -
  have "dir_op (\<lambda>_. id) (\<lambda>d rt. case callback (fs_fsyncdir F a d b c) rt of (r, rt') \<Rightarrow> ((r, d), rt'))" for a
    using tab_op_callback [OF quiet_dirs(3), of a _ b c] by (fastforce simp: dir_op_def tab_op_def split: prod.splits)
  then show ?thesis unfolding rt_fsyncdir_def
    by (intro rt_ok_hop hop_with_node hop_with_dir)
qed

end

end
