(* ===== verification/Kernel_View.thy ===== *)
theory Kernel_View
  imports Runtime_Ops
begin

text \<open>
  The runtime as the kernel drives it: a sequence of requests and their replies. The abstract
  specification is the kernel's own bookkeeping, a lookup count per inode computed from the requests
  and replies alone; the refinement lemma says that the node table implements it.
\<close>

section \<open>Requests and replies\<close>

text \<open>Requests on a node, on an open file, on an open directory, and on names.\<close>

datatype node_request =
    Statfs | Getattr "u64 option" | Setattr "u64 option" set_attr | Readlink | Access int
  | Setxattr os_str bytes int | Getxattr os_str nat | Listxattr nat | Removexattr os_str
  | Open int | Opendir int

datatype file_request =
    Read u64 nat | Write bytes u64 | Flush | Fsync bool | Fallocate int u64 u64 | Lseek u64 int
  | Getlk u64 file_lock | Setlk u64 file_lock bool | Flock int | Release

datatype dir_request =
    Readdir u64 dir_sink | Readdirplus u64 plus_sink | Fsyncdir bool | Releasedir

datatype name_request =
    Lookup u64 os_str | Mknod u64 os_str u32 u32 u32 | Mkdir u64 os_str u32 u32 | Symlink u64 os_str os_str
  | Link u64 u64 os_str | Unlink u64 os_str | Rmdir u64 os_str | Rename u64 os_str u64 os_str u32
  | Create u64 os_str u32 u32 int | CopyFileRange u64 u64 u64 u64 u64 int

datatype request =
    OnNode node_request u64 caller
  | OnFile file_request u64 u64 caller
  | OnDir dir_request u64 u64 caller
  | OnName name_request caller
  | Forget u64 u64

datatype reply =
    ReplyUnit
  | ReplyLookup lookup_reply
  | ReplyEntry entry_reply
  | ReplyCreate entry_reply open_reply
  | ReplyOpen open_reply
  | ReplyAttr node_attr
  | ReplyStatfs stat_fs
  | ReplyPath os_str
  | ReplyXattr xattr_reply
  | ReplyData "bytes result"
  | ReplyCount nat
  | ReplyOffset u64
  | ReplyLock file_lock
  | ReplyDir dir_sink
  | ReplyPlus plus_sink "node_id list"

definition fmap :: "('a \<Rightarrow> 'b) \<Rightarrow> ('s, 'e, 'a) prog \<Rightarrow> ('s, 'e, 'b) prog" where
  "fmap f m = bnd m (\<lambda>a. ret (f a))"

fun serve_node :: "('fs, 'n, 'h, 'd) node_fs \<Rightarrow> node_request \<Rightarrow> u64 \<Rightarrow> caller \<Rightarrow> ('fs, 'n, 'h, 'd, reply) rt_op" where
  "serve_node F Statfs n c = fmap ReplyStatfs (rt_statfs F n c)"
| "serve_node F (Getattr fh) n c = fmap ReplyAttr (rt_getattr F n fh c)"
| "serve_node F (Setattr fh sa) n c = fmap ReplyAttr (rt_setattr F n fh sa c)"
| "serve_node F Readlink n c = fmap ReplyPath (rt_readlink F n c)"
| "serve_node F (Access msk) n c = fmap (\<lambda>_. ReplyUnit) (rt_access F n msk c)"
| "serve_node F (Setxattr nm v i) n c = fmap (\<lambda>_. ReplyUnit) (rt_setxattr F n nm v i c)"
| "serve_node F (Getxattr nm sz) n c = fmap ReplyXattr (rt_getxattr F n nm sz c)"
| "serve_node F (Listxattr sz) n c = fmap ReplyXattr (rt_listxattr F n sz c)"
| "serve_node F (Removexattr nm) n c = fmap (\<lambda>_. ReplyUnit) (rt_removexattr F n nm c)"
| "serve_node F (Open i) n c = fmap ReplyOpen (rt_open F n i c)"
| "serve_node F (Opendir i) n c = fmap ReplyOpen (rt_opendir F n i c)"

fun serve_file :: "('fs, 'n, 'h, 'd) node_fs \<Rightarrow> file_request \<Rightarrow> u64 \<Rightarrow> u64 \<Rightarrow> caller \<Rightarrow> ('fs, 'n, 'h, 'd, reply) rt_op" where
  "serve_file F (Read off sz) n fh c = fmap ReplyData (rt_read F n fh off sz c id)"
| "serve_file F (Write bs off) n fh c = fmap ReplyCount (rt_write F n fh bs off c)"
| "serve_file F Flush n fh c = fmap (\<lambda>_. ReplyUnit) (rt_flush F n fh c)"
| "serve_file F (Fsync b) n fh c = fmap (\<lambda>_. ReplyUnit) (rt_fsync F n fh b c)"
| "serve_file F (Fallocate i off len) n fh c = fmap (\<lambda>_. ReplyUnit) (rt_fallocate F n fh i off len c)"
| "serve_file F (Lseek off i) n fh c = fmap ReplyOffset (rt_lseek F n fh off i c)"
| "serve_file F (Getlk own lk) n fh c = fmap ReplyLock (rt_getlk F n fh own lk c)"
| "serve_file F (Setlk own lk b) n fh c = fmap (\<lambda>_. ReplyUnit) (rt_setlk F n fh own lk b c)"
| "serve_file F (Flock i) n fh c = fmap (\<lambda>_. ReplyUnit) (rt_flock F n fh i c)"
| "serve_file F Release n fh c = fmap (\<lambda>_. ReplyUnit) (rt_release F n fh c)"

fun serve_dir :: "('fs, 'n, 'h, 'd) node_fs \<Rightarrow> dir_request \<Rightarrow> u64 \<Rightarrow> u64 \<Rightarrow> caller \<Rightarrow> ('fs, 'n, 'h, 'd, reply) rt_op" where
  "serve_dir F (Readdir off k) n fh c = fmap ReplyDir (rt_readdir F n fh off k c)"
| "serve_dir F (Readdirplus off k) n fh c = fmap (\<lambda>(k, ids). ReplyPlus k ids) (rt_readdirplus F n fh off k c)"
| "serve_dir F (Fsyncdir b) n fh c = fmap (\<lambda>_. ReplyUnit) (rt_fsyncdir F n fh b c)"
| "serve_dir F Releasedir n fh c = fmap (\<lambda>_. ReplyUnit) (rt_releasedir F n fh c)"

fun serve_name :: "('fs, 'n, 'h, 'd) node_fs \<Rightarrow> name_request \<Rightarrow> caller \<Rightarrow> ('fs, 'n, 'h, 'd, reply) rt_op" where
  "serve_name F (Lookup p nm) c = fmap ReplyLookup (rt_lookup F p nm c)"
| "serve_name F (Mknod p nm mode rdev um) c = fmap ReplyEntry (rt_mknod F p nm mode rdev um c)"
| "serve_name F (Mkdir p nm mode um) c = fmap ReplyEntry (rt_mkdir F p nm mode um c)"
| "serve_name F (Symlink p nm tgt) c = fmap ReplyEntry (rt_symlink F p nm tgt c)"
| "serve_name F (Link n p nm) c = fmap ReplyEntry (rt_link F n p nm c)"
| "serve_name F (Unlink p nm) c = fmap (\<lambda>_. ReplyUnit) (rt_unlink F p nm c)"
| "serve_name F (Rmdir p nm) c = fmap (\<lambda>_. ReplyUnit) (rt_rmdir F p nm c)"
| "serve_name F (Rename p nm p' nm' fl) c = fmap (\<lambda>_. ReplyUnit) (rt_rename F p nm p' nm' fl c)"
| "serve_name F (Create p nm mode um i) c = fmap (\<lambda>(e, opn). ReplyCreate e opn) (rt_create F p nm mode um i c)"
| "serve_name F (CopyFileRange n1 o1 n2 o2 len i) c = fmap ReplyCount (rt_copy_file_range F n1 o1 n2 o2 len i c)"

fun serve :: "('fs, 'n, 'h, 'd) node_fs \<Rightarrow> request \<Rightarrow> ('fs, 'n, 'h, 'd, reply) rt_op" where
  "serve F (OnNode q n c) = serve_node F q n c"
| "serve F (OnFile q n fh c) = serve_file F q n fh c"
| "serve F (OnDir q n fh c) = serve_dir F q n fh c"
| "serve F (OnName q c) = serve_name F q c"
| "serve F (Forget n k) = fmap (\<lambda>_. ReplyUnit) (rt_forget F n k)"

primrec run :: "('fs, 'n, 'h, 'd) node_fs \<Rightarrow> request list \<Rightarrow> ('fs, 'n, 'h, 'd) runtime \<Rightarrow>
    reply result list \<times> ('fs, 'n, 'h, 'd) runtime" where
  "run F [] rt = ([], rt)"
| "run F (q # qs) rt = (case serve F q rt of (r, rt1) \<Rightarrow> (case run F qs rt1 of (rs, rt2) \<Rightarrow> (r # rs, rt2)))"

section \<open>The kernel's bookkeeping\<close>

text \<open>Each entry in a reply is one lookup; a \<^verbatim>\<open>forget\<close> gives lookups back when it is sent.\<close>

fun reply_delta :: "reply \<Rightarrow> (u64 \<Rightarrow> nat) \<Rightarrow> u64 \<Rightarrow> nat" where
  "reply_delta (ReplyLookup l) = lookup_delta l"
| "reply_delta (ReplyEntry e) = entry_delta e"
| "reply_delta (ReplyCreate e _) = entry_delta e"
| "reply_delta (ReplyPlus _ ids) = add_ids ids"
| "reply_delta _ = id"

fun kernel_step :: "request \<Rightarrow> reply result \<Rightarrow> (u64 \<Rightarrow> nat) \<Rightarrow> u64 \<Rightarrow> nat" where
  "kernel_step (Forget n k) r = lower n (unat k)"
| "kernel_step q r = on_ok reply_delta r"

fun kernel_view :: "request list \<Rightarrow> reply result list \<Rightarrow> (u64 \<Rightarrow> nat) \<Rightarrow> u64 \<Rightarrow> nat" where
  "kernel_view (q # qs) (r # rs) K = kernel_view qs rs (kernel_step q r K)"
| "kernel_view _ _ K = K"

lemma mono_deltas:
  assumes "\<And>n. K n \<le> K' n"
  shows "entry_delta e K n \<le> entry_delta e K' n" "add_ids ids K n \<le> add_ids ids K' n" "lower m k K n \<le> lower m k K' n"
    "lookup_delta l K n \<le> lookup_delta l K' n"
  using assms by (auto simp: entry_delta_def bump_def add_ids_def lower_def diff_le_mono) (cases l; auto simp: entry_delta_def bump_def)

lemma kernel_step_mono:
  assumes "\<And>n. K n \<le> K' n" shows "kernel_step q r K n \<le> kernel_step q r K' n"
proof -
  have "reply_delta x K n \<le> reply_delta x K' n" for x
    using mono_deltas [OF assms] assms by (cases x) auto
  then have "on_ok reply_delta r K n \<le> on_ok reply_delta r K' n" using assms by (cases r) auto
  with mono_deltas(3) [OF assms] show ?thesis by (cases q) auto
qed

lemma rt_ok_fmap:
  assumes "rt_ok dl m" "\<And>a. dl (Ok a) = dl' (Ok (f a))" "\<And>e. dl (Err e) = dl' (Err e)" "dl Panic = dl' Panic" "dl Blocks = dl' Blocks"
  shows "rt_ok dl' (fmap f m)"
  unfolding rt_ok_def
proof (intro allI impI)
  fix rt r rt'
  assume inv: "rt_inv rt" and "fmap f m rt = (r, rt')"
  then obtain r0 where r0: "m rt = (r0, rt')" "r = (case r0 of Ok a \<Rightarrow> Ok (f a) | Err e \<Rightarrow> Err e | Panic \<Rightarrow> Panic | Blocks \<Rightarrow> Blocks)"
    by (auto simp: fmap_def elim!: bnd_cases)
  then have "dl' r = dl r0" "returned r = returned r0" using assms(2-5) by (cases r0; simp add: returned_def)+
  with rt_okD [OF assms(1) inv r0(1)] show "rt_inv rt' \<and> (\<forall>n. dl' r (lookups_of (rt_shared rt)) n \<le> lookups_of (rt_shared rt') n) \<and>
     (returned r \<longrightarrow> lookups_of (rt_shared rt') = dl' r (lookups_of (rt_shared rt)) \<and> (rt_exact rt \<longrightarrow> rt_exact rt'))"
    by simp
qed

context node_fs_contract
begin

lemmas rt_ok_all = rt_ok_lookup rt_ok_forget rt_ok_calls rt_ok_attr rt_ok_file rt_ok_read rt_ok_entries rt_ok_opens
  rt_ok_create rt_ok_release rt_ok_releasedir rt_ok_readdir rt_ok_readdirplus rt_ok_fsyncdir

lemma serve_node_ok: "rt_ok (on_ok reply_delta) (serve_node F q n c)"
  by (cases q; simp only: serve_node.simps; rule rt_ok_fmap, rule rt_ok_all) (simp_all add: id_def)

lemma serve_file_ok: "rt_ok (on_ok reply_delta) (serve_file F q n fh c)"
  by (cases q; simp only: serve_file.simps; rule rt_ok_fmap, rule rt_ok_all) (simp_all add: id_def)

lemma serve_dir_ok: "rt_ok (on_ok reply_delta) (serve_dir F q n fh c)"
  by (cases q; simp only: serve_dir.simps; rule rt_ok_fmap, rule rt_ok_all) (auto simp: plus_delta_def id_def)

lemma serve_name_ok: "rt_ok (on_ok reply_delta) (serve_name F q c)"
  by (cases q; simp only: serve_name.simps; rule rt_ok_fmap, rule rt_ok_all) (auto simp: id_def)

lemma serve_ok: "rt_ok (kernel_step q) (serve F q)"
proof (cases q)
  case (Forget n k)
  have "rt_ok (\<lambda>_. lower n (unat k)) (fmap (\<lambda>_. ReplyUnit) (rt_forget F n k))"
    by (rule rt_ok_fmap [OF rt_ok_forget]) simp_all
  moreover have "kernel_step (Forget n k) = (\<lambda>_. lower n (unat k))" by (simp add: fun_eq_iff)
  ultimately show ?thesis by (simp add: Forget)
next
  case (OnNode x n c)
  moreover have "kernel_step (OnNode x n c) = on_ok reply_delta" by (simp add: fun_eq_iff)
  ultimately show ?thesis by (simp add: serve_node_ok)
next
  case (OnFile x n fh c)
  moreover have "kernel_step (OnFile x n fh c) = on_ok reply_delta" by (simp add: fun_eq_iff)
  ultimately show ?thesis by (simp add: serve_file_ok)
next
  case (OnDir x n fh c)
  moreover have "kernel_step (OnDir x n fh c) = on_ok reply_delta" by (simp add: fun_eq_iff)
  ultimately show ?thesis by (simp add: serve_dir_ok)
next
  case (OnName x c)
  moreover have "kernel_step (OnName x c) = on_ok reply_delta" by (simp add: fun_eq_iff)
  ultimately show ?thesis by (simp add: serve_name_ok)
qed

lemma run_ok:
  assumes "rt_inv rt" "run F qs rt = (rs, rt')" "\<And>n. K n \<le> lookups_of (rt_shared rt) n"
  shows "rt_inv rt' \<and> (\<forall>n. kernel_view qs rs K n \<le> lookups_of (rt_shared rt') n) \<and>
    ((\<forall>r \<in> set rs. returned r) \<and> K = lookups_of (rt_shared rt) \<and> rt_exact rt \<longrightarrow>
      lookups_of (rt_shared rt') = kernel_view qs rs K \<and> rt_exact rt')"
  using assms
proof (induction qs arbitrary: rt rs K)
  case (Cons q qs)
  obtain r rt1 where s: "serve F q rt = (r, rt1)" by fastforce
  obtain rs1 rt2 where r: "run F qs rt1 = (rs1, rt2)" by fastforce
  with s Cons.prems(2) have rs: "rs = r # rs1" "rt' = rt2" by auto
  note ok = rt_okD [OF serve_ok Cons.prems(1) s]
  have le: "kernel_step q r K n \<le> lookups_of (rt_shared rt1) n" for n
    using kernel_step_mono [of K "lookups_of (rt_shared rt)" q r n] Cons.prems(3) ok(2) [of n] by (meson order_trans)
  from r rs(2) have r': "run F qs rt1 = (rs1, rt')" by simp
  from Cons.IH [OF ok(1) r', of "kernel_step q r K"] le ok(3,4) rs(1) show ?case by auto
qed auto

lemma new_ok:
  assumes "runtime_new F fs0 = (r, rt)"
  shows "rt_inv rt" "rt_exact rt" "lookups_of (rt_shared rt) = (\<lambda>_. 0)"
proof -
  obtain root fs1 where root: "fs_root F fs0 = (root, fs1)" by fastforce
  obtain q fs2 sh where p: "fs_populate F (fs1, shared_new root) = (q, fs2, sh)" by (metis surj_pair)
  have "eff id id (shared_new root) sh"
    using quiet_populate p by (auto simp: quiet_def table_inv_new)
  moreover have "lookups_of (shared_new root) = (\<lambda>_. 0)" "opens_of (shared_new root) = (\<lambda>_. 0)" "leases_of (shared_new root) = (\<lambda>_. 0)"
    by (auto simp: lookups_of_def opens_of_def leases_of_def shared_new_def slot_at_def set_slot_def table_new_def fun_eq_iff)
  moreover have "rt_shared rt = sh" "rt_handles rt = handle_table_new"
    using assms root p by (auto simp: runtime_new_def)
  moreover have "handle_count (handle_table_new :: ('h, 'd) handle_table) = (\<lambda>_. 0)"
    by (simp add: handle_count_def handle_table_new_def opens_on_def fun_eq_iff)
  ultimately show "rt_inv rt" "rt_exact rt" "lookups_of (rt_shared rt) = (\<lambda>_. 0)"
    by (simp_all add: rt_inv_def rt_exact_def eff_def handles_inv_new)
qed

end

end
