(* ===== verification/Session_Shims.thy ===== *)
theory Session_Shims
  imports Ffi File_Lock Kernel_View
begin

text \<open>
  The trampolines of \<^verbatim>\<open>session.rs\<close>: one definition per \<^verbatim>\<open>*_shim\<close>, from the raw arguments libfuse passes
  to the raw reply it is handed, over the runtime of an arbitrary filesystem. A shim that returns has
  the outcome \<open>Ok ()\<close>; \<open>Panic\<close> is a panic outside \<^verbatim>\<open>catch_unwind\<close>, which leaves an \<^verbatim>\<open>extern "C"\<close> function
  and aborts the process. Replies are collected in the order in which they are sent.
\<close>

section \<open>Replies\<close>

datatype raw_reply =
    RErr int
  | RNone
  | REntry entry_param
  | RAttr raw_stat nat
  | RReadlink os_str
  | ROpen "file_info option"
  | RCreate entry_param "file_info option"
  | RWrite nat
  | RBuf bytes
  | RStatfs raw_statvfs
  | RXattr nat
  | RLseek i64
  | RLock raw_flock

text \<open>
  The environment is what the code takes from libfuse: the bits of \<^verbatim>\<open>setattr\<close>, the layout of directory
  entries, whether \<^verbatim>\<open>parallel_direct_writes\<close> exists, and what \<^verbatim>\<open>fuse_reply_*\<close> returns, zero when the kernel
  took the reply.
\<close>

record shim_env =
  se_bits :: to_set_bits
  se_format :: direntry_format
  se_has_pdw :: bool
  se_reply_rc :: "raw_reply \<Rightarrow> int"

type_synonym ('fs, 'n, 'h, 'd, 'a) shim_op = "(('fs, 'n, 'h, 'd) runtime \<times> raw_reply list, errno, 'a) prog"
type_synonym ('fs, 'n, 'h, 'd) shim = "('fs, 'n, 'h, 'd, unit) shim_op"

record fuse_ctx =
  cx_uid :: u32
  cx_gid :: u32
  cx_pid :: i32
  cx_umask :: u32

definition caller_of :: "fuse_ctx \<Rightarrow> caller" where
  "caller_of ctx = \<lparr>ca_uid = cx_uid ctx, ca_gid = cx_gid ctx, ca_pid = cx_pid ctx, ca_umask = cx_umask ctx\<rparr>"

fun catch_unwind :: "'a result \<Rightarrow> 'a result" where
  "catch_unwind Panic = Err EIO"
| "catch_unwind r = r"

fun catch_unwind_unit :: "unit result \<Rightarrow> unit result" where
  "catch_unwind_unit Blocks = Blocks"
| "catch_unwind_unit _ = Ok ()"

definition call_fs :: "('fs, 'n, 'h, 'd, 'a) rt_op \<Rightarrow> ('fs, 'n, 'h, 'd, 'a) shim_op" where
  "call_fs m st = (case st of (rt, out) \<Rightarrow> (case m rt of (r, rt') \<Rightarrow> (catch_unwind r, (rt', out))))"

definition reply :: "raw_reply \<Rightarrow> ('fs, 'n, 'h, 'd) shim" where
  "reply r st = (case st of (rt, out) \<Rightarrow> (Ok (), (rt, out @ [r])))"

definition reply_err :: "errno \<Rightarrow> ('fs, 'n, 'h, 'd) shim" where
  "reply_err e = reply (RErr (raw e))"

definition reply_ok :: "('fs, 'n, 'h, 'd) shim" where
  "reply_ok = reply (RErr 0)"

text \<open>\<^verbatim>\<open>match call_fs(..) { Ok(a) => .., Err(e) => reply_err(req, e) }\<close>.\<close>

definition answer :: "('fs, 'n, 'h, 'd, 'a) rt_op \<Rightarrow> ('a \<Rightarrow> ('fs, 'n, 'h, 'd) shim) \<Rightarrow> ('fs, 'n, 'h, 'd) shim" where
  "answer m ok st = (case call_fs m st of
     (Ok a, st') \<Rightarrow> ok a st'
   | (Err e, st') \<Rightarrow> reply_err e st'
   | (Panic, st') \<Rightarrow> (Panic, st')
   | (Blocks, st') \<Rightarrow> (Blocks, st'))"

text \<open>A conversion that may panic, outside \<^verbatim>\<open>catch_unwind\<close>.\<close>

definition converted :: "'a option \<Rightarrow> ('a \<Rightarrow> ('fs, 'n, 'h, 'd) shim) \<Rightarrow> ('fs, 'n, 'h, 'd) shim" where
  "converted x k st = (case x of None \<Rightarrow> (Panic, st) | Some a \<Rightarrow> k a st)"

definition reply_entry :: "entry_reply \<Rightarrow> ('fs, 'n, 'h, 'd) shim" where
  "reply_entry e st =
     converted (entry_to_entry_param (er_ino e) (er_generation e) (er_attr e) (rt_ttl (fst st))) (\<lambda>param. reply (REntry param)) st"

definition reply_negative :: "('fs, 'n, 'h, 'd) shim" where
  "reply_negative st = reply (REntry (negative_entry_param (rt_negative_ttl (fst st)))) st"

definition reply_attr :: "u64 \<Rightarrow> node_attr \<Rightarrow> ('fs, 'n, 'h, 'd) shim" where
  "reply_attr ino attr st = converted (attr_to_stat ino attr) (\<lambda>raw_st. reply (RAttr raw_st (rt_ttl (fst st)))) st"

text \<open>\<^verbatim>\<open>reply_dir_buf\<close>: an empty buffer becomes the null reply, which is the empty list here too.\<close>

definition reply_dir_buf :: "bytes \<Rightarrow> ('fs, 'n, 'h, 'd) shim" where
  "reply_dir_buf dat = reply (RBuf dat)"

definition reply_xattr :: "xattr_reply \<Rightarrow> nat \<Rightarrow> ('fs, 'n, 'h, 'd) shim" where
  "reply_xattr x requested_size = (case x of
     XSize len \<Rightarrow> if requested_size = 0 then reply (RXattr len) else reply_err EIO
   | XData dat \<Rightarrow>
       if requested_size = 0 then reply (RXattr (length dat))
       else if length dat > requested_size then reply_err ERANGE
       else reply (RBuf dat))"

section \<open>Trampolines\<close>

text \<open>
  \<^verbatim>\<open>init\<close> and \<^verbatim>\<open>destroy\<close> have no reply; a panic of the filesystem is caught, and what \<^verbatim>\<open>init\<close> had negotiated by then is applied.
\<close>

definition init_shim :: "('fs, 'n, 'h, 'd) node_fs \<Rightarrow> raw_conn \<Rightarrow> ('fs, 'n, 'h, 'd) runtime \<Rightarrow>
    unit result \<times> raw_conn \<times> ('fs, 'n, 'h, 'd) runtime" where
  "init_shim F conn rt = (case rt_init F (conn_read conn) rt of (r, info, rt') \<Rightarrow>
     (case catch_unwind_unit r of Ok _ \<Rightarrow> (Ok (), conn_apply info conn, rt') | q \<Rightarrow> (q, conn, rt')))"

definition destroy_shim :: "('fs, 'n, 'h, 'd) node_fs \<Rightarrow> ('fs, 'n, 'h, 'd, unit) rt_op" where
  "destroy_shim F rt = (case rt_destroy F rt of (r, rt') \<Rightarrow> (catch_unwind_unit r, rt'))"

definition lookup_shim :: "('fs, 'n, 'h, 'd) node_fs \<Rightarrow> caller \<Rightarrow> u64 \<Rightarrow> os_str \<Rightarrow> ('fs, 'n, 'h, 'd) shim" where
  "lookup_shim F c parent name = answer (rt_lookup F parent name c) (\<lambda>r. case r of
     Found entry \<Rightarrow> reply_entry entry
   | Negative \<Rightarrow> reply_negative)"

text \<open>\<^verbatim>\<open>catch_unwind_unit\<close> around an operation, then \<^verbatim>\<open>fuse_reply_none\<close>.\<close>

definition unit_then_none :: "('fs, 'n, 'h, 'd, unit) rt_op \<Rightarrow> ('fs, 'n, 'h, 'd) shim" where
  "unit_then_none m st = (case st of (rt, out) \<Rightarrow> (case m rt of (r, rt') \<Rightarrow>
     (case catch_unwind_unit r of Ok _ \<Rightarrow> reply RNone (rt', out) | _ \<Rightarrow> (Blocks, (rt', out)))))"

definition forget_shim :: "('fs, 'n, 'h, 'd) node_fs \<Rightarrow> u64 \<Rightarrow> u64 \<Rightarrow> ('fs, 'n, 'h, 'd) shim" where
  "forget_shim F ino nlookup = unit_then_none (rt_forget F ino nlookup)"

primrec forget_entries :: "('fs, 'n, 'h, 'd) node_fs \<Rightarrow> (u64 \<times> u64) list \<Rightarrow> ('fs, 'n, 'h, 'd, unit) rt_op" where
  "forget_entries F [] = ret ()"
| "forget_entries F (e # es) = bnd (rt_forget F (fst e) (snd e)) (\<lambda>_. forget_entries F es)"

definition forget_multi_shim :: "('fs, 'n, 'h, 'd) node_fs \<Rightarrow> (u64 \<times> u64) list \<Rightarrow> ('fs, 'n, 'h, 'd) shim" where
  "forget_multi_shim F forgets = unit_then_none (forget_entries F forgets)"

definition getattr_shim :: "('fs, 'n, 'h, 'd) node_fs \<Rightarrow> caller \<Rightarrow> u64 \<Rightarrow> file_info option \<Rightarrow> ('fs, 'n, 'h, 'd) shim" where
  "getattr_shim F c ino fi = answer (rt_getattr F ino (fi_fh_opt fi) c) (reply_attr ino)"

definition setattr_shim :: "shim_env \<Rightarrow> ('fs, 'n, 'h, 'd) node_fs \<Rightarrow> caller \<Rightarrow> u64 \<Rightarrow> raw_stat option \<Rightarrow> i32 \<Rightarrow> file_info option \<Rightarrow>
    ('fs, 'n, 'h, 'd) shim" where
  "setattr_shim E F c ino attr to_set fi =
     converted (setattr_from_raw (se_bits E) attr to_set) (\<lambda>set. answer (rt_setattr F ino (fi_fh_opt fi) set c) (reply_attr ino))"

definition readlink_shim :: "('fs, 'n, 'h, 'd) node_fs \<Rightarrow> caller \<Rightarrow> u64 \<Rightarrow> ('fs, 'n, 'h, 'd) shim" where
  "readlink_shim F c ino = answer (rt_readlink F ino c) (\<lambda>target.
     if no_nul target then reply (RReadlink target) else reply_err EINVAL)"

definition mknod_shim :: "('fs, 'n, 'h, 'd) node_fs \<Rightarrow> caller \<Rightarrow> u64 \<Rightarrow> os_str \<Rightarrow> u32 \<Rightarrow> u64 \<Rightarrow> ('fs, 'n, 'h, 'd) shim" where
  "mknod_shim F c parent name mode rdev = answer (rt_mknod F parent name mode (ucast rdev) (ca_umask c) c) reply_entry"

definition mkdir_shim :: "('fs, 'n, 'h, 'd) node_fs \<Rightarrow> caller \<Rightarrow> u64 \<Rightarrow> os_str \<Rightarrow> u32 \<Rightarrow> ('fs, 'n, 'h, 'd) shim" where
  "mkdir_shim F c parent name mode = answer (rt_mkdir F parent name mode (ca_umask c) c) reply_entry"

definition unlink_shim :: "('fs, 'n, 'h, 'd) node_fs \<Rightarrow> caller \<Rightarrow> u64 \<Rightarrow> os_str \<Rightarrow> ('fs, 'n, 'h, 'd) shim" where
  "unlink_shim F c parent name = answer (rt_unlink F parent name c) (\<lambda>_. reply_ok)"

definition rmdir_shim :: "('fs, 'n, 'h, 'd) node_fs \<Rightarrow> caller \<Rightarrow> u64 \<Rightarrow> os_str \<Rightarrow> ('fs, 'n, 'h, 'd) shim" where
  "rmdir_shim F c parent name = answer (rt_rmdir F parent name c) (\<lambda>_. reply_ok)"

definition symlink_shim :: "('fs, 'n, 'h, 'd) node_fs \<Rightarrow> caller \<Rightarrow> os_str \<Rightarrow> u64 \<Rightarrow> os_str \<Rightarrow> ('fs, 'n, 'h, 'd) shim" where
  "symlink_shim F c link parent name = answer (rt_symlink F parent name link c) reply_entry"

definition rename_shim :: "('fs, 'n, 'h, 'd) node_fs \<Rightarrow> caller \<Rightarrow> u64 \<Rightarrow> os_str \<Rightarrow> u64 \<Rightarrow> os_str \<Rightarrow> u32 \<Rightarrow> ('fs, 'n, 'h, 'd) shim" where
  "rename_shim F c parent name newparent newname flags =
     answer (rt_rename F parent name newparent newname flags c) (\<lambda>_. reply_ok)"

definition link_shim :: "('fs, 'n, 'h, 'd) node_fs \<Rightarrow> caller \<Rightarrow> u64 \<Rightarrow> u64 \<Rightarrow> os_str \<Rightarrow> ('fs, 'n, 'h, 'd) shim" where
  "link_shim F c ino newparent newname = answer (rt_link F ino newparent newname c) reply_entry"

definition open_shim :: "shim_env \<Rightarrow> ('fs, 'n, 'h, 'd) node_fs \<Rightarrow> caller \<Rightarrow> u64 \<Rightarrow> file_info option \<Rightarrow> ('fs, 'n, 'h, 'd) shim" where
  "open_shim E F c ino fi = answer (rt_open F ino (fi_flags fi) c) (\<lambda>r. reply (ROpen (apply_open (se_has_pdw E) (or_fh r) (or_hints r) fi)))"

text \<open>
  \<^verbatim>\<open>read\<close> sends its reply from the continuation that the runtime calls; the data is cut to the requested size. The source
  sends it before the leases are given back, inside the guarded call; giving them back neither replies nor panics, so the
  reply is sent here once the call has returned.
\<close>

definition read_reply :: "nat \<Rightarrow> bytes result \<Rightarrow> raw_reply" where
  "read_reply sz r = (case r of Ok dat \<Rightarrow> RBuf (take sz dat) | Err e \<Rightarrow> RErr (raw e) | _ \<Rightarrow> RErr (raw EIO))"

definition read_shim :: "('fs, 'n, 'h, 'd) node_fs \<Rightarrow> caller \<Rightarrow> u64 \<Rightarrow> nat \<Rightarrow> i64 \<Rightarrow> file_info option \<Rightarrow> ('fs, 'n, 'h, 'd) shim" where
  "read_shim F c ino sz off fi = answer (rt_read F ino (fi_fh fi) off sz c (read_reply sz)) reply"

definition write_shim :: "('fs, 'n, 'h, 'd) node_fs \<Rightarrow> caller \<Rightarrow> u64 \<Rightarrow> bytes \<Rightarrow> i64 \<Rightarrow> file_info option \<Rightarrow> ('fs, 'n, 'h, 'd) shim" where
  "write_shim F c ino dat off fi = answer (rt_write F ino (fi_fh fi) dat off c) (\<lambda>count. reply (RWrite count))"

definition flush_shim :: "('fs, 'n, 'h, 'd) node_fs \<Rightarrow> caller \<Rightarrow> u64 \<Rightarrow> file_info option \<Rightarrow> ('fs, 'n, 'h, 'd) shim" where
  "flush_shim F c ino fi = answer (rt_flush F ino (fi_fh fi) c) (\<lambda>_. reply_ok)"

definition release_shim :: "('fs, 'n, 'h, 'd) node_fs \<Rightarrow> caller \<Rightarrow> u64 \<Rightarrow> file_info option \<Rightarrow> ('fs, 'n, 'h, 'd) shim" where
  "release_shim F c ino fi = answer (rt_release F ino (fi_fh fi) c) (\<lambda>_. reply_ok)"

definition fsync_shim :: "('fs, 'n, 'h, 'd) node_fs \<Rightarrow> caller \<Rightarrow> u64 \<Rightarrow> i32 \<Rightarrow> file_info option \<Rightarrow> ('fs, 'n, 'h, 'd) shim" where
  "fsync_shim F c ino datasync fi = answer (rt_fsync F ino (fi_fh fi) (datasync \<noteq> 0) c) (\<lambda>_. reply_ok)"

definition opendir_shim :: "shim_env \<Rightarrow> ('fs, 'n, 'h, 'd) node_fs \<Rightarrow> caller \<Rightarrow> u64 \<Rightarrow> file_info option \<Rightarrow> ('fs, 'n, 'h, 'd) shim" where
  "opendir_shim E F c ino fi =
     answer (rt_opendir F ino (fi_flags fi) c) (\<lambda>r. reply (ROpen (apply_open (se_has_pdw E) (or_fh r) (or_hints r) fi)))"

definition readdir_shim :: "shim_env \<Rightarrow> ('fs, 'n, 'h, 'd) node_fs \<Rightarrow> caller \<Rightarrow> u64 \<Rightarrow> nat \<Rightarrow> i64 \<Rightarrow> file_info option \<Rightarrow> ('fs, 'n, 'h, 'd) shim" where
  "readdir_shim E F c ino sz off fi =
     (if sint off < 0 then reply_err EINVAL
      else answer (rt_readdir F ino (fi_fh fi) off (dirent_sink (se_format E) sz) c) (\<lambda>k.
        reply_dir_buf (concat (map (item_image (se_format E)) (sk_items k)))))"

text \<open>
  \<^verbatim>\<open>readdirplus\<close>: when the reply could not be sent, the lookups that the runtime counted for the entries are
  given back, outside \<^verbatim>\<open>catch_unwind\<close>.
\<close>

definition on_runtime :: "('fs, 'n, 'h, 'd, unit) rt_op \<Rightarrow> ('fs, 'n, 'h, 'd) shim" where
  "on_runtime m st = (case st of (rt, out) \<Rightarrow> (case m rt of (r, rt') \<Rightarrow> (r, (rt', out))))"

definition send_plus :: "shim_env \<Rightarrow> ('fs, 'n, 'h, 'd) node_fs \<Rightarrow> nat \<Rightarrow> plus_sink \<times> node_id list \<Rightarrow> ('fs, 'n, 'h, 'd) shim" where
  "send_plus E F ttl x = (case x of (k, retained) \<Rightarrow>
     let r = RBuf (concat (map (plus_image (se_format E) ttl) (sk_items (ps_sink k))))
     in bnd (reply r) (\<lambda>_. if se_reply_rc E r \<noteq> 0 then on_runtime (forget_all F retained) else ret ()))"

definition readdirplus_shim :: "shim_env \<Rightarrow> ('fs, 'n, 'h, 'd) node_fs \<Rightarrow> caller \<Rightarrow> u64 \<Rightarrow> nat \<Rightarrow> i64 \<Rightarrow> file_info option \<Rightarrow> ('fs, 'n, 'h, 'd) shim" where
  "readdirplus_shim E F c ino sz off fi st =
     (if sint off < 0 then reply_err EINVAL st
      else let ttl = rt_ttl (fst st)
           in answer (rt_readdirplus F ino (fi_fh fi) off (dirent_plus_sink (se_format E) sz ttl) c) (send_plus E F ttl) st)"

definition releasedir_shim :: "('fs, 'n, 'h, 'd) node_fs \<Rightarrow> caller \<Rightarrow> u64 \<Rightarrow> file_info option \<Rightarrow> ('fs, 'n, 'h, 'd) shim" where
  "releasedir_shim F c ino fi = answer (rt_releasedir F ino (fi_fh fi) c) (\<lambda>_. reply_ok)"

definition fsyncdir_shim :: "('fs, 'n, 'h, 'd) node_fs \<Rightarrow> caller \<Rightarrow> u64 \<Rightarrow> i32 \<Rightarrow> file_info option \<Rightarrow> ('fs, 'n, 'h, 'd) shim" where
  "fsyncdir_shim F c ino datasync fi = answer (rt_fsyncdir F ino (fi_fh fi) (datasync \<noteq> 0) c) (\<lambda>_. reply_ok)"

definition statfs_shim :: "('fs, 'n, 'h, 'd) node_fs \<Rightarrow> caller \<Rightarrow> u64 \<Rightarrow> ('fs, 'n, 'h, 'd) shim" where
  "statfs_shim F c ino = answer (rt_statfs F ino c) (\<lambda>stats. reply (RStatfs (statfs_to_raw stats)))"

definition setxattr_shim :: "('fs, 'n, 'h, 'd) node_fs \<Rightarrow> caller \<Rightarrow> u64 \<Rightarrow> os_str \<Rightarrow> bytes \<Rightarrow> int \<Rightarrow> ('fs, 'n, 'h, 'd) shim" where
  "setxattr_shim F c ino name val flags = answer (rt_setxattr F ino name val flags c) (\<lambda>_. reply_ok)"

definition getxattr_shim :: "('fs, 'n, 'h, 'd) node_fs \<Rightarrow> caller \<Rightarrow> u64 \<Rightarrow> os_str \<Rightarrow> nat \<Rightarrow> ('fs, 'n, 'h, 'd) shim" where
  "getxattr_shim F c ino name sz = answer (rt_getxattr F ino name sz c) (\<lambda>x. reply_xattr x sz)"

definition listxattr_shim :: "('fs, 'n, 'h, 'd) node_fs \<Rightarrow> caller \<Rightarrow> u64 \<Rightarrow> nat \<Rightarrow> ('fs, 'n, 'h, 'd) shim" where
  "listxattr_shim F c ino sz = answer (rt_listxattr F ino sz c) (\<lambda>x. reply_xattr x sz)"

definition removexattr_shim :: "('fs, 'n, 'h, 'd) node_fs \<Rightarrow> caller \<Rightarrow> u64 \<Rightarrow> os_str \<Rightarrow> ('fs, 'n, 'h, 'd) shim" where
  "removexattr_shim F c ino name = answer (rt_removexattr F ino name c) (\<lambda>_. reply_ok)"

definition access_shim :: "('fs, 'n, 'h, 'd) node_fs \<Rightarrow> caller \<Rightarrow> u64 \<Rightarrow> int \<Rightarrow> ('fs, 'n, 'h, 'd) shim" where
  "access_shim F c ino msk = answer (rt_access F ino msk c) (\<lambda>_. reply_ok)"

definition create_shim :: "shim_env \<Rightarrow> ('fs, 'n, 'h, 'd) node_fs \<Rightarrow> caller \<Rightarrow> u64 \<Rightarrow> os_str \<Rightarrow> u32 \<Rightarrow> file_info option \<Rightarrow> ('fs, 'n, 'h, 'd) shim" where
  "create_shim E F c parent name mode fi = answer (rt_create F parent name mode (ca_umask c) (fi_flags fi) c) (\<lambda>(entry, r) st.
     converted (entry_to_entry_param (er_ino entry) (er_generation entry) (er_attr entry) (rt_ttl (fst st))) (\<lambda>param.
       reply (RCreate param (apply_open (se_has_pdw E) (or_fh r) (or_hints r) fi))) st)"

definition fallocate_shim :: "('fs, 'n, 'h, 'd) node_fs \<Rightarrow> caller \<Rightarrow> u64 \<Rightarrow> int \<Rightarrow> i64 \<Rightarrow> i64 \<Rightarrow> file_info option \<Rightarrow> ('fs, 'n, 'h, 'd) shim" where
  "fallocate_shim F c ino mode off len fi = answer (rt_fallocate F ino (fi_fh fi) mode off len c) (\<lambda>_. reply_ok)"

definition lseek_shim :: "('fs, 'n, 'h, 'd) node_fs \<Rightarrow> caller \<Rightarrow> u64 \<Rightarrow> i64 \<Rightarrow> int \<Rightarrow> file_info option \<Rightarrow> ('fs, 'n, 'h, 'd) shim" where
  "lseek_shim F c ino off whence fi = answer (rt_lseek F ino (fi_fh fi) off whence c) (\<lambda>new_off. reply (RLseek new_off))"

text \<open>
  The bridge between libfuse's \<^verbatim>\<open>flock\<close> and the one of libc copies every field, so both are \<open>raw_flock\<close>.
\<close>

definition lock_from_raw :: "raw_flock \<Rightarrow> file_lock result" where
  "lock_from_raw rl = from_flock (zeroed_flock\<lparr>l_type := l_type rl, l_whence := l_whence rl, l_start := l_start rl,
     l_len := l_len rl, l_pid := l_pid rl\<rparr>)"

definition lock_to_raw :: "file_lock \<Rightarrow> raw_flock result" where
  "lock_to_raw lk = (case to_flock lk of
     Ok owned \<Rightarrow> Ok (zeroed_flock\<lparr>l_start := l_start owned, l_len := l_len owned, l_pid := l_pid owned,
         l_type := l_type owned, l_whence := l_whence owned\<rparr>)
   | r \<Rightarrow> r)"

definition lock_owner :: "file_info option \<Rightarrow> u64" where
  "lock_owner fi = (case fi of None \<Rightarrow> 0 | Some f \<Rightarrow> fi_lock_owner f)"

text \<open>Replying with a value that was computed without a panic.\<close>

definition reply_result :: "'a result \<Rightarrow> ('a \<Rightarrow> ('fs, 'n, 'h, 'd) shim) \<Rightarrow> ('fs, 'n, 'h, 'd) shim" where
  "reply_result r ok st = (case r of
     Ok a \<Rightarrow> ok a st | Err e \<Rightarrow> reply_err e st | Panic \<Rightarrow> (Panic, st) | Blocks \<Rightarrow> (Blocks, st))"

definition getlk_shim :: "('fs, 'n, 'h, 'd) node_fs \<Rightarrow> caller \<Rightarrow> u64 \<Rightarrow> file_info option \<Rightarrow> raw_flock \<Rightarrow> ('fs, 'n, 'h, 'd) shim" where
  "getlk_shim F c ino fi rl = reply_result (lock_from_raw rl) (\<lambda>requested.
     answer (rt_getlk F ino (fi_fh fi) (lock_owner fi) requested c) (\<lambda>lk. reply_result (lock_to_raw lk) (\<lambda>r. reply (RLock r))))"

definition setlk_shim :: "('fs, 'n, 'h, 'd) node_fs \<Rightarrow> caller \<Rightarrow> u64 \<Rightarrow> file_info option \<Rightarrow> raw_flock \<Rightarrow> i32 \<Rightarrow> ('fs, 'n, 'h, 'd) shim" where
  "setlk_shim F c ino fi rl sleep = reply_result (lock_from_raw rl) (\<lambda>requested.
     answer (rt_setlk F ino (fi_fh fi) (lock_owner fi) requested (sleep \<noteq> 0) c) (\<lambda>_. reply_ok))"

definition flock_shim :: "('fs, 'n, 'h, 'd) node_fs \<Rightarrow> caller \<Rightarrow> u64 \<Rightarrow> file_info option \<Rightarrow> int \<Rightarrow> ('fs, 'n, 'h, 'd) shim" where
  "flock_shim F c ino fi operation = answer (rt_flock F ino (fi_fh fi) operation c) (\<lambda>_. reply_ok)"

definition copy_file_range_shim :: "('fs, 'n, 'h, 'd) node_fs \<Rightarrow> caller \<Rightarrow> u64 \<Rightarrow> i64 \<Rightarrow> u64 \<Rightarrow> i64 \<Rightarrow> u64 \<Rightarrow> int \<Rightarrow> ('fs, 'n, 'h, 'd) shim" where
  "copy_file_range_shim F c ino_in off_in ino_out off_out len flags =
     answer (rt_copy_file_range F ino_in off_in ino_out off_out len flags c) (\<lambda>count. reply (RWrite count))"

end
