(* ===== verification/Mount_Options.thy ===== *)
theory Mount_Options
  imports Fuse_Types
begin

text \<open>
  Mount options: \<^verbatim>\<open>MountOption\<close> and its rendering (\<^verbatim>\<open>session.rs\<close>, the Linux branches of
  \<^verbatim>\<open>cfg!\<close>), and \<^verbatim>\<open>MountConfig\<close> with its parser and \<^verbatim>\<open>build_mount_options\<close> (\<^verbatim>\<open>mount.rs\<close>). The main
  theorem is a round trip: the option string built from a configuration, split the way the option
  parser of libfuse is documented to split it, and parsed again, gives the configuration back.
\<close>

section \<open>Options\<close>

datatype mount_option =
    ReadOnly | AllowOther | AllowRoot | AutoUnmount | DefaultPermissions | NonEmpty
  | FsName string | Subtype string | VolName string | Custom string

definition comma :: char where "comma = CHR '',''"
definition backslash :: char where "backslash = CHR 0x5C"

definition special :: "char \<Rightarrow> bool" where
  "special c \<longleftrightarrow> c = comma \<or> c = backslash"

primrec escape_option_value :: "string \<Rightarrow> string" where
  "escape_option_value [] = []"
| "escape_option_value (c # s) = (if special c then [backslash, c] else [c]) @ escape_option_value s"

fun render :: "mount_option \<Rightarrow> string option" where
  "render ReadOnly = Some ''ro''"
| "render AllowOther = Some ''allow_other''"
| "render AllowRoot = Some ''allow_root''"
| "render AutoUnmount = Some ''auto_unmount''"
| "render DefaultPermissions = Some ''default_permissions''"
| "render NonEmpty = None"
| "render (FsName name) = Some (''fsname='' @ escape_option_value name)"
| "render (Subtype name) = Some (''subtype='' @ escape_option_value name)"
| "render (VolName name) = None"
| "render (Custom opt) = Some opt"

text \<open>\<^verbatim>\<open>[String]::join\<close>.\<close>

fun join_with :: "char \<Rightarrow> string list \<Rightarrow> string" where
  "join_with c [] = []"
| "join_with c [w] = w"
| "join_with c (w # ws) = w @ c # join_with c ws"

section \<open>Configurations\<close>

record mount_config =
  mc_fs_name :: string
  mc_subtype :: "string option"
  mc_allow_other :: bool
  mc_allow_root :: bool
  mc_default_permissions :: bool
  mc_read_only :: bool
  mc_nonempty :: bool
  mc_volname :: "string option"
  mc_extra_options :: "string list"

definition mount_config_new :: "string \<Rightarrow> mount_config" where
  "mount_config_new name = \<lparr>mc_fs_name = name, mc_subtype = None, mc_allow_other = False, mc_allow_root = False,
     mc_default_permissions = True, mc_read_only = False, mc_nonempty = False, mc_volname = None, mc_extra_options = []\<rparr>"

text \<open>\<^verbatim>\<open>str::strip_prefix\<close>.\<close>

definition strip_prefix :: "string \<Rightarrow> string \<Rightarrow> string option" where
  "strip_prefix p w = (if take (length p) w = p then Some (drop (length p) w) else None)"

definition parse_option_word :: "string \<Rightarrow> mount_config \<Rightarrow> mount_config" where
  "parse_option_word word cfg = (case strip_prefix ''fsname='' word of
     Some name \<Rightarrow> cfg\<lparr>mc_fs_name := name\<rparr>
   | None \<Rightarrow> (case strip_prefix ''subtype='' word of
     Some name \<Rightarrow> cfg\<lparr>mc_subtype := Some name\<rparr>
   | None \<Rightarrow> (case strip_prefix ''volname='' word of
     Some name \<Rightarrow> cfg\<lparr>mc_volname := Some name\<rparr>
   | None \<Rightarrow>
       if word = ''allow_other'' then cfg\<lparr>mc_allow_other := True\<rparr>
       else if word = ''allow_root'' then cfg\<lparr>mc_allow_root := True\<rparr>
       else if word = ''nonempty'' then cfg\<lparr>mc_nonempty := True\<rparr>
       else if word = ''ro'' then cfg\<lparr>mc_read_only := True\<rparr>
       else if word = ''rw'' then cfg\<lparr>mc_read_only := False\<rparr>
       else if word = ''default_permissions'' then cfg\<lparr>mc_default_permissions := True\<rparr>
       else cfg\<lparr>mc_extra_options := mc_extra_options cfg @ [word]\<rparr>)))"

definition parse_option_words :: "string list \<Rightarrow> mount_config \<Rightarrow> mount_config" where
  "parse_option_words words cfg = fold parse_option_word words cfg"

definition push_if :: "bool \<Rightarrow> 'a \<Rightarrow> 'a list" where
  "push_if b x = (if b then [x] else [])"

definition build_mount_options :: "mount_config \<Rightarrow> mount_option list" where
  "build_mount_options cfg =
     [FsName (mc_fs_name cfg)] @
     (case mc_subtype cfg of None \<Rightarrow> [] | Some s \<Rightarrow> [Subtype s]) @
     push_if (mc_allow_other cfg) AllowOther @
     push_if (mc_allow_root cfg) AllowRoot @
     push_if (mc_default_permissions cfg) DefaultPermissions @
     push_if (mc_read_only cfg) ReadOnly @
     push_if (mc_nonempty cfg) NonEmpty @
     (case mc_volname cfg of None \<Rightarrow> [] | Some v \<Rightarrow> [VolName v]) @
     map Custom (mc_extra_options cfg)"

text \<open>
  The argument vector \<^verbatim>\<open>new_with_config\<close> passes to libfuse. An argument with an interior NUL byte
  makes \<^verbatim>\<open>CString::new(..).expect(..)\<close> panic.
\<close>

definition session_args :: "mount_option list \<Rightarrow> string list" where
  "session_args options =
     (let rendered = List.map_filter render options
      in [''fuse3''] @ (if rendered \<noteq> [] then [''-o'', join_with comma rendered] else []))"

definition arg_cstrings :: "mount_option list \<Rightarrow> string list option" where
  "arg_cstrings options = (if list_all no_nul (session_args options) then Some (session_args options) else None)"

section \<open>Reading an option string\<close>

text \<open>
  How libfuse reads the \<^verbatim>\<open>-o\<close> argument, as the comment on \<^verbatim>\<open>escape_option_value\<close> states it: words are
  separated by commas, and a backslash takes the next character literally.
\<close>

fun split_options :: "string \<Rightarrow> string \<Rightarrow> string list" where
  "split_options w [] = [w]"
| "split_options w (c # s) =
     (if c = comma then w # split_options [] s
      else if c = backslash then (case s of [] \<Rightarrow> [w @ [c]] | d # s' \<Rightarrow> split_options (w @ [d]) s')
      else split_options (w @ [c]) s)"

definition plain :: "string \<Rightarrow> bool" where
  "plain s \<longleftrightarrow> list_all (\<lambda>c. \<not> special c) s"

lemma split_plain: "plain u \<Longrightarrow> split_options w (u @ s) = split_options (w @ u) s"
  by (induction u arbitrary: w) (auto simp: plain_def special_def)

lemma split_escaped: "split_options w (escape_option_value u @ s) = split_options (w @ u) s"
  by (induction u arbitrary: w) (auto simp: special_def comma_def backslash_def)

text \<open>A rendered word together with the word it stands for.\<close>

definition reads_as :: "string \<Rightarrow> string \<Rightarrow> bool" where
  "reads_as r u \<longleftrightarrow> (\<forall>w s. split_options w (r @ s) = split_options (w @ u) s)"

lemma reads_as_plain: "plain u \<Longrightarrow> reads_as u u"
  by (simp add: reads_as_def split_plain)

lemma reads_as_named: "plain key \<Longrightarrow> reads_as (key @ escape_option_value v) (key @ v)"
  by (simp add: reads_as_def split_plain split_escaped)

lemma split_join: "list_all2 reads_as rs us \<Longrightarrow> rs \<noteq> [] \<Longrightarrow> split_options [] (join_with comma rs) = us"
proof (induction comma rs arbitrary: us rule: join_with.induct)
  case (2 r)
  then obtain u where "us = [u]" "reads_as r u" by (auto simp: list_all2_Cons1)
  moreover from this have "split_options [] (r @ []) = split_options ([] @ u) []" by (simp only: reads_as_def)
  ultimately show ?case by simp
next
  case (3 r r' rs)
  then obtain u us' where u: "us = u # us'" "reads_as r u" "list_all2 reads_as (r' # rs) us'" by (auto simp: list_all2_Cons1)
  then have "split_options [] (r @ comma # join_with comma (r' # rs)) = split_options u (comma # join_with comma (r' # rs))"
    by (simp add: reads_as_def)
  with 3(1) [OF u(3)] u(1) show ?case by simp
qed simp

section \<open>The round trip\<close>

text \<open>The word each option is meant to say, and extra words that the parser does not interpret.\<close>

fun meaning :: "mount_option \<Rightarrow> string option" where
  "meaning (FsName name) = Some (''fsname='' @ name)"
| "meaning (Subtype name) = Some (''subtype='' @ name)"
| "meaning opt = render opt"

definition uninterpreted :: "string \<Rightarrow> bool" where
  "uninterpreted w \<longleftrightarrow> plain w \<and> (\<forall>cfg. parse_option_word w cfg = cfg\<lparr>mc_extra_options := mc_extra_options cfg @ [w]\<rparr>)"

definition plain_option :: "mount_option \<Rightarrow> bool" where
  "plain_option opt \<longleftrightarrow> (case opt of Custom w \<Rightarrow> plain w | _ \<Rightarrow> True)"

lemma plain_literals: "plain ''fsname=''" "plain ''subtype=''" "plain ''ro''" "plain ''allow_other''" "plain ''allow_root''"
  "plain ''auto_unmount''" "plain ''default_permissions''"
  by (simp_all add: plain_def special_def comma_def backslash_def)

lemmas reads_as_literals = reads_as_named [OF plain_literals(1), simplified] reads_as_named [OF plain_literals(2), simplified]
  plain_literals(3-7) [THEN reads_as_plain]

lemma render_reads_as: "plain_option opt \<Longrightarrow> rel_option reads_as (render opt) (meaning opt)"
  by (cases opt) (simp_all add: plain_option_def reads_as_literals reads_as_plain)

lemma map_filter_rel:
  assumes "\<And>x. P x \<Longrightarrow> rel_option R (f x) (g x)"
  shows "list_all P xs \<Longrightarrow> list_all2 R (List.map_filter f xs) (List.map_filter g xs)"
proof (induction xs)
  case (Cons x xs)
  then have "rel_option R (f x) (g x)" using assms by simp
  with Cons show ?case by (cases "f x"; cases "g x") (simp_all add: map_filter_simps)
qed (simp add: map_filter_simps)

lemma split_rendered:
  assumes "list_all plain_option opts" "List.map_filter render opts \<noteq> []"
  shows "split_options [] (join_with comma (List.map_filter render opts)) = List.map_filter meaning opts"
  using map_filter_rel [OF render_reads_as assms(1)] assms(2) by (rule split_join)

lemma parse_word_simps [simp]:
  "parse_option_word (''fsname='' @ n) cfg = cfg\<lparr>mc_fs_name := n\<rparr>"
  "parse_option_word (''subtype='' @ n) cfg = cfg\<lparr>mc_subtype := Some n\<rparr>"
  "parse_option_word ''allow_other'' cfg = cfg\<lparr>mc_allow_other := True\<rparr>"
  "parse_option_word ''allow_root'' cfg = cfg\<lparr>mc_allow_root := True\<rparr>"
  "parse_option_word ''default_permissions'' cfg = cfg\<lparr>mc_default_permissions := True\<rparr>"
  "parse_option_word ''ro'' cfg = cfg\<lparr>mc_read_only := True\<rparr>"
  by (simp_all add: parse_option_word_def strip_prefix_def)

lemmas parse_named_words [simp] = parse_word_simps(1,2) [simplified]

lemma parse_extras: "list_all uninterpreted ws \<Longrightarrow> fold parse_option_word ws cfg = cfg\<lparr>mc_extra_options := mc_extra_options cfg @ ws\<rparr>"
  by (induction ws arbitrary: cfg) (auto simp: uninterpreted_def)

lemma map_filter_append: "List.map_filter f (xs @ ys) = List.map_filter f xs @ List.map_filter f ys"
  by (induction xs) (auto simp: map_filter_simps split: option.splits)

lemma map_filter_custom: "List.map_filter meaning (map Custom ws) = ws"
  by (induction ws) (auto simp: map_filter_simps)

text \<open>The words that \<open>build_mount_options\<close> says on Linux, which drops \<^verbatim>\<open>nonempty\<close> and \<^verbatim>\<open>volname\<close>.\<close>

definition option_words :: "mount_config \<Rightarrow> string list" where
  "option_words cfg = [''fsname='' @ mc_fs_name cfg] @
     (case mc_subtype cfg of None \<Rightarrow> [] | Some s \<Rightarrow> [''subtype='' @ s]) @
     push_if (mc_allow_other cfg) ''allow_other'' @ push_if (mc_allow_root cfg) ''allow_root'' @
     push_if (mc_default_permissions cfg) ''default_permissions'' @ push_if (mc_read_only cfg) ''ro'' @ mc_extra_options cfg"

lemma meanings_built: "List.map_filter meaning (build_mount_options cfg) = option_words cfg"
  by (auto simp: build_mount_options_def option_words_def push_if_def map_filter_append map_filter_simps map_filter_custom split: option.splits)

text \<open>A configuration with no option set.\<close>

definition bare_config :: "string \<Rightarrow> mount_config" where
  "bare_config name = (mount_config_new name)\<lparr>mc_default_permissions := False\<rparr>"

lemma parse_words:
  assumes "list_all uninterpreted (mc_extra_options cfg)"
  shows "parse_option_words (option_words cfg) (bare_config name) = cfg\<lparr>mc_nonempty := False, mc_volname := None\<rparr>"
  unfolding parse_option_words_def option_words_def
  by (cases cfg; cases "mc_subtype cfg")
    (use assms in \<open>simp_all add: push_if_def parse_extras bare_config_def mount_config_new_def\<close>)

lemma no_nul_escape: "no_nul (escape_option_value v) \<longleftrightarrow> no_nul v"
  by (induction v) (auto simp: no_nul_def special_def comma_def backslash_def)

lemma no_nul_join: "no_nul (join_with comma ws) \<longleftrightarrow> list_all no_nul ws"
  by (induction comma ws rule: join_with.induct) (auto simp: no_nul_def comma_def)

lemma no_nul_words: "no_nul (''fsname='' @ s) \<longleftrightarrow> no_nul s" "no_nul (''subtype='' @ s) \<longleftrightarrow> no_nul s"
  by (simp_all add: no_nul_def)

lemmas no_nul_simps = no_nul_escape no_nul_words [simplified]

lemma no_nul_rendered:
  "list_all no_nul (List.map_filter render (build_mount_options cfg)) \<longleftrightarrow> list_all no_nul (option_words cfg)"
proof -
  have "List.map_filter render (map Custom ws) = ws" for ws by (induction ws) (auto simp: map_filter_simps)
  then show ?thesis
    by (simp add: build_mount_options_def option_words_def push_if_def map_filter_append map_filter_simps no_nul_simps split: option.splits)
qed

text \<open>
  C34. Mount options survive their way to libfuse. Let the extra options be words that the parser does not interpret, without commas
  and backslashes. If no name, subtype or extra option contains a NUL byte, the session passes libfuse one option string; split at its
  unescaped commas, it is exactly the words of the configuration, whatever commas, backslashes or equals signs the filesystem name and
  the subtype contain; and parsing these words into a configuration without options gives the configuration it was built from, but
  for \<^verbatim>\<open>nonempty\<close> and \<^verbatim>\<open>volname\<close>, which are dropped on Linux. With a NUL byte, building the session panics.
\<close>

theorem mount_options_roundtrip:
  assumes "list_all uninterpreted (mc_extra_options cfg)"
  shows "if list_all no_nul (option_words cfg)
    then \<exists>arg. arg_cstrings (build_mount_options cfg) = Some [''fuse3'', ''-o'', arg] \<and> split_options [] arg = option_words cfg \<and>
      parse_option_words (split_options [] arg) (bare_config name) = cfg\<lparr>mc_nonempty := False, mc_volname := None\<rparr>
    else arg_cstrings (build_mount_options cfg) = None"
proof -
  let ?opts = "build_mount_options cfg"
  have "list_all plain_option ?opts"
    using assms by (auto simp: build_mount_options_def plain_option_def push_if_def uninterpreted_def list_all_iff split: option.splits)
  moreover have ne: "List.map_filter render ?opts \<noteq> []"
    by (simp add: build_mount_options_def map_filter_simps)
  ultimately have "split_options [] (join_with comma (List.map_filter render ?opts)) = option_words cfg"
    unfolding meanings_built [symmetric] by (rule split_rendered)
  moreover have "list_all no_nul (session_args ?opts) \<longleftrightarrow> list_all no_nul (option_words cfg)"
    using ne by (simp add: session_args_def Let_def no_nul_join no_nul_rendered) (simp add: no_nul_def)
  ultimately show ?thesis using parse_words [OF assms] ne by (simp add: arg_cstrings_def) (simp add: session_args_def Let_def)
qed

definition demo_config :: mount_config where
  "demo_config = (mount_config_new (''/a'' @ [comma, backslash] @ ''b''))\<lparr>mc_subtype := Some ''x=y'', mc_read_only := True,
     mc_extra_options := [''noatime'']\<rparr>"

theorem mount_options_roundtrip_witness:
  "\<exists>arg. arg_cstrings (build_mount_options demo_config) = Some [''fuse3'', ''-o'', arg] \<and>
    split_options [] arg = [''fsname=/a'' @ [comma, backslash] @ ''b'', ''subtype=x=y'', ''default_permissions'', ''ro'', ''noatime''] \<and>
    parse_option_words (split_options [] arg) (bare_config []) = demo_config"
proof -
  have e: "list_all uninterpreted (mc_extra_options demo_config)"
    by (simp add: demo_config_def uninterpreted_def parse_option_word_def strip_prefix_def plain_def special_def comma_def backslash_def)
  have w: "option_words demo_config = [''fsname=/a'' @ [comma, backslash] @ ''b'', ''subtype=x=y'', ''default_permissions'', ''ro'', ''noatime'']"
    by (simp add: option_words_def demo_config_def mount_config_new_def push_if_def)
  have "list_all no_nul (option_words demo_config)" by (simp add: w no_nul_def comma_def backslash_def)
  with mount_options_roundtrip [OF e, of "[]"] w show ?thesis
    by (auto simp: demo_config_def mount_config_new_def)
qed

end
