(* ===== verification/Session_Lifecycle.thy ===== *)
theory Session_Lifecycle
  imports Mount_Options
begin

text \<open>
  The life of a session (\<^verbatim>\<open>Session\<close>, \<^verbatim>\<open>LoopConfig\<close> and the thread-pool settings in \<^verbatim>\<open>session.rs\<close>,
  \<^verbatim>\<open>mount_blocking\<close> in \<^verbatim>\<open>mount.rs\<close>): creation, mounting, the request loop and the destructors. The
  functions of libfuse are a parameter, an environment that decides what each call returns; a run leaves
  the trace of the calls it made. A monitor states the protocol of that interface: what is acquired before
  it is used, what is released, and in which order.
\<close>

section \<open>Configuration\<close>

datatype session_error =
    SessionNewFailed | MountFailed | MountPointNotFound string | MountPointNotDir string | SignalHandlers | LoopFailed int
  | InvalidMountpoint string | InvalidThreadPool string | LoopConfigAllocation

record thread_pool_config =
  tp_max_threads :: u32
  tp_max_idle_threads :: "u32 option"
  tp_clone_fd :: bool

datatype threading_mode = SingleThreaded | MultiThreaded thread_pool_config

definition default_thread_pool :: thread_pool_config where
  "default_thread_pool = \<lparr>tp_max_threads = 10, tp_max_idle_threads = None, tp_clone_fd = False\<rparr>"

definition MAX_THREADS :: u32 where "MAX_THREADS = 100000"

definition validate :: "thread_pool_config \<Rightarrow> (session_error, thread_pool_config) outcome" where
  "validate pool = (if tp_max_threads pool > MAX_THREADS then Err (InvalidThreadPool ''max_threads exceeds 100000'') else Ok pool)"

section \<open>The environment\<close>

text \<open>What the file system and the functions of libfuse answer.\<close>

record session_env =
  ev_exists :: "string \<Rightarrow> bool"
  ev_is_dir :: "string \<Rightarrow> bool"
  ev_session_new :: "string list \<Rightarrow> bool"
  ev_mount :: "string \<Rightarrow> int"
  ev_set_signal_handlers :: int
  ev_loop_cfg_create :: bool
  ev_session_loop :: int
  ev_session_loop_mt :: int

text \<open>The calls, with their results where the protocol depends on them.\<close>

datatype lf_call =
    RuntimeNew | SessionNew "string list" bool | FreeArgs | SessionMount string int | SetSignalHandlers int
  | LoopCfgCreate bool | LoopCfgSetMaxThreads u32 | LoopCfgSetIdleThreads u32 | LoopCfgSetCloneFd bool | LoopCfgDestroy
  | SessionLoop | SessionLoopMt | RemoveSignalHandlers | SessionUnmount | SessionDestroy | RuntimeDrop

section \<open>Sessions\<close>

record session =
  ses_mounted :: bool
  ses_threading :: threading_mode

definition new_with_config :: "session_env \<Rightarrow> mount_option list \<Rightarrow> threading_mode \<Rightarrow> (lf_call list, session_error, session) prog" where
  "new_with_config E options threading tr =
     (case (case threading of MultiThreaded pool \<Rightarrow> validate pool | SingleThreaded \<Rightarrow> Ok default_thread_pool) of
        Err e \<Rightarrow> (Err e, tr)
      | Ok _ \<Rightarrow> (case arg_cstrings options of
          None \<Rightarrow> (Panic, tr)
        | Some args \<Rightarrow>
            let created = ev_session_new E args;
                tr = tr @ [RuntimeNew, SessionNew args created, FreeArgs]
            in if created then (Ok \<lparr>ses_mounted = False, ses_threading = threading\<rparr>, tr)
               else (Err SessionNewFailed, tr @ [RuntimeDrop]))
      | _ \<Rightarrow> (Panic, tr))"

text \<open>A method of a session changes it and makes calls.\<close>

type_synonym 'a session_op = "(session \<times> lf_call list, session_error, 'a) prog"

definition session_mount :: "session_env \<Rightarrow> string \<Rightarrow> unit session_op" where
  "session_mount E mp st = (case st of (ses, tr) \<Rightarrow>
     if \<not> ev_exists E mp then (Err (MountPointNotFound mp), st)
     else if \<not> ev_is_dir E mp then (Err (MountPointNotDir mp), st)
     else if \<not> no_nul mp then (Err (InvalidMountpoint mp), st)
     else let rc = ev_mount E mp; tr = tr @ [SessionMount mp rc]
          in if rc \<noteq> 0 then (Err MountFailed, (ses, tr)) else (Ok (), (ses\<lparr>ses_mounted := True\<rparr>, tr)))"

definition loop_config_new :: "session_env \<Rightarrow> thread_pool_config \<Rightarrow> (lf_call list, session_error, unit) prog" where
  "loop_config_new E pool tr = (case validate pool of
     Err e \<Rightarrow> (Err e, tr)
   | Ok pool \<Rightarrow>
       let tr = tr @ [LoopCfgCreate (ev_loop_cfg_create E)]
       in if \<not> ev_loop_cfg_create E then (Err LoopConfigAllocation, tr)
          else (Ok (), tr @ [LoopCfgSetMaxThreads (tp_max_threads pool)] @
                  (case tp_max_idle_threads pool of None \<Rightarrow> [] | Some idle \<Rightarrow> [LoopCfgSetIdleThreads idle]) @
                  [LoopCfgSetCloneFd (tp_clone_fd pool)])
   | _ \<Rightarrow> (Panic, tr))"

text \<open>\<^verbatim>\<open>run\<close>: the loop configuration is dropped at the end of its match arm, before the handlers are removed.\<close>

definition session_run :: "session_env \<Rightarrow> unit session_op" where
  "session_run E st = (case st of (ses, tr) \<Rightarrow>
     let rc0 = ev_set_signal_handlers E; tr = tr @ [SetSignalHandlers rc0]
     in if rc0 \<noteq> 0 then (Err SignalHandlers, (ses, tr))
        else (case (case ses_threading ses of
                  SingleThreaded \<Rightarrow> (Ok (ev_session_loop E), tr @ [SessionLoop])
                | MultiThreaded pool \<Rightarrow> (case loop_config_new E pool tr of
                    (Ok _, tr) \<Rightarrow> (Ok (ev_session_loop_mt E), tr @ [SessionLoopMt, LoopCfgDestroy])
                  | (Err e, tr) \<Rightarrow> (Err e, tr)
                  | (_, tr) \<Rightarrow> (Panic, tr))) of
            (Ok rc, tr) \<Rightarrow> (if rc \<noteq> 0 then Err (LoopFailed rc) else Ok (), (ses, tr @ [RemoveSignalHandlers]))
          | (Err e, tr) \<Rightarrow> (Err e, (ses, tr @ [RemoveSignalHandlers]))
          | (_, tr) \<Rightarrow> (Panic, (ses, tr))))"

definition session_drop :: "session \<Rightarrow> lf_call list \<Rightarrow> lf_call list" where
  "session_drop ses tr = tr @ (if ses_mounted ses then [SessionUnmount] else []) @ [SessionDestroy, RuntimeDrop]"

text \<open>
  \<^verbatim>\<open>mount_and_run_with_config\<close>: the session goes out of scope, and is dropped, on every way out.
\<close>

definition mount_and_run_with_config :: "session_env \<Rightarrow> string \<Rightarrow> mount_option list \<Rightarrow> threading_mode \<Rightarrow>
    (lf_call list, session_error, unit) prog" where
  "mount_and_run_with_config E mp options threading =
     bnd (new_with_config E options threading) (\<lambda>ses tr.
       case bnd (session_mount E mp) (\<lambda>_. session_run E) (ses, tr) of (r, ses', tr') \<Rightarrow> (r, session_drop ses' tr'))"

definition mount_blocking :: "session_env \<Rightarrow> string \<Rightarrow> mount_config \<Rightarrow> bool \<Rightarrow> (lf_call list, session_error, unit) prog" where
  "mount_blocking E mp cfg single_thread =
     mount_and_run_with_config E mp (build_mount_options cfg)
       (if single_thread then SingleThreaded else MultiThreaded default_thread_pool)"

text \<open>\<^verbatim>\<open>Session::new\<close> and \<^verbatim>\<open>mount_and_run\<close>: the same with the default configuration.\<close>

definition default_threading :: threading_mode where
  "default_threading = MultiThreaded default_thread_pool"

definition session_new :: "session_env \<Rightarrow> mount_option list \<Rightarrow> (lf_call list, session_error, session) prog" where
  "session_new E options = new_with_config E options default_threading"

definition mount_and_run :: "session_env \<Rightarrow> string \<Rightarrow> mount_option list \<Rightarrow> (lf_call list, session_error, unit) prog" where
  "mount_and_run E mp options = bnd (session_new E options) (\<lambda>ses tr.
     case bnd (session_mount E mp) (\<lambda>_. session_run E) (ses, tr) of (r, ses', tr') \<Rightarrow> (r, session_drop ses' tr'))"

section \<open>The protocol\<close>

record held =
  h_runtime :: bool
  h_session :: bool
  h_mounted :: bool
  h_signals :: bool
  h_loop_cfg :: bool

definition nothing :: held where
  "nothing = \<lparr>h_runtime = False, h_session = False, h_mounted = False, h_signals = False, h_loop_cfg = False\<rparr>"

text \<open>\<open>None\<close> is a misuse: a resource used or released without being held, or acquired twice.\<close>

fun monitor :: "lf_call \<Rightarrow> held \<Rightarrow> held option" where
  "monitor RuntimeNew h = (if h_runtime h then None else Some (h\<lparr>h_runtime := True\<rparr>))"
| "monitor (SessionNew _ ok) h = (if \<not> h_runtime h \<or> h_session h then None else Some (h\<lparr>h_session := ok\<rparr>))"
| "monitor FreeArgs h = Some h"
| "monitor (SessionMount _ rc) h = (if \<not> h_session h \<or> h_mounted h then None else Some (h\<lparr>h_mounted := (rc = 0)\<rparr>))"
| "monitor (SetSignalHandlers rc) h = (if \<not> h_session h \<or> h_signals h then None else Some (h\<lparr>h_signals := (rc = 0)\<rparr>))"
| "monitor (LoopCfgCreate ok) h = (if h_loop_cfg h then None else Some (h\<lparr>h_loop_cfg := ok\<rparr>))"
| "monitor (LoopCfgSetMaxThreads n) h = (if \<not> h_loop_cfg h \<or> n > 100000 then None else Some h)"
| "monitor (LoopCfgSetIdleThreads _) h = (if \<not> h_loop_cfg h then None else Some h)"
| "monitor (LoopCfgSetCloneFd _) h = (if \<not> h_loop_cfg h then None else Some h)"
| "monitor LoopCfgDestroy h = (if \<not> h_loop_cfg h then None else Some (h\<lparr>h_loop_cfg := False\<rparr>))"
| "monitor SessionLoop h = (if \<not> (h_runtime h \<and> h_session h \<and> h_mounted h \<and> h_signals h) then None else Some h)"
| "monitor SessionLoopMt h =
     (if \<not> (h_runtime h \<and> h_session h \<and> h_mounted h \<and> h_signals h \<and> h_loop_cfg h) then None else Some h)"
| "monitor RemoveSignalHandlers h = (if \<not> h_session h \<or> \<not> h_signals h then None else Some (h\<lparr>h_signals := False\<rparr>))"
| "monitor SessionUnmount h = (if \<not> h_session h \<or> \<not> h_mounted h then None else Some (h\<lparr>h_mounted := False\<rparr>))"
| "monitor SessionDestroy h =
     (if \<not> h_session h \<or> h_mounted h \<or> h_signals h \<or> h_loop_cfg h then None else Some (h\<lparr>h_session := False\<rparr>))"
| "monitor RuntimeDrop h = (if \<not> h_runtime h \<or> h_session h then None else Some (h\<lparr>h_runtime := False\<rparr>))"

primrec monitor_all :: "lf_call list \<Rightarrow> held \<Rightarrow> held option" where
  "monitor_all [] h = Some h"
| "monitor_all (e # tr) h = Option.bind (monitor e h) (monitor_all tr)"

lemma monitor_all_append [simp]: "monitor_all (xs @ ys) h = Option.bind (monitor_all xs h) (monitor_all ys)"
  by (induction xs arbitrary: h) (auto split: Option.bind_splits)

section \<open>Every way out releases everything\<close>

text \<open>A session that is open and, as its flag says, mounted or not.\<close>

definition owned :: "session \<Rightarrow> held" where
  "owned ses = nothing\<lparr>h_runtime := True, h_session := True, h_mounted := ses_mounted ses\<rparr>"

lemma new_monitored:
  assumes "new_with_config E options threading [] = (r, tr)"
  shows "monitor_all tr nothing = Some (case r of Ok ses \<Rightarrow> owned ses | _ \<Rightarrow> nothing)"
  using assms
  by (auto simp: new_with_config_def Let_def owned_def nothing_def validate_def split: threading_mode.splits option.splits if_splits)

lemma mount_monitored:
  assumes "session_mount E mp (ses, tr) = (r, (ses', tr'))" "monitor_all tr nothing = Some (owned ses)" "\<not> ses_mounted ses"
  shows "monitor_all tr' nothing = Some (owned ses')" "r = Ok () \<Longrightarrow> ses_mounted ses'"
  using assms by (auto simp: session_mount_def Let_def owned_def nothing_def split: if_splits)

lemma run_monitored:
  assumes "session_run E (ses, tr) = (r, (ses', tr'))" "monitor_all tr nothing = Some (owned ses)" "ses_mounted ses"
  shows "monitor_all tr' nothing = Some (owned ses')"
  using assms
  by (auto simp: session_run_def loop_config_new_def validate_def MAX_THREADS_def Let_def owned_def nothing_def
      split: if_splits threading_mode.splits option.splits)

lemma drop_monitored:
  "monitor_all tr nothing = Some (owned ses) \<Longrightarrow> monitor_all (session_drop ses tr) nothing = Some nothing"
  by (simp add: session_drop_def owned_def nothing_def)

lemma mount_and_run_with_config_releases:
  "monitor_all (snd (mount_and_run_with_config E mp options th [])) nothing = Some nothing"
proof -
  obtain r tr where new: "new_with_config E options th [] = (r, tr)" by fastforce
  note m = new_monitored [OF new]
  show ?thesis
  proof (cases r)
    case (Ok ses)
    have fresh: "\<not> ses_mounted ses"
      using new Ok by (auto simp: new_with_config_def Let_def split: outcome.splits option.splits if_splits)
    obtain q ses' tr' where run: "bnd (session_mount E mp) (\<lambda>_. session_run E) (ses, tr) = (q, ses', tr')"
      by (metis prod.exhaust)
    have tr: "monitor_all tr nothing = Some (owned ses)" using m Ok by simp
    have "monitor_all tr' nothing = Some (owned ses')"
      using run
    proof (cases rule: bnd_cases)
      case (ok a s)
      then show ?thesis using mount_monitored [OF _ tr fresh] run_monitored by (cases s) (metis (full_types) old.unit.exhaust)
    qed (use mount_monitored [OF _ tr fresh] in auto)
    with drop_monitored show ?thesis
      using new Ok run by (simp add: mount_and_run_with_config_def)
  qed (use m new in \<open>simp_all add: mount_and_run_with_config_def\<close>)
qed

text \<open>The short form is the long one with the default threads, and so releases everything too.\<close>

lemma mount_and_run_is_default: "mount_and_run E mp options = mount_and_run_with_config E mp options (MultiThreaded default_thread_pool)"
  by (simp add: mount_and_run_def mount_and_run_with_config_def session_new_def default_threading_def)

theorem mount_and_run_releases_everything: "monitor_all (snd (mount_and_run E mp options [])) nothing = Some nothing"
  unfolding mount_and_run_is_default by (rule mount_and_run_with_config_releases)

text \<open>
  C32. Whatever libfuse answers, \<^verbatim>\<open>mount_blocking\<close> follows the protocol of the session interface on every
  way out: nothing is used before it is acquired, the session is unmounted before it is destroyed and only if
  it was mounted, signal handlers are removed when they were installed, the loop configuration is freed, and
  the runtime is freed exactly once, after the session.
\<close>

theorem mount_blocking_releases_everything:
  "monitor_all (snd (mount_blocking E mp cfg single_thread [])) nothing = Some nothing"
  unfolding mount_blocking_def by (rule mount_and_run_with_config_releases)

text \<open>
  What \<^verbatim>\<open>mount_blocking\<close> returns, as one list of checks in order: the options must have no NUL byte (the
  only panic), the session must be created, the mount point must exist, be a directory and have no NUL byte, and
  mounting, the signal handlers, the loop configuration and the loop must succeed.
\<close>

theorem mount_blocking_result:
  "fst (mount_blocking E mp cfg single_thread tr) =
    (case arg_cstrings (build_mount_options cfg) of
       None \<Rightarrow> Panic
     | Some args \<Rightarrow>
         if \<not> ev_session_new E args then Err SessionNewFailed
         else if \<not> ev_exists E mp then Err (MountPointNotFound mp)
         else if \<not> ev_is_dir E mp then Err (MountPointNotDir mp)
         else if \<not> no_nul mp then Err (InvalidMountpoint mp)
         else if ev_mount E mp \<noteq> 0 then Err MountFailed
         else if ev_set_signal_handlers E \<noteq> 0 then Err SignalHandlers
         else if \<not> single_thread \<and> \<not> ev_loop_cfg_create E then Err LoopConfigAllocation
         else let rc = (if single_thread then ev_session_loop E else ev_session_loop_mt E)
              in if rc \<noteq> 0 then Err (LoopFailed rc) else Ok ())"
  by (simp add: mount_blocking_def mount_and_run_with_config_def new_with_config_def session_mount_def session_run_def
      loop_config_new_def validate_def MAX_THREADS_def default_thread_pool_def bnd_def Let_def split: option.splits prod.splits)

end
