(* ===== verification/Hello_Fs.thy ===== *)
theory Hello_Fs
  imports Memory_Fs Session_Shims Session_Lifecycle
begin

text \<open>
  The two hello examples: \<^verbatim>\<open>typed-fuse/examples/hello_ll.rs\<close>, a filesystem over the runtime, and its port to the raw
  interface of libfuse, \<^verbatim>\<open>libfuse-sys/examples/hello_ll_raw.rs\<close>. Both serve one file \<^verbatim>\<open>hello\<close> from memory.
\<close>

unbundle bit_operations_syntax

section \<open>Strings\<close>

text \<open>
  \<^verbatim>\<open>OsStr::to_string_lossy\<close>: well-formed UTF-8 is kept and every maximal ill-formed piece is replaced. A piece is
  found as the standard library does it, reading zero beyond the end.
\<close>

definition safe_get :: "nat list \<Rightarrow> nat \<Rightarrow> nat" where
  "safe_get s i = (if i < length s then s ! i else 0)"

definition is_cont :: "nat \<Rightarrow> bool" where
  "is_cont b \<longleftrightarrow> 0x80 \<le> b \<and> b \<le> 0xBF"

definition utf8_width :: "nat \<Rightarrow> nat" where
  "utf8_width b = (if b < 0x80 then 1 else if 0xC2 \<le> b \<and> b \<le> 0xDF then 2 else if 0xE0 \<le> b \<and> b \<le> 0xEF then 3
     else if 0xF0 \<le> b \<and> b \<le> 0xF4 then 4 else 0)"

definition second_ok :: "nat \<Rightarrow> nat \<Rightarrow> bool" where
  "second_ok b c \<longleftrightarrow> is_cont c \<and> (b = 0xE0 \<longrightarrow> 0xA0 \<le> c) \<and> (b = 0xED \<longrightarrow> c \<le> 0x9F) \<and> (b = 0xF0 \<longrightarrow> 0x90 \<le> c) \<and> (b = 0xF4 \<longrightarrow> c \<le> 0x8F)"

text \<open>Whether the next piece is a character, and its length.\<close>

definition utf8_next :: "nat list \<Rightarrow> bool \<times> nat" where
  "utf8_next s = (let b = safe_get s 0; w = utf8_width b in
     if w = 1 then (True, 1)
     else if w = 0 then (False, 1)
     else if \<not> second_ok b (safe_get s 1) then (False, 1)
     else if w = 2 then (True, 2)
     else if \<not> is_cont (safe_get s 2) then (False, 2)
     else if w = 3 then (True, 3)
     else if \<not> is_cont (safe_get s 3) then (False, 3)
     else (True, 4))"

definition REPLACEMENT :: string where
  "REPLACEMENT = [CHR 0xEF, CHR 0xBF, CHR 0xBD]"

fun to_string_lossy :: "os_str \<Rightarrow> string" where
  "to_string_lossy [] = []"
| "to_string_lossy (c # cs) = (case utf8_next (map of_char (c # cs)) of (ok, n) \<Rightarrow>
     (if ok then take n (c # cs) else REPLACEMENT) @ to_string_lossy (drop (n - 1) cs))"

section \<open>The typed example\<close>

definition HELLO_CONTENT :: bytes where
  "HELLO_CONTENT = os_bytes (''Hello World!'' @ [CHR 0x0A])"

text \<open>Nothing that can panic runs while the entries are locked for writing, so the lock is never poisoned.\<close>

datatype hello_node = HelloDir "(string, node_id) btree" | HelloFile bytes

record hello_fs =
  hf_mounted_at :: system_time

type_synonym 'a hello_call = "(hello_fs, hello_node, 'a) call"

definition hello_attr_of :: "hello_fs \<Rightarrow> hello_node \<Rightarrow> node_attr" where
  "hello_attr_of fs node =
     (case (case node of
              HelloDir _ \<Rightarrow> (Directory, 0x1ED, 0, 2)
            | HelloFile content \<Rightarrow> (RegularFile, 0x124, of_nat (length content), 1)) of (kind, perm, sz, nlink) \<Rightarrow>
      default_attr\<lparr>na_kind := kind, na_perm := perm, na_size := sz, na_nlink := nlink, na_atime := hf_mounted_at fs,
        na_mtime := hf_mounted_at fs, na_ctime := hf_mounted_at fs, na_crtime := hf_mounted_at fs\<rparr>)"

definition hello_root :: "hello_fs \<Rightarrow> hello_node \<times> hello_fs" where
  "hello_root fs = (HelloDir [], fs)"

definition add_hello :: "node_id \<Rightarrow> hello_node \<Rightarrow> hello_node" where
  "add_hello hello node = (case node of HelloDir entries \<Rightarrow> HelloDir (bt_insert ''hello'' hello entries) | HelloFile _ \<Rightarrow> node)"

definition hello_populate :: "unit hello_call" where
  "hello_populate = bnd (insert_node (HelloFile HELLO_CONTENT) ROOT) (\<lambda>hello.
     lease_or (ret ()) ROOT (\<lambda>a s. (Ok (), (fst s, set_payload a (add_hello hello (payload (snd s) a)) (snd s)))))"

text \<open>A method that only looks at the node it is given.\<close>

definition on_node :: "addr \<Rightarrow> (hello_fs \<Rightarrow> hello_node \<Rightarrow> 'a result) \<Rightarrow> 'a hello_call" where
  "on_node a f s = (f (fst s) (payload (snd s) a), s)"

definition hello_getattr :: "addr \<Rightarrow> unit option \<Rightarrow> caller \<Rightarrow> node_attr hello_call" where
  "hello_getattr a oh c = on_node a (\<lambda>fs node. Ok (hello_attr_of fs node))"

definition hello_lookup :: "node_id \<Rightarrow> os_str \<Rightarrow> caller \<Rightarrow> node_id option hello_call" where
  "hello_lookup parent name c = leased parent (\<lambda>a. on_node a (\<lambda>fs node. case node of
     HelloDir entries \<Rightarrow> Ok (bt_get entries (to_string_lossy name))
   | HelloFile _ \<Rightarrow> Err ENOTDIR))"

definition hello_open :: "addr \<Rightarrow> int \<Rightarrow> caller \<Rightarrow> unit opened hello_call" where
  "hello_open a flags c = on_node a (\<lambda>fs node. case node of
     HelloFile _ \<Rightarrow> Ok (opened_new ()) | HelloDir _ \<Rightarrow> Err EISDIR)"

definition hello_read :: "addr \<Rightarrow> unit \<Rightarrow> u64 \<Rightarrow> nat \<Rightarrow> caller \<Rightarrow> bytes hello_call" where
  "hello_read a h offset sz c = on_node a (\<lambda>fs node. case node of
     HelloDir _ \<Rightarrow> Err EISDIR
   | HelloFile content \<Rightarrow>
       if unat offset \<ge> length content then Ok []
       else if unat offset + sz \<ge> 2 ^ 64 then Panic
       else let end = min (unat offset + sz) (length content) in Ok (take (end - unat offset) (drop (unat offset) content)))"

text \<open>The loop over the entries is the one of the in-memory filesystem, with every entry a regular file.\<close>

definition hello_readdir :: "addr \<Rightarrow> node_id \<Rightarrow> node_id \<Rightarrow> u64 \<Rightarrow> caller \<Rightarrow> (hello_fs, hello_node, unit, dir_sink) dir_call" where
  "hello_readdir a this parent offset c s = (case s of (fs, sh, dh, k) \<Rightarrow> (case payload sh a of
     HelloFile _ \<Rightarrow> (Err ENOTDIR, s)
   | HelloDir entries \<Rightarrow> (Ok (), (fs, sh, dh,
       list_entries this parent offset (map (\<lambda>(name, nid). (name, \<lparr>me_id = nid, me_kind = RegularFile\<rparr>)) entries) k))))"

definition hello_ops :: "(hello_fs, hello_node, unit, unit) node_fs" where
  "hello_ops = (default_node_fs hello_root hello_getattr)
     \<lparr>fs_populate := hello_populate, fs_lookup := hello_lookup, fs_open := hello_open, fs_read := hello_read, fs_readdir := hello_readdir\<rparr>"

section \<open>The raw example\<close>

text \<open>\<^verbatim>\<open>MountTime::now\<close>, at the given time; a time before the epoch counts as the epoch.\<close>

record mount_time =
  mt_seconds :: i64
  mt_nanoseconds :: i64

definition mount_time_now :: "system_time \<Rightarrow> mount_time" where
  "mount_time_now now = (let d = (if now < UNIX_EPOCH then 0 else now - UNIX_EPOCH) in
     \<lparr>mt_seconds = word_of_int (d div 1000000000), mt_nanoseconds = word_of_int (d mod 1000000000)\<rparr>)"

definition raw_set_times :: "mount_time \<Rightarrow> raw_stat \<Rightarrow> raw_stat" where
  "raw_set_times mt st = (let t = (mt_seconds mt, mt_nanoseconds mt) in st\<lparr>st_atim := t, st_mtim := t, st_ctim := t\<rparr>)"

definition hello_stat :: "u64 \<Rightarrow> mount_time \<Rightarrow> raw_stat option" where
  "hello_stat ino mt = (let attr = zeroed_stat\<lparr>st_ino := ino\<rparr> in
     map_option (raw_set_times mt)
       (if ino = 1 then Some (attr\<lparr>st_mode := S_IFDIR OR 0x1ED, st_nlink := 2\<rparr>)
        else if ino = 2 then Some (attr\<lparr>st_mode := S_IFREG OR 0x124, st_nlink := 1, st_size := of_nat (length HELLO_CONTENT)\<rparr>)
        else None))"

text \<open>What each operation replies; \<open>None\<close> is a panic.\<close>

definition raw_lookup :: "mount_time \<Rightarrow> u64 \<Rightarrow> os_str \<Rightarrow> raw_reply option" where
  "raw_lookup mt parent name =
     (if parent \<noteq> 1 \<or> name \<noteq> ''hello'' then Some (RErr (raw ENOENT))
      else map_option (\<lambda>attr. REntry \<lparr>ep_ino = 2, ep_generation = 0, ep_attr = attr, ep_attr_timeout = 1000000000,
        ep_entry_timeout = 1000000000\<rparr>) (hello_stat 2 mt))"

definition raw_getattr :: "mount_time \<Rightarrow> u64 \<Rightarrow> raw_reply option" where
  "raw_getattr mt ino = Some (case hello_stat ino mt of Some attr \<Rightarrow> RAttr attr 1000000000 | None \<Rightarrow> RErr (raw ENOENT))"

definition dirbuf_add :: "direntry_format \<Rightarrow> mount_time \<Rightarrow> os_str \<Rightarrow> u64 \<Rightarrow> bytes \<Rightarrow> bytes option" where
  "dirbuf_add D mt name ino buf = (let entry_size = df_size D name in
     map_option (\<lambda>attr. buf @ write_entry entry_size (df_image D name attr (of_nat (length buf + entry_size)))) (hello_stat ino mt))"

definition reply_buf_limited :: "bytes \<Rightarrow> i64 \<Rightarrow> nat \<Rightarrow> raw_reply option" where
  "reply_buf_limited buf off maxsize =
     (if unat off < length buf
      then if unat off + maxsize \<ge> 2 ^ 64 then None
           else let end = min (length buf) (unat off + maxsize) in Some (RBuf (take (end - unat off) (drop (unat off) buf)))
      else Some (RBuf []))"

definition raw_readdir :: "direntry_format \<Rightarrow> mount_time \<Rightarrow> u64 \<Rightarrow> nat \<Rightarrow> i64 \<Rightarrow> raw_reply option" where
  "raw_readdir D mt ino sz off =
     (if ino \<noteq> 1 then Some (RErr (raw ENOTDIR))
      else Option.bind (dirbuf_add D mt ''.'' 1 []) (\<lambda>buf.
           Option.bind (dirbuf_add D mt ''..'' 1 buf) (\<lambda>buf.
           Option.bind (dirbuf_add D mt ''hello'' 2 buf) (\<lambda>buf.
           reply_buf_limited buf off sz))))"

definition raw_open :: "u64 \<Rightarrow> file_info \<Rightarrow> raw_reply option" where
  "raw_open ino fi = Some (if ino \<noteq> 2 then RErr (raw EISDIR)
     else if fi_open_flags fi AND 3 \<noteq> 0 then RErr (raw EACCES) else ROpen (Some fi))"

text \<open>The inode is asserted to be the file's.\<close>

definition raw_read :: "u64 \<Rightarrow> nat \<Rightarrow> i64 \<Rightarrow> raw_reply option" where
  "raw_read ino sz off = (if ino \<noteq> 2 then None else reply_buf_limited HELLO_CONTENT off sz)"

section \<open>Running the raw example\<close>

text \<open>
  \<^verbatim>\<open>run_session\<close> and \<^verbatim>\<open>run\<close>, over the environment of \<^verbatim>\<open>Session_Lifecycle\<close>. The arguments and the options are those
  that \<^verbatim>\<open>fuse_parse_cmdline\<close> leaves, or nothing when it fails. The user data is a local variable, so it is there throughout.
\<close>

record cmdline_opts =
  co_show_help :: bool
  co_show_version :: bool
  co_mountpoint :: "string option"

datatype raw_call = Lf lf_call | Daemonize | PrintHelp | PrintVersion | PrintUsage | FreeMountpoint

definition run_session :: "session_env \<Rightarrow> string list \<Rightarrow> string \<Rightarrow> raw_call list \<Rightarrow> int \<times> raw_call list" where
  "run_session E args mp tr =
     (let se = ev_session_new E args; tr = tr @ [Lf (SessionNew args se)]
      in if \<not> se then (1, tr)
         else let rc = ev_set_signal_handlers E; tr = tr @ [Lf (SetSignalHandlers rc)];
                  (status, tr) =
                    (if rc = 0
                     then let rc = ev_mount E mp; tr = tr @ [Lf (SessionMount mp rc)];
                              (status, tr) = (if rc = 0 then (ev_session_loop E, tr @ [Daemonize, Lf SessionLoop, Lf SessionUnmount])
                                           else (1, tr))
                          in (status, tr @ [Lf RemoveSignalHandlers])
                     else (1, tr))
              in (status, tr @ [Lf SessionDestroy]))"

definition raw_main :: "session_env \<Rightarrow> (string list \<times> cmdline_opts) option \<Rightarrow> raw_call list \<Rightarrow> int \<times> raw_call list" where
  "raw_main E parsed tr = (case parsed of
     None \<Rightarrow> (1, tr)
   | Some (args, opts) \<Rightarrow>
       (case (if co_show_help opts then (0, tr @ [PrintHelp])
              else if co_show_version opts then (0, tr @ [PrintVersion])
              else (case co_mountpoint opts of None \<Rightarrow> (1, tr @ [PrintUsage]) | Some mp \<Rightarrow> run_session E args mp tr)) of (status, tr) \<Rightarrow>
        (if status \<noteq> 0 then 1 else 0, tr @ (if co_mountpoint opts \<noteq> None then [FreeMountpoint] else []) @ [Lf FreeArgs])))"

end
