(* ===== verification/Path_Namespace.thy ===== *)
theory Path_Namespace
  imports Table_Effects
begin

text \<open>
  The namespace of the path adapter (\<^verbatim>\<open>path_fs.rs\<close>): which node each known name refers to, every
  name of each node, and the path built from them.
\<close>

section \<open>Data\<close>

record 's path_node =
  pn_key :: u64
  pn_state :: 's
  pn_entry_attr :: "node_attr option"
  pn_entries_epoch :: u64

definition path_node_new :: "u64 \<Rightarrow> 's \<Rightarrow> 's path_node" where
  "path_node_new key st = \<lparr>pn_key = key, pn_state = st, pn_entry_attr = None, pn_entries_epoch = 0\<rparr>"

text \<open>Writes through a node's interior locks and atomics; the epoch wraps.\<close>

definition entries_changed :: "addr \<Rightarrow> 's path_node shared \<Rightarrow> 's path_node shared" where
  "entries_changed a sh = set_payload a ((payload sh a)\<lparr>pn_entries_epoch := pn_entries_epoch (payload sh a) + 1\<rparr>) sh"

definition set_entry_attr :: "addr \<Rightarrow> node_attr \<Rightarrow> 's path_node shared \<Rightarrow> 's path_node shared" where
  "set_entry_attr a attr sh = set_payload a ((payload sh a)\<lparr>pn_entry_attr := Some attr\<rparr>) sh"

definition take_entry_attr :: "addr \<Rightarrow> 's path_node shared \<Rightarrow> node_attr option \<times> 's path_node shared" where
  "take_entry_attr a sh = (pn_entry_attr (payload sh a), set_payload a ((payload sh a)\<lparr>pn_entry_attr := None\<rparr>) sh)"

text \<open>\<^verbatim>\<open>Dentry\<close> derives \<^verbatim>\<open>Ord\<close>: the parent first, then the name.\<close>

datatype dentry = Dentry (d_parent: node_id) (d_name: os_str)

instantiation dentry :: linorder
begin
definition less_eq_dentry :: "dentry \<Rightarrow> dentry \<Rightarrow> bool" where
  "less_eq_dentry a b \<longleftrightarrow> d_parent a < d_parent b \<or> d_parent a = d_parent b \<and> d_name a \<le> d_name b"
definition less_dentry :: "dentry \<Rightarrow> dentry \<Rightarrow> bool" where
  "less_dentry a b \<longleftrightarrow> d_parent a < d_parent b \<or> d_parent a = d_parent b \<and> d_name a < d_name b"
instance
  by standard (auto simp: less_eq_dentry_def less_dentry_def dentry.expand)
end

text \<open>A \<^verbatim>\<open>BTreeSet\<close> is an ordered map to the unit type.\<close>

type_synonym dentry_set = "(dentry, unit) btree"

record namespace =
  ns_by_name :: "(dentry, node_id) btree"
  ns_aliases :: "(node_id, dentry_set) btree"
  ns_keys :: "(u64, node_id) btree"
  ns_next_key :: u64

definition namespace_new :: namespace where
  "namespace_new = \<lparr>ns_by_name = [], ns_aliases = [], ns_keys = [(1, ROOT)], ns_next_key = 2\<rparr>"

definition id_for_node :: "'s path_node \<Rightarrow> namespace \<Rightarrow> node_id option" where
  "id_for_node nd ns = bt_get (ns_keys ns) (pn_key nd)"

text \<open>
  \<^verbatim>\<open>PathBuf::push\<close>: an absolute component replaces the path; a separator is added unless there
  is one.
\<close>

definition path_push :: "os_str \<Rightarrow> os_str \<Rightarrow> os_str" where
  "path_push p nm = (if nm \<noteq> [] \<and> hd nm = CHR ''/'' then nm
     else if p = [] \<or> last p = CHR ''/'' then p @ nm else p @ CHR ''/'' # nm)"

definition first_alias :: "node_id \<Rightarrow> namespace \<Rightarrow> dentry option" where
  "first_alias nid ns = (case bt_get (ns_aliases ns) nid of
     None \<Rightarrow> None
   | Some ds \<Rightarrow> (case ds of [] \<Rightarrow> None | (d, _) # _ \<Rightarrow> Some d))"

text \<open>
  \<^verbatim>\<open>path_for\<close> recurses from a node to its parent. The outer \<open>None\<close> is a recursion that does not
  end (a cycle of names); the inner one is a node without a path.
\<close>

partial_function (option) path_for :: "namespace \<Rightarrow> node_id \<Rightarrow> os_str option option" where
  "path_for ns nid =
     (if nid = ROOT then Some (Some ''/'')
      else case first_alias nid ns of
        None \<Rightarrow> Some None
      | Some d \<Rightarrow> Option.bind (path_for ns (d_parent d)) (\<lambda>p.
          Some (map_option (\<lambda>p. path_push p (d_name d)) p)))"

section \<open>Operations\<close>

definition alias_add :: "node_id \<Rightarrow> dentry \<Rightarrow> (node_id, dentry_set) btree \<Rightarrow> (node_id, dentry_set) btree" where
  "alias_add nid d al = bt_insert nid (bt_insert d () (case bt_get al nid of None \<Rightarrow> [] | Some ds \<Rightarrow> ds)) al"

definition add_alias :: "node_id \<Rightarrow> dentry \<Rightarrow> namespace \<Rightarrow> namespace" where
  "add_alias nid d ns = ns\<lparr>ns_by_name := bt_insert d nid (ns_by_name ns), ns_aliases := alias_add nid d (ns_aliases ns)\<rparr>"

definition namespace_insert :: "node_id \<Rightarrow> os_str \<Rightarrow> 's \<Rightarrow> (namespace \<times> 's path_node shared) \<Rightarrow>
    (node_id \<times> bool) result \<times> (namespace \<times> 's path_node shared)" where
  "namespace_insert parent nm st s = (case s of (ns, sh) \<Rightarrow>
     (case bt_get (ns_by_name ns) (Dentry parent nm) of
        Some nid \<Rightarrow> (Ok (nid, False), (ns, sh))
      | None \<Rightarrow>
          (case checked_add (ns_next_key ns) 1 of
             None \<Rightarrow> (Panic, (ns, sh))
           | Some k \<Rightarrow>
               let ns1 = ns\<lparr>ns_next_key := k\<rparr> in
               (case cx_insert (path_node_new (ns_next_key ns) st) parent sh of
                  (Ok nid, sh') \<Rightarrow>
                    (Ok (nid, True),
                     (add_alias nid (Dentry parent nm) (ns1\<lparr>ns_keys := bt_insert (ns_next_key ns) nid (ns_keys ns1)\<rparr>), sh'))
                | (Err e, sh') \<Rightarrow> (Err e, (ns1, sh'))
                | (Panic, sh') \<Rightarrow> (Panic, (ns1, sh'))
                | (Blocks, sh') \<Rightarrow> (Blocks, (ns1, sh'))))))"

definition namespace_remove :: "dentry \<Rightarrow> namespace \<Rightarrow> node_id option \<times> namespace" where
  "namespace_remove d ns = (case bt_get (ns_by_name ns) d of
     None \<Rightarrow> (None, ns)
   | Some nid \<Rightarrow>
       let ns1 = ns\<lparr>ns_by_name := bt_remove d (ns_by_name ns)\<rparr> in
       (Some nid, (case bt_get (ns_aliases ns1) nid of
          None \<Rightarrow> ns1
        | Some ds \<Rightarrow>
            let ds' = bt_remove d ds in
            ns1\<lparr>ns_aliases := (if ds' = [] then bt_remove nid (ns_aliases ns1) else bt_insert nid ds' (ns_aliases ns1))\<rparr>)))"

text \<open>The end of \<^verbatim>\<open>rename\<close>, under the namespace lock, after the filesystem renamed the entry.\<close>

definition rename_dentry :: "dentry \<Rightarrow> dentry \<Rightarrow> (namespace \<times> 's path_node shared) \<Rightarrow> namespace \<times> 's path_node shared" where
  "rename_dentry old new s = (case s of (ns, sh) \<Rightarrow>
     (case bt_get (ns_by_name ns) old of
        None \<Rightarrow> (ns, sh)
      | Some source \<Rightarrow>
          if bt_get (ns_by_name ns) new = Some source then (ns, sh)
          else
            (case namespace_remove new ns of (replaced, ns1) \<Rightarrow>
               let sh1 = (case replaced of None \<Rightarrow> sh | Some r \<Rightarrow> cx_remove_link r sh);
                   ns2 = snd (namespace_remove old ns1);
                   ns3 = add_alias source new ns2
               in (ns3, cx_reparent source (d_parent new) sh1))))"

section \<open>Invariant\<close>

text \<open>
  The two maps describe the same relation between names and nodes; the alias sets are ordered and
  never empty.
\<close>

definition has_alias :: "namespace \<Rightarrow> node_id \<Rightarrow> dentry \<Rightarrow> bool" where
  "has_alias ns nid d \<longleftrightarrow> (\<exists>ds. bt_get (ns_aliases ns) nid = Some ds \<and> bt_get ds d = Some ())"

definition ns_inv :: "namespace \<Rightarrow> bool" where
  "ns_inv ns \<longleftrightarrow> bt_sorted (ns_by_name ns) \<and> bt_sorted (ns_aliases ns) \<and> bt_sorted (ns_keys ns) \<and>
     (\<forall>nid ds. bt_get (ns_aliases ns) nid = Some ds \<longrightarrow> bt_sorted ds \<and> ds \<noteq> []) \<and>
     (\<forall>nid d. has_alias ns nid d \<longleftrightarrow> bt_get (ns_by_name ns) d = Some nid)"

text \<open>How many names a node has.\<close>

definition names_of :: "namespace \<Rightarrow> node_id \<Rightarrow> nat" where
  "names_of ns nid = (case bt_get (ns_aliases ns) nid of None \<Rightarrow> 0 | Some ds \<Rightarrow> length ds)"

lemma ns_inv_new: "ns_inv namespace_new"
  by (simp add: ns_inv_def namespace_new_def has_alias_def bt_sorted_def)

lemma has_alias_add: "has_alias (add_alias nid d ns) n e \<longleftrightarrow> (n = nid \<and> e = d) \<or> has_alias ns n e"
  by (auto simp: has_alias_def add_alias_def alias_add_def split: option.splits)

lemma ns_inv_add_alias:
  assumes inv: "ns_inv ns" and fresh: "bt_get (ns_by_name ns) d = None" shows "ns_inv (add_alias nid d ns)"
proof -
  have "bt_insert d () ds \<noteq> []" for ds :: dentry_set by (cases ds) (auto split: if_splits)
  moreover have "\<nexists>n. has_alias ns n d" using inv fresh by (auto simp: ns_inv_def)
  ultimately show ?thesis
    using inv unfolding ns_inv_def has_alias_add
    by (auto simp: add_alias_def alias_add_def bt_sorted_insert split: option.splits if_splits)
qed

lemma namespace_remove_cases:
  assumes "namespace_remove d ns = (r, ns')" "ns_inv ns"
  obtains (absent) "r = None" "ns' = ns" "bt_get (ns_by_name ns) d = None"
    | (removed) nid ds where "r = Some nid" "bt_get (ns_by_name ns) d = Some nid" "bt_get (ns_aliases ns) nid = Some ds"
        "bt_get ds d = Some ()" "bt_sorted ds"
        "ns' = ns\<lparr>ns_by_name := bt_remove d (ns_by_name ns),
          ns_aliases := (if bt_remove d ds = [] then bt_remove nid (ns_aliases ns) else bt_insert nid (bt_remove d ds) (ns_aliases ns))\<rparr>"
proof (cases "bt_get (ns_by_name ns) d")
  case None
  with assms(1) absent show ?thesis by (simp add: namespace_remove_def)
next
  case (Some nid)
  with assms(2) have "has_alias ns nid d" by (simp add: ns_inv_def)
  then obtain ds where ds: "bt_get (ns_aliases ns) nid = Some ds" "bt_get ds d = Some ()" by (auto simp: has_alias_def)
  with assms Some show ?thesis
    by (intro removed [of nid ds]) (auto simp: namespace_remove_def Let_def ns_inv_def)
qed

lemma has_alias_remove:
  assumes "namespace_remove d ns = (r, ns')" "ns_inv ns"
  shows "has_alias ns' n e \<longleftrightarrow> e \<noteq> d \<and> has_alias ns n e"
  using assms
proof (cases rule: namespace_remove_cases)
  case absent
  with assms(2) show ?thesis by (auto simp: ns_inv_def)
next
  case (removed nid ds)
  have only: "has_alias ns m d \<Longrightarrow> m = nid" for m using assms(2) removed(2) by (auto simp: ns_inv_def)
  show ?thesis
  proof (cases "n = nid")
    case True
    have "bt_remove d ds = [] \<Longrightarrow> e \<noteq> d \<Longrightarrow> bt_get ds e = None"
      using bt_get_remove [of d ds e] by (metis bt_get.simps(1))
    then have "has_alias ns' nid e \<longleftrightarrow> bt_get (bt_remove d ds) e = Some ()"
      unfolding has_alias_def removed(6) by auto
    with True removed(3) show ?thesis by (simp add: has_alias_def)
  next
    case False
    then have "has_alias ns' n e = has_alias ns n e" unfolding has_alias_def removed(6) by simp
    with False only show ?thesis by auto
  qed
qed

lemma ns_inv_remove:
  assumes "namespace_remove d ns = (r, ns')" "ns_inv ns" shows "ns_inv ns'"
proof -
  note al = has_alias_remove [OF assms]
  from assms show ?thesis
  proof (cases rule: namespace_remove_cases)
    case (removed nid ds)
    with assms(2) al show ?thesis
      unfolding ns_inv_def by (auto simp: bt_sorted_remove bt_sorted_insert split: if_splits)
  qed (use assms(2) in auto)
qed

lemma rename_dentry_cases:
  assumes "rename_dentry old new (ns, sh) = (ns', sh')" "ns_inv ns"
  obtains (unknown) "bt_get (ns_by_name ns) old = None" "ns' = ns" "sh' = sh"
    | (same) source where "bt_get (ns_by_name ns) old = Some source" "bt_get (ns_by_name ns) new = Some source"
        "ns' = ns" "sh' = sh"
    | (moved) source replaced ns1 ns2 where "bt_get (ns_by_name ns) old = Some source"
        "bt_get (ns_by_name ns) new \<noteq> Some source" "namespace_remove new ns = (replaced, ns1)"
        "namespace_remove old ns1 = (Some source, ns2)" "ns' = add_alias source new ns2" "bt_get (ns_by_name ns2) new = None"
        "ns_inv ns1" "ns_inv ns2"
        "sh' = cx_reparent source (d_parent new) (case replaced of None \<Rightarrow> sh | Some r \<Rightarrow> cx_remove_link r sh)"
proof (cases "bt_get (ns_by_name ns) old")
  case None
  show ?thesis by (rule unknown) (use None assms(1) in \<open>simp_all add: rename_dentry_def\<close>)
next
  case (Some source)
  show ?thesis
  proof (cases "bt_get (ns_by_name ns) new = Some source")
    case True
    show ?thesis by (rule same [OF Some True]) (use Some True assms(1) in \<open>simp_all add: rename_dentry_def\<close>)
  next
    case False
    obtain replaced ns1 where 1: "namespace_remove new ns = (replaced, ns1)" by fastforce
    obtain q ns2 where 2: "namespace_remove old ns1 = (q, ns2)" by fastforce
    have inv1: "ns_inv ns1" by (rule ns_inv_remove [OF 1 assms(2)])
    have inv2: "ns_inv ns2" by (rule ns_inv_remove [OF 2 inv1])
    have al: "has_alias ns2 n e \<longleftrightarrow> e \<noteq> old \<and> e \<noteq> new \<and> has_alias ns n e" for n e
      using has_alias_remove [OF 2 inv1] has_alias_remove [OF 1 assms(2)] by auto
    have old: "has_alias ns1 source old" using has_alias_remove [OF 1 assms(2)] assms(2) Some False by (auto simp: ns_inv_def)
    then have "q = Some source" using 2 inv1 by (auto simp: ns_inv_def namespace_remove_def Let_def split: option.splits)
    moreover have "bt_get (ns_by_name ns2) new = None"
      using inv2 al unfolding ns_inv_def by (metis option.exhaust)
    ultimately show ?thesis
      using moved [OF Some False 1, of ns2] 2 inv1 inv2 assms(1) Some False 1
      by (simp add: rename_dentry_def Let_def)
  qed
qed

lemma ns_inv_rename_dentry:
  assumes "rename_dentry old new (ns, sh) = (ns', sh')" "ns_inv ns" shows "ns_inv ns'"
  using assms by (cases rule: rename_dentry_cases) (auto intro: ns_inv_add_alias simp: assms(2))

lemma has_alias_rename:
  assumes "rename_dentry old new (ns, sh) = (ns', sh')" "ns_inv ns"
    and "bt_get (ns_by_name ns) old = Some source" "bt_get (ns_by_name ns) new \<noteq> Some source"
  shows "has_alias ns' n e \<longleftrightarrow> (n = source \<and> e = new) \<or> (e \<noteq> old \<and> e \<noteq> new \<and> has_alias ns n e)"
  using assms(1,2)
proof (cases rule: rename_dentry_cases)
  case (moved src replaced ns1 ns2)
  have "has_alias ns2 n e \<longleftrightarrow> e \<noteq> old \<and> e \<noteq> new \<and> has_alias ns n e"
    using has_alias_remove [OF moved(4,7)] has_alias_remove [OF moved(3) assms(2)] by auto
  with moved(1,5) assms(3) show ?thesis by (auto simp: has_alias_add)
qed (use assms(3,4) in auto)

section \<open>Names and links\<close>

text \<open>
  The runtime's link count of a node is the number of names the namespace has for it; the root has one
  more, which is never removed.
\<close>

definition name_links :: "namespace \<Rightarrow> 's path_node shared \<Rightarrow> bool" where
  "name_links ns sh \<longleftrightarrow> (\<forall>nid. links_of sh (ino_of nid) = names_of ns nid + (if nid = ROOT then 1 else 0))"

lemma length_insert_new: "bt_get m k = None \<Longrightarrow> length (bt_insert k v m) = Suc (length m)"
  by (induction k v m rule: bt_insert.induct) (auto split: if_splits)

lemma length_remove_present: "bt_sorted m \<Longrightarrow> bt_get m k = Some v \<Longrightarrow> length m = Suc (length (bt_remove k m))"
proof (induction m)
  case (Cons p m)
  show ?case
  proof (cases "fst p = k")
    case True
    with Cons.prems(1) have "bt_get m k = None" by (auto simp: bt_get_None_iff bt_sorted_def)
    with True show ?thesis using bt_remove_absent [of m k] by (simp add: bt_remove_def)
  next
    case False
    with Cons show ?thesis by (auto simp: bt_remove_def bt_sorted_def)
  qed
qed simp

lemma names_of_add_alias:
  assumes "ns_inv ns" "bt_get (ns_by_name ns) d = None"
  shows "names_of (add_alias nid d ns) = (names_of ns)(nid := Suc (names_of ns nid))"
proof -
  have "bt_get ds d = None" if "bt_get (ns_aliases ns) nid = Some ds" for ds
    using assms that unfolding ns_inv_def has_alias_def by (metis not_Some_eq unit.exhaust)
  then show ?thesis
    by (auto simp: names_of_def add_alias_def alias_add_def fun_eq_iff length_insert_new split: option.splits)
qed

lemma names_of_remove:
  assumes "namespace_remove d ns = (Some nid, ns')" "ns_inv ns"
  shows "names_of ns' = (names_of ns)(nid := names_of ns nid - 1)" "0 < names_of ns nid"
proof -
  from assms have "names_of ns' = (names_of ns)(nid := names_of ns nid - 1) \<and> 0 < names_of ns nid"
  proof (cases rule: namespace_remove_cases)
    case (removed m ds)
    with length_remove_present [OF removed(5,4)] show ?thesis
      by (auto simp: names_of_def fun_eq_iff split: option.splits)
  qed simp
  then show "names_of ns' = (names_of ns)(nid := names_of ns nid - 1)" "0 < names_of ns nid" by auto
qed

lemma names_of_remove_None: "namespace_remove d ns = (None, ns') \<Longrightarrow> ns' = ns"
  by (auto simp: namespace_remove_def Let_def split: option.splits)

lemma name_links_remove:
  assumes "namespace_remove d ns = (Some nid, ns')" "ns_inv ns" "name_links ns sh"
  shows "name_links ns' (cx_remove_link nid sh)"
  using names_of_remove [OF assms(1,2)] assms(3) unfolding name_links_def
  by (auto simp: links_cx_remove_link node_id_eq_iff)

lemma name_links_insert:
  assumes "table_inv sh" "ns_inv ns" "name_links ns sh" "namespace_insert parent nm st (ns, sh) = (Ok (nid, new), (ns', sh'))"
  shows "ns_inv ns' \<and> name_links ns' sh' \<and> table_inv sh' \<and> bt_get (ns_by_name ns') (Dentry parent nm) = Some nid"
proof (cases "bt_get (ns_by_name ns) (Dentry parent nm)")
  case (Some m)
  with assms show ?thesis by (auto simp: namespace_insert_def)
next
  case None
  let ?p = "path_node_new (ns_next_key ns) st"
  from assms(4) None obtain k where ins: "cx_insert ?p parent sh = (Ok nid, sh')" "checked_add (ns_next_key ns) 1 = Some k"
    and ns': "ns' = add_alias nid (Dentry parent nm) (ns\<lparr>ns_next_key := k, ns_keys := bt_insert (ns_next_key ns) nid (ns_keys ns)\<rparr>)"
    by (auto simp: namespace_insert_def Let_def split: option.splits prod.splits outcome.splits)
  let ?ns1 = "ns\<lparr>ns_next_key := k, ns_keys := bt_insert (ns_next_key ns) nid (ns_keys ns)\<rparr>"
  have inv1: "ns_inv ?ns1" "bt_get (ns_by_name ?ns1) (Dentry parent nm) = None" "names_of ?ns1 = names_of ns"
    using assms(2) None by (auto simp: ns_inv_def has_alias_def names_of_def fun_eq_iff bt_sorted_insert)
  note l = links_cx_insert [OF assms(1) ins(1)]
  have zero: "names_of ns nid = 0" "nid \<noteq> ROOT"
    using assms(3) l(2) unfolding name_links_def by (metis add_is_0 one_neq_zero)+
  have "name_links ns' sh'"
    unfolding ns' name_links_def names_of_add_alias [OF inv1(1,2)] inv1(3)
    using assms(3) l zero by (auto simp: name_links_def node_id_eq_iff)
  with ns_inv_add_alias [OF inv1(1,2), of nid] eff_cx_insert [OF assms(1) ins(1)] show ?thesis
    by (auto simp: ns' add_alias_def eff_def)
qed

lemma name_links_rename:
  assumes "ns_inv ns" "name_links ns sh" "rename_dentry old new (ns, sh) = (ns', sh')"
  shows "name_links ns' sh'"
  using assms(3,1)
proof (cases rule: rename_dentry_cases)
  case (moved source replaced ns1 ns2)
  let ?sh1 = "case replaced of None \<Rightarrow> sh | Some r \<Rightarrow> cx_remove_link r sh"
  have 1: "name_links ns1 ?sh1"
  proof (cases replaced)
    case None
    with moved(3) names_of_remove_None assms(2) show ?thesis by auto
  next
    case (Some r)
    with name_links_remove [OF _ assms(1,2)] moved(3) show ?thesis by auto
  qed
  have "names_of ns' = names_of ns1"
    using names_of_remove [OF moved(4,7)] names_of_add_alias [OF moved(8,6), of source] moved(5)
    by (auto simp: fun_eq_iff)
  with 1 moved(9) show ?thesis by (simp add: name_links_def)
qed (use assms(2) in auto)

section \<open>Paths\<close>

text \<open>
  The namespaces that the operations build. Apart from changes of the table, a name is added for a new node or, by \<^verbatim>\<open>link\<close>, for a known
  one under a name that is not known yet, removed, or renamed; a node is never given a name inside its own subtree. That is what the
  filesystem behind the adapter ensures: it refuses to move a directory below itself, and directories have no hard links.
\<close>

definition edges :: "namespace \<Rightarrow> (node_id \<times> node_id) set" where
  "edges ns = {(d_parent d, nid) | d nid. nid \<noteq> ROOT \<and> has_alias ns nid d}"

inductive ns_reach :: "namespace \<times> 's path_node shared \<Rightarrow> bool" where
  reach_new: "ns_reach (namespace_new, sh)"
| reach_insert: "ns_reach (ns, sh) \<Longrightarrow> namespace_insert parent nm st (ns, sh) = (r, (ns', sh')) \<Longrightarrow>
    (\<forall>nid. r = Ok (nid, True) \<longrightarrow> (nid, parent) \<notin> (edges ns)\<^sup>*) \<Longrightarrow> ns_reach (ns', sh')"
| reach_link: "ns_reach (ns, sh) \<Longrightarrow> bt_get (ns_by_name ns) d = None \<Longrightarrow> (nid, d_parent d) \<notin> (edges ns)\<^sup>* \<Longrightarrow>
    ns_reach (add_alias nid d ns, sh)"
| reach_remove: "ns_reach (ns, sh) \<Longrightarrow> namespace_remove d ns = (r, ns') \<Longrightarrow> ns_reach (ns', sh)"
| reach_rename: "ns_reach (ns, sh) \<Longrightarrow> rename_dentry old new (ns, sh) = (ns', sh') \<Longrightarrow>
    (\<forall>source. bt_get (ns_by_name ns) old = Some source \<longrightarrow> (source, d_parent new) \<notin> (edges ns)\<^sup>*) \<Longrightarrow> ns_reach (ns', sh')"
| reach_table: "ns_reach (ns, sh) \<Longrightarrow> ns_reach (ns, sh')"

text \<open>Following names from a node.\<close>

primrec walk :: "namespace \<Rightarrow> node_id \<Rightarrow> os_str list \<Rightarrow> node_id option" where
  "walk ns nid [] = Some nid"
| "walk ns nid (nm # nms) = (case bt_get (ns_by_name ns) (Dentry nid nm) of None \<Rightarrow> None | Some b \<Rightarrow> walk ns b nms)"

lemma walk_snoc:
  "walk ns a nms = Some b \<Longrightarrow> walk ns a (nms @ [nm]) = bt_get (ns_by_name ns) (Dentry b nm)"
  by (induction nms arbitrary: a) (auto split: option.splits)

lemma edges_add: "edges (add_alias nid d ns) \<subseteq> insert (d_parent d, nid) (edges ns)"
  by (auto simp: edges_def has_alias_add)

lemma acyclic_add:
  "acyclic (edges ns) \<Longrightarrow> (nid, d_parent d) \<notin> (edges ns)\<^sup>* \<Longrightarrow> acyclic (edges (add_alias nid d ns))"
  by (rule acyclic_subset [OF _ edges_add]) (simp add: acyclic_insert)


lemma namespace_insert_shape:
  assumes "namespace_insert parent nm st (ns, sh) = (r, (ns', sh'))"
  shows "(\<exists>nid ns1. r = Ok (nid, True) \<and> bt_get (ns_by_name ns) (Dentry parent nm) = None \<and> ns' = add_alias nid (Dentry parent nm) ns1 \<and>
      ns_by_name ns1 = ns_by_name ns \<and> ns_aliases ns1 = ns_aliases ns \<and> (bt_sorted (ns_keys ns) \<longrightarrow> bt_sorted (ns_keys ns1))) \<or>
    ns_by_name ns' = ns_by_name ns \<and> ns_aliases ns' = ns_aliases ns \<and> ns_keys ns' = ns_keys ns"
  using assms
  by (auto simp: namespace_insert_def Let_def bt_sorted_insert split: option.splits prod.splits outcome.splits intro!: exI)

lemma same_names:
  assumes "ns_by_name ns1 = ns_by_name ns" "ns_aliases ns1 = ns_aliases ns"
  shows "has_alias ns1 = has_alias ns" "edges ns1 = edges ns" "bt_sorted (ns_keys ns1) \<Longrightarrow> ns_inv ns \<Longrightarrow> ns_inv ns1"
  using assms by (auto simp: has_alias_def edges_def ns_inv_def fun_eq_iff)

lemma ns_reach_inv: "ns_reach s \<Longrightarrow> ns_inv (fst s) \<and> acyclic (edges (fst s))"
proof (induction rule: ns_reach.induct)
  case (reach_new sh)
  have "edges namespace_new = {}" by (auto simp: edges_def has_alias_def namespace_new_def)
  then show ?case using ns_inv_new by (simp add: acyclic_def)
next
  case (reach_insert ns sh parent nm st r ns' sh')
  then have inv: "ns_inv ns" "acyclic (edges ns)" by simp_all
  from namespace_insert_shape [OF reach_insert.hyps(2)] show ?case
  proof (elim disjE exE conjE)
    fix nid ns1
    assume r: "r = Ok (nid, True)" "bt_get (ns_by_name ns) (Dentry parent nm) = None" "ns' = add_alias nid (Dentry parent nm) ns1"
      and same: "ns_by_name ns1 = ns_by_name ns" "ns_aliases ns1 = ns_aliases ns" "bt_sorted (ns_keys ns) \<longrightarrow> bt_sorted (ns_keys ns1)"
    from same(3) inv(1) have "bt_sorted (ns_keys ns1)" by (simp add: ns_inv_def)
    note s = same_names [OF same(1,2)] and k = same_names(3) [OF same(1,2) this inv(1)]
    from reach_insert.hyps(3) r(1) have "(nid, parent) \<notin> (edges ns)\<^sup>*" by simp
    then have "acyclic (edges ns')" using acyclic_add [of ns1 nid "Dentry parent nm"] inv(2) by (simp add: r(3) s(2))
    moreover have "ns_inv ns'" unfolding r(3) by (rule ns_inv_add_alias [OF k]) (simp add: same(1) r(2))
    ultimately show ?thesis by simp
  next
    assume same: "ns_by_name ns' = ns_by_name ns" "ns_aliases ns' = ns_aliases ns" "ns_keys ns' = ns_keys ns"
    from same(3) inv(1) have "bt_sorted (ns_keys ns')" by (simp add: ns_inv_def)
    from same_names(3) [OF same(1,2) this inv(1)] same_names(2) [OF same(1,2)] inv(2) show ?thesis by simp
  qed
next
  case (reach_link ns sh d nid)
  then show ?case using ns_inv_add_alias [of ns d nid] acyclic_add [of ns nid d] by simp
next
  case (reach_remove ns sh d r ns')
  then have inv: "ns_inv ns" "acyclic (edges ns)" by simp_all
  have "edges ns' \<subseteq> edges ns" using has_alias_remove [OF reach_remove.hyps(2) inv(1)] by (auto simp: edges_def)
  with inv(2) ns_inv_remove [OF reach_remove.hyps(2) inv(1)] show ?case by (auto intro: acyclic_subset)
next
  case (reach_rename ns sh old new ns' sh')
  then have inv: "ns_inv ns" "acyclic (edges ns)" by simp_all
  have "acyclic (edges ns')"
  proof (cases "\<exists>source. bt_get (ns_by_name ns) old = Some source \<and> bt_get (ns_by_name ns) new \<noteq> Some source")
    case True
    then obtain source where src: "bt_get (ns_by_name ns) old = Some source" "bt_get (ns_by_name ns) new \<noteq> Some source" by blast
    have "edges ns' \<subseteq> insert (d_parent new, source) (edges ns)"
      using has_alias_rename [OF reach_rename.hyps(2) inv(1) src] by (auto simp: edges_def)
    moreover have "acyclic (insert (d_parent new, source) (edges ns))"
      using inv(2) src(1) reach_rename.hyps(3) by (simp add: acyclic_insert)
    ultimately show ?thesis by (rule acyclic_subset [rotated])
  next
    case False
    with rename_dentry_cases [OF reach_rename.hyps(2) inv(1)] have "ns' = ns" by metis
    with inv show ?thesis by simp
  qed
  with ns_inv_rename_dentry [OF reach_rename.hyps(2) inv(1)] show ?case by simp
qed simp

lemma first_alias_has: "ns_inv ns \<Longrightarrow> first_alias nid ns = Some d \<Longrightarrow> has_alias ns nid d"
  by (auto simp: first_alias_def has_alias_def split: option.splits list.splits)

lemma first_alias_least:
  assumes "ns_inv ns" "first_alias nid ns = Some d" "has_alias ns nid e" shows "d \<le> e"
proof -
  from assms(2) obtain ds where ds: "bt_get (ns_aliases ns) nid = Some ((d, ()) # ds)"
    by (auto simp: first_alias_def split: option.splits list.splits)
  with assms(1) have "bt_sorted ((d, ()) # ds)" by (auto simp: ns_inv_def)
  moreover have "e \<in> fst ` set ((d, ()) # ds)" using assms(3) ds
    by (auto simp: has_alias_def split: if_splits dest: bt_get_SomeD intro: rev_image_eqI)
  ultimately show ?thesis by (auto simp: bt_sorted_def)
qed

lemma first_alias_None: "ns_inv ns \<Longrightarrow> first_alias nid ns = None \<longleftrightarrow> (\<nexists>d. has_alias ns nid d)"
proof
  assume inv: "ns_inv ns" and "first_alias nid ns = None"
  then show "\<nexists>d. has_alias ns nid d"
    by (auto simp: first_alias_def has_alias_def split: option.splits list.splits)
next
  assume "ns_inv ns" "\<nexists>d. has_alias ns nid d"
  then show "first_alias nid ns = None" using first_alias_has by (metis not_Some_eq)
qed

lemma first_alias_unique:
  assumes "ns_inv ns" "\<And>e. has_alias ns nid e \<longleftrightarrow> e = d" shows "first_alias nid ns = Some d"
  using assms first_alias_has first_alias_None by (metis not_Some_eq)

lemma first_alias_cong:
  assumes "ns_inv ns'" "ns_inv ns" "\<And>e. has_alias ns' a e \<longleftrightarrow> has_alias ns a e"
  shows "first_alias a ns' = first_alias a ns"
  using assms(3) first_alias_has [OF assms(1), of a] first_alias_has [OF assms(2), of a] first_alias_least [OF assms(1), of a]
    first_alias_least [OF assms(2), of a] first_alias_None [OF assms(1), of a] first_alias_None [OF assms(2), of a]
  by (metis antisym option.exhaust)

text \<open>The nodes whose path goes through a given node.\<close>

inductive under :: "namespace \<Rightarrow> node_id \<Rightarrow> node_id \<Rightarrow> bool" for ns a where
  under_self: "under ns a a"
| under_child: "nid \<noteq> ROOT \<Longrightarrow> first_alias nid ns = Some d \<Longrightarrow> under ns a (d_parent d) \<Longrightarrow> under ns a nid"

text \<open>Where the first names along the way agree, so do the paths.\<close>

lemma path_for_cong:
  assumes "path_for ns nid = Some r" and "\<And>a. under ns a nid \<Longrightarrow> a \<noteq> ROOT \<Longrightarrow> first_alias a ns' = first_alias a ns"
  shows "path_for ns' nid = Some r"
proof -
  have "(\<forall>a. under ns a nid \<longrightarrow> a \<noteq> ROOT \<longrightarrow> first_alias a ns' = first_alias a ns) \<longrightarrow> path_for ns' nid = Some r"
  proof (rule path_for.raw_induct [of "\<lambda>ns nid r. (\<forall>a. under ns a nid \<longrightarrow> a \<noteq> ROOT \<longrightarrow> first_alias a ns' = first_alias a ns) \<longrightarrow> path_for ns' nid = Some r", OF _ assms(1)], intro impI)
    fix rec ns nid r
    assume IH: "\<And>ns nid r. rec ns nid = Some r \<Longrightarrow> (\<forall>a. under ns a nid \<longrightarrow> a \<noteq> ROOT \<longrightarrow> first_alias a ns' = first_alias a ns) \<longrightarrow> path_for ns' nid = Some r"
      and e: "(if nid = ROOT then Some (Some ''/'') else case first_alias nid ns of None \<Rightarrow> Some None
        | Some d \<Rightarrow> Option.bind (rec ns (d_parent d)) (\<lambda>p. Some (map_option (\<lambda>p. path_push p (d_name d)) p))) = Some r"
      and same: "\<forall>a. under ns a nid \<longrightarrow> a \<noteq> ROOT \<longrightarrow> first_alias a ns' = first_alias a ns"
    show "path_for ns' nid = Some r"
    proof (cases "nid = ROOT")
      case True
      with e show ?thesis by (simp add: path_for.simps)
    next
      case False
      then have fa: "first_alias nid ns' = first_alias nid ns" using same under_self by blast
      show ?thesis
      proof (cases "first_alias nid ns")
        case None
        with e False fa show ?thesis by (simp add: path_for.simps)
      next
        case (Some d)
        with e False obtain p where p: "rec ns (d_parent d) = Some p" "r = map_option (\<lambda>p. path_push p (d_name d)) p"
          by (auto simp: bind_eq_Some_conv)
        have "path_for ns' (d_parent d) = Some p" using IH [OF p(1)] same under_child [OF False Some] by blast
        with False fa Some p(2) show ?thesis by (subst path_for.simps) simp
      qed
    qed
  qed
  with assms(2) show ?thesis by blast
qed

section \<open>Properties\<close>

text \<open>
  The namespace stays consistent with the runtime's link counts: creating a name for a new node,
  removing a name, and renaming one keep the two name maps inverse to each other and keep the link
  count of every node equal to the number of its names (plus one for the root). So a node is released
  by the runtime exactly when its last name is gone.
\<close>

theorem namespace_links_agree:
  assumes "table_inv sh" and "ns_inv ns" and "name_links ns sh"
  shows "(\<forall>parent nm st nid new ns' sh'. namespace_insert parent nm st (ns, sh) = (Ok (nid, new), (ns', sh')) \<longrightarrow>
      ns_inv ns' \<and> name_links ns' sh' \<and> bt_get (ns_by_name ns') (Dentry parent nm) = Some nid) \<and>
    (\<forall>d nid ns'. namespace_remove d ns = (Some nid, ns') \<longrightarrow> ns_inv ns' \<and> name_links ns' (cx_remove_link nid sh)) \<and>
    (\<forall>old new ns' sh'. rename_dentry old new (ns, sh) = (ns', sh') \<longrightarrow> ns_inv ns' \<and> name_links ns' sh')"
  by (intro conjI allI impI) (auto dest: name_links_insert [OF assms] intro: name_links_remove [OF _ assms(2,3)]
      ns_inv_remove [OF _ assms(2)] name_links_rename [OF assms(2,3)] ns_inv_rename_dentry [OF _ assms(2)])

lemma name_links_new: "name_links namespace_new (shared_new p)"
  by (auto simp: name_links_def namespace_new_def names_of_def links_of_def shared_new_def slot_at_def set_slot_def
      table_new_def ROOT_def node_id.expand)

theorem namespace_links_agree_witness:
  "\<exists>ns' sh'. namespace_insert ROOT ''a'' () (namespace_new, shared_new (path_node_new 1 ())) = (Ok (NodeId 2, True), (ns', sh')) \<and>
     name_links ns' sh' \<and> bt_get (ns_by_name ns') (Dentry ROOT ''a'') = Some (NodeId 2)"
proof -
  have "\<exists>ns' sh'. namespace_insert ROOT ''a'' () (namespace_new, shared_new (path_node_new 1 ())) = (Ok (NodeId 2, True), (ns', sh'))"
    by (simp add: namespace_insert_def namespace_new_def table_eval)
  with namespace_links_agree [OF table_inv_new ns_inv_new name_links_new, of "path_node_new 1 ()"] show ?thesis by blast
qed



text \<open>A directory with a file in it.\<close>

definition one_name :: namespace where
  "one_name = add_alias (NodeId 2) (Dentry ROOT ''a'') namespace_new"

definition two_names :: namespace where
  "two_names = add_alias (NodeId 3) (Dentry (NodeId 2) ''c'') one_name"

lemma two_names_aliases:
  "has_alias two_names n e \<longleftrightarrow> n = NodeId 2 \<and> e = Dentry ROOT ''a'' \<or> n = NodeId 3 \<and> e = Dentry (NodeId 2) ''c''"
  "has_alias one_name n e \<longleftrightarrow> n = NodeId 2 \<and> e = Dentry ROOT ''a''"
proof -
  have "\<not> has_alias namespace_new n e" by (simp add: has_alias_def namespace_new_def)
  then show "has_alias two_names n e \<longleftrightarrow> n = NodeId 2 \<and> e = Dentry ROOT ''a'' \<or> n = NodeId 3 \<and> e = Dentry (NodeId 2) ''c''"
    "has_alias one_name n e \<longleftrightarrow> n = NodeId 2 \<and> e = Dentry ROOT ''a''"
    by (auto simp: two_names_def one_name_def has_alias_add)
qed

lemma two_names_reach: "ns_reach (two_names, sh)"
proof -
  have "edges namespace_new = {}" by (auto simp: edges_def has_alias_def namespace_new_def)
  then have "ns_reach (one_name, sh)"
    unfolding one_name_def by (intro reach_link reach_new) (simp_all add: namespace_new_def ROOT_def)
  moreover have "edges one_name = {(ROOT, NodeId 2)}" by (auto simp: edges_def two_names_aliases ROOT_def)
  then have "(NodeId 3, NodeId 2) \<notin> (edges one_name)\<^sup>*" by (auto simp: ROOT_def elim: converse_rtranclE)
  ultimately show ?thesis
    unfolding two_names_def
    by (intro reach_link) (simp_all add: one_name_def add_alias_def namespace_new_def ROOT_def)
qed

lemmas two_names_inv = ns_reach_inv [OF two_names_reach, simplified, THEN conjunct1]


text \<open>
  C29. Renaming moves a node and everything below it, and nothing else. After a rename of a node that had one name, its path is
  its new parent's path followed by the new name; a node below it is reached from it by the same names as before, and its path is
  the path of the moved node, before and after, followed by them; the path of every node that lies neither below the moved
  node nor below the node it replaced is what it was.
\<close>

theorem rename_moves_subtree:
  assumes "ns_inv ns" and "rename_dentry old new (ns, sh) = (ns', sh')"
    and "bt_get (ns_by_name ns) old = Some source" and "bt_get (ns_by_name ns) new \<noteq> Some source"
    and "source \<noteq> ROOT" and "\<And>e. has_alias ns source e \<Longrightarrow> e = old"
  shows "path_for ns' source = Option.bind (path_for ns' (d_parent new)) (\<lambda>p. Some (map_option (\<lambda>p. path_push p (d_name new)) p)) \<and>
    (\<forall>nid r. path_for ns nid = Some r \<and> \<not> under ns source nid \<and>
        (\<forall>q. bt_get (ns_by_name ns) new = Some q \<longrightarrow> \<not> under ns q nid) \<longrightarrow> path_for ns' nid = Some r) \<and>
    (\<forall>nid p p'. under ns source nid \<and> (\<forall>q. bt_get (ns_by_name ns) new = Some q \<longrightarrow> \<not> under ns q nid) \<and>
        path_for ns source = Some (Some p) \<and> path_for ns' source = Some (Some p') \<longrightarrow>
      (\<exists>nms. walk ns source nms = Some nid \<and> walk ns' source nms = Some nid \<and>
         path_for ns nid = Some (Some (foldl path_push p nms)) \<and> path_for ns' nid = Some (Some (foldl path_push p' nms))))"
proof -
  note inv' = ns_inv_rename_dentry [OF assms(2,1)]
  note al = has_alias_rename [OF assms(2,1,3,4)]
  have "first_alias source ns' = Some new"
    using assms(6) al by (intro first_alias_unique [OF inv']) auto
  then have path: "path_for ns' source = Option.bind (path_for ns' (d_parent new)) (\<lambda>p. Some (map_option (\<lambda>p. path_push p (d_name new)) p))"
    using assms(5) by (subst path_for.simps) simp
  have keep: "first_alias a ns' = first_alias a ns" if "a \<noteq> source" "bt_get (ns_by_name ns) new \<noteq> Some a" for a
  proof (rule first_alias_cong [OF inv' assms(1)])
    fix e show "has_alias ns' a e \<longleftrightarrow> has_alias ns a e" using al [of a e] that assms(1,3) by (auto simp: ns_inv_def)
  qed
  have outside: "path_for ns' nid = Some r" if "path_for ns nid = Some r" "\<not> under ns source nid"
      "\<forall>q. bt_get (ns_by_name ns) new = Some q \<longrightarrow> \<not> under ns q nid" for nid r
  proof (rule path_for_cong [OF that(1)])
    fix a assume "under ns a nid"
    with that(2,3) have "a \<noteq> source" "bt_get (ns_by_name ns) new \<noteq> Some a" by auto
    then show "first_alias a ns' = first_alias a ns" by (rule keep)
  qed
  have below: "\<exists>nms. walk ns source nms = Some nid \<and> walk ns' source nms = Some nid \<and>
         path_for ns nid = Some (Some (foldl path_push p nms)) \<and> path_for ns' nid = Some (Some (foldl path_push p' nms))"
    if "under ns source nid" "\<forall>q. bt_get (ns_by_name ns) new = Some q \<longrightarrow> \<not> under ns q nid"
      "path_for ns source = Some (Some p)" "path_for ns' source = Some (Some p')" for nid p p'
    using that
  proof (induction rule: under.induct)
    case under_self
    then show ?case by (intro exI [of _ "[]"]) simp
  next
    case (under_child nid d)
    show ?case
    proof (cases "nid = source")
      case True
      with under_child.prems show ?thesis by (intro exI [of _ "[]"]) simp
    next
      case False
      from under_child.prems(1) have "bt_get (ns_by_name ns) new \<noteq> Some nid" using under.under_self by blast
      with keep [OF False] under_child.hyps(2) have fa: "first_alias nid ns = Some d" "first_alias nid ns' = Some d" by simp_all
      from under_child.prems(1) have "\<forall>q. bt_get (ns_by_name ns) new = Some q \<longrightarrow> \<not> under ns q (d_parent d)"
        using under.under_child [OF under_child.hyps(1,2)] by blast
      from under_child.IH [OF this under_child.prems(2,3)] obtain nms where nms: "walk ns source nms = Some (d_parent d)"
        "walk ns' source nms = Some (d_parent d)" "path_for ns (d_parent d) = Some (Some (foldl path_push p nms))"
        "path_for ns' (d_parent d) = Some (Some (foldl path_push p' nms))" by blast
      from first_alias_has [OF assms(1) fa(1)] first_alias_has [OF inv' fa(2)] assms(1) inv'
      have "bt_get (ns_by_name ns) d = Some nid" "bt_get (ns_by_name ns') d = Some nid" by (simp_all add: ns_inv_def)
      with walk_snoc [OF nms(1), of "d_name d"] walk_snoc [OF nms(2), of "d_name d"]
      have "walk ns source (nms @ [d_name d]) = Some nid" "walk ns' source (nms @ [d_name d]) = Some nid" by simp_all
      moreover have "path_for ns nid = Some (Some (path_push (foldl path_push p nms) (d_name d)))"
        "path_for ns' nid = Some (Some (path_push (foldl path_push p' nms) (d_name d)))"
        using under_child.hyps(1) fa nms(3,4) by (subst path_for.simps; simp)+
      ultimately show ?thesis by (intro exI [of _ "nms @ [d_name d]"]) simp
    qed
  qed
  from path outside below show ?thesis by blast
qed

theorem rename_moves_subtree_witness:
  "\<exists>ns' sh' nms. rename_dentry (Dentry ROOT ''a'') (Dentry ROOT ''b'') (two_names, shared_new (path_node_new 1 ())) = (ns', sh') \<and>
     path_for ns' (NodeId 2) = Some (Some ''/b'') \<and> walk two_names (NodeId 2) nms = Some (NodeId 3) \<and>
     path_for ns' (NodeId 3) = Some (Some (foldl path_push ''/b'' nms))"
proof -
  obtain ns' sh' where r: "rename_dentry (Dentry ROOT ''a'') (Dentry ROOT ''b'') (two_names, shared_new (path_node_new 1 ())) = (ns', sh')"
    by fastforce
  have g: "bt_get (ns_by_name two_names) (Dentry ROOT ''a'') = Some (NodeId 2)" "bt_get (ns_by_name two_names) (Dentry ROOT ''b'') = None"
    by (simp_all add: two_names_def one_name_def add_alias_def namespace_new_def ROOT_def)
  have fa: "first_alias (NodeId 2) two_names = Some (Dentry ROOT ''a'')" "first_alias (NodeId 3) two_names = Some (Dentry (NodeId 2) ''c'')"
    by (intro first_alias_unique [OF two_names_inv]; simp add: two_names_aliases)+
  have p: "path_for two_names (NodeId 2) = Some (Some ''/a'')"
    using fa(1) by (simp add: path_for.simps ROOT_def path_push_def)
  have u: "under two_names (NodeId 2) (NodeId 3)"
    using under_child [of "NodeId 3" two_names "Dentry (NodeId 2) ''c''"] under_self fa(2) by (simp add: ROOT_def)
  have pre: "bt_get (ns_by_name two_names) (Dentry ROOT ''b'') \<noteq> Some (NodeId 2)" "NodeId 2 \<noteq> ROOT"
    "has_alias two_names (NodeId 2) e \<Longrightarrow> e = Dentry ROOT ''a''" for e using g(2) by (simp_all add: two_names_aliases ROOT_def)
  note m = rename_moves_subtree [OF two_names_inv r g(1) pre]
  have root: "path_for ns' ROOT = Some (Some ''/'')" by (simp add: path_for.simps)
  from m have "path_for ns' (NodeId 2) = Option.bind (path_for ns' ROOT) (\<lambda>p. Some (map_option (\<lambda>p. path_push p ''b'') p))" by simp
  then have p': "path_for ns' (NodeId 2) = Some (Some ''/b'')" by (simp add: root path_push_def)
  from m [THEN conjunct2, THEN conjunct2, rule_format, of "NodeId 3" "''/a''" "''/b''"] u p p' g(2) obtain nms where "walk two_names (NodeId 2) nms = Some (NodeId 3)"
    "path_for ns' (NodeId 3) = Some (Some (foldl path_push ''/b'' nms))" by auto
  with r p' show ?thesis by blast
qed

end
