(* ===== verification/Build_Config.thy ===== *)
theory Build_Config
  imports Hello_Fs Path_Namespace
begin

text \<open>
  The build scripts (\<^verbatim>\<open>libfuse-sys/build.rs\<close> and \<^verbatim>\<open>typed-fuse/build.rs\<close>): they look into the installed headers of libfuse,
  decide which alternatives of the code are compiled and have the bindings generated. The other crates rely on their agreement:
  both decide by the same text which constructor of a session exists, and \<^verbatim>\<open>libfuse-sys/src/lib.rs\<close> includes the files that were written.
  pkg-config, bindgen, the compilers and the file system are parameters; files do not change while a script runs.
\<close>

section \<open>Strings\<close>

text \<open>\<^verbatim>\<open>String::from_utf8\<close> and \<^verbatim>\<open>Path::to_str\<close> accept well-formed UTF-8 only.\<close>

fun valid_utf8 :: "os_str \<Rightarrow> bool" where
  "valid_utf8 [] = True"
| "valid_utf8 (c # cs) = (case utf8_next (map of_char (c # cs)) of (ok, n) \<Rightarrow> ok \<and> valid_utf8 (drop (n - 1) cs))"

definition starts_with :: "string \<Rightarrow> string \<Rightarrow> bool" where
  "starts_with s w \<longleftrightarrow> take (length w) s = w"

fun str_contains :: "string \<Rightarrow> string \<Rightarrow> bool" where
  "str_contains [] w = (w = [])"
| "str_contains (c # cs) w = (starts_with (c # cs) w \<or> str_contains cs w)"

text \<open>\<^verbatim>\<open>str::replace\<close> with a pattern that is not empty.\<close>

fun str_replace :: "string \<Rightarrow> string \<Rightarrow> string \<Rightarrow> string" where
  "str_replace w v [] = []"
| "str_replace w v (c # cs) =
     (if w \<noteq> [] \<and> starts_with (c # cs) w then v @ str_replace w v (drop (length w - 1) cs) else c # str_replace w v cs)"

text \<open>The encodings of the characters that \<^verbatim>\<open>str::trim\<close> takes for white space.\<close>

definition white_space :: "string list" where
  "white_space = map (\<lambda>n. [char_of n]) [0x09, 0x0A, 0x0B, 0x0C, 0x0D, 0x20 :: nat] @ map (map char_of)
     ([[0xC2, 0x85], [0xC2, 0xA0], [0xE1, 0x9A, 0x80]] @ map (\<lambda>i. [0xE2, 0x80, i]) ([0x80..<0x8B] @ [0xA8, 0xA9, 0xAF]) @
      [[0xE2, 0x81, 0x9F], [0xE3, 0x80, 0x80 :: nat]])"

definition trim_one :: "string list \<Rightarrow> string \<Rightarrow> string option" where
  "trim_one ws s = map_option (\<lambda>w. drop (length w) s) (List.find (\<lambda>w. w \<noteq> [] \<and> starts_with s w) ws)"

lemma trim_one_shorter: "trim_one ws s = Some s' \<Longrightarrow> length s' < length s"
  by (auto simp: trim_one_def find_Some_iff starts_with_def) (metis length_greater_0_conv take_eq_Nil diff_less)

function trim_front :: "string list \<Rightarrow> string \<Rightarrow> string" where
  "trim_front ws s = (case trim_one ws s of None \<Rightarrow> s | Some s' \<Rightarrow> trim_front ws s')"
  by pat_completeness auto
termination by (relation "measure (\<lambda>(ws, s). length s)") (auto dest: trim_one_shorter)

declare trim_front.simps [simp del]

definition str_trim :: "string \<Rightarrow> string" where
  "str_trim s = rev (trim_front (map rev white_space) (rev (trim_front white_space s)))"

section \<open>The environment of a build\<close>

record pkg_config =
  pc_cargo_metadata :: bool
  pc_atleast :: "string option"

text \<open>\<^verbatim>\<open>defines\<close> is in the order in which the hash map is walked.\<close>

record pkg_library =
  pl_include_paths :: "os_str list"
  pl_defines :: "(string \<times> string option) list"

record bindgen_builder =
  bb_clang_args :: "string list"
  bb_derive_default :: bool
  bb_derive_copy :: bool
  bb_derive_debug :: bool
  bb_cargo_callbacks :: bool
  bb_allowlist_type :: "string list"
  bb_allowlist_function :: "string list"
  bb_allowlist_var :: "string list"
  bb_blocklist_type :: "string list"
  bb_blocklist_function :: "string list"
  bb_header :: "string option"

record build_env =
  be_var_os :: "string \<Rightarrow> os_str option"
  be_output :: "os_str \<Rightarrow> string \<Rightarrow> (bool \<times> os_str) option"
  be_is_file :: "os_str \<Rightarrow> bool"
  be_exists :: "os_str \<Rightarrow> bool"
  be_read :: "os_str \<Rightarrow> os_str option"
  be_probe :: "pkg_config \<Rightarrow> string \<Rightarrow> pkg_library option"
  be_generate :: "bindgen_builder \<Rightarrow> string option"
  be_write :: "os_str \<Rightarrow> string \<Rightarrow> bool"

text \<open>What a script does that others see, in order.\<close>

datatype build_event = Println string | RunCommand os_str string | WriteFile os_str string

type_synonym 'a build = "(build_event list, unit, 'a) prog"

definition println :: "string \<Rightarrow> unit build" where
  "println s tr = (Ok (), tr @ [Println s])"

definition fs_read_to_string :: "build_env \<Rightarrow> os_str \<Rightarrow> string option" where
  "fs_read_to_string E p = Option.bind (be_read E p) (\<lambda>s. if valid_utf8 s then Some s else None)"

definition command_output :: "build_env \<Rightarrow> os_str \<Rightarrow> string \<Rightarrow> (bool \<times> os_str) option build" where
  "command_output E program arg tr = (Ok (be_output E program arg), tr @ [RunCommand program arg])"

text \<open>The features and the platform the crate is built with.\<close>

record build_features =
  bf_fuse_31 :: bool
  bf_fuse_35 :: bool
  bf_fuse_312 :: bool
  bf_fuse_highlevel :: bool
  bf_fuse_lowlevel :: bool
  bf_cuse_lowlevel :: bool
  bf_macos :: bool

section \<open>The script of \<^verbatim>\<open>libfuse-sys\<close>\<close>

definition FUSE_DEFAULT_API_VERSION :: nat where
  "FUSE_DEFAULT_API_VERSION = 35"

definition header_contains :: "build_env \<Rightarrow> pkg_library \<Rightarrow> string \<Rightarrow> string \<Rightarrow> bool" where
  "header_contains E lib header needle = list_ex (\<lambda>contents. str_contains contents needle)
     (List.map_filter (fs_read_to_string E) (map (\<lambda>dir. path_push dir header) (pl_include_paths lib)))"

text \<open>The directory, if it holds the standard headers.\<close>

definition with_stdarg :: "build_env \<Rightarrow> os_str \<Rightarrow> os_str option" where
  "with_stdarg E include_path = (if be_is_file E (path_push include_path ''stdarg.h'') then Some include_path else None)"

definition clang_resource_include_path :: "build_env \<Rightarrow> os_str option build" where
  "clang_resource_include_path E = (let clang = (case be_var_os E ''CLANG_PATH'' of None \<Rightarrow> ''clang'' | Some c \<Rightarrow> c) in
     bnd (command_output E clang ''-print-resource-dir'') (\<lambda>output. ret (case output of
       None \<Rightarrow> None
     | Some (success, stdout) \<Rightarrow>
         if \<not> success then None
         else if \<not> valid_utf8 stdout then None
         else with_stdarg E (path_push (str_trim stdout) ''include''))))"

definition compiler_include_path :: "build_env \<Rightarrow> os_str \<Rightarrow> os_str option build" where
  "compiler_include_path E compiler = bnd (command_output E compiler ''-print-file-name=include'') (\<lambda>output. ret (case output of
       None \<Rightarrow> None
     | Some (success, stdout) \<Rightarrow>
         if \<not> success then None
         else if \<not> valid_utf8 stdout then None
         else with_stdarg E (str_trim stdout)))"

primrec find_compiler :: "build_env \<Rightarrow> os_str list \<Rightarrow> os_str option build" where
  "find_compiler E [] = ret None"
| "find_compiler E (c # cs) = bnd (compiler_include_path E c) (\<lambda>r. case r of Some p \<Rightarrow> ret (Some p) | None \<Rightarrow> find_compiler E cs)"

definition builtin_header_include_path :: "build_env \<Rightarrow> os_str option build" where
  "builtin_header_include_path E = bnd (clang_resource_include_path E) (\<lambda>r. case r of
     Some p \<Rightarrow> ret (Some p)
   | None \<Rightarrow> find_compiler E ((case be_var_os E ''CC'' of None \<Rightarrow> [] | Some c \<Rightarrow> [c]) @ [''cc'', ''gcc'']))"

text \<open>The macro \<^verbatim>\<open>version!\<close>: nothing when the feature is off, a panic when a version was selected before.\<close>

definition version_macro :: "bool \<Rightarrow> nat \<Rightarrow> nat option \<Rightarrow> nat option build" where
  "version_macro feature version selected tr =
     (if \<not> feature then (Ok selected, tr) else if selected \<noteq> None then (Panic, tr) else (Ok (Some version), tr))"

definition select_api_version :: "build_features \<Rightarrow> nat build" where
  "select_api_version F =
     bnd (version_macro (bf_fuse_31 F) 31 None) (\<lambda>v.
     bnd (version_macro (bf_fuse_35 F) 35 v) (\<lambda>v.
     bnd (version_macro (bf_fuse_312 F) 312 v) (\<lambda>v.
     ret (case v of None \<Rightarrow> FUSE_DEFAULT_API_VERSION | Some v \<Rightarrow> v))))"

definition fuse_binding_filter :: "build_features \<Rightarrow> bindgen_builder \<Rightarrow> bindgen_builder" where
  "fuse_binding_filter F b = (let re = ''^[fF][uU][sS][eE].*'';
       b = b\<lparr>bb_allowlist_type := bb_allowlist_type b @ [re], bb_allowlist_function := bb_allowlist_function b @ [re],
             bb_allowlist_var := bb_allowlist_var b @ [re], bb_blocklist_type := bb_blocklist_type b @ [''fuse_log_func_t''],
             bb_blocklist_function := bb_blocklist_function b @ [''fuse_set_log_func'']\<rparr>
     in if bf_macos F then b\<lparr>bb_allowlist_type := bb_allowlist_type b @ [''setattr_x'']\<rparr> else b)"

definition cuse_binding_filter :: "bindgen_builder \<Rightarrow> bindgen_builder" where
  "cuse_binding_filter b = (let re = ''^[cC][uU][sS][eE].*'' in
     b\<lparr>bb_allowlist_type := bb_allowlist_type b @ [re], bb_allowlist_function := bb_allowlist_function b @ [re],
       bb_allowlist_var := bb_allowlist_var b @ [re]\<rparr>)"

text \<open>Decimal digits, as \<^verbatim>\<open>format!\<close> writes them.\<close>

fun decimal :: "nat \<Rightarrow> string" where
  "decimal n = (if n < 10 then [char_of (48 + n)] else decimal (n div 10) @ [char_of (48 + n mod 10)])"

declare decimal.simps [simp del]

definition define_flag :: "string \<times> string option \<Rightarrow> string" where
  "define_flag kv = (case kv of (key, Some val) \<Rightarrow> ''-D'' @ key @ ''='' @ val | (key, None) \<Rightarrow> ''-D'' @ key)"

definition compile_flags :: "pkg_library \<Rightarrow> nat \<Rightarrow> os_str option \<Rightarrow> string list" where
  "compile_flags lib api_version builtin =
     map define_flag (pl_defines lib) @
     map (\<lambda>dir. ''-I'' @ to_string_lossy dir) (pl_include_paths lib) @
     [''-DFUSE_USE_VERSION='' @ decimal api_version] @
     (case builtin of None \<Rightarrow> [] | Some dir \<Rightarrow> [''-isystem'', to_string_lossy dir])"

text \<open>The header is the first one in the order of the include paths.\<close>

definition find_header :: "build_env \<Rightarrow> pkg_library \<Rightarrow> string \<Rightarrow> os_str option" where
  "find_header E lib header = List.find (be_exists E) (map (\<lambda>dir. path_push dir header) (pl_include_paths lib))"

definition bindgen_settings :: "string list \<Rightarrow> bindgen_builder" where
  "bindgen_settings flags = \<lparr>bb_clang_args = flags, bb_derive_default = True, bb_derive_copy = True, bb_derive_debug = True,
     bb_cargo_callbacks = True, bb_allowlist_type = [], bb_allowlist_function = [], bb_allowlist_var = [], bb_blocklist_type = [],
     bb_blocklist_function = [], bb_header = None\<rparr>"

definition utf8_or_panic :: "os_str \<Rightarrow> string build" where
  "utf8_or_panic s = expect (if valid_utf8 s then Some s else None)"

definition write_to_file :: "build_env \<Rightarrow> os_str \<Rightarrow> string \<Rightarrow> unit build" where
  "write_to_file E p bindings tr = (if be_write E p bindings then Ok () else Panic, tr @ [WriteFile p bindings])"

definition generate_fuse_bindings :: "build_env \<Rightarrow> string \<Rightarrow> nat \<Rightarrow> pkg_library \<Rightarrow> (bindgen_builder \<Rightarrow> bindgen_builder) \<Rightarrow> unit build" where
  "generate_fuse_bindings E header api_version lib binding_filter =
     bnd (expect (find_header E lib header)) (\<lambda>header_path.
     bnd (utf8_or_panic header_path) (\<lambda>header_path.
     bnd (builtin_header_include_path E) (\<lambda>builtin.
     let builder = (binding_filter (bindgen_settings (compile_flags lib api_version builtin)))\<lparr>bb_header := Some header_path\<rparr> in
     bnd (expect (be_generate E builder)) (\<lambda>bindings.
     bnd (expect (be_var_os E ''OUT_DIR'')) (\<lambda>out_dir.
     bnd (utf8_or_panic out_dir) (\<lambda>out_dir.
     write_to_file E (path_push out_dir (str_replace ''.h'' ''.rs'' header)) bindings))))))"

definition cfg_when :: "bool \<Rightarrow> unit build \<Rightarrow> unit build" where
  "cfg_when c m = (if c then m else ret ())"

definition sys_build_main :: "build_features \<Rightarrow> build_env \<Rightarrow> unit build" where
  "sys_build_main F E =
     bnd (println ''cargo:rerun-if-env-changed=CLANG_PATH'') (\<lambda>_.
     bnd (println ''cargo:rerun-if-env-changed=CC'') (\<lambda>_.
     bnd (select_api_version F) (\<lambda>api_version.
     let pkgcfg = \<lparr>pc_cargo_metadata = True, pc_atleast = if bf_fuse_312 F then Some ''3.12.0'' else None\<rparr> in
     bnd (expect (be_probe E pkgcfg ''fuse3'')) (\<lambda>lib.
     bnd (println ''cargo:rustc-check-cfg=cfg(has_main_real_versioned)'') (\<lambda>_.
     bnd (println ''cargo:rustc-check-cfg=cfg(has_session_new_versioned)'') (\<lambda>_.
     bnd (cfg_when (header_contains E lib ''fuse.h'' ''fuse_main_real_versioned'') (println ''cargo:rustc-cfg=has_main_real_versioned'')) (\<lambda>_.
     bnd (cfg_when (header_contains E lib ''fuse_lowlevel.h'' ''fuse_session_new_versioned'')
            (println ''cargo:rustc-cfg=has_session_new_versioned'')) (\<lambda>_.
     bnd (cfg_when (bf_fuse_highlevel F) (generate_fuse_bindings E ''fuse.h'' api_version lib (fuse_binding_filter F))) (\<lambda>_.
     bnd (cfg_when (bf_fuse_lowlevel F) (generate_fuse_bindings E ''fuse_lowlevel.h'' api_version lib (fuse_binding_filter F))) (\<lambda>_.
     cfg_when (bf_cuse_lowlevel F) (generate_fuse_bindings E ''cuse_lowlevel.h'' api_version lib cuse_binding_filter)))))))))))"

section \<open>The script of \<^verbatim>\<open>typed-fuse\<close>\<close>

definition typed_header_contains :: "build_env \<Rightarrow> pkg_library \<Rightarrow> string \<Rightarrow> string \<Rightarrow> bool" where
  "typed_header_contains E lib header needle = list_ex (\<lambda>contents. str_contains contents needle)
     (List.map_filter (fs_read_to_string E) (map (\<lambda>dir. path_push dir header) (pl_include_paths lib)))"

definition typed_build_main :: "build_env \<Rightarrow> unit build" where
  "typed_build_main E =
     bnd (expect (be_probe E \<lparr>pc_cargo_metadata = False, pc_atleast = None\<rparr> ''fuse3'')) (\<lambda>lib.
     bnd (println ''cargo:rustc-check-cfg=cfg(has_parallel_direct_writes)'') (\<lambda>_.
     bnd (println ''cargo:rustc-check-cfg=cfg(has_tmpfile_op)'') (\<lambda>_.
     bnd (println ''cargo:rustc-check-cfg=cfg(has_statx_op)'') (\<lambda>_.
     bnd (println ''cargo:rustc-check-cfg=cfg(has_session_new_versioned)'') (\<lambda>_.
     bnd (cfg_when (typed_header_contains E lib ''fuse_common.h'' ''parallel_direct_writes'')
            (println ''cargo:rustc-cfg=has_parallel_direct_writes'')) (\<lambda>_.
     bnd (cfg_when (typed_header_contains E lib ''fuse_lowlevel.h'' ''*tmpfile)'') (println ''cargo:rustc-cfg=has_tmpfile_op'')) (\<lambda>_.
     bnd (cfg_when (typed_header_contains E lib ''fuse_lowlevel.h'' ''*statx)'') (println ''cargo:rustc-cfg=has_statx_op'')) (\<lambda>_.
     cfg_when (typed_header_contains E lib ''fuse_lowlevel.h'' ''fuse_session_new_versioned'')
       (println ''cargo:rustc-cfg=has_session_new_versioned'')))))))))"

section \<open>What the bindings are used for\<close>

text \<open>
  \<^verbatim>\<open>fuse_main\<close>: which function of libfuse is called. Its arguments (with the size of the operation table) are handed on unchanged;
  the version is the one of the headers, on macOS with its extensions as the headers say.
\<close>

record libfuse_version =
  lv_major :: nat
  lv_minor :: nat
  lv_hotfix :: nat
  lv_darwin_extensions_enabled :: nat

datatype 'a main_call = FuseMainReal 'a | FuseMainRealVersioned 'a libfuse_version

definition fuse_main :: "bool \<Rightarrow> bool \<Rightarrow> libfuse_version \<Rightarrow> 'a \<Rightarrow> 'a main_call" where
  "fuse_main macos has_main_real_versioned headers args =
     (if macos then FuseMainRealVersioned args headers
      else if has_main_real_versioned then FuseMainRealVersioned args (headers\<lparr>lv_darwin_extensions_enabled := 0\<rparr>)
      else FuseMainReal args)"

text \<open>The file that a module of \<^verbatim>\<open>lib.rs\<close> includes.\<close>

definition included_file :: "string \<Rightarrow> string \<Rightarrow> os_str" where
  "included_file out_dir module = out_dir @ ''/'' @ module @ ''.rs''"


section \<open>Searching strings\<close>

lemma str_contains_iff: "str_contains s w \<longleftrightarrow> (\<exists>a b. s = a @ w @ b)"
proof (induction s)
  case Nil
  then show ?case by simp
next
  case (Cons c cs)
  have "starts_with (c # cs) w \<longleftrightarrow> (\<exists>b. c # cs = w @ b)"
    unfolding starts_with_def by (metis append_eq_conv_conj append_take_drop_id)
  moreover have "(\<exists>a b. c # cs = a @ w @ b) \<longleftrightarrow> (\<exists>b. c # cs = w @ b) \<or> (\<exists>a b. cs = a @ w @ b)"
    by (auto simp: Cons_eq_append_conv)
  ultimately show ?case using Cons.IH by simp
qed

section \<open>The version of the interface\<close>

definition selected_versions :: "build_features \<Rightarrow> nat list" where
  "selected_versions F = map snd (filter fst [(bf_fuse_31 F, 31), (bf_fuse_35 F, 35), (bf_fuse_312 F, 312)])"

text \<open>The interface version is the one that is selected, 35 when none is, and selecting two stops the build.\<close>

theorem select_api_version_unique:
  "select_api_version F tr = (case selected_versions F of [] \<Rightarrow> Ok 35 | [v] \<Rightarrow> Ok v | _ \<Rightarrow> Panic, tr)"
  by (cases "bf_fuse_31 F"; cases "bf_fuse_35 F"; cases "bf_fuse_312 F")
    (simp_all add: select_api_version_def version_macro_def selected_versions_def bnd_def ret_def FUSE_DEFAULT_API_VERSION_def)

section \<open>The directory of the compiler's own headers\<close>

definition compiler_commands :: "build_env \<Rightarrow> (os_str \<times> string) list" where
  "compiler_commands E = (case be_var_os E ''CLANG_PATH'' of None \<Rightarrow> ''clang'' | Some c \<Rightarrow> c, ''-print-resource-dir'') #
     map (\<lambda>c. (c, ''-print-file-name=include'')) ((case be_var_os E ''CC'' of None \<Rightarrow> [] | Some c \<Rightarrow> [c]) @ [''cc'', ''gcc''])"

definition run_all :: "(os_str \<times> string) list \<Rightarrow> build_event list" where
  "run_all cs = map (\<lambda>(c, arg). RunCommand c arg) cs"

definition tried :: "build_env \<Rightarrow> (os_str \<times> string) list \<Rightarrow> os_str option \<Rightarrow> (os_str \<times> string) list \<Rightarrow> bool" where
  "tried E cs r all \<longleftrightarrow> (\<exists>rest. all = cs @ rest \<and> (r = None \<longrightarrow> rest = [])) \<and> (\<forall>p. r = Some p \<longrightarrow> be_is_file E (path_push p ''stdarg.h''))"

lemma compiler_include_path_tried:
  "\<exists>r. compiler_include_path E c tr = (Ok r, tr @ [RunCommand c ''-print-file-name=include'']) \<and>
     (\<forall>p. r = Some p \<longrightarrow> be_is_file E (path_push p ''stdarg.h''))"
  by (auto simp: compiler_include_path_def bnd_def command_output_def ret_def with_stdarg_def split: option.split)

lemma find_compiler_tried:
  "\<exists>r cs. find_compiler E all tr = (Ok r, tr @ run_all cs) \<and> tried E cs r (map (\<lambda>c. (c, ''-print-file-name=include'')) all)"
proof (induction all arbitrary: tr)
  case Nil
  then show ?case by (auto simp: ret_def run_all_def tried_def)
next
  case (Cons c all)
  obtain r where r: "compiler_include_path E c tr = (Ok r, tr @ [RunCommand c ''-print-file-name=include''])"
      "\<forall>p. r = Some p \<longrightarrow> be_is_file E (path_push p ''stdarg.h'')"
    using compiler_include_path_tried by blast
  show ?case
  proof (cases r)
    case None
    from Cons.IH [of "tr @ [RunCommand c ''-print-file-name=include'']"] obtain r' cs where
      "find_compiler E all (tr @ [RunCommand c ''-print-file-name=include'']) = (Ok r', (tr @ [RunCommand c ''-print-file-name=include'']) @ run_all cs)"
      "tried E cs r' (map (\<lambda>c. (c, ''-print-file-name=include'')) all)" by blast
    with r(1) None show ?thesis
      by (intro exI [of _ r'] exI [of _ "(c, ''-print-file-name=include'') # cs"]) (auto simp: bnd_def run_all_def tried_def)
  next
    case (Some p)
    with r show ?thesis
      by (intro exI [of _ r] exI [of _ "[(c, ''-print-file-name=include'')]"]) (simp add: bnd_def ret_def run_all_def tried_def)
  qed
qed

text \<open>
  The search for the compiler's headers returns, tries \<^verbatim>\<open>clang\<close>, \<^verbatim>\<open>CC\<close>, \<^verbatim>\<open>cc\<close> and \<^verbatim>\<open>gcc\<close> in this order, stops at the first that works and
  fails only after all of them; a directory it returns holds \<^verbatim>\<open>stdarg.h\<close>.
\<close>

theorem builtin_include_path_tried:
  "\<exists>r cs. builtin_header_include_path E tr = (Ok r, tr @ run_all cs) \<and> tried E cs r (compiler_commands E)"
proof -
  let ?clang = "case be_var_os E ''CLANG_PATH'' of None \<Rightarrow> ''clang'' | Some c \<Rightarrow> c"
  let ?cc = "(case be_var_os E ''CC'' of None \<Rightarrow> [] | Some c \<Rightarrow> [c]) @ [''cc'', ''gcc'']"
  obtain r where r: "clang_resource_include_path E tr = (Ok r, tr @ [RunCommand ?clang ''-print-resource-dir''])"
      "\<forall>p. r = Some p \<longrightarrow> be_is_file E (path_push p ''stdarg.h'')"
    by (auto simp: clang_resource_include_path_def Let_def bnd_def command_output_def ret_def with_stdarg_def split: option.split if_splits)
  obtain r' cs where f: "find_compiler E ?cc (tr @ [RunCommand ?clang ''-print-resource-dir'']) =
      (Ok r', (tr @ [RunCommand ?clang ''-print-resource-dir'']) @ run_all cs)"
      "tried E cs r' (map (\<lambda>c. (c, ''-print-file-name=include'')) ?cc)"
    using find_compiler_tried by blast
  show ?thesis
  proof (cases r)
    case None
    with r(1) f show ?thesis
      by (intro exI [of _ r'] exI [of _ "(?clang, ''-print-resource-dir'') # cs"])
        (auto simp: builtin_header_include_path_def bnd_def run_all_def tried_def compiler_commands_def)
  next
    case (Some p)
    with r show ?thesis
      by (intro exI [of _ r] exI [of _ "[(?clang, ''-print-resource-dir'')]"])
        (simp add: builtin_header_include_path_def bnd_def ret_def run_all_def tried_def compiler_commands_def)
  qed
qed

section \<open>What a successful build leaves behind\<close>

definition writes :: "build_event list \<Rightarrow> (os_str \<times> string) list" where
  "writes tr = List.map_filter (\<lambda>e. case e of WriteFile p c \<Rightarrow> Some (p, c) | _ \<Rightarrow> None) tr"

definition printed :: "build_event list \<Rightarrow> string list" where
  "printed tr = List.map_filter (\<lambda>e. case e of Println s \<Rightarrow> Some s | _ \<Rightarrow> None) tr"

lemma writes_simps [simp]:
  "writes [] = []" "writes (Println s # tr) = writes tr" "writes (WriteFile p c # tr) = (p, c) # writes tr"
  "writes (tr @ tr') = writes tr @ writes tr'" "writes (run_all cs) = []" "writes (map Println ss) = []"
  by (simp_all add: writes_def map_filter_def run_all_def case_prod_beta comp_def)

lemma printed_simps [simp]:
  "printed [] = []" "printed (Println s # tr) = s # printed tr" "printed (WriteFile p c # tr) = printed tr"
  "printed (tr @ tr') = printed tr @ printed tr'" "printed (run_all cs) = []" "printed (map Println ss) = ss"
  by (simp_all add: printed_def map_filter_def run_all_def case_prod_beta comp_def)

lemma println_simp [simp]: "println s tr = (Ok (), tr @ [Println s])"
  by (simp add: println_def)

lemma cfg_println_simp [simp]: "cfg_when c (println s) tr = (Ok (), tr @ (if c then [Println s] else []))"
  by (simp add: cfg_when_def)

text \<open>A written file holds the bindings of the first header of that name, and is named after it.\<close>

definition generated :: "build_env \<Rightarrow> pkg_library \<Rightarrow> nat \<Rightarrow> string \<times> (bindgen_builder \<Rightarrow> bindgen_builder) \<Rightarrow> os_str \<times> string \<Rightarrow> bool" where
  "generated E lib v m w \<longleftrightarrow> (\<exists>hp builtin out. find_header E lib (fst m @ ''.h'') = Some hp \<and> be_var_os E ''OUT_DIR'' = Some out \<and>
     (\<forall>p. builtin = Some p \<longrightarrow> be_is_file E (path_push p ''stdarg.h'')) \<and>
     be_generate E ((snd m (bindgen_settings (compile_flags lib v builtin)))\<lparr>bb_header := Some hp\<rparr>) = Some (snd w) \<and>
     fst w = path_push out (str_replace ''.h'' ''.rs'' (fst m @ ''.h'')))"

lemma expect_Ok_iff: "expect x tr = (Ok a, tr') \<longleftrightarrow> x = Some a \<and> tr' = tr"
  by (cases x) auto

lemma utf8_or_panic_iff: "utf8_or_panic s tr = (Ok a, tr') \<longleftrightarrow> valid_utf8 s \<and> a = s \<and> tr' = tr"
  by (auto simp: utf8_or_panic_def expect_Ok_iff)

lemma generate_ok:
  assumes "generate_fuse_bindings E (m @ ''.h'') v lib filt tr = (Ok (), tr')"
  shows "\<exists>cs w. tr' = tr @ run_all cs @ [WriteFile (fst w) (snd w)] \<and> generated E lib v (m, filt) w"
proof -
  obtain builtin cs where b: "builtin_header_include_path E tr = (Ok builtin, tr @ run_all cs)" "tried E cs builtin (compiler_commands E)"
    using builtin_include_path_tried by blast
  from assms obtain hp out c where "find_header E lib (m @ ''.h'') = Some hp" "be_var_os E ''OUT_DIR'' = Some out"
    "be_generate E ((filt (bindgen_settings (compile_flags lib v builtin)))\<lparr>bb_header := Some hp\<rparr>) = Some c"
    "tr' = tr @ run_all cs @ [WriteFile (path_push out (str_replace ''.h'' ''.rs'' (m @ ''.h''))) c]"
    by (auto simp: generate_fuse_bindings_def Let_def write_to_file_def expect_Ok_iff utf8_or_panic_iff b(1) elim!: bnd_Ok_cases split: if_splits)
  then show ?thesis
    using b(2) by (intro exI [of _ cs] exI [of _ "(path_push out (str_replace ''.h'' ''.rs'' (m @ ''.h'')), c)"])
      (auto simp: generated_def tried_def intro!: exI [of _ builtin])
qed

definition module_if :: "bool \<Rightarrow> string \<times> (bindgen_builder \<Rightarrow> bindgen_builder) \<Rightarrow> (string \<times> (bindgen_builder \<Rightarrow> bindgen_builder)) list" where
  "module_if c m = (if c then [m] else [])"

definition modules :: "build_features \<Rightarrow> (string \<times> (bindgen_builder \<Rightarrow> bindgen_builder)) list" where
  "modules F = module_if (bf_fuse_highlevel F) (''fuse'', fuse_binding_filter F) @
     module_if (bf_fuse_lowlevel F) (''fuse_lowlevel'', fuse_binding_filter F) @
     module_if (bf_cuse_lowlevel F) (''cuse_lowlevel'', cuse_binding_filter)"

lemma cfg_generate_ok:
  assumes "cfg_when c (generate_fuse_bindings E (m @ ''.h'') v lib filt) tr = (Ok (), tr')"
  shows "\<exists>ws. writes tr' = writes tr @ ws \<and> printed tr' = printed tr \<and> list_all2 (generated E lib v) (module_if c (m, filt)) ws"
proof (cases c)
  case True
  then have "generate_fuse_bindings E (m @ ''.h'') v lib filt tr = (Ok (), tr')" using assms by (simp add: cfg_when_def)
  from generate_ok [OF this] obtain cs w where "tr' = tr @ run_all cs @ [WriteFile (fst w) (snd w)]" "generated E lib v (m, filt) w" by blast
  with True show ?thesis by (intro exI [of _ "[w]"]) (simp add: module_if_def)
next
  case False
  then show ?thesis using assms by (simp add: cfg_when_def module_if_def)
qed

definition sys_lib :: "build_features \<Rightarrow> build_env \<Rightarrow> pkg_library option" where
  "sys_lib F E = be_probe E \<lparr>pc_cargo_metadata = True, pc_atleast = if bf_fuse_312 F then Some ''3.12.0'' else None\<rparr> ''fuse3''"

definition typed_lib :: "build_env \<Rightarrow> pkg_library option" where
  "typed_lib E = be_probe E \<lparr>pc_cargo_metadata = False, pc_atleast = None\<rparr> ''fuse3''"

definition cfg_if :: "bool \<Rightarrow> string \<Rightarrow> string list" where
  "cfg_if c name = (if c then [''cargo:rustc-cfg='' @ name] else [])"

definition sys_events :: "build_env \<Rightarrow> pkg_library \<Rightarrow> build_event list" where
  "sys_events E lib = map Println ([''cargo:rerun-if-env-changed=CLANG_PATH'', ''cargo:rerun-if-env-changed=CC'',
      ''cargo:rustc-check-cfg=cfg(has_main_real_versioned)'', ''cargo:rustc-check-cfg=cfg(has_session_new_versioned)''] @
     cfg_if (header_contains E lib ''fuse.h'' ''fuse_main_real_versioned'') ''has_main_real_versioned'' @
     cfg_if (header_contains E lib ''fuse_lowlevel.h'' ''fuse_session_new_versioned'') ''has_session_new_versioned'')"

lemma sys_build_generates:
  assumes "select_api_version F = (\<lambda>tr. (Ok v, tr))" and "sys_lib F E = Some lib"
  shows "sys_build_main F E [] =
     bnd (cfg_when (bf_fuse_highlevel F) (generate_fuse_bindings E ''fuse.h'' v lib (fuse_binding_filter F))) (\<lambda>_.
     bnd (cfg_when (bf_fuse_lowlevel F) (generate_fuse_bindings E ''fuse_lowlevel.h'' v lib (fuse_binding_filter F))) (\<lambda>_.
     cfg_when (bf_cuse_lowlevel F) (generate_fuse_bindings E ''cuse_lowlevel.h'' v lib cuse_binding_filter))) (sys_events E lib)"
  using assms by (simp add: sys_build_main_def sys_lib_def Let_def sys_events_def cfg_if_def)

text \<open>
  A build that succeeds had one interface version at most, wrote the bindings of every module in order, and printed the configuration
  the headers call for.
\<close>

theorem sys_build_ok:
  assumes "sys_build_main F E [] = (Ok (), tr)"
  shows "\<exists>lib v. sys_lib F E = Some lib \<and> v \<in> set (35 # selected_versions F) \<and> length (selected_versions F) \<le> 1 \<and>
    list_all2 (generated E lib v) (modules F) (writes tr) \<and>
    printed tr = [''cargo:rerun-if-env-changed=CLANG_PATH'', ''cargo:rerun-if-env-changed=CC'',
        ''cargo:rustc-check-cfg=cfg(has_main_real_versioned)'', ''cargo:rustc-check-cfg=cfg(has_session_new_versioned)''] @
      cfg_if (header_contains E lib ''fuse.h'' ''fuse_main_real_versioned'') ''has_main_real_versioned'' @
      cfg_if (header_contains E lib ''fuse_lowlevel.h'' ''fuse_session_new_versioned'') ''has_session_new_versioned''"
proof -
  obtain v where sel: "select_api_version F = (\<lambda>tr. (Ok v, tr))" "v \<in> set (35 # selected_versions F)" "length (selected_versions F) \<le> 1"
    using assms by (auto simp: sys_build_main_def select_api_version_unique [abs_def] bnd_def split: list.splits)
  obtain lib where lib: "sys_lib F E = Some lib"
    using assms by (cases "sys_lib F E") (simp_all add: sys_build_main_def sys_lib_def sel(1))
  from assms obtain t1 t2 where
        g1: "cfg_when (bf_fuse_highlevel F) (generate_fuse_bindings E (''fuse'' @ ''.h'') v lib (fuse_binding_filter F)) (sys_events E lib) = (Ok (), t1)"
    and g2: "cfg_when (bf_fuse_lowlevel F) (generate_fuse_bindings E (''fuse_lowlevel'' @ ''.h'') v lib (fuse_binding_filter F)) t1 = (Ok (), t2)"
    and g3: "cfg_when (bf_cuse_lowlevel F) (generate_fuse_bindings E (''cuse_lowlevel'' @ ''.h'') v lib cuse_binding_filter) t2 = (Ok (), tr)"
    using sys_build_generates [OF sel(1) lib] by (auto elim!: bnd_Ok_cases)
  from cfg_generate_ok [OF g1] obtain w1 where w1: "writes t1 = writes (sys_events E lib) @ w1" "printed t1 = printed (sys_events E lib)"
    "list_all2 (generated E lib v) (module_if (bf_fuse_highlevel F) (''fuse'', fuse_binding_filter F)) w1" by blast
  from cfg_generate_ok [OF g2] obtain w2 where w2: "writes t2 = writes t1 @ w2" "printed t2 = printed t1"
    "list_all2 (generated E lib v) (module_if (bf_fuse_lowlevel F) (''fuse_lowlevel'', fuse_binding_filter F)) w2" by blast
  from cfg_generate_ok [OF g3] obtain w3 where w3: "writes tr = writes t2 @ w3" "printed tr = printed t2"
    "list_all2 (generated E lib v) (module_if (bf_cuse_lowlevel F) (''cuse_lowlevel'', cuse_binding_filter)) w3" by blast
  have "list_all2 (generated E lib v) (modules F) (writes tr)"
    using w1(1,3) w2(1,3) w3(1,3) by (simp add: modules_def list_all2_appendI sys_events_def)
  with sel(2,3) lib w1(2) w2(2) w3(2) show ?thesis
    by (intro exI [of _ lib] exI [of _ v]) (simp add: cfg_if_def sys_events_def)
qed

text \<open>The other script prints the configuration of the same headers.\<close>

theorem typed_build_ok:
  assumes "typed_build_main E [] = (Ok (), tr)"
  shows "\<exists>lib. typed_lib E = Some lib \<and> writes tr = [] \<and>
    printed tr = [''cargo:rustc-check-cfg=cfg(has_parallel_direct_writes)'', ''cargo:rustc-check-cfg=cfg(has_tmpfile_op)'',
        ''cargo:rustc-check-cfg=cfg(has_statx_op)'', ''cargo:rustc-check-cfg=cfg(has_session_new_versioned)''] @
      cfg_if (typed_header_contains E lib ''fuse_common.h'' ''parallel_direct_writes'') ''has_parallel_direct_writes'' @
      cfg_if (typed_header_contains E lib ''fuse_lowlevel.h'' ''*tmpfile)'') ''has_tmpfile_op'' @
      cfg_if (typed_header_contains E lib ''fuse_lowlevel.h'' ''*statx)'') ''has_statx_op'' @
      cfg_if (typed_header_contains E lib ''fuse_lowlevel.h'' ''fuse_session_new_versioned'') ''has_session_new_versioned''"
proof (cases "typed_lib E")
  case None
  then show ?thesis using assms by (simp add: typed_build_main_def typed_lib_def)
next
  case (Some lib)
  then show ?thesis using assms
    by (auto simp: typed_build_main_def typed_lib_def cfg_if_def)
qed

section \<open>The configuration is the one of the bindings\<close>

lemma header_contains_iff:
  "header_contains E lib header needle \<longleftrightarrow>
     (\<exists>dir \<in> set (pl_include_paths lib). \<exists>text. fs_read_to_string E (path_push dir header) = Some text \<and> str_contains text needle)"
  by (auto simp: header_contains_def list_ex_iff map_filter_def) blast

lemma typed_header_contains_same:
  "pl_include_paths lib' = pl_include_paths lib \<Longrightarrow> typed_header_contains E lib' header needle = header_contains E lib header needle"
  by (simp add: typed_header_contains_def header_contains_def)

text \<open>The header that is bound decides alone when no other include directory has a readable header of that name.\<close>

lemma bound_header_decides:
  assumes "find_header E lib header = Some hp" and "fs_read_to_string E hp = Some text"
    and "\<forall>dir \<in> set (pl_include_paths lib). be_read E (path_push dir header) \<noteq> None \<longrightarrow> path_push dir header = hp"
  shows "header_contains E lib header needle = str_contains text needle"
proof -
  have "\<exists>dir \<in> set (pl_include_paths lib). hp = path_push dir header"
    using assms(1) by (auto simp: find_header_def find_Some_iff)
  moreover have "fs_read_to_string E p = Some t \<Longrightarrow> be_read E p \<noteq> None" for p t
    by (cases "be_read E p") (simp_all add: fs_read_to_string_def)
  ultimately show ?thesis
    using assms(2,3) unfolding header_contains_iff by (metis option.inject)
qed

lemma module_files:
  "str_replace ''.h'' ''.rs'' (''fuse'' @ ''.h'') = ''fuse'' @ ''.rs''"
  "str_replace ''.h'' ''.rs'' (''fuse_lowlevel'' @ ''.h'') = ''fuse_lowlevel'' @ ''.rs''"
  "str_replace ''.h'' ''.rs'' (''cuse_lowlevel'' @ ''.h'') = ''cuse_lowlevel'' @ ''.rs''"
  by (simp_all add: starts_with_def)

lemma written_as_included:
  assumes "list_all2 (generated E lib v) (modules F) ws" and "be_var_os E ''OUT_DIR'' = Some out" "out \<noteq> []" "last out \<noteq> CHR ''/''"
  shows "map fst ws = map (included_file out \<circ> fst) (modules F)"
proof -
  have "fst w = included_file out (fst m)" if "generated E lib v m w" "m \<in> set (modules F)" for m w
  proof -
    have "str_replace ''.h'' ''.rs'' (fst m @ ''.h'') = fst m @ ''.rs''" "fst m \<noteq> []" "hd (fst m) \<noteq> CHR ''/''"
      using that(2) by (auto simp: modules_def module_if_def module_files [simplified] split: if_splits)
    then show ?thesis using that(1) assms(2-4) by (auto simp: generated_def included_file_def path_push_def)
  qed
  then show ?thesis
    using assms(1) by (simp add: list_eq_iff_nth_eq list_all2_conv_all_nth)
qed

definition SESSION_CFG :: string where
  "SESSION_CFG = ''cargo:rustc-cfg=has_session_new_versioned''"

text \<open>
  C33. The two crates are compiled for the bindings that are generated: when both build scripts succeed on the same include paths and
  only one include directory has a header \<^verbatim>\<open>fuse_lowlevel.h\<close>, then each of them enables the versioned session constructor exactly when
  that header declares it, and the bindings of each module are written to the file that the module includes.
\<close>

theorem crates_agree_on_bindings:
  assumes "sys_build_main F E [] = (Ok (), tr)" and "typed_build_main E [] = (Ok (), tr')"
    and "sys_lib F E = Some lib" and "typed_lib E = Some lib'" and "pl_include_paths lib' = pl_include_paths lib"
    and "find_header E lib ''fuse_lowlevel.h'' = Some hp" and "fs_read_to_string E hp = Some text"
    and "\<forall>dir \<in> set (pl_include_paths lib). be_read E (path_push dir ''fuse_lowlevel.h'') \<noteq> None \<longrightarrow> path_push dir ''fuse_lowlevel.h'' = hp"
    and "be_var_os E ''OUT_DIR'' = Some out" and "out \<noteq> []" and "last out \<noteq> CHR ''/''"
  shows "(SESSION_CFG \<in> set (printed tr) \<longleftrightarrow> (\<exists>a b. text = a @ ''fuse_session_new_versioned'' @ b)) \<and>
    (SESSION_CFG \<in> set (printed tr') \<longleftrightarrow> SESSION_CFG \<in> set (printed tr)) \<and>
    (\<exists>v. list_all2 (generated E lib v) (modules F) (writes tr)) \<and> map fst (writes tr) = map (included_file out \<circ> fst) (modules F)"
proof -
  from sys_build_ok [OF assms(1)] assms(3) obtain v where v: "list_all2 (generated E lib v) (modules F) (writes tr)"
    and tr: "SESSION_CFG \<in> set (printed tr) \<longleftrightarrow> header_contains E lib ''fuse_lowlevel.h'' ''fuse_session_new_versioned''"
    by (auto simp: cfg_if_def SESSION_CFG_def split: if_splits)
  have "SESSION_CFG \<in> set (printed tr') \<longleftrightarrow> header_contains E lib ''fuse_lowlevel.h'' ''fuse_session_new_versioned''"
    using typed_build_ok [OF assms(2)] assms(4) typed_header_contains_same [OF assms(5)] by (auto simp: cfg_if_def SESSION_CFG_def split: if_splits)
  with tr v bound_header_decides [OF assms(6-8)] written_as_included [OF v assms(9-11)] show ?thesis
    by (auto simp: str_contains_iff)
qed

text \<open>An installation with one include directory, and a second one before it.\<close>

definition demo_files :: "os_str \<Rightarrow> os_str option" where
  "demo_files = map_of [(''/new/fuse_lowlevel.h'', ''fuse_session_new_versioned(''), (''/old/fuse_lowlevel.h'', ''fuse_session_new('')]"

definition demo_build :: "os_str list \<Rightarrow> build_env" where
  "demo_build dirs = \<lparr>be_var_os = map_of [(''OUT_DIR'', ''/out'')], be_output = (\<lambda>_ _. None), be_is_file = (\<lambda>_. False),
     be_exists = (\<lambda>p. demo_files p \<noteq> None), be_read = demo_files,
     be_probe = (\<lambda>_ _. Some \<lparr>pl_include_paths = dirs, pl_defines = []\<rparr>), be_generate = bb_header, be_write = (\<lambda>_ _. True)\<rparr>"

definition demo_features :: build_features where
  "demo_features = \<lparr>bf_fuse_31 = False, bf_fuse_35 = False, bf_fuse_312 = True, bf_fuse_highlevel = False, bf_fuse_lowlevel = True,
     bf_cuse_lowlevel = False, bf_macos = False\<rparr>"

lemma demo_sys_build:
  "fst (sys_build_main demo_features (demo_build [''/new'']) []) = Ok ()"
  "fst (sys_build_main demo_features (demo_build [''/old'', ''/new'']) []) = Ok ()"
  by code_simp+

lemma demo_typed_build: "fst (typed_build_main (demo_build [''/new'']) []) = Ok ()"
  by code_simp

lemma demo_headers:
  "find_header (demo_build [''/new'']) \<lparr>pl_include_paths = [''/new''], pl_defines = []\<rparr> ''fuse_lowlevel.h'' = Some ''/new/fuse_lowlevel.h''"
  "fs_read_to_string (demo_build [''/new'']) ''/new/fuse_lowlevel.h'' = Some ''fuse_session_new_versioned(''"
  "path_push ''/new'' ''fuse_lowlevel.h'' = ''/new/fuse_lowlevel.h''"
  by code_simp+

lemma demo_lib:
  "sys_lib F (demo_build dirs) = Some \<lparr>pl_include_paths = dirs, pl_defines = []\<rparr>"
  "typed_lib (demo_build dirs) = Some \<lparr>pl_include_paths = dirs, pl_defines = []\<rparr>"
  "be_var_os (demo_build dirs) ''OUT_DIR'' = Some ''/out''"
  by (simp_all add: sys_lib_def typed_lib_def demo_build_def)

theorem crates_agree_on_bindings_witness:
  "SESSION_CFG \<in> set (printed (snd (sys_build_main demo_features (demo_build [''/new'']) []))) \<and>
   SESSION_CFG \<in> set (printed (snd (typed_build_main (demo_build [''/new'']) []))) \<and>
   map fst (writes (snd (sys_build_main demo_features (demo_build [''/new'']) []))) = [''/out/fuse_lowlevel.rs'']"
proof -
  let ?E = "demo_build [''/new'']" and ?lib = "\<lparr>pl_include_paths = [''/new''], pl_defines = []\<rparr> :: pkg_library"
  obtain tr tr' where t: "sys_build_main demo_features ?E [] = (Ok (), tr)" "typed_build_main ?E [] = (Ok (), tr')"
    using demo_sys_build(1) demo_typed_build by (metis prod.collapse)
  have "(SESSION_CFG \<in> set (printed tr) \<longleftrightarrow> (\<exists>a b. ''fuse_session_new_versioned('' = a @ ''fuse_session_new_versioned'' @ b)) \<and>
    (SESSION_CFG \<in> set (printed tr') \<longleftrightarrow> SESSION_CFG \<in> set (printed tr)) \<and>
    (\<exists>v. list_all2 (generated ?E ?lib v) (modules demo_features) (writes tr)) \<and> map fst (writes tr) = map (included_file ''/out'' \<circ> fst) (modules demo_features)"
    by (rule crates_agree_on_bindings [OF t demo_lib(1,2) _ demo_headers(1,2) _ demo_lib(3)]) (simp_all add: demo_headers(3))
  moreover have "''fuse_session_new_versioned('' = [] @ ''fuse_session_new_versioned'' @ ''(''" by simp
  moreover have "map (included_file ''/out'' \<circ> fst) (modules demo_features) = [''/out/fuse_lowlevel.rs'']"
    by (simp add: modules_def module_if_def demo_features_def included_file_def)
  ultimately show ?thesis unfolding t by (metis snd_conv)
qed

text \<open>
  With two headers the answer can be wrong: any include directory may enable the versioned constructor, while the bindings are those of
  the first header, which need not declare it.
\<close>

theorem shadowed_header_misleads:
  "\<exists>F E tr lib hp text. sys_build_main F E [] = (Ok (), tr) \<and> sys_lib F E = Some lib \<and> find_header E lib ''fuse_lowlevel.h'' = Some hp \<and>
     fs_read_to_string E hp = Some text \<and> SESSION_CFG \<in> set (printed tr) \<and> \<not> str_contains text ''fuse_session_new_versioned''"
proof -
  let ?E = "demo_build [''/old'', ''/new'']"
  obtain tr where t: "sys_build_main demo_features ?E [] = (Ok (), tr)" using demo_sys_build(2) by (metis prod.collapse)
  have "find_header ?E \<lparr>pl_include_paths = [''/old'', ''/new''], pl_defines = []\<rparr> ''fuse_lowlevel.h'' = Some ''/old/fuse_lowlevel.h''"
    "fs_read_to_string ?E ''/old/fuse_lowlevel.h'' = Some ''fuse_session_new(''" "\<not> str_contains ''fuse_session_new('' ''fuse_session_new_versioned''"
    "header_contains ?E \<lparr>pl_include_paths = [''/old'', ''/new''], pl_defines = []\<rparr> ''fuse_lowlevel.h'' ''fuse_session_new_versioned''"
    by code_simp+
  moreover from sys_build_ok [OF t] this(4) have "SESSION_CFG \<in> set (printed tr)"
    by (auto simp: demo_lib cfg_if_def SESSION_CFG_def)
  ultimately show ?thesis using t demo_lib(1) by blast
qed

end
