(* ===== verification/Passthrough.thy ===== *)
theory Passthrough
  imports File_Lock Mount_Options
begin

unbundle bit_operations_syntax

text \<open>
  Helpers for filesystems that serve a backing directory (\<^verbatim>\<open>passthrough.rs\<close>, in its Linux configuration, and the module
  \<^verbatim>\<open>freebsd_xattr\<close> of its FreeBSD one): attributes from metadata, extended attributes, permission checks, ownership and
  times. The system calls are a parameter; each fails with an error number or returns its result.
\<close>

section \<open>Attribute conversions\<close>

text \<open>
  A \<^verbatim>\<open>FileType\<close> is read off the type bits of the mode. \<^verbatim>\<open>Metadata\<close> holds the fields of \<^verbatim>\<open>stat\<close>; the creation time is
  missing on some filesystems.
\<close>

definition file_kind_from_file_type :: "u32 \<Rightarrow> file_kind" where
  "file_kind_from_file_type ft =
     (if ft AND S_IFMT = S_IFDIR then Directory
      else if ft AND S_IFMT = S_IFLNK then Symlink
      else if ft AND S_IFMT = S_IFBLK then BlockDevice
      else if ft AND S_IFMT = S_IFCHR then CharDevice
      else if ft AND S_IFMT = S_IFIFO then NamedPipe
      else if ft AND S_IFMT = S_IFSOCK then Socket
      else RegularFile)"

definition system_time_from_secs :: "i64 \<Rightarrow> i64 \<Rightarrow> system_time option" where
  "system_time_from_secs secs nanos =
     (if 0 \<le> sint secs
      then do { d \<leftarrow> duration_new secs (ucast nanos); time_plus UNIX_EPOCH d }
      else do {
        d \<leftarrow> (if nanos = 0 then duration_new (word_of_int \<bar>sint secs\<bar>) 0
             else do { n \<leftarrow> checked_sub 1000000000 (ucast nanos :: u32); duration_new (word_of_int \<bar>sint secs\<bar> - 1) n });
        Some (case time_minus UNIX_EPOCH d of None \<Rightarrow> UNIX_EPOCH | Some t \<Rightarrow> t) })"

record metadata =
  md_blocks :: u64
  md_atime :: "i64 \<times> i64"
  md_mtime :: "i64 \<times> i64"
  md_ctime :: "i64 \<times> i64"
  md_created :: "system_time option"
  md_mode :: u32
  md_nlink :: u64
  md_uid :: u32
  md_gid :: u32
  md_rdev :: u64
  md_blksize :: u64

definition file_attr_from_metadata :: "metadata \<Rightarrow> u64 \<Rightarrow> node_attr option" where
  "file_attr_from_metadata md sz = do {
     atime \<leftarrow> case_prod system_time_from_secs (md_atime md);
     mtime \<leftarrow> case_prod system_time_from_secs (md_mtime md);
     ctime \<leftarrow> case_prod system_time_from_secs (md_ctime md);
     Some \<lparr>na_size = sz, na_blocks = md_blocks md, na_atime = atime, na_mtime = mtime, na_ctime = ctime,
       na_crtime = (case md_created md of None \<Rightarrow> UNIX_EPOCH | Some t \<Rightarrow> t), na_kind = file_kind_from_file_type (md_mode md),
       na_perm = ucast (md_mode md AND PERM_MASK), na_nlink = ucast (md_nlink md), na_uid = md_uid md, na_gid = md_gid md,
       na_rdev = ucast (md_rdev md), na_blksize = ucast (md_blksize md), na_flags = 0\<rparr> }"

definition synthetic_file_attr :: "u64 \<Rightarrow> system_time \<Rightarrow> u16 \<Rightarrow> u32 \<Rightarrow> u32 \<Rightarrow> node_attr" where
  "synthetic_file_attr sz mtime perm uid gid =
     \<lparr>na_size = sz, na_blocks = of_nat ((unat sz + 511) div 512), na_atime = mtime, na_mtime = mtime, na_ctime = mtime,
      na_crtime = mtime, na_kind = RegularFile, na_perm = perm, na_nlink = 1, na_uid = uid, na_gid = gid, na_rdev = 0,
      na_blksize = 4096, na_flags = 0\<rparr>"

section \<open>Paths, statistics and extended attributes\<close>

definition c_path :: "os_str \<Rightarrow> string result" where
  "c_path path = (if no_nul path then Ok path else Err EINVAL)"

definition c_name :: "os_str \<Rightarrow> string result" where
  "c_name name = (if no_nul name then Ok name else Err EINVAL)"

text \<open>\<^verbatim>\<open>?\<close> on a pure result, and the result of a system call that returns nothing of interest.\<close>

definition andthen :: "'a result \<Rightarrow> ('a \<Rightarrow> 'b result) \<Rightarrow> 'b result" where
  "andthen r f = (case r of Ok a \<Rightarrow> f a | Err e \<Rightarrow> Err e | Panic \<Rightarrow> Panic | Blocks \<Rightarrow> Blocks)"

definition sys_result :: "int + 'a \<Rightarrow> 'a result" where
  "sys_result r = (case r of Inl e \<Rightarrow> Err (errno_from_io (Some e)) | Inr a \<Rightarrow> Ok a)"

definition statfs_path :: "(string \<Rightarrow> int + raw_statvfs) \<Rightarrow> os_str \<Rightarrow> stat_fs result" where
  "statfs_path statvfs path = andthen (c_path path) (\<lambda>p. andthen (sys_result (statvfs p)) (\<lambda>st.
     Ok \<lparr>sf_blocks = f_blocks st, sf_bfree = f_bfree st, sf_bavail = f_bavail st, sf_files = f_files st, sf_ffree = f_ffree st,
         sf_bsize = ucast (f_bsize st), sf_namelen = ucast (f_namemax st), sf_frsize = ucast (f_frsize st)\<rparr>))"

text \<open>
  \<^verbatim>\<open>lgetxattr\<close> and \<^verbatim>\<open>llistxattr\<close> with a buffer of the given size: the number of bytes and what they are. With size zero
  only the number counts. The attribute may change between two calls, so each call has its own environment.
\<close>

type_synonym probe = "nat \<Rightarrow> int + nat \<times> bytes"

definition setxattr_nofollow :: "(string \<Rightarrow> bytes \<Rightarrow> i32 \<Rightarrow> int + unit) \<Rightarrow> string \<Rightarrow> bytes \<Rightarrow> i32 \<Rightarrow> unit result" where
  "setxattr_nofollow lsetxattr name val flags = sys_result (lsetxattr name val flags)"

definition removexattr_nofollow :: "(string \<Rightarrow> int + unit) \<Rightarrow> string \<Rightarrow> unit result" where
  "removexattr_nofollow lremovexattr name = sys_result (lremovexattr name)"

definition getxattr_nofollow :: "probe \<Rightarrow> nat \<Rightarrow> (nat \<times> bytes) result" where
  "getxattr_nofollow lgetxattr buflen = sys_result (lgetxattr buflen)"

definition listxattr_nofollow :: "probe \<Rightarrow> nat \<Rightarrow> (nat \<times> bytes) result" where
  "listxattr_nofollow llistxattr buflen = sys_result (llistxattr buflen)"

text \<open>A zeroed vector of \<open>sz\<close> bytes that a call wrote into, truncated to the length it returned.\<close>

definition filled :: "nat \<Rightarrow> nat \<times> bytes \<Rightarrow> bytes" where
  "filled sz r = take (fst r) (take sz (snd r @ replicate sz 0))"

definition getxattr_value_nofollow :: "probe \<Rightarrow> probe \<Rightarrow> bytes result" where
  "getxattr_value_nofollow first second = andthen (getxattr_nofollow first 0) (\<lambda>(sz, _).
     andthen (getxattr_nofollow second sz) (\<lambda>r. Ok (filled sz r)))"

fun split_at_zero :: "bytes \<Rightarrow> bytes \<Rightarrow> bytes list" where
  "split_at_zero w [] = [w]"
| "split_at_zero w (b # bs) = (if b = 0 then w # split_at_zero [] bs else split_at_zero (w @ [b]) bs)"

definition names_of_list :: "bytes \<Rightarrow> bytes list" where
  "names_of_list buf = filter (\<lambda>name. name \<noteq> []) (split_at_zero [] buf)"

definition listxattr_names_nofollow :: "probe \<Rightarrow> probe \<Rightarrow> bytes list result" where
  "listxattr_names_nofollow first second = andthen (listxattr_nofollow first 0) (\<lambda>(sz, _).
     andthen (listxattr_nofollow second sz) (\<lambda>r. Ok (names_of_list (filled sz r))))"

definition is_apple_xattr :: "string \<Rightarrow> bool" where
  "is_apple_xattr name \<longleftrightarrow> take 10 name = ''com.apple.''"

subsection \<open>FreeBSD\<close>

datatype extattr_namespace = EXTATTR_NAMESPACE_USER | EXTATTR_NAMESPACE_SYSTEM

definition split_namespace :: "string \<Rightarrow> (extattr_namespace \<times> string) result" where
  "split_namespace name =
     (case (case strip_prefix ''user.'' name of
              Some rest \<Rightarrow> Some (EXTATTR_NAMESPACE_USER, rest)
            | None \<Rightarrow> (case strip_prefix ''system.'' name of
                Some rest \<Rightarrow> Some (EXTATTR_NAMESPACE_SYSTEM, rest) | None \<Rightarrow> None)) of
        None \<Rightarrow> Err EOPNOTSUPP
      | Some (ns, bare) \<Rightarrow>
          if bare = [] then Err EOPNOTSUPP
          else if no_nul bare then Ok (ns, bare) else Err EINVAL)"

definition XATTR_CREATE :: "32 word" where "XATTR_CREATE = 1"
definition XATTR_REPLACE :: "32 word" where "XATTR_REPLACE = 2"

text \<open>The probe for existence and the write are two system calls.\<close>

definition freebsd_setxattr :: "(extattr_namespace \<Rightarrow> string \<Rightarrow> int) \<Rightarrow> (extattr_namespace \<Rightarrow> string \<Rightarrow> bytes \<Rightarrow> int + nat) \<Rightarrow>
    string \<Rightarrow> bytes \<Rightarrow> i32 \<Rightarrow> unit result" where
  "freebsd_setxattr get_link set_link name val flags = andthen (split_namespace name) (\<lambda>(ns, bare).
     let present = get_link ns bare \<ge> 0;
         asked = flags AND (XATTR_CREATE OR XATTR_REPLACE) \<noteq> 0
     in if asked \<and> flags AND XATTR_CREATE \<noteq> 0 \<and> present then Err EEXIST
        else if asked \<and> flags AND XATTR_REPLACE \<noteq> 0 \<and> \<not> present then Err ENODATA
        else andthen (sys_result (set_link ns bare val)) (\<lambda>_. Ok ()))"

definition freebsd_getxattr :: "(extattr_namespace \<Rightarrow> string \<Rightarrow> probe) \<Rightarrow> string \<Rightarrow> nat \<Rightarrow> (nat \<times> bytes) result" where
  "freebsd_getxattr get_link name buflen = andthen (split_namespace name) (\<lambda>(ns, bare). sys_result (get_link ns bare buflen))"

definition freebsd_removexattr :: "(extattr_namespace \<Rightarrow> string \<Rightarrow> int + unit) \<Rightarrow> string \<Rightarrow> unit result" where
  "freebsd_removexattr delete_link name = andthen (split_namespace name) (\<lambda>(ns, bare). sys_result (delete_link ns bare))"

function decode_list :: "bytes \<Rightarrow> bytes \<Rightarrow> bytes \<Rightarrow> bytes result" where
  "decode_list raw_list prefix out =
     (case raw_list of
        [] \<Rightarrow> Ok out
      | b # rest \<Rightarrow>
          if unat b > length rest then Err EIO
          else decode_list (drop (unat b) rest) prefix (out @ prefix @ take (unat b) rest @ [0]))"
  by pat_completeness auto
termination
  by (relation "measure (\<lambda>(raw_list, _, _). length raw_list)") auto

declare decode_list.simps [simp del]

definition append_namespace :: "probe \<Rightarrow> probe \<Rightarrow> bytes \<Rightarrow> bytes \<Rightarrow> bytes result" where
  "append_namespace first second prefix out = andthen (sys_result (first 0)) (\<lambda>(sz, _).
     if sz = 0 then Ok out
     else andthen (sys_result (second sz)) (\<lambda>r. decode_list (filled sz r) prefix out))"

definition USER_PREFIX :: bytes where
  "USER_PREFIX = map (of_nat \<circ> of_char) ''user.''"

text \<open>The size that was probed or the bytes that were stored, and the number returned.\<close>

definition freebsd_listxattr :: "probe \<Rightarrow> probe \<Rightarrow> nat \<Rightarrow> (nat \<times> bytes) result" where
  "freebsd_listxattr first second buflen = andthen (append_namespace first second USER_PREFIX []) (\<lambda>names.
     if buflen = 0 then Ok (length names, [])
     else if buflen < length names then Err ERANGE
     else Ok (length names, names))"

section \<open>Permission checks\<close>

text \<open>A mask with other bits fails a \<^verbatim>\<open>debug_assert!\<close>.\<close>

definition access_check :: "caller \<Rightarrow> u32 \<Rightarrow> u32 \<Rightarrow> u32 \<Rightarrow> u32 \<Rightarrow> unit result" where
  "access_check c file_uid file_gid mode msk =
     (if msk AND NOT 7 \<noteq> 0 then Panic
      else if msk AND 7 = 0 \<or> ca_uid c = 0 then Ok ()
      else let effective = (if ca_uid c = file_uid then drop_bit 6 mode AND 7
                            else if ca_gid c = file_gid then drop_bit 3 mode AND 7
                            else mode AND 7);
               need = msk AND 7
           in if effective AND need = need then Ok () else Err EACCES)"

definition near_now :: "system_time \<Rightarrow> system_time \<Rightarrow> bool" where
  "near_now now t \<longleftrightarrow> t \<le> now \<and> now - t < 10000000 \<or> now \<le> t \<and> t - now < 10000000"

definition utimens_permission_check :: "system_time \<Rightarrow> caller \<Rightarrow> u32 \<Rightarrow> u32 \<Rightarrow> u32 \<Rightarrow> system_time option \<Rightarrow> system_time option \<Rightarrow> unit result" where
  "utimens_permission_check now c file_uid file_gid mode atime mtime =
     (if ca_uid c = 0 then Ok ()
      else if ca_uid c = file_uid then Ok ()
      else if atime = None \<and> mtime = None then Ok ()
      else if (case atime of None \<Rightarrow> True | Some t \<Rightarrow> near_now now t) \<and> (case mtime of None \<Rightarrow> True | Some t \<Rightarrow> near_now now t)
      then (let has_write = (ca_uid c = file_uid \<and> mode AND 0x80 \<noteq> 0) \<or> (ca_gid c = file_gid \<and> mode AND 0x10 \<noteq> 0) \<or> mode AND 2 \<noteq> 0
            in if has_write then Ok () else Err EACCES)
      else Err EPERM)"

definition owned_by_caller :: "u32 \<Rightarrow> u32 \<Rightarrow> caller \<Rightarrow> bool" where
  "owned_by_caller euid egid c \<longleftrightarrow> ca_uid c = euid \<and> ca_gid c = egid"

text \<open>\<^verbatim>\<open>fchown\<close> and \<^verbatim>\<open>chown\<close> by the caller's ids; \<^verbatim>\<open>EPERM\<close> is ignored.\<close>

definition ignore_eperm :: "int + unit \<Rightarrow> unit result" where
  "ignore_eperm r = (case r of Inr _ \<Rightarrow> Ok () | Inl e \<Rightarrow> if Errno e = EPERM then Ok () else Err (errno_from_io (Some e)))"

definition set_ownership_fd :: "u32 \<Rightarrow> u32 \<Rightarrow> (u32 \<Rightarrow> u32 \<Rightarrow> int + unit) \<Rightarrow> caller \<Rightarrow> unit result" where
  "set_ownership_fd euid egid fchown c =
     (if owned_by_caller euid egid c then Ok () else ignore_eperm (fchown (ca_uid c) (ca_gid c)))"

definition set_ownership_path :: "u32 \<Rightarrow> u32 \<Rightarrow> (string \<Rightarrow> u32 \<Rightarrow> u32 \<Rightarrow> int + unit) \<Rightarrow> os_str \<Rightarrow> caller \<Rightarrow> unit result" where
  "set_ownership_path euid egid chown path c =
     (if owned_by_caller euid egid c then Ok ()
      else andthen (c_path path) (\<lambda>p. ignore_eperm (chown p (ca_uid c) (ca_gid c))))"

section \<open>Mode, ownership and times\<close>

definition chmod_fd :: "(u32 \<Rightarrow> int + unit) \<Rightarrow> u32 \<Rightarrow> unit result" where
  "chmod_fd fchmod mode = sys_result (fchmod mode)"

text \<open>\<^verbatim>\<open>std::fs::set_permissions\<close> is \<^verbatim>\<open>chmod\<close>, which follows symbolic links; a NUL byte in the path is an error without an error number.\<close>

definition chmod_path :: "(os_str \<Rightarrow> u32 \<Rightarrow> int + unit) \<Rightarrow> os_str \<Rightarrow> u32 \<Rightarrow> unit result" where
  "chmod_path chmod path mode = (if no_nul path then sys_result (chmod path mode) else Err (errno_from_io None))"

definition opt_id :: "u32 option \<Rightarrow> u32" where
  "opt_id x = (case x of None \<Rightarrow> - 1 | Some i \<Rightarrow> i)"

definition chown_fd :: "(u32 \<Rightarrow> u32 \<Rightarrow> int + unit) \<Rightarrow> u32 option \<Rightarrow> u32 option \<Rightarrow> unit result" where
  "chown_fd fchown uid gid = sys_result (fchown (opt_id uid) (opt_id gid))"

definition chown_path :: "(string \<Rightarrow> u32 \<Rightarrow> u32 \<Rightarrow> int + unit) \<Rightarrow> os_str \<Rightarrow> u32 option \<Rightarrow> u32 option \<Rightarrow> unit result" where
  "chown_path lchown path uid gid = andthen (c_path path) (\<lambda>p. sys_result (lchown p (opt_id uid) (opt_id gid)))"

definition UTIME_OMIT :: i64 where "UTIME_OMIT = 0x3FFFFFFE"

definition to_timespec :: "system_time option \<Rightarrow> i64 \<times> i64" where
  "to_timespec t = (case t of
     Some ts \<Rightarrow> (let d = max 0 (ts - UNIX_EPOCH) in (word_of_int (d div 1000000000), word_of_int (d mod 1000000000)))
   | None \<Rightarrow> (0, UTIME_OMIT))"

definition utimens_fd :: "((i64 \<times> i64) \<times> (i64 \<times> i64) \<Rightarrow> int + unit) \<Rightarrow> system_time option \<Rightarrow> system_time option \<Rightarrow> unit result" where
  "utimens_fd futimens atime mtime = sys_result (futimens (to_timespec atime, to_timespec mtime))"

definition utimens_path :: "(string \<Rightarrow> (i64 \<times> i64) \<times> (i64 \<times> i64) \<Rightarrow> int + unit) \<Rightarrow> os_str \<Rightarrow> system_time option \<Rightarrow> system_time option \<Rightarrow>
    unit result" where
  "utimens_path utimensat path atime mtime =
     andthen (c_path path) (\<lambda>p. sys_result (utimensat p (to_timespec atime, to_timespec mtime)))"

definition passthrough_mknod :: "(string \<Rightarrow> u32 \<Rightarrow> int + unit) \<Rightarrow> (string \<Rightarrow> u32 \<Rightarrow> u64 \<Rightarrow> int + unit) \<Rightarrow> os_str \<Rightarrow> u32 \<Rightarrow> u32 \<Rightarrow> unit result" where
  "passthrough_mknod mkfifo mknod path mode rdev = andthen (c_path path) (\<lambda>p.
     let mode_bits = mode AND S_IFMT
     in if mode_bits = S_IFIFO then sys_result (mkfifo p mode)
        else if mode_bits = S_IFCHR \<or> mode_bits = S_IFBLK \<or> mode_bits = S_IFSOCK then sys_result (mknod p mode (ucast rdev))
        else Err EINVAL)"

definition passthrough_symlink :: "(string \<Rightarrow> string \<Rightarrow> int + unit) \<Rightarrow> os_str \<Rightarrow> os_str \<Rightarrow> unit result" where
  "passthrough_symlink symlink target link =
     (if \<not> no_nul target then Err EINVAL else andthen (c_path link) (\<lambda>l. sys_result (symlink target l)))"

text \<open>The no-replace rename of the platform is \<open>None\<close> where there is none.\<close>

definition ENOTSUP :: errno where "ENOTSUP = EOPNOTSUPP"

definition rename_noreplace_at :: "(int + unit) option \<Rightarrow> bool result" where
  "rename_noreplace_at renameat = (case renameat of
     None \<Rightarrow> Ok False
   | Some (Inr _) \<Rightarrow> Ok True
   | Some (Inl e) \<Rightarrow>
       if Errno e \<in> set [EINVAL, ENOSYS, ENOTSUP, EOPNOTSUPP] then Ok False else Err (errno_from_io (Some e)))"

section \<open>Times\<close>

text \<open>
  Reading a time from metadata is exact on the whole range of seconds, including the least second; writing one clamps
  times before the epoch to the epoch.
\<close>

lemma abs_secs:
  assumes "sint (secs :: i64) < 0"
  shows "uint (word_of_int \<bar>sint secs\<bar> :: u64) = - sint secs" "uint (word_of_int \<bar>sint secs\<bar> - 1 :: u64) = - sint secs - 1"
proof -
  have r: "0 < - sint secs" "- sint secs \<le> 2 ^ 63" using assms i64_range(1) [of secs] by simp_all
  then show "uint (word_of_int \<bar>sint secs\<bar> :: u64) = - sint secs"
    using assms by (simp add: uint_word_of_int take_bit_eq_mod flip: take_bit_eq_mod del: of_int_abs of_int_minus)
  have "(word_of_int \<bar>sint secs\<bar> - 1 :: u64) = word_of_int (- sint secs - 1)" using assms by simp
  moreover have "uint (word_of_int (- sint secs - 1) :: u64) = - sint secs - 1"
    using r by (simp add: uint_word_of_int del: of_int_minus of_int_diff)
  ultimately show "uint (word_of_int \<bar>sint secs\<bar> - 1 :: u64) = - sint secs - 1" by simp
qed

lemma system_time_from_secs_exact:
  assumes "0 \<le> sint nanos" "sint nanos < 1000000000"
  shows "system_time_from_secs secs nanos = Some (sint secs * 1000000000 + sint nanos)"
proof (cases "0 \<le> sint secs")
  case True
  with assms i64_range(2) [of secs] show ?thesis
    by (simp add: system_time_from_secs_def duration_new_def uint_of_sint_nonneg uint_nsec_u32 time_plus_def time_ok_def UNIX_EPOCH_def)
next
  case False
  then have neg: "sint secs < 0" by simp
  note a = abs_secs [OF neg] and r = i64_range(1) [of secs]
  show ?thesis
  proof (cases "nanos = 0")
    case True
    have "duration_new (word_of_int \<bar>sint secs\<bar>) 0 = Some (- sint secs * 1000000000)"
      using r by (simp add: duration_new_def a(1) del: of_int_abs of_int_minus)
    with True False r show ?thesis
      by (simp add: system_time_from_secs_def time_minus_def time_ok_def UNIX_EPOCH_def del: of_int_abs of_int_minus)
  next
    case nz: False
    have u: "uint (ucast nanos :: u32) = sint nanos" by (rule uint_nsec_u32 [OF assms])
    have "0 < sint nanos" using nz assms(1) by (metis order_le_less signed_0 signed_word_eqI)
    have le: "(ucast nanos :: u32) \<le> 1000000000" using u assms(2) by (simp add: word_le_def)
    then have c: "checked_sub 1000000000 (ucast nanos :: u32) = Some (1000000000 - ucast nanos)" by (simp add: checked_sub_def)
    have d: "uint (1000000000 - ucast nanos :: u32) = 1000000000 - sint nanos"
      using le u by (simp add: uint_minus_simple_alt [THEN iffD1])
    have "duration_new (word_of_int \<bar>sint secs\<bar> - 1) (1000000000 - ucast nanos :: u32) =
        Some (- sint secs * 1000000000 - sint nanos)"
      using r \<open>0 < sint nanos\<close> assms(2) by (simp add: duration_new_def a d del: of_int_abs of_int_minus)
    with False nz r \<open>0 < sint nanos\<close> assms(2) show ?thesis
      by (simp add: system_time_from_secs_def c time_minus_def time_ok_def UNIX_EPOCH_def del: of_int_abs of_int_minus)
  qed
qed

lemma to_timespec_clamps: "t < 0 \<Longrightarrow> to_timespec (Some t) = to_timespec (Some 0)"
  by (simp add: to_timespec_def UNIX_EPOCH_def)

section \<open>Permission checks\<close>

text \<open>The class of a caller: owner, group or others, the first that applies.\<close>

definition perm_class :: "caller \<Rightarrow> u32 \<Rightarrow> u32 \<Rightarrow> nat" where
  "perm_class c file_uid file_gid = (if ca_uid c = file_uid then 2 else if ca_gid c = file_gid then 1 else 0)"

lemma bit_7: "bit (7 :: u32) i \<longleftrightarrow> i < 3"
proof -
  have "(7 :: u32) = mask 3" by (simp add: mask_eq_exp_minus_1)
  then have "bit (7 :: u32) i \<longleftrightarrow> bit (mask 3 :: u32) i" by (simp only:)
  also have "\<dots> \<longleftrightarrow> i < 3" by (simp only: bit_mask_iff) auto
  finally show ?thesis .
qed

lemma less_8_bits: "(w :: u32) < 8 \<longleftrightarrow> (\<forall>i. bit w i \<longrightarrow> i < 3)"
proof -
  have "w < 8 \<longleftrightarrow> unat w < 2 ^ 3" by (simp add: word_less_nat_alt)
  also have "\<dots> \<longleftrightarrow> take_bit 3 (unat w) = unat w" by (simp only: take_bit_nat_eq_self_iff)
  also have "\<dots> \<longleftrightarrow> (\<forall>i. bit w i \<longrightarrow> i < 3)"
    by (auto simp: bit_eq_iff bit_take_bit_iff bit_unsigned_iff dest: bit_imp_le_length)
  finally show ?thesis .
qed

lemma bit_u32: "bit (w :: u32) i \<Longrightarrow> i < 32"
  using bit_imp_le_length [of w i] by simp

lemma and_not_7_eq_0: "(w :: u32) AND NOT 7 = 0 \<longleftrightarrow> w < 8"
proof -
  have "w AND NOT 7 = 0 \<longleftrightarrow> (\<forall>i. \<not> bit (w AND NOT 7) i)" by (auto intro: bit_word_eqI)
  also have "\<dots> \<longleftrightarrow> w < 8"
    unfolding less_8_bits by (simp only: bit_and_iff bit_not_iff bit_7) (auto dest: bit_u32)
  finally show ?thesis .
qed

lemma and_7_less_8: "(w :: u32) < 8 \<Longrightarrow> w AND 7 = w"
  by (rule bit_word_eqI) (simp only: less_8_bits bit_and_iff bit_7, blast)

definition granted :: "u32 \<Rightarrow> u32 \<Rightarrow> nat \<Rightarrow> bool" where
  "granted msk mode cls \<longleftrightarrow> {i. bit msk i} \<subseteq> {i. bit mode (i + 3 * cls)}"

lemma granted_iff:
  assumes "msk < (8 :: u32)"
  shows "(drop_bit k mode AND 7) AND msk = msk \<longleftrightarrow> {i. bit msk i} \<subseteq> {i. bit (mode :: u32) (i + k)}"
proof -
  have "(drop_bit k mode AND 7) AND msk = msk \<longleftrightarrow> (\<forall>i. bit ((drop_bit k mode AND 7) AND msk) i = bit msk i)"
    by (metis bit_word_eqI)
  also have "\<dots> \<longleftrightarrow> {i. bit msk i} \<subseteq> {i. bit mode (i + k)}"
    using assms unfolding less_8_bits bit_and_iff bit_7 bit_drop_bit_eq by (auto simp: add.commute)
  finally show ?thesis .
qed

lemma granted_shifted:
  "granted msk (drop_bit 3 mode) 0 \<longleftrightarrow> granted msk mode (Suc 0)"
  "granted msk (drop_bit 6 mode) 0 \<longleftrightarrow> granted msk mode 2"
  by (simp_all add: granted_def bit_drop_bit_eq subset_iff add.commute)

lemma granted_cases:
  assumes "msk < 8"
  shows "(mode AND 7) AND msk = msk \<longleftrightarrow> granted msk mode 0"
    and "(drop_bit 3 mode AND 7) AND msk = msk \<longleftrightarrow> granted msk mode 1"
    and "(drop_bit 6 mode AND 7) AND msk = msk \<longleftrightarrow> granted msk mode 2"
  using granted_iff [OF assms, of 0 mode] granted_iff [OF assms, of 3 mode] granted_iff [OF assms, of 6 mode]
  unfolding granted_def by (simp_all only: drop_bit_0 id_apply mult_0_right mult_1_right add_0_right mult_numeral_1_right) simp_all

text \<open>
  C39. \<^verbatim>\<open>access_check\<close> is the POSIX check: root passes, and anyone else passes exactly when every requested bit is granted
  to the one class the caller belongs to, the owner's if the caller owns the file, else the group's, else the others'. A
  request of no bit passes; a mask with other bits fails the assertion.
\<close>

theorem access_check_is_posix:
  "access_check c file_uid file_gid mode msk =
    (if 8 \<le> msk then Panic
     else if ca_uid c = 0 \<or> granted msk mode (perm_class c file_uid file_gid) then Ok ()
     else Err EACCES)"
proof (cases "msk < 8")
  case True
  have empty: "granted 0 mode k" for k by (simp add: granted_def)
  from True show ?thesis
    unfolding access_check_def and_not_7_eq_0 and_7_less_8 [OF True] Let_def perm_class_def
    by (simp add: granted_cases [OF True] granted_shifted empty not_le del: and.assoc)
next
  case False
  then show ?thesis unfolding access_check_def and_not_7_eq_0 by (simp add: not_less)
qed

text \<open>
  The time check does not use the class: a caller in the file's group, whose class has no write permission, may set the
  times to now when the others' class has it, although \<^verbatim>\<open>access_check\<close> denies writing.
\<close>

lemma utimens_ignores_class:
  "utimens_permission_check now \<lparr>ca_uid = 5, ca_gid = 7, ca_pid = 1, ca_umask = 0\<rparr> 6 7 2 (Some now) None = Ok () \<and>
   access_check \<lparr>ca_uid = 5, ca_gid = 7, ca_pid = 1, ca_umask = 0\<rparr> 6 7 2 2 = Err EACCES"
  by (simp add: utimens_permission_check_def near_now_def access_check_def Let_def)

section \<open>Lists of extended attributes\<close>

text \<open>The kernel's list on FreeBSD: each name after its length.\<close>

definition encode_names :: "bytes list \<Rightarrow> bytes" where
  "encode_names names = concat (map (\<lambda>n. of_nat (length n) # n) names)"

definition proper_name :: "bytes \<Rightarrow> bool" where
  "proper_name n \<longleftrightarrow> n \<noteq> [] \<and> length n < 256 \<and> 0 \<notin> set n"

lemma decode_names:
  assumes "list_all proper_name names"
  shows "decode_list (encode_names names @ rest) prefix out =
    decode_list rest prefix (out @ concat (map (\<lambda>n. prefix @ n @ [0]) names))"
  using assms
proof (induction names arbitrary: out)
  case (Cons n names)
  then have n: "unat (of_nat (length n) :: u8) = length n" by (simp add: proper_name_def unat_of_nat)
  with Cons.IH [of "out @ prefix @ n @ [0]"] Cons.prems show ?case
    by (subst decode_list.simps) (simp add: encode_names_def)
qed (simp add: encode_names_def)

lemma split_at_zero_word: "0 \<notin> set u \<Longrightarrow> split_at_zero w (u @ 0 # bs) = (w @ u) # split_at_zero [] bs"
  by (induction u arbitrary: w) auto

lemma names_of_encoded:
  assumes "list_all proper_name names" "0 \<notin> set prefix"
  shows "names_of_list (concat (map (\<lambda>n. prefix @ n @ [0]) names)) = map (\<lambda>n. prefix @ n) names"
  using assms
proof (induction names)
  case (Cons n names)
  then have "split_at_zero [] ((prefix @ n) @ 0 # concat (map (\<lambda>n. prefix @ n @ [0]) names)) =
      (prefix @ n) # split_at_zero [] (concat (map (\<lambda>n. prefix @ n @ [0]) names))"
    using split_at_zero_word [of "prefix @ n" "[]"] by (simp add: proper_name_def)
  with Cons show ?case by (simp add: names_of_list_def proper_name_def)
qed (simp add: names_of_list_def)

text \<open>
  C40. The list of extended attributes that FreeBSD returns survives its re-encoding: decoding the length-prefixed names and
  splitting the NUL-terminated result gives back every name, in order, with its namespace prefix; a list that is cut inside its last
  name is an error.
\<close>

theorem xattr_list_roundtrip:
  assumes "list_all proper_name names" "0 \<notin> set prefix" "length part < unat b"
  shows "(\<exists>bs. decode_list (encode_names names) prefix [] = Ok bs \<and> names_of_list bs = map (\<lambda>n. prefix @ n) names) \<and>
    decode_list (encode_names names @ b # part) prefix [] = Err EIO"
proof
  have "decode_list (encode_names names @ []) prefix [] = Ok (concat (map (\<lambda>n. prefix @ n @ [0]) names))"
    unfolding decode_names [OF assms(1)] by (simp add: decode_list.simps)
  with names_of_encoded [OF assms(1,2)]
  show "\<exists>bs. decode_list (encode_names names) prefix [] = Ok bs \<and> names_of_list bs = map (\<lambda>n. prefix @ n) names" by simp
  show "decode_list (encode_names names @ b # part) prefix [] = Err EIO"
    unfolding decode_names [OF assms(1)] using assms(3) by (simp add: decode_list.simps)
qed

theorem xattr_list_roundtrip_witness:
  "(\<exists>bs. decode_list (encode_names [[97, 98], [99]]) USER_PREFIX [] = Ok bs \<and>
      names_of_list bs = [USER_PREFIX @ [97, 98], USER_PREFIX @ [99]]) \<and>
    decode_list (encode_names [[97, 98], [99]] @ [9, 97]) USER_PREFIX [] = Err EIO"
  using xattr_list_roundtrip [of "[[97, 98], [99]]" USER_PREFIX "[97]" 9]
  by (simp add: proper_name_def USER_PREFIX_def)

end
