(* ===== verification/Darwin.thy ===== *)
theory Darwin
  imports Passthrough
begin

text \<open>
  The alternatives the code has for other platforms: on macOS the layouts of \<^verbatim>\<open>stat\<close> and \<^verbatim>\<open>statfs\<close>, which also carry the creation time
  and flags, and two more mount options; and the no-replace rename of each platform. The conversions of these layouts are as exact as
  those of Linux, but for the link count.
\<close>

unbundle bit_operations_syntax

section \<open>Attributes\<close>

text \<open>The \<^verbatim>\<open>stat\<close> struct of macOS; some of its fields are narrower than those of Linux.\<close>

record darwin_stat =
  ds_ino :: u64
  ds_mode :: u16
  ds_nlink :: u16
  ds_uid :: u32
  ds_gid :: u32
  ds_rdev :: i32
  ds_size :: i64
  ds_blocks :: i64
  ds_blksize :: i32
  ds_atimespec :: "i64 \<times> i64"
  ds_mtimespec :: "i64 \<times> i64"
  ds_ctimespec :: "i64 \<times> i64"
  ds_birthtimespec :: "i64 \<times> i64"
  ds_flags :: u32

definition zeroed_darwin_stat :: darwin_stat where
  "zeroed_darwin_stat = \<lparr>ds_ino = 0, ds_mode = 0, ds_nlink = 0, ds_uid = 0, ds_gid = 0, ds_rdev = 0, ds_size = 0, ds_blocks = 0,
     ds_blksize = 0, ds_atimespec = (0, 0), ds_mtimespec = (0, 0), ds_ctimespec = (0, 0), ds_birthtimespec = (0, 0), ds_flags = 0\<rparr>"

definition attr_to_darwin_stat :: "u64 \<Rightarrow> node_attr \<Rightarrow> darwin_stat option" where
  "attr_to_darwin_stat ino attr = do {
     atime \<leftarrow> system_time_to_secs_nsecs (na_atime attr);
     mtime \<leftarrow> system_time_to_secs_nsecs (na_mtime attr);
     ctime \<leftarrow> system_time_to_secs_nsecs (na_ctime attr);
     crtime \<leftarrow> system_time_to_secs_nsecs (na_crtime attr);
     Some (zeroed_darwin_stat\<lparr>
       ds_ino := ino,
       ds_mode := ucast (kind_to_mode_bits (na_kind attr) OR (ucast (na_perm attr) AND PERM_MASK)),
       ds_nlink := ucast (na_nlink attr),
       ds_uid := na_uid attr,
       ds_gid := na_gid attr,
       ds_rdev := na_rdev attr,
       ds_size := na_size attr,
       ds_blocks := na_blocks attr,
       ds_blksize := na_blksize attr,
       ds_atimespec := atime, ds_mtimespec := mtime, ds_ctimespec := ctime, ds_birthtimespec := crtime,
       ds_flags := na_flags attr\<rparr>) }"

section \<open>Decoding \<^verbatim>\<open>setattr\<close>\<close>

record darwin_bits =
  db_common :: to_set_bits
  db_btime_bit :: nat
  db_flags_bit :: nat

definition setattr_from_darwin :: "darwin_bits \<Rightarrow> darwin_stat option \<Rightarrow> i32 \<Rightarrow> set_attr option" where
  "setattr_from_darwin D attr to_set = (let B = db_common D in case attr of
     None \<Rightarrow> Some default_set_attr
   | Some st \<Rightarrow> do {
       atime \<leftarrow> time_field to_set (fs_atime_now_bit B) (fs_atime_bit B) (ds_atimespec st);
       mtime \<leftarrow> time_field to_set (fs_mtime_now_bit B) (fs_mtime_bit B) (ds_mtimespec st);
       ctime \<leftarrow> ctime_field to_set (fs_ctime_bit B) (ds_ctimespec st);
       crtime \<leftarrow> ctime_field to_set (db_btime_bit D) (ds_birthtimespec st);
       Some \<lparr>sa_mode = if has_flag to_set (fs_mode_bit B) then Some (ucast (ds_mode st)) else None,
         sa_uid = if has_flag to_set (fs_uid_bit B) then Some (ds_uid st) else None,
         sa_gid = if has_flag to_set (fs_gid_bit B) then Some (ds_gid st) else None,
         sa_size = if has_flag to_set (fs_size_bit B) then Some (ds_size st) else None,
         sa_atime = atime, sa_mtime = mtime, sa_ctime = ctime, sa_crtime = crtime,
         sa_flags = if has_flag to_set (db_flags_bit D) then Some (ds_flags st) else None\<rparr> })"

section \<open>Filesystem statistics\<close>

text \<open>The counts are 64 bits wide; the limit on names is not part of the struct.\<close>

record darwin_statfs =
  df_bsize :: u32
  df_iosize :: i32
  df_blocks :: u64
  df_bfree :: u64
  df_bavail :: u64
  df_files :: u64
  df_ffree :: u64

definition statfs_to_darwin :: "stat_fs \<Rightarrow> darwin_statfs" where
  "statfs_to_darwin s = \<lparr>df_bsize = (if sf_frsize s \<noteq> 0 then sf_frsize s else sf_bsize s), df_iosize = sf_bsize s,
     df_blocks = sf_blocks s, df_bfree = sf_bfree s, df_bavail = sf_bavail s, df_files = sf_files s, df_ffree = sf_ffree s\<rparr>"

text \<open>\<^verbatim>\<open>statfs\<close> and \<^verbatim>\<open>pathconf\<close> are parameters; the latter answers with a negative number when there is no limit.\<close>

definition statfs_path_darwin :: "(string \<Rightarrow> int + darwin_statfs) \<Rightarrow> (string \<Rightarrow> i64) \<Rightarrow> os_str \<Rightarrow> stat_fs result" where
  "statfs_path_darwin statfs pathconf path = andthen (c_path path) (\<lambda>p. andthen (sys_result (statfs p)) (\<lambda>st.
     let namemax = pathconf p in
     Ok \<lparr>sf_blocks = df_blocks st, sf_bfree = df_bfree st, sf_bavail = df_bavail st, sf_files = df_files st, sf_ffree = df_ffree st,
         sf_bsize = df_iosize st, sf_namelen = (if 0 < sint namemax then ucast namemax else 255), sf_frsize = df_bsize st\<rparr>))"

section \<open>Mount options\<close>

fun render_darwin :: "mount_option \<Rightarrow> string option" where
  "render_darwin NonEmpty = Some ''nonempty''"
| "render_darwin (VolName name) = Some (''volname='' @ escape_option_value name)"
| "render_darwin opt = render opt"

section \<open>Renames that do not replace\<close>

text \<open>
  The no-replace rename of a platform, with its system calls as parameters: where there is none, and on a FreeBSD that does not have it,
  the answer is \<open>None\<close>. FreeBSD looks the function up once; \<open>once\<close> is what it found, if it has looked.
\<close>

datatype target_os = Linux | Macos | Freebsd | OtherOs

record rename_env =
  re_renameat2 :: "int + unit"
  re_renameatx_np :: "int + unit"
  re_dlsym :: bool

definition noreplace_renameat :: "target_os \<Rightarrow> rename_env \<Rightarrow> bool option \<Rightarrow> (int + unit) option \<times> bool option" where
  "noreplace_renameat os env once = (case os of
     Linux \<Rightarrow> (Some (re_renameat2 env), once)
   | Macos \<Rightarrow> (Some (re_renameatx_np env), once)
   | Freebsd \<Rightarrow>
       let found = (case once of None \<Rightarrow> re_dlsym env | Some f \<Rightarrow> f)
       in (if found then Some (re_renameat2 env) else None, Some found)
   | OtherOs \<Rightarrow> (None, once))"

primrec renames :: "target_os \<Rightarrow> rename_env list \<Rightarrow> bool option \<Rightarrow> bool result list" where
  "renames os [] once = []"
| "renames os (env # envs) once = (case noreplace_renameat os env once of (r, once') \<Rightarrow> rename_noreplace_at r # renames os envs once')"

section \<open>What the conversions keep\<close>

definition darwin_request_bits :: "darwin_bits \<Rightarrow> set_attr \<Rightarrow> nat list" where
  "darwin_request_bits D s = request_bits (db_common D) s @ opt_bit (sa_crtime s \<noteq> None) (db_btime_bit D) @
     opt_bit (sa_flags s \<noteq> None) (db_flags_bit D)"

definition distinct_darwin_bits :: "darwin_bits \<Rightarrow> bool" where
  "distinct_darwin_bits D \<longleftrightarrow> (let is = bit_list (db_common D) @ [db_btime_bit D, db_flags_bit D] in distinct is \<and> list_all (\<lambda>i. i < 32) is)"

definition opt_time :: "system_time option \<Rightarrow> i64 \<times> i64" where
  "opt_time x = (case x of None \<Rightarrow> (0, 0) | Some t \<Rightarrow> split_time t)"

definition request_darwin_stat :: "set_attr \<Rightarrow> darwin_stat" where
  "request_darwin_stat s = zeroed_darwin_stat\<lparr>
     ds_mode := (case sa_mode s of None \<Rightarrow> 0 | Some m \<Rightarrow> ucast m),
     ds_uid := (case sa_uid s of None \<Rightarrow> 0 | Some u \<Rightarrow> u),
     ds_gid := (case sa_gid s of None \<Rightarrow> 0 | Some g \<Rightarrow> g),
     ds_size := (case sa_size s of None \<Rightarrow> 0 | Some z \<Rightarrow> z),
     ds_atimespec := chosen_time (sa_atime s), ds_mtimespec := chosen_time (sa_mtime s),
     ds_ctimespec := opt_time (sa_ctime s), ds_birthtimespec := opt_time (sa_crtime s),
     ds_flags := (case sa_flags s of None \<Rightarrow> 0 | Some f \<Rightarrow> f)\<rparr>"

definition darwin_request :: "set_attr \<Rightarrow> bool" where
  "darwin_request s \<longleftrightarrow> (case sa_mode s of None \<Rightarrow> True | Some m \<Rightarrow> unat m < 2 ^ 16) \<and> time_or_now_safe (sa_atime s) \<and>
     time_or_now_safe (sa_mtime s) \<and> (case sa_ctime s of None \<Rightarrow> True | Some t \<Rightarrow> time_safe t) \<and>
     (case sa_crtime s of None \<Rightarrow> True | Some t \<Rightarrow> time_safe t)"

lemma darwin_flags:
  fixes s :: set_attr
  assumes "distinct_darwin_bits D"
  defines "w \<equiv> encode_bits (darwin_request_bits D s)" and "B \<equiv> db_common D"
  shows "has_flag w (fs_mode_bit B) \<longleftrightarrow> sa_mode s \<noteq> None" "has_flag w (fs_uid_bit B) \<longleftrightarrow> sa_uid s \<noteq> None"
    "has_flag w (fs_gid_bit B) \<longleftrightarrow> sa_gid s \<noteq> None" "has_flag w (fs_size_bit B) \<longleftrightarrow> sa_size s \<noteq> None"
    "has_flag w (fs_atime_bit B) \<longleftrightarrow> sa_atime s \<noteq> None" "has_flag w (fs_atime_now_bit B) \<longleftrightarrow> sa_atime s = Some Now"
    "has_flag w (fs_mtime_bit B) \<longleftrightarrow> sa_mtime s \<noteq> None" "has_flag w (fs_mtime_now_bit B) \<longleftrightarrow> sa_mtime s = Some Now"
    "has_flag w (fs_ctime_bit B) \<longleftrightarrow> sa_ctime s \<noteq> None" "has_flag w (db_btime_bit D) \<longleftrightarrow> sa_crtime s \<noteq> None"
    "has_flag w (db_flags_bit D) \<longleftrightarrow> sa_flags s \<noteq> None"
  using assms(1) unfolding w_def B_def distinct_darwin_bits_def bit_list_def Let_def
  by (simp_all add: flag_encode request_bits_def darwin_request_bits_def not_sym)

lemma ctime_field_request:
  assumes "has_flag w at \<longleftrightarrow> x \<noteq> None" "case x of None \<Rightarrow> True | Some t \<Rightarrow> time_safe t"
  shows "ctime_field w at (opt_time x) = Some x"
  using assms by (auto simp: ctime_field_def opt_time_def time_safe_join split: option.splits)

lemma narrow_mode: "unat (m :: u32) < 2 ^ 16 \<Longrightarrow> ucast (ucast m :: u16) = m"
  by (simp add: word_unat_eq_iff unsigned_ucast_eq unsigned_take_bit_eq take_bit_nat_eq_self)

lemma mode_narrow: "unat (kind_to_mode_bits k OR (p AND PERM_MASK)) < 2 ^ 16"
proof -
  let ?x = "kind_to_mode_bits k OR (p AND PERM_MASK)"
  have "kind_to_mode_bits k AND 0xFFFF = kind_to_mode_bits k" by (cases k) (simp_all add: mode_consts)
  moreover have "(p AND PERM_MASK) AND 0xFFFF = p AND PERM_MASK" by (simp add: PERM_MASK_def and.assoc)
  ultimately have "?x AND 0xFFFF = ?x" by (simp add: bit.conj_disj_distrib2)
  moreover have "?x AND 0xFFFF \<le> 0xFFFF" by (rule word_and_le1)
  ultimately have "?x \<le> 0xFFFF" by simp
  then show ?thesis by (simp add: word_le_nat_alt)
qed

text \<open>
  Decoding a request recovers what the kernel encoded, creation time and flags included, whenever the mode fits the 16 bits the struct has
  for it.
\<close>

theorem darwin_setattr_roundtrip:
  assumes "distinct_darwin_bits D" "darwin_request s"
  shows "setattr_from_darwin D (Some (request_darwin_stat s)) (encode_bits (darwin_request_bits D s)) = Some s"
proof -
  note fl = darwin_flags [OF assms(1), of s]
  let ?w = "encode_bits (darwin_request_bits D s)" and ?B = "db_common D"
  have t: "time_field ?w (fs_atime_now_bit ?B) (fs_atime_bit ?B) (chosen_time (sa_atime s)) = Some (sa_atime s)"
    "time_field ?w (fs_mtime_now_bit ?B) (fs_mtime_bit ?B) (chosen_time (sa_mtime s)) = Some (sa_mtime s)"
    using assms(2) by (intro time_field_request fl; simp add: darwin_request_def)+
  have c: "ctime_field ?w (fs_ctime_bit ?B) (opt_time (sa_ctime s)) = Some (sa_ctime s)"
    "ctime_field ?w (db_btime_bit D) (opt_time (sa_crtime s)) = Some (sa_crtime s)"
    using assms(2) by (intro ctime_field_request fl; simp add: darwin_request_def)+
  have st: "ds_atimespec (request_darwin_stat s) = chosen_time (sa_atime s)" "ds_mtimespec (request_darwin_stat s) = chosen_time (sa_mtime s)"
    "ds_ctimespec (request_darwin_stat s) = opt_time (sa_ctime s)" "ds_birthtimespec (request_darwin_stat s) = opt_time (sa_crtime s)"
    by (simp_all add: request_darwin_stat_def)
  show ?thesis
    using assms(2) unfolding setattr_from_darwin_def
    by (simp add: st t c fl Let_def darwin_request_def)
      (auto simp: request_darwin_stat_def narrow_mode intro!: set_attr.equality split: option.splits)
qed

text \<open>
  A reply keeps the attributes, creation time and flags included; a link count is reported modulo 65536, so a node with 65536 links is reported
  with none.
\<close>

theorem darwin_attr_roundtrip:
  assumes "time_safe (na_atime a)" "time_safe (na_mtime a)" "time_safe (na_ctime a)" "time_safe (na_crtime a)"
  shows "\<exists>st. attr_to_darwin_stat n a = Some st \<and> ds_ino st = n \<and> mode_bits_to_kind (ucast (ds_mode st)) = Some (na_kind a) \<and>
    unat (ds_nlink st) = unat (na_nlink a) mod 2 ^ 16 \<and> ds_uid st = na_uid a \<and> ds_gid st = na_gid a \<and> ds_size st = na_size a \<and>
    case_prod secs_nsecs_to_system_time (ds_mtimespec st) = Some (na_mtime a) \<and>
    case_prod secs_nsecs_to_system_time (ds_birthtimespec st) = Some (na_crtime a) \<and> ds_flags st = na_flags a"
proof -
  note m = narrow_mode [OF mode_narrow]
  have nlink: "unat (ucast (x :: u32) :: u16) = unat x mod 2 ^ 16" for x by (simp add: unsigned_ucast_eq take_bit_eq_mod)
  show ?thesis
    using assms time_safe_join [of "na_mtime a"] time_safe_join [of "na_crtime a"]
    by (simp add: attr_to_darwin_stat_def time_safe_split m nlink mode_of_kind mode_bits_to_kind_kind case_prod_beta)
qed

text \<open>
  What a passthrough reads with \<^verbatim>\<open>statfs\<close> it passes on unchanged, and a filesystem that leaves \<^verbatim>\<open>frsize\<close> at zero gets its block size reported
  for it. Only the limit on names does not go through the struct.
\<close>

theorem darwin_statfs_roundtrip:
  assumes "no_nul p" and "statfs p = Inr (statfs_to_darwin s)"
  shows "statfs_path_darwin statfs pathconf p =
    Ok (s\<lparr>sf_frsize := if sf_frsize s = 0 then sf_bsize s else sf_frsize s, sf_namelen := if 0 < sint (pathconf p) then ucast (pathconf p) else 255\<rparr>)"
  using assms by (simp add: statfs_path_darwin_def c_path_def andthen_def sys_result_def statfs_to_darwin_def Let_def)

text \<open>On macOS no option is dropped, and an option that Linux keeps is rendered alike.\<close>

theorem render_darwin_keeps: "render_darwin opt \<noteq> None \<and> (render opt \<noteq> None \<longrightarrow> render_darwin opt = render opt)"
  by (cases opt) simp_all

text \<open>
  A FreeBSD process answers every rename alike with respect to support: when the function was missing at the first call, every later
  call reports that nothing was done, even if the function could be found by then.
\<close>

theorem freebsd_lookup_is_final:
  "renames Freebsd (env # envs) None = map (\<lambda>e. if re_dlsym env then rename_noreplace_at (Some (re_renameat2 e)) else Ok False) (env # envs)"
proof -
  have "renames Freebsd envs (Some f) = map (\<lambda>e. if f then rename_noreplace_at (Some (re_renameat2 e)) else Ok False) envs" for f
    by (induction envs) (simp_all add: noreplace_renameat_def rename_noreplace_at_def)
  then show ?thesis by (simp add: noreplace_renameat_def rename_noreplace_at_def)
qed

end
