(* ===== verification/Handle_Steps.thy ===== *)
theory Handle_Steps
  imports Handle_Table
begin

text \<open>
  The life of one \<^verbatim>\<open>HandleRecord\<close> under concurrency. Threads that serve requests clone the
  record's \<^verbatim>\<open>Arc\<close> out of the table, take a lease, use the payload and drop the lease. The thread
  that serves \<^verbatim>\<open>release\<close> removes the record from the table, closes it, waits on the condition
  variable, and moves the payload out. Every rule is one critical section (of the table's or of the
  record's mutex), a wait, a wake-up, the move of the payload, or the end of the last reference.
\<close>

section \<open>States and steps\<close>

text \<open>
  Where the releasing thread is: the record is still in the table; it has been removed; the thread
  sleeps on \<open>drained\<close>; it has been woken and will test the condition again; it has set \<open>taken\<close> and
  will move the payload; it is done with the record.
\<close>

datatype closer = NotClosing | Removed | Asleep | Awake | Taking | Finished

record handle_world =
  hw_state :: handle_state
  hw_clones :: nat
  hw_leases :: nat
  hw_closer :: closer
  hw_consumed :: nat
  hw_freed :: bool

text \<open>Here \<open>hw_consumed\<close> counts how often the payload was moved out or dropped.\<close>

definition handle_world_new :: handle_world where
  "handle_world_new = \<lparr>hw_state = \<lparr>hs_active = 0, hs_closing = False, hs_taken = False\<rparr>, hw_clones = 0,
     hw_leases = 0, hw_closer = NotClosing, hw_consumed = 0, hw_freed = False\<rparr>"

definition after_drop :: "handle_world \<Rightarrow> handle_world" where
  "after_drop w = (case lease_drop (hw_state w) of (notify, s) \<Rightarrow>
     w\<lparr>hw_state := s, hw_leases := hw_leases w - 1,
       hw_closer := (if notify \<and> hw_closer w = Asleep then Awake else hw_closer w)\<rparr>)"

inductive hstep :: "handle_world \<Rightarrow> handle_world \<Rightarrow> bool" where
  clone: "hw_closer w = NotClosing \<Longrightarrow> hstep w (w\<lparr>hw_clones := Suc (hw_clones w)\<rparr>)"
| acquired: "0 < hw_clones w \<Longrightarrow> acquire (hw_state w) = (Ok (Some ()), s) \<Longrightarrow>
    hstep w (w\<lparr>hw_state := s, hw_clones := hw_clones w - 1, hw_leases := Suc (hw_leases w)\<rparr>)"
| refused: "0 < hw_clones w \<Longrightarrow> acquire (hw_state w) = (r, s) \<Longrightarrow> r \<noteq> Ok (Some ()) \<Longrightarrow>
    hstep w (w\<lparr>hw_state := s, hw_clones := hw_clones w - 1\<rparr>)"
| drop_lease: "0 < hw_leases w \<Longrightarrow> hstep w (after_drop w)"
| remove: "hw_closer w = NotClosing \<Longrightarrow> hstep w (w\<lparr>hw_closer := Removed\<rparr>)"
| abandon: "hw_closer w = Removed \<Longrightarrow> hstep w (w\<lparr>hw_closer := Finished\<rparr>)"
| close_wait: "hw_closer w = Removed \<Longrightarrow> try_take (begin_close (hw_state w)) = None \<Longrightarrow>
    hstep w (w\<lparr>hw_state := begin_close (hw_state w), hw_closer := Asleep\<rparr>)"
| close_take: "hw_closer w = Removed \<Longrightarrow> try_take (begin_close (hw_state w)) = Some s \<Longrightarrow>
    hstep w (w\<lparr>hw_state := s, hw_closer := Taking\<rparr>)"
| spurious: "hw_closer w = Asleep \<Longrightarrow> hstep w (w\<lparr>hw_closer := Awake\<rparr>)"
| wake_wait: "hw_closer w = Awake \<Longrightarrow> try_take (hw_state w) = None \<Longrightarrow> hstep w (w\<lparr>hw_closer := Asleep\<rparr>)"
| wake_take: "hw_closer w = Awake \<Longrightarrow> try_take (hw_state w) = Some s \<Longrightarrow>
    hstep w (w\<lparr>hw_state := s, hw_closer := Taking\<rparr>)"
| move: "hw_closer w = Taking \<Longrightarrow> hstep w (w\<lparr>hw_consumed := Suc (hw_consumed w), hw_closer := Finished\<rparr>)"
| last_ref: "hw_closer w = Finished \<Longrightarrow> hw_clones w = 0 \<Longrightarrow> hw_leases w = 0 \<Longrightarrow> \<not> hw_freed w \<Longrightarrow>
    hstep w (w\<lparr>hw_freed := True, hw_consumed := hw_consumed w + (if hs_taken (hw_state w) then 0 else 1)\<rparr>)"

inductive_cases hstepE: "hstep w w'"

inductive hreach :: "handle_world \<Rightarrow> bool" where
  hreach_init: "hreach handle_world_new"
| hreach_step: "hreach w \<Longrightarrow> hstep w w' \<Longrightarrow> hreach w'"

section \<open>Invariant\<close>

text \<open>
  The lease count is exact; the flags follow the closer; a sleeping closer has a lease to wait for;
  the payload is consumed exactly when it was moved, or dropped with the record.
\<close>

definition closer_ok :: "handle_world \<Rightarrow> bool" where
  "closer_ok w \<longleftrightarrow> (case hw_closer w of
     NotClosing \<Rightarrow> \<not> hs_closing (hw_state w) \<and> \<not> hs_taken (hw_state w)
   | Removed \<Rightarrow> \<not> hs_closing (hw_state w) \<and> \<not> hs_taken (hw_state w)
   | Asleep \<Rightarrow> hs_closing (hw_state w) \<and> \<not> hs_taken (hw_state w) \<and> hs_active (hw_state w) \<noteq> 0
   | Awake \<Rightarrow> hs_closing (hw_state w) \<and> \<not> hs_taken (hw_state w)
   | Taking \<Rightarrow> hs_closing (hw_state w) \<and> hs_taken (hw_state w) \<and> hs_active (hw_state w) = 0
   | Finished \<Rightarrow> hs_closing (hw_state w) = hs_taken (hw_state w) \<and>
       (hs_taken (hw_state w) \<longrightarrow> hs_active (hw_state w) = 0))"

definition consumed_ok :: "handle_world \<Rightarrow> bool" where
  "consumed_ok w \<longleftrightarrow> hw_consumed w = (if hw_closer w = Finished \<and> (hs_taken (hw_state w) \<or> hw_freed w) then 1 else 0) \<and>
     (hw_freed w \<longrightarrow> hw_closer w = Finished \<and> hw_clones w = 0 \<and> hw_leases w = 0)"

definition handle_inv :: "handle_world \<Rightarrow> bool" where
  "handle_inv w \<longleftrightarrow> unat (hs_active (hw_state w)) = hw_leases w \<and> closer_ok w \<and> consumed_ok w"

lemma handle_inv_new: "handle_inv handle_world_new"
  by (simp add: handle_inv_def handle_world_new_def closer_ok_def consumed_ok_def)

lemma acquire_cases:
  assumes "acquire s = (r, s')"
  obtains (closing) "hs_closing s" "r = Ok None" "s' = s" | (full) "\<not> hs_closing s" "r = Panic" "s' = s"
    | (leased) n where "\<not> hs_closing s" "r = Ok (Some ())" "s' = s\<lparr>hs_active := n\<rparr>" "unat n = Suc (unat (hs_active s))"
  using assms by (auto simp: acquire_def split: if_splits option.splits dest: unat_checked_add_1)

lemma handle_inv_drop:
  assumes inv: "handle_inv w" and l: "0 < hw_leases w" shows "handle_inv (after_drop w)"
proof -
  let ?n = "saturating_sub (hs_active (hw_state w)) 1"
  have n: "unat ?n = hw_leases w - 1" using inv by (simp add: handle_inv_def)
  then have n0: "?n = 0 \<longleftrightarrow> hw_leases w = 1" using l by (metis One_nat_def diff_is_0_eq le_antisym le_refl less_eq_Suc_le unat_0 unat_eq_zero)
  have "\<not> hs_taken (hw_state w)"
    using inv l by (auto simp: handle_inv_def closer_ok_def consumed_ok_def split: closer.splits)
  moreover have "\<not> hw_freed w" using inv l by (auto simp: handle_inv_def consumed_ok_def)
  ultimately show ?thesis
    using inv n n0 l
    by (cases "hw_closer w")
      (auto simp: handle_inv_def after_drop_def lease_drop_def Let_def closer_ok_def consumed_ok_def)
qed

lemma handle_inv_step:
  assumes "hstep w w'" "handle_inv w" shows "handle_inv w'"
  using assms(1)
proof cases
  case drop_lease
  with assms(2) show ?thesis by (simp add: handle_inv_drop)
next
  case (acquired s)
  with assms(2) show ?thesis
    by (auto simp: handle_inv_def closer_ok_def consumed_ok_def elim!: acquire_cases split: closer.splits)
next
  case (refused r s)
  with assms(2) show ?thesis
    by (auto simp: handle_inv_def closer_ok_def consumed_ok_def elim!: acquire_cases split: closer.splits)
qed (use assms(2) in \<open>auto simp: handle_inv_def closer_ok_def consumed_ok_def try_take_def begin_close_def
    split: if_splits\<close>)

lemma hreach_inv: "hreach w \<Longrightarrow> handle_inv w"
  by (induction rule: hreach.induct) (auto intro: handle_inv_new handle_inv_step)

section \<open>Properties\<close>

text \<open>
  C10. The payload of an open handle is safe to use and to move: in every interleaving it is moved out
  or dropped at most once, never while a lease on it is live, no lease can be taken afterwards, and
  it is not leaked: once the last reference to the record is gone it was consumed exactly once.
\<close>

theorem handle_payload_safety:
  assumes "hreach w"
  shows "hw_consumed w \<le> 1 \<and>
    (0 < hw_leases w \<longrightarrow> hw_consumed w = 0 \<and> \<not> hs_taken (hw_state w) \<and> \<not> hw_freed w) \<and>
    (hs_taken (hw_state w) \<longrightarrow> fst (acquire (hw_state w)) = Ok None) \<and>
    (hw_freed w \<longrightarrow> hw_consumed w = 1)"
  using hreach_inv [OF assms]
  by (auto simp: handle_inv_def closer_ok_def consumed_ok_def acquire_def split: closer.splits if_splits)

text \<open>A run in which a request holds a lease while the handle is released.\<close>

definition contended :: handle_world where
  "contended = \<lparr>hw_state = \<lparr>hs_active = 1, hs_closing = True, hs_taken = False\<rparr>, hw_clones = 0,
     hw_leases = 1, hw_closer = Asleep, hw_consumed = 0, hw_freed = False\<rparr>"

lemma contended_reachable: "hreach contended"
proof -
  let ?w1 = "handle_world_new\<lparr>hw_clones := 1\<rparr>"
  let ?w2 = "?w1\<lparr>hw_state := \<lparr>hs_active = 1, hs_closing = False, hs_taken = False\<rparr>, hw_clones := 0, hw_leases := 1\<rparr>"
  let ?w3 = "?w2\<lparr>hw_closer := Removed\<rparr>"
  have "hreach ?w1"
    using hreach_step [OF hreach_init hstep.clone] by (simp add: handle_world_new_def)
  then have "hreach ?w2"
    using hstep.acquired [of ?w1 "\<lparr>hs_active = 1, hs_closing = False, hs_taken = False\<rparr>"]
    by (auto simp: handle_world_new_def acquire_def checked_add_def intro: hreach_step)
  then have "hreach ?w3"
    using hstep.remove [of ?w2] by (auto simp: handle_world_new_def intro: hreach_step)
  then show ?thesis
    using hstep.close_wait [of ?w3]
    by (auto simp: handle_world_new_def contended_def try_take_def begin_close_def intro: hreach_step)
qed

theorem handle_payload_safety_witness:
  "hw_leases contended = 1 \<and> hw_closer contended = Asleep \<and> hw_consumed contended = 0"
  using handle_payload_safety [OF contended_reachable] by (simp add: contended_def)

lemma drop_all:
  assumes "handle_inv w" "hw_closer w \<in> {Asleep, Awake}" "hreach w"
  shows "let w' = (after_drop ^^ hw_leases w) w
    in hreach w' \<and> hw_closer w' = Awake \<and> hw_leases w' = 0 \<and> hs_active (hw_state w') = 0"
  using assms
proof (induction "hw_leases w" arbitrary: w)
  case 0
  then have "hs_active (hw_state w) = 0" by (simp add: handle_inv_def unat_eq_zero)
  with 0 show ?case by (auto simp: handle_inv_def closer_ok_def)
next
  case (Suc n)
  have l0: "0 < hw_leases w" using Suc(2) by simp
  have w: "handle_inv (after_drop w)" "hreach (after_drop w)"
    using handle_inv_drop [OF Suc(3) l0] hreach_step [OF Suc(5) hstep.drop_lease [OF l0]] by auto
  have l: "hw_leases (after_drop w) = n" "hw_closer (after_drop w) \<in> {Asleep, Awake}"
    using Suc by (auto simp: after_drop_def split: prod.splits)
  have "(after_drop ^^ hw_leases w) w = (after_drop ^^ n) (after_drop w)"
    using Suc(2) by (metis funpow_Suc_right comp_apply)
  with Suc(1) [OF l(1) [symmetric] w(1) l(2) w(2)] l(1) show ?case by simp
qed

text \<open>
  C11. Releasing a handle waits only for its leases: a sleeping closer always has a live lease to wait
  for, so no wake-up is lost, and once the leases that were live are dropped the closer is awake, the
  loop condition lets it through, and the payload is taken.
\<close>

theorem release_drains:
  assumes "hreach w" and "hw_closer w \<in> {Asleep, Awake}"
  shows "(hw_closer w = Asleep \<longrightarrow> 0 < hw_leases w) \<and>
    (\<exists>w' s. (after_drop ^^ hw_leases w) w = w' \<and> hreach w' \<and> hw_closer w' = Awake \<and>
      try_take (hw_state w') = Some s \<and> hstep w' (w'\<lparr>hw_state := s, hw_closer := Taking\<rparr>))"
proof -
  note inv = hreach_inv [OF assms(1)]
  have "0 < hw_leases w" if "hw_closer w = Asleep"
    using inv that by (auto simp: handle_inv_def closer_ok_def)
      (metis unat_eq_zero neq0_conv)
  let ?w = "(after_drop ^^ hw_leases w) w"
  from drop_all [OF inv assms(2,1)] have w: "hreach ?w" "hw_closer ?w = Awake" "hs_active (hw_state ?w) = 0"
    by (simp_all add: Let_def)
  then have "try_take (hw_state ?w) = Some ((hw_state ?w)\<lparr>hs_taken := True\<rparr>)" by (simp add: try_take_def)
  with w hstep.wake_take \<open>hw_closer w = Asleep \<Longrightarrow> 0 < hw_leases w\<close> show ?thesis by blast
qed

theorem release_drains_witness:
  "\<exists>s. try_take (hw_state (after_drop contended)) = Some s \<and> hs_taken s"
proof -
  have "hw_closer contended \<in> {Asleep, Awake}" "hw_leases contended = 1" by (simp_all add: contended_def)
  with release_drains [OF contended_reachable] show ?thesis by (auto simp: try_take_def split: if_splits)
qed

end
