(* ===== verification/Runtime_Stable.thy ===== *)
theory Runtime_Stable
  imports Kernel_View
begin

text \<open>
  Invariants of a filesystem under the runtime. A filesystem may rely on a relation between its own
  state and the node table. If its callbacks keep the relation, and the bookkeeping the runtime does on
  its own account (lookup, open and lease counts, and dropping inodes that nothing retains) cannot break
  it, then every request keeps it. The relation may also be one that a panic can break: then every
  request that does not panic keeps it.
\<close>

section \<open>The runtime's own bookkeeping\<close>

definition bookkeeping :: "'n shared \<Rightarrow> 'n shared \<Rightarrow> bool" where
  "bookkeeping sh sh' \<longleftrightarrow> table_inv sh' \<and> links_of sh' = links_of sh \<and> sh_heap sh' = sh_heap sh \<and>
     (\<forall>n s'. slot_at sh' n = Some s' \<longrightarrow> (\<exists>s. slot_at sh n = Some s \<and> s_record s = s_record s' \<and> s_generation s = s_generation s'))"

lemma bookkeeping_refl: "table_inv sh \<Longrightarrow> bookkeeping sh sh"
  by (auto simp: bookkeeping_def)

lemma bookkeeping_set_slot:
  assumes "slot_at sh n = Some s" "s_links s' = s_links s" "s_record s' = s_record s" "s_generation s' = s_generation s"
    and "table_inv (with_table (set_slot n s') sh)"
  shows "bookkeeping sh (with_table (set_slot n s') sh)"
  using assms by (auto simp: bookkeeping_def fun_eq_iff counts_slot)

lemma bookkeeping_drop:
  assumes "slot_at sh n = Some s" "s_links s' = s_links s" "s_record s' = s_record s" "s_generation s' = s_generation s"
    and "table_inv (with_table (maybe_drop nid) (with_table (set_slot n s') sh))"
  shows "bookkeeping sh (with_table (maybe_drop nid) (with_table (set_slot n s') sh))"
  using assms by (auto simp: bookkeeping_def fun_eq_iff counts_slot slot_at_maybe_drop split: if_splits)

lemma bookkeeping_maybe_drop: "table_inv sh \<Longrightarrow> bookkeeping sh (with_table (maybe_drop nid) sh)"
  by (simp add: maybe_drop_noop bookkeeping_refl)

lemma bookkeeping_cx_get: "table_inv sh \<Longrightarrow> cx_get nid sh = (r, sh') \<Longrightarrow> bookkeeping sh sh'"
  using table_inv_cx_get [of sh nid r sh'] by (auto elim!: cx_get_cases intro!: bookkeeping_refl bookkeeping_set_slot)

lemma bookkeeping_node_ref_drop: "table_inv sh \<Longrightarrow> bookkeeping sh (node_ref_drop nr sh)"
  using table_inv_node_ref_drop [of sh nr]
  by (auto simp: node_ref_drop_def intro!: bookkeeping_refl bookkeeping_drop bookkeeping_maybe_drop split: option.splits if_splits)

lemma bookkeeping_retain: "table_inv sh \<Longrightarrow> retain_lookup nid sh = (r, sh') \<Longrightarrow> bookkeeping sh sh'"
  using table_inv_retain_lookup [of sh nid r sh']
  by (auto simp: retain_lookup_def intro!: bookkeeping_refl bookkeeping_set_slot split: option.splits)

lemma bookkeeping_entry_retain: "table_inv sh \<Longrightarrow> entry_retain nid attr sh = (r, sh') \<Longrightarrow> bookkeeping sh sh'"
  using table_inv_retain_lookup [of sh nid "fst (retain_lookup nid sh)" "snd (retain_lookup nid sh)"]
  by (auto simp: entry_retain_def retain_lookup_def intro!: bookkeeping_refl bookkeeping_set_slot split: option.splits)

lemma bookkeeping_add_open: "table_inv sh \<Longrightarrow> add_open n sh = (r, sh') \<Longrightarrow> bookkeeping sh sh'"
  using table_inv_add_open [of sh n r sh']
  by (auto simp: add_open_def intro!: bookkeeping_refl bookkeeping_set_slot split: option.splits)

lemma bookkeeping_remove_open: "table_inv sh \<Longrightarrow> bookkeeping sh (remove_open n sh)"
  using table_inv_remove_open [of sh n]
  by (auto simp: remove_open_def intro!: bookkeeping_refl bookkeeping_drop bookkeeping_maybe_drop split: option.splits)

lemma bookkeeping_forget_count: "table_inv sh \<Longrightarrow> forget_count n k sh = (r, sh') \<Longrightarrow> bookkeeping sh sh'"
  using table_inv_forget_count [of sh n k r sh']
  by (auto simp: forget_count_def Let_def intro!: bookkeeping_refl bookkeeping_set_slot split: option.splits if_splits)

section \<open>Requests keep the invariant\<close>

text \<open>\<open>keeps np I m\<close>: the program keeps \<open>I\<close>; if \<open>np\<close> is set, only unless it panics.\<close>

definition keeps :: "bool \<Rightarrow> ('st \<Rightarrow> bool) \<Rightarrow> ('st, 'e, 'a) prog \<Rightarrow> bool" where
  "keeps np I m \<longleftrightarrow> (\<forall>s. I s \<longrightarrow> (np \<longrightarrow> fst (m s) \<noteq> Panic) \<longrightarrow> I (snd (m s)))"

lemma keepsI: "(\<And>s r s'. I s \<Longrightarrow> m s = (r, s') \<Longrightarrow> (np \<Longrightarrow> r \<noteq> Panic) \<Longrightarrow> I s') \<Longrightarrow> keeps np I m"
  by (metis keeps_def prod.collapse)

lemma keepsD: "keeps np I m \<Longrightarrow> I s \<Longrightarrow> m s = (r, s') \<Longrightarrow> (np \<Longrightarrow> r \<noteq> Panic) \<Longrightarrow> I s'"
  by (metis keeps_def fst_conv snd_conv)

lemma always_keepsD: "keeps False I m \<Longrightarrow> I s \<Longrightarrow> m s = (r, s') \<Longrightarrow> I s'"
  by (metis keeps_def snd_conv)

lemma keeps_weaken: "keeps False I m \<Longrightarrow> keeps np I m"
  by (simp add: keeps_def)

lemma keeps_pure: "(\<And>s. snd (m s) = s) \<Longrightarrow> keeps np I m"
  by (simp add: keeps_def)

lemma keeps_Pair: "keeps np I (Pair r)"
  by (rule keeps_pure) simp

lemma keeps_ret [intro]: "keeps np I (ret a)" and keeps_fail [intro]: "keeps np I (fail e)" and keeps_ok_or [intro]: "keeps np I (ok_or e x)"
  by (auto intro!: keeps_pure simp: ok_or_def split: option.splits)

lemma keeps_bnd: "keeps np I m \<Longrightarrow> (\<And>a. keeps np I (f a)) \<Longrightarrow> keeps np I (bnd m f)"
  by (rule keepsI) (auto elim!: bnd_cases dest: keepsD)

lemma keeps_fmap: "keeps np I m \<Longrightarrow> keeps np I (fmap f m)"
  unfolding fmap_def by (intro keeps_bnd keeps_ret)

lemma keeps_reply_with: "keeps np J m \<Longrightarrow> keeps np J (reply_with reply m)"
  by (rule keepsI) (auto simp: reply_with_def split: prod.splits outcome.splits dest: keepsD)

text \<open>The invariant as a predicate of the whole runtime.\<close>

definition on_rt :: "('fs \<times> 'n shared \<Rightarrow> bool) \<Rightarrow> ('fs, 'n, 'h, 'd) runtime \<Rightarrow> bool" where
  "on_rt I rt \<longleftrightarrow> I (rt_fs rt, rt_shared rt)"

text \<open>A condition on every request of a run, in the state in which it is served.\<close>

primrec each_request :: "('fs, 'n, 'h, 'd) node_fs \<Rightarrow> (request \<Rightarrow> ('fs, 'n, 'h, 'd) runtime \<Rightarrow> bool) \<Rightarrow> request list \<Rightarrow>
    ('fs, 'n, 'h, 'd) runtime \<Rightarrow> bool" where
  "each_request F ok [] rt = True"
| "each_request F ok (q # qs) rt = (ok q rt \<and> each_request F ok qs (snd (serve F q rt)))"

locale fs_invariant =
  fixes np :: bool and F :: "('fs, 'n, 'h, 'd) node_fs" and I :: "'fs \<times> 'n shared \<Rightarrow> bool"
  assumes I_table: "I (fs, sh) \<Longrightarrow> table_inv sh"
    and I_bookkeeping: "I (fs, sh) \<Longrightarrow> bookkeeping sh sh' \<Longrightarrow> I (fs, sh')"
    and keeps_forget: "keeps np I (fs_forget F a)"
    and keeps_attrs: "keeps np I (fs_getattr F a oh c)" "keeps np I (fs_entry_attr F a c)" "keeps np I (fs_setattr F a oh sa c)"
      "keeps np I (fs_readlink F a c)" "keeps np I (fs_access F a msk c)" "keeps np I (fs_statfs F c)"
    and keeps_xattrs: "keeps np I (fs_setxattr F a nm bs i c)" "keeps np I (fs_getxattr F a nm sz c)"
      "keeps np I (fs_listxattr F a sz c)" "keeps np I (fs_removexattr F a nm c)"
    and keeps_names: "keeps np I (fs_lookup F p nm c)" "keeps np I (fs_mknod F p nm mode rdev um c)"
      "keeps np I (fs_mkdir F p nm mode um c)" "keeps np I (fs_symlink F p nm tgt c)" "keeps np I (fs_unlink F p nm c)"
      "keeps np I (fs_rmdir F p nm c)" "keeps np I (fs_rename F p nm p' nm' fl c)"
      "keeps np I (fs_create F p nm mode um i c)" "keeps np I (fs_copy_file_range F n1 o1 n2 o2 len i c)"
    and keeps_files: "keeps np I (fs_open F a i c)" "keeps np I (fs_read F a h off sz c)" "keeps np I (fs_write F a h bs off c)"
      "keeps np I (fs_flush F a h c)" "keeps np I (fs_release F a h c)" "keeps np I (fs_fsync F a h b c)"
      "keeps np I (fs_fallocate F a h i off len c)" "keeps np I (fs_lseek F a h off i c)" "keeps np I (fs_getlk F a h own lk c)"
      "keeps np I (fs_setlk F a h own lk b c)" "keeps np I (fs_flock F a h i c)"
    and keeps_dirs: "keeps np I (fs_opendir F a i c)" "keeps np I (fs_releasedir F a d c)" "keeps np I (fs_fsyncdir F a d b c)"
    and keeps_readdir: "I (fs, sh) \<Longrightarrow> fs_readdir F a this par off c (fs, sh, d, k) = (r, (fs', sh', d', k')) \<Longrightarrow> I (fs', sh')"
    and keeps_readdirplus: "I (fs, sh) \<Longrightarrow> fs_readdirplus F a this par off c (fs, sh, d, ac) = (r, (fs', sh', d', ac')) \<Longrightarrow> I (fs', sh')"
begin

lemma keeps_callback: "keeps np I m \<Longrightarrow> keeps np (on_rt I) (callback m)"
  by (rule keepsI) (auto simp: on_rt_def callback_def split: prod.splits dest: keepsD)

lemma keeps_on_table:
  assumes "\<And>sh r sh'. table_inv sh \<Longrightarrow> m sh = (r, sh') \<Longrightarrow> bookkeeping sh sh'" shows "keeps np (on_rt I) (on_table m)"
proof (rule keepsI)
  fix s r s' assume inv: "on_rt I s" and "on_table m s = (r, s')"
  then obtain sh where sh: "m (rt_shared s) = (r, sh)" "s' = s\<lparr>rt_shared := sh\<rparr>"
    by (auto simp: on_table_def split: prod.splits)
  from inv have "I (rt_fs s, rt_shared s)" by (simp add: on_rt_def)
  from I_bookkeeping [OF this assms [OF I_table [OF this] sh(1)]] sh(2) show "on_rt I s'" by (simp add: on_rt_def)
qed

lemma keeps_handles: "keeps b (on_rt I) (on_handles m)"
  by (rule keepsI) (auto simp: on_rt_def on_handles_def split: prod.splits)

lemma on_rt_handles [simp]: "on_rt I (rt\<lparr>rt_handles := t\<rparr>) = on_rt I rt"
  by (simp add: on_rt_def)

lemma on_rt_drop_node: "on_rt I rt \<Longrightarrow> on_rt I (drop_node nr rt)"
  by (auto simp: on_rt_def drop_node_def intro: I_bookkeeping bookkeeping_node_ref_drop I_table)

lemma keeps_dropping: "keeps np (on_rt I) m \<Longrightarrow> keeps np (on_rt I) (\<lambda>rt. case m rt of (r, rt') \<Rightarrow> (r, drop_node nr rt'))"
  by (rule keepsI) (auto split: prod.splits dest: keepsD intro: on_rt_drop_node)

lemma keeps_with_node: "(\<And>nr. keeps np (on_rt I) (body nr)) \<Longrightarrow> keeps np (on_rt I) (with_node nid body)"
  unfolding with_node_def
  by (intro keeps_bnd keeps_on_table) (auto intro: bookkeeping_cx_get keeps_dropping split: option.splits)

lemma keeps_with_lease:
  assumes "\<And>h. keeps np (on_rt I) (body h)" shows "keeps np (on_rt I) (with_lease x body)"
  by (rule keepsI) (auto simp: with_lease_def split: option.splits prod.splits dest: keepsD [OF assms])

lemma keeps_with_file: "(\<And>h. keeps np (on_rt I) (body h)) \<Longrightarrow> keeps np (on_rt I) (with_file n fh body)"
  unfolding with_file_def by (intro keeps_bnd keeps_handles keeps_with_lease)

lemma keeps_optional_file: "keeps np (on_rt I) (optional_file F n a fh)"
proof (rule keepsI)
  fix s r s' assume "on_rt I s" "optional_file F n a fh s = (r, s')"
  moreover have "keeps False (on_rt I) (bnd (on_handles (file_lease n x)) (\<lambda>x. ret (Some x)))" for x
    by (intro keeps_bnd keeps_handles keeps_ret)
  ultimately show "on_rt I s'"
    by (auto simp: optional_file_def Let_def split: option.splits if_splits dest: always_keepsD always_keepsD [OF keeps_handles])
qed

lemma keeps_with_dir:
  assumes "\<And>d rt r d' rt'. on_rt I rt \<Longrightarrow> body d rt = ((r, d'), rt') \<Longrightarrow> (np \<Longrightarrow> r \<noteq> Panic) \<Longrightarrow> on_rt I rt'"
  shows "keeps np (on_rt I) (with_dir n fh body)"
  unfolding with_dir_def
proof (intro keeps_bnd keeps_handles)
  fix d show "keeps np (on_rt I) (\<lambda>rt. case body d rt of ((r, d'), rt') \<Rightarrow> (r, rt'\<lparr>rt_handles := dir_lease_drop fh d' (rt_handles rt')\<rparr>))"
    by (rule keepsI) (auto split: prod.splits dest: assms)
qed

lemmas keeps_runtime = keeps_bnd keeps_ret keeps_with_node keeps_with_file keeps_with_lease keeps_optional_file keeps_handles
  keeps_callback

lemma keeps_entry_for: "keeps np (on_rt I) (entry_for F nid c)"
  unfolding entry_for_def
  by (intro keeps_runtime keeps_attrs keeps_on_table) (rule bookkeeping_entry_retain)

lemma keeps_rt_forget: "keeps np (on_rt I) (rt_forget F n k)"
  unfolding rt_forget_def
proof (intro keeps_bnd keeps_on_table)
  fix x
  have "keeps np (on_rt I) (\<lambda>rt. case callback (fs_forget F (nr_record nr)) rt of (r, rt') \<Rightarrow> (r, drop_node nr rt'))" for nr
    by (intro keeps_dropping keeps_callback keeps_forget)
  moreover have "keeps np (on_rt I) (on_table (\<lambda>sh. (Ok (), with_table (maybe_drop (from_ino n)) sh)))"
    by (intro keeps_on_table) (auto intro: bookkeeping_maybe_drop)
  ultimately show "keeps np (on_rt I) (case x of None \<Rightarrow> ret ()
     | Some (Some nr) \<Rightarrow> (\<lambda>rt. case callback (fs_forget F (nr_record nr)) rt of (r, rt') \<Rightarrow> (r, drop_node nr rt'))
     | Some None \<Rightarrow> on_table (\<lambda>sh. (Ok (), with_table (maybe_drop (from_ino n)) sh)))"
    by (auto split: option.splits)
qed (rule bookkeeping_forget_count)

lemma keeps_forget_all: "keeps np (on_rt I) (forget_all F ids)"
  by (induction ids) (simp_all add: keeps_Pair keeps_ret keeps_bnd keeps_rt_forget)

lemma keeps_opened: "keeps np (on_rt I) (bnd (on_table (add_open n)) (\<lambda>_. bnd (on_handles m) g))" if "\<And>x. keeps np (on_rt I) (g x)"
  by (intro keeps_bnd keeps_on_table keeps_handles that) (rule bookkeeping_add_open)

lemma serve_node_keeps: "keeps np (on_rt I) (serve_node F q n c)"
  by (cases q) (auto simp: rt_statfs_def rt_getattr_def rt_setattr_def rt_readlink_def rt_access_def rt_setxattr_def rt_getxattr_def
      rt_listxattr_def rt_removexattr_def rt_open_def rt_opendir_def
      intro!: keeps_fmap keeps_runtime keeps_opened keeps_attrs keeps_xattrs keeps_files keeps_dirs)

lemma keeps_closing:
  "(\<And>nr h. keeps np I (cb nr h)) \<Longrightarrow> keeps np (on_rt I) (with_node nid (\<lambda>nr. bnd (on_table (\<lambda>sh. (Ok (), remove_open n sh)))
     (\<lambda>_. bnd (\<lambda>rt. (x, rt)) (\<lambda>h. callback (cb nr h)))))"
  by (intro keeps_runtime keeps_on_table keeps_Pair) (auto intro: bookkeeping_remove_open)

lemma keeps_rt_release: "keeps np (on_rt I) (rt_release F n fh c)"
proof (rule keepsI)
  fix rt r rt' assume inv: "on_rt I rt" and run: "rt_release F n fh c rt = (r, rt')" and returns: "np \<Longrightarrow> r \<noteq> Panic"
  show "on_rt I rt'"
  proof (cases "\<exists>rc. bt_get (ht_files (rt_handles rt)) fh = Some rc \<and> ino_of (hr_node rc) = n")
    case True
    then obtain rc where "bt_get (ht_files (rt_handles rt)) fh = Some rc" "ino_of (hr_node rc) = n" by blast
    with run have "with_node (from_ino n) (\<lambda>nr. bnd (on_table (\<lambda>sh. (Ok (), remove_open n sh)))
        (\<lambda>_. bnd (\<lambda>rt. (fst (close_and_take rc), rt)) (\<lambda>h. callback (fs_release F (nr_record nr) h c))))
        (rt\<lparr>rt_handles := (rt_handles rt)\<lparr>ht_files := bt_remove fh (ht_files (rt_handles rt))\<rparr>\<rparr>) = (r, rt')"
      by (simp add: rt_release_def)
    from keepsD [OF keeps_closing [OF keeps_files(5)] _ this returns] inv show ?thesis by simp
  qed (use run inv in \<open>auto simp: rt_release_def split: option.splits if_splits\<close>)
qed

lemma keeps_rt_releasedir: "keeps np (on_rt I) (rt_releasedir F n fh c)"
proof (rule keepsI)
  fix rt r rt' assume inv: "on_rt I rt" and run: "rt_releasedir F n fh c rt = (r, rt')" and returns: "np \<Longrightarrow> r \<noteq> Panic"
  show "on_rt I rt'"
  proof (cases "\<exists>rc. bt_get (ht_dirs (rt_handles rt)) fh = Some rc \<and> ino_of (hr_node rc) = n")
    case True
    then obtain rc where "bt_get (ht_dirs (rt_handles rt)) fh = Some rc" "ino_of (hr_node rc) = n" by blast
    with run have "with_node (from_ino n) (\<lambda>nr. bnd (on_table (\<lambda>sh. (Ok (), remove_open n sh)))
        (\<lambda>_. bnd (\<lambda>rt. (fst (close_and_take rc), rt)) (\<lambda>h. callback (fs_releasedir F (nr_record nr) h c))))
        (rt\<lparr>rt_handles := (rt_handles rt)\<lparr>ht_dirs := bt_remove fh (ht_dirs (rt_handles rt))\<rparr>\<rparr>) = (r, rt')"
      by (simp add: rt_releasedir_def)
    from keepsD [OF keeps_closing [OF keeps_dirs(2)] _ this returns] inv show ?thesis by simp
  qed (use run inv in \<open>auto simp: rt_releasedir_def split: option.splits if_splits\<close>)
qed

lemma serve_file_keeps: "keeps np (on_rt I) (serve_file F q n fh c)"
  by (cases q) (auto simp: rt_read_def rt_write_def rt_flush_def rt_fsync_def rt_fallocate_def rt_lseek_def rt_getlk_def
      rt_setlk_def rt_flock_def intro!: keeps_fmap keeps_reply_with keeps_runtime keeps_files keeps_rt_release)

lemma keeps_parent_of: "keeps np (on_rt I) (parent_of n)"
  by (rule keeps_pure) (auto simp: parent_of_def ok_or_def split: option.splits)

lemma keeps_rt_readdir: "keeps np (on_rt I) (rt_readdir F n fh off k c)"
  unfolding rt_readdir_def
proof (intro keeps_with_node keeps_bnd keeps_parent_of keeps_with_dir)
  fix nr par d rt r d' rt'
  assume "on_rt I rt" "(case dir_callback (fs_readdir F (nr_record nr) (from_ino n) par off c) k d rt of
      ((Ok _, d', k'), rt') \<Rightarrow> ((Ok k', d'), rt') | ((Err e, d', k'), rt') \<Rightarrow> ((Err e, d'), rt')
    | ((Panic, d', k'), rt') \<Rightarrow> ((Panic, d'), rt') | ((Blocks, d', k'), rt') \<Rightarrow> ((Blocks, d'), rt')) = ((r, d'), rt')"
  then show "on_rt I rt'"
    by (auto simp: on_rt_def dir_callback_def split: prod.splits outcome.splits dest: keeps_readdir)
qed

lemma keeps_rt_readdirplus: "keeps np (on_rt I) (rt_readdirplus F n fh off k c)"
  unfolding rt_readdirplus_def
proof (intro keeps_with_node keeps_bnd keeps_parent_of keeps_with_dir)
  fix nr par d rt r d' rt'
  assume inv: "on_rt I rt" and run: "(case dir_callback (fs_readdirplus F (nr_record nr) (from_ino n) par off c)
      \<lparr>ac_inner = k, ac_accepted = []\<rparr> d rt of (x, rt') \<Rightarrow> plus_result F x rt') = ((r, d'), rt')"
    and returns: "np \<Longrightarrow> r \<noteq> Panic"
  obtain q d1 ac rt1 where cb: "dir_callback (fs_readdirplus F (nr_record nr) (from_ino n) par off c)
      \<lparr>ac_inner = k, ac_accepted = []\<rparr> d rt = ((q, d1, ac), rt1)" by (metis prod.exhaust)
  have 1: "on_rt I rt1"
    using inv cb by (auto simp: on_rt_def dir_callback_def split: prod.splits dest: keeps_readdirplus)
  have "keeps np (on_rt I) (bnd (forget_all F ids) (\<lambda>_. fail e))" for ids e
    by (intro keeps_bnd keeps_forget_all keeps_fail)
  from keepsD [OF this 1, of _ _ r rt'] returns run cb 1 show "on_rt I rt'"
    by (auto simp: plus_result_def split: outcome.splits prod.splits)
qed

lemma keeps_rt_fsyncdir: "keeps np (on_rt I) (rt_fsyncdir F n fh b c)"
  unfolding rt_fsyncdir_def
  by (intro keeps_with_node keeps_with_dir)
    (auto split: prod.splits dest: keepsD [OF keeps_callback [OF keeps_dirs(3)]])

lemma serve_dir_keeps: "keeps np (on_rt I) (serve_dir F q n fh c)"
  by (cases q) (auto intro!: keeps_fmap keeps_rt_readdir keeps_rt_readdirplus keeps_rt_fsyncdir keeps_rt_releasedir)

lemma serve_name_keeps: "(\<And>n p nm. q \<noteq> Link n p nm) \<Longrightarrow> keeps np (on_rt I) (serve_name F q c)"
  by (cases q) (auto simp: rt_lookup_def rt_mknod_def rt_mkdir_def rt_symlink_def rt_unlink_def rt_rmdir_def rt_rename_def
      rt_create_def rt_copy_file_range_def split: option.splits
      intro!: keeps_fmap keeps_runtime keeps_opened keeps_names keeps_entry_for)

text \<open>Every request but a hard link, which a filesystem may restrict further.\<close>

lemma serve_keeps: "(\<And>n p nm c. q \<noteq> OnName (Link n p nm) c) \<Longrightarrow> keeps np (on_rt I) (serve F q)"
  by (cases q) (auto intro!: serve_node_keeps serve_file_keeps serve_dir_keeps serve_name_keeps keeps_fmap keeps_rt_forget)

lemma run_keeps:
  assumes link: "\<And>n p nm c rt r rt'. on_rt I rt \<Longrightarrow> ok (OnName (Link n p nm) c) rt \<Longrightarrow>
      serve F (OnName (Link n p nm) c) rt = (r, rt') \<Longrightarrow> (np \<Longrightarrow> r \<noteq> Panic) \<Longrightarrow> on_rt I rt'"
  shows "on_rt I rt \<Longrightarrow> each_request F ok qs rt \<Longrightarrow> (np \<Longrightarrow> Panic \<notin> set (fst (run F qs rt))) \<Longrightarrow> on_rt I (snd (run F qs rt))"
proof (induction qs arbitrary: rt)
  case (Cons q qs)
  obtain r rt1 where s: "serve F q rt = (r, rt1)" by fastforce
  obtain rs rt2 where rs: "run F qs rt1 = (rs, rt2)" by fastforce
  have returns: "np \<Longrightarrow> r \<noteq> Panic" "np \<Longrightarrow> Panic \<notin> set rs" using Cons.prems(3) s rs by auto
  have "on_rt I rt1"
  proof (cases "\<exists>n p nm c. q = OnName (Link n p nm) c")
    case True
    then obtain n p nm c where "q = OnName (Link n p nm) c" by blast
    with link [of rt n p nm c r rt1] Cons.prems returns(1) s show ?thesis by simp
  next
    case False
    then show ?thesis using keepsD [OF serve_keeps Cons.prems(1) s returns(1)] by blast
  qed
  with Cons.IH [of rt1] Cons.prems(2) returns(2) s rs show ?case by (auto split: prod.splits)
qed simp

end

end
