(* ===== verification/No_Opendir.thy ===== *)
theory No_Opendir
  imports Runtime_Stable
begin

text \<open>
  A filesystem whose \<^verbatim>\<open>opendir\<close> always fails, as the default one does: no request ever adds a directory handle, so
  whatever it implements in \<^verbatim>\<open>readdir\<close> is never called.
\<close>

section \<open>No directory is open\<close>

text \<open>The state between requests, with the time-to-live values of the runtime, which no request changes.\<close>

definition unlisted :: "nat \<Rightarrow> nat \<Rightarrow> ('fs, 'n, 'h, 'd) runtime \<Rightarrow> bool" where
  "unlisted ttl nttl rt \<longleftrightarrow> ht_dirs (rt_handles rt) = [] \<and> rt_ttl rt = ttl \<and> rt_negative_ttl rt = nttl"

lemma unlisted_update [simp]:
  "unlisted ttl nttl (rt\<lparr>rt_fs := fs\<rparr>) = unlisted ttl nttl rt" "unlisted ttl nttl (rt\<lparr>rt_shared := sh\<rparr>) = unlisted ttl nttl rt"
  "unlisted ttl nttl (drop_node nr rt) = unlisted ttl nttl rt"
  "ht_dirs t = ht_dirs (rt_handles rt) \<Longrightarrow> unlisted ttl nttl (rt\<lparr>rt_handles := t\<rparr>) = unlisted ttl nttl rt"
  by (simp_all add: unlisted_def drop_node_def)

lemma unlisted_parts:
  "keeps np (unlisted ttl nttl) (callback m)" "keeps np (unlisted ttl nttl) (on_table m')" "keeps np (unlisted ttl nttl) (parent_of n)"
  by (auto simp: keeps_def callback_def on_table_def parent_of_def ok_or_def split: prod.splits option.splits)

text \<open>Operations on file handles leave the directory handles alone.\<close>

lemma unlisted_handles:
  assumes "\<And>t. ht_dirs (snd (m t)) = ht_dirs t" shows "keeps np (unlisted ttl nttl) (on_handles m)"
proof (rule keepsI)
  fix rt r rt' assume "unlisted ttl nttl rt" "on_handles m rt = (r, rt')"
  with assms [of "rt_handles rt"] show "unlisted ttl nttl rt'" by (auto simp: on_handles_def split: prod.splits)
qed

lemma dirs_file_lease: "ht_dirs (snd (file_lease n fh t)) = ht_dirs t" "ht_dirs (file_lease_drop fh t) = ht_dirs t"
    "ht_dirs (snd (fallback_lease n t)) = ht_dirs t" "ht_dirs (snd (add_file nid h t)) = ht_dirs t"
  by (auto simp: file_lease_def file_lease_drop_def fallback_lease_def add_file_def next_handle_def bnd_def
      split: option.splits outcome.splits prod.splits)

lemma unlisted_with_lease:
  assumes "\<And>h. keeps np (unlisted ttl nttl) (body h)" shows "keeps np (unlisted ttl nttl) (with_lease x body)"
  by (rule keepsI) (auto simp: with_lease_def dirs_file_lease split: option.splits prod.splits dest: keepsD [OF assms])

lemma unlisted_with_file:
  "(\<And>h. keeps np (unlisted ttl nttl) (body h)) \<Longrightarrow> keeps np (unlisted ttl nttl) (with_file n fh body)"
  unfolding with_file_def by (intro keeps_bnd unlisted_handles unlisted_with_lease dirs_file_lease)

lemma unlisted_optional_file: "keeps np (unlisted ttl nttl) (optional_file F n a fh)"
proof (cases fh)
  case None
  have "keeps np (unlisted ttl nttl) (on_handles (fallback_lease n))" by (intro unlisted_handles dirs_file_lease)
  with None show ?thesis by (auto simp: keeps_def optional_file_def Let_def split: if_splits option.splits)
next
  case (Some fh)
  have "keeps np (unlisted ttl nttl) (bnd (on_handles (file_lease n fh)) (\<lambda>x. ret (Some x)))"
    by (intro keeps_bnd unlisted_handles keeps_ret dirs_file_lease)
  with Some show ?thesis by (simp add: keeps_def optional_file_def)
qed

lemma unlisted_dropping:
  "keeps np (unlisted ttl nttl) m \<Longrightarrow> keeps np (unlisted ttl nttl) (\<lambda>rt. case m rt of (r, rt') \<Rightarrow> (r, drop_node nr rt'))"
  by (simp add: keeps_def case_prod_beta)

lemma unlisted_with_node:
  "(\<And>nr. keeps np (unlisted ttl nttl) (body nr)) \<Longrightarrow> keeps np (unlisted ttl nttl) (with_node nid body)"
  unfolding with_node_def by (auto intro!: keeps_bnd unlisted_parts unlisted_dropping split: option.splits)

text \<open>Without a directory handle every operation on one is refused before the filesystem is asked.\<close>

lemma with_dir_refused: "unlisted ttl nttl rt \<Longrightarrow> with_dir n fh body rt = (Err EBADF, rt)"
  by (simp add: with_dir_def bnd_def on_handles_def dir_lease_def unlisted_def)

lemma unlisted_with_dir: "keeps np (unlisted ttl nttl) (with_dir n fh body)"
  by (rule keepsI) (auto simp: with_dir_refused)

lemmas unlisted_ops = keeps_bnd keeps_ret keeps_fmap keeps_reply_with unlisted_parts unlisted_with_node unlisted_with_file
  unlisted_with_lease unlisted_optional_file unlisted_with_dir

lemma unlisted_entry_for: "keeps np (unlisted ttl nttl) (entry_for F nid c)"
  unfolding entry_for_def by (intro unlisted_ops)

lemma unlisted_add_file: "keeps np (unlisted ttl nttl) (on_handles (add_file nid h))"
  by (intro unlisted_handles dirs_file_lease)

lemma unlisted_forget: "keeps np (unlisted ttl nttl) (rt_forget F n k)"
  unfolding rt_forget_def by (auto intro!: keeps_bnd unlisted_parts unlisted_dropping split: option.splits)

lemma unlisted_release: "keeps np (unlisted ttl nttl) (rt_release F n fh c)"
proof -
  have closing: "keeps np (unlisted ttl nttl) (with_node (from_ino n) (\<lambda>nr. bnd (on_table (\<lambda>sh. (Ok (), remove_open n sh)))
      (\<lambda>_. bnd (Pair x) (\<lambda>h. callback (fs_release F (nr_record nr) h c)))))" for x
    by (intro unlisted_ops keeps_Pair)
  show ?thesis
  proof (rule keepsI)
    fix rt r rt' assume inv: "unlisted ttl nttl rt" and run: "rt_release F n fh c rt = (r, rt')" and np: "np \<Longrightarrow> r \<noteq> Panic"
    from inv have "unlisted ttl nttl (rt\<lparr>rt_handles := (rt_handles rt)\<lparr>ht_files := bt_remove fh (ht_files (rt_handles rt))\<rparr>\<rparr>)" by simp
    from keepsD [OF closing this] inv run np show "unlisted ttl nttl rt'"
      by (auto simp: rt_release_def split: option.splits if_splits)
  qed
qed

lemma unlisted_file: "keeps np (unlisted ttl nttl) (serve_file F q n fh c)"
  by (cases q) (auto simp: rt_read_def rt_write_def rt_flush_def rt_fsync_def rt_fallocate_def rt_lseek_def rt_getlk_def
      rt_setlk_def rt_flock_def intro!: unlisted_ops unlisted_release)

lemma unlisted_dir: "keeps np (unlisted ttl nttl) (serve_dir F q n fh c)"
proof -
  have "keeps np (unlisted ttl nttl) (rt_releasedir F n fh c)"
    by (rule keepsI) (auto simp: rt_releasedir_def unlisted_def)
  then show ?thesis
    by (cases q) (auto simp: rt_readdir_def rt_readdirplus_def rt_fsyncdir_def intro!: unlisted_ops)
qed

lemma unlisted_name: "keeps np (unlisted ttl nttl) (serve_name F q c)"
  by (cases q) (auto simp: rt_lookup_def rt_mknod_def rt_mkdir_def rt_symlink_def rt_link_def rt_unlink_def rt_rmdir_def rt_rename_def
      rt_create_def rt_copy_file_range_def split: option.splits intro!: unlisted_ops unlisted_entry_for unlisted_add_file)

section \<open>Filesystems that refuse to open directories\<close>

locale no_opendir =
  fixes F :: "('fs, 'n, 'h, 'd) node_fs"
  assumes opendir_fails: "fst (fs_opendir F a i c s) \<noteq> Ok opn"
begin

lemma unlisted_opendir: "keeps np (unlisted ttl nttl) (rt_opendir F n i c)"
proof -
  have "keeps np (unlisted ttl nttl) (bnd (callback (fs_opendir F a i c)) k)" for a k
  proof (rule keepsI)
    fix rt r rt' assume inv: "unlisted ttl nttl rt" and run: "bnd (callback (fs_opendir F a i c)) k rt = (r, rt')"
    from run show "unlisted ttl nttl rt'"
    proof (cases rule: bnd_cases)
      case (ok opn s)
      with opendir_fails [of a i c "(rt_fs rt, rt_shared rt)" opn] show ?thesis by (auto simp: callback_def split: prod.splits)
    qed (use inv in \<open>auto simp: callback_def split: prod.splits\<close>)
  qed
  then show ?thesis unfolding rt_opendir_def by (intro unlisted_with_node)
qed

lemma unlisted_node: "keeps np (unlisted ttl nttl) (serve_node F q n c)"
  by (cases q) (auto simp: rt_statfs_def rt_getattr_def rt_setattr_def rt_readlink_def rt_access_def rt_setxattr_def rt_getxattr_def
      rt_listxattr_def rt_removexattr_def rt_open_def intro!: unlisted_ops unlisted_opendir unlisted_add_file)

lemma unlisted_serve: "keeps np (unlisted ttl nttl) (serve F q)"
  by (cases q) (auto intro!: unlisted_node unlisted_file unlisted_dir unlisted_name unlisted_forget keeps_fmap)

lemma unlisted_run: "unlisted ttl nttl rt \<Longrightarrow> run F qs rt = (rs, rt') \<Longrightarrow> unlisted ttl nttl rt'"
  by (induction qs arbitrary: rt rs) (auto split: prod.splits dest: always_keepsD [OF unlisted_serve])

text \<open>Every request to read a directory fails, whatever handle it names.\<close>

lemma readdir_refused:
  assumes "unlisted ttl nttl rt" "rt_inv rt"
  shows "fst (rt_readdir F n fh off k c rt) = Err (if slot_at (rt_shared rt) n = None then ENOENT else EBADF)"
proof (cases "slot_at (rt_shared rt) n")
  case None
  then show ?thesis by (simp add: rt_readdir_def with_node_def bnd_def on_table_def cx_get_def)
next
  case (Some s)
  with assms(2) have "s_leases s = 0" by (auto simp: rt_inv_def leases_of_def unat_eq_0 dest: spec [of _ n])
  with Some assms(1) show ?thesis
    by (simp add: rt_readdir_def with_node_def bnd_def on_table_def cx_get_def checked_add_def parent_of_def with_dir_refused)
qed

end

end
