(* ===== verification/Memory_Tree.thy ===== *)
theory Memory_Tree
  imports Memory_Fs
begin

text \<open>
  The abstract specification of the in-memory filesystem's names: a tree of nodes with a kind, named entries, a
  body (the bytes of a file, the target of a symlink) and a link count, beside the number of links the runtime counts for each inode. \<open>tree_ok\<close> says when the two fit together; every
  operation on names keeps it. No times or locks occur here.
\<close>

section \<open>Trees\<close>

record tnode =
  tn_kind :: file_kind
  tn_ents :: "os_str \<rightharpoonup> mem_entry"
  tn_body :: content
  tn_nlink :: nat

type_synonym tree = "u64 \<rightharpoonup> tnode"

text \<open>The inode an entry leads to, the names of an inode, and the entries of a directory that are directories.\<close>

abbreviation me_ino :: "mem_entry \<Rightarrow> u64" where
  "me_ino e \<equiv> ino_of (me_id e)"

definition refs :: "tree \<Rightarrow> u64 \<Rightarrow> (u64 \<times> os_str) set" where
  "refs T m = {(n, nm). \<exists>d e. T n = Some d \<and> tn_ents d nm = Some e \<and> me_ino e = m}"

definition subdirs :: "tnode \<Rightarrow> os_str set" where
  "subdirs d = {nm. \<exists>e. tn_ents d nm = Some e \<and> me_kind e = Directory}"

text \<open>
  A tree is well-formed: it is finite, only directories have entries, every entry leads to a node of the kind it says and
  none to the root. An inode has at least as many links as names. A directory has at most one link, and while it has one its link
  count is two more than the number of its subdirectories; the link count of anything else is the number of its links.
\<close>

definition nodes_ok :: "tree \<Rightarrow> bool" where
  "nodes_ok T \<longleftrightarrow> finite (dom T) \<and>
     (\<forall>n d. T n = Some d \<longrightarrow> finite (dom (tn_ents d)) \<and> (tn_kind d \<noteq> Directory \<longrightarrow> tn_ents d = Map.empty))"

definition entries_ok :: "tree \<Rightarrow> bool" where
  "entries_ok T \<longleftrightarrow> (\<forall>n d nm e. T n = Some d \<longrightarrow> tn_ents d nm = Some e \<longrightarrow>
     me_ino e \<noteq> 1 \<and> (\<exists>d'. T (me_ino e) = Some d' \<and> tn_kind d' = me_kind e))"

definition count_ok :: "tnode \<Rightarrow> nat \<Rightarrow> bool" where
  "count_ok d k \<longleftrightarrow> (if tn_kind d = Directory then k \<le> 1 \<and> (k = 1 \<longrightarrow> tn_nlink d = 2 + card (subdirs d)) else tn_nlink d = k)"

definition counts_ok :: "tree \<Rightarrow> (u64 \<Rightarrow> nat) \<Rightarrow> bool" where
  "counts_ok T L \<longleftrightarrow> (\<forall>n d. T n = Some d \<longrightarrow> count_ok d (L n))"

definition tree_ok :: "tree \<Rightarrow> (u64 \<Rightarrow> nat) \<Rightarrow> bool" where
  "tree_ok T L \<longleftrightarrow> nodes_ok T \<and> entries_ok T \<and> counts_ok T L \<and> (\<forall>m. card (refs T m) \<le> L m) \<and> L 1 = 1 \<and>
     (\<exists>d. T 1 = Some d \<and> tn_kind d = Directory)"

lemma tree_okD:
  assumes "tree_ok T L"
  shows "nodes_ok T" "entries_ok T" "counts_ok T L" "card (refs T m) \<le> L m" "L 1 = 1"
    "\<exists>d. T 1 = Some d \<and> tn_kind d = Directory"
  using assms by (auto simp: tree_ok_def)

lemma nodes_okD:
  assumes "nodes_ok T" "T n = Some d"
  shows "finite (dom (tn_ents d))" "tn_ents d nm = Some e \<Longrightarrow> tn_kind d = Directory"
  using assms unfolding nodes_ok_def by (auto, metis option.distinct(1))

lemma entries_okD:
  assumes "entries_ok T" "T n = Some d" "tn_ents d nm = Some e"
  shows "me_ino e \<noteq> 1" "\<exists>d'. T (me_ino e) = Some d' \<and> tn_kind d' = me_kind e"
  using assms by (auto simp: entries_ok_def)

lemma refs_mem: "(n, nm) \<in> refs T m \<longleftrightarrow> (\<exists>d e. T n = Some d \<and> tn_ents d nm = Some e \<and> me_ino e = m)"
  by (simp add: refs_def)

lemma finite_refs: "nodes_ok T \<Longrightarrow> finite (refs T m)"
proof -
  assume "nodes_ok T"
  then have "finite (SIGMA n : dom T. dom (tn_ents (the (T n))))"
    by (intro finite_SigmaI) (auto simp: nodes_ok_def)
  moreover have "refs T m \<subseteq> (SIGMA n : dom T. dom (tn_ents (the (T n))))" by (auto simp: refs_def)
  ultimately show ?thesis by (rule finite_subset [rotated])
qed

lemma finite_subdirs: "finite (dom (tn_ents d)) \<Longrightarrow> finite (subdirs d)"
  by (rule finite_subset [of _ "dom (tn_ents d)"]) (auto simp: subdirs_def)

text \<open>An entry is a name of the inode it leads to, so that inode has a link.\<close>

lemma named_has_link:
  assumes "tree_ok T L" "T n = Some d" "tn_ents d nm = Some e" shows "0 < L (me_ino e)"
proof -
  have "(n, nm) \<in> refs T (me_ino e)" using assms(2,3) by (auto simp: refs_mem)
  with finite_refs [OF tree_okD(1) [OF assms(1)]] have "0 < card (refs T (me_ino e))" by (auto simp: card_gt_0_iff)
  with tree_okD(4) [OF assms(1), of "me_ino e"] show ?thesis by simp
qed

section \<open>Operations\<close>

definition at :: "u64 \<Rightarrow> (tnode \<Rightarrow> tnode) \<Rightarrow> tree \<Rightarrow> tree" where
  "at n f T = T(n := map_option f (T n))"

definition dir_weight :: "mem_entry \<Rightarrow> nat" where
  "dir_weight e = (if me_kind e = Directory then 1 else 0)"

definition add_ent :: "os_str \<Rightarrow> mem_entry \<Rightarrow> tnode \<Rightarrow> tnode" where
  "add_ent nm e d = d\<lparr>tn_ents := (tn_ents d)(nm \<mapsto> e), tn_nlink := tn_nlink d + dir_weight e\<rparr>"

definition del_ent :: "os_str \<Rightarrow> mem_entry \<Rightarrow> tnode \<Rightarrow> tnode" where
  "del_ent nm e d = d\<lparr>tn_ents := (tn_ents d)(nm := None), tn_nlink := tn_nlink d - dir_weight e\<rparr>"

definition unname :: "mem_entry \<Rightarrow> tnode \<Rightarrow> tnode" where
  "unname e d = d\<lparr>tn_nlink := if me_kind e = Directory then 0 else tn_nlink d - 1\<rparr>"

definition t_new :: "file_kind \<Rightarrow> content \<Rightarrow> tnode" where
  "t_new kind body = \<lparr>tn_kind = kind, tn_ents = Map.empty, tn_body = body, tn_nlink = (if kind = Directory then 2 else 1)\<rparr>"

definition t_create :: "u64 \<Rightarrow> os_str \<Rightarrow> mem_entry \<Rightarrow> content \<Rightarrow> tree \<Rightarrow> tree" where
  "t_create p nm e body T = at p (add_ent nm e) (T(me_ino e \<mapsto> t_new (me_kind e) body))"

definition t_fill :: "u64 \<Rightarrow> content \<Rightarrow> tree \<Rightarrow> tree" where
  "t_fill n body T = at n (\<lambda>d. d\<lparr>tn_body := body\<rparr>) T"

definition t_remove :: "u64 \<Rightarrow> os_str \<Rightarrow> mem_entry \<Rightarrow> tree \<Rightarrow> tree" where
  "t_remove p nm e T = at (me_ino e) (unname e) (at p (del_ent nm e) T)"

definition t_move :: "u64 \<Rightarrow> os_str \<Rightarrow> u64 \<Rightarrow> os_str \<Rightarrow> mem_entry \<Rightarrow> tree \<Rightarrow> tree" where
  "t_move p nm q nm' e T = at q (add_ent nm' e) (at p (del_ent nm e) T)"

definition t_link :: "u64 \<Rightarrow> os_str \<Rightarrow> mem_entry \<Rightarrow> tree \<Rightarrow> tree" where
  "t_link q nm e T = at (me_ino e) (\<lambda>d. d\<lparr>tn_nlink := Suc (tn_nlink d)\<rparr>) (at q (add_ent nm e) T)"

lemma at_apply: "at n f T m = (if m = n then map_option f (T n) else T m)"
  by (simp add: at_def)

lemma op_fields [simp]:
  "tn_kind (add_ent nm e d) = tn_kind d" "tn_kind (del_ent nm e d) = tn_kind d" "tn_kind (unname e d) = tn_kind d"
  "tn_ents (add_ent nm e d) = (tn_ents d)(nm \<mapsto> e)" "tn_ents (del_ent nm e d) = (tn_ents d)(nm := None)"
  "tn_ents (unname e d) = tn_ents d" "tn_kind (t_new k b) = k" "tn_ents (t_new k b) = Map.empty"
  "tn_nlink (add_ent nm e d) = tn_nlink d + dir_weight e" "tn_nlink (del_ent nm e d) = tn_nlink d - dir_weight e"
  by (simp_all add: add_ent_def del_ent_def unname_def t_new_def)

section \<open>Names after an operation\<close>

lemma refs_at_same: "(\<And>d. tn_ents (f d) = tn_ents d) \<Longrightarrow> refs (at n f T) m = refs T m"
  by (auto simp: refs_def at_apply split: if_splits)

lemma refs_at_del: "refs (at p (del_ent nm e) T) m = refs T m - {(p, nm)}"
  by (auto simp: refs_def at_apply split: if_splits)

lemma refs_at_add:
  assumes "T p = Some P" "tn_ents P nm = None"
  shows "refs (at p (add_ent nm e) T) m = (if me_ino e = m then insert (p, nm) (refs T m) else refs T m)"
  using assms by (auto simp: refs_def at_apply split: if_splits)

lemma refs_fresh: "T m' = None \<Longrightarrow> refs (T(m' \<mapsto> t_new k b)) m = refs T m"
  by (auto simp: refs_def split: if_splits)

lemma card_subdirs_add:
  assumes "finite (dom (tn_ents d))" "tn_ents d nm = None"
  shows "card (subdirs (add_ent nm e d)) = card (subdirs d) + dir_weight e"
proof -
  have "subdirs (add_ent nm e d) = (if me_kind e = Directory then insert nm (subdirs d) else subdirs d)"
    using assms(2) by (auto simp: subdirs_def split: if_splits)
  moreover have "nm \<notin> subdirs d" using assms(2) by (auto simp: subdirs_def)
  ultimately show ?thesis using finite_subdirs [OF assms(1)] by (simp add: dir_weight_def)
qed

lemma card_subdirs_del:
  assumes "finite (dom (tn_ents d))" "tn_ents d nm = Some e"
  shows "card (subdirs d) = card (subdirs (del_ent nm e d)) + dir_weight e"
proof -
  have eq: "subdirs (del_ent nm e d) = subdirs d - {nm}" by (auto simp: subdirs_def split: if_splits)
  show ?thesis
  proof (cases "me_kind e = Directory")
    case True
    then have "nm \<in> subdirs d" using assms(2) by (auto simp: subdirs_def)
    with card_Suc_Diff1 [OF finite_subdirs [OF assms(1)]] have "card (subdirs d) = card (subdirs d - {nm}) + 1" by force
    with True eq show ?thesis by (simp only: dir_weight_def refl if_True)
  next
    case False
    then have "nm \<notin> subdirs d" using assms(2) by (auto simp: subdirs_def)
    with False eq show ?thesis by (simp add: dir_weight_def)
  qed
qed

lemma card_subdirs_same [simp]: "card (subdirs (unname e d)) = card (subdirs d)"
  by (simp add: subdirs_def)

lemma subdirs_new [simp]: "subdirs (t_new k b) = {}"
  by (simp add: subdirs_def)

section \<open>Operations keep trees well-formed\<close>

lemma count_ok_ops:
  assumes "count_ok d k"
  shows "finite (dom (tn_ents d)) \<Longrightarrow> tn_kind d = Directory \<Longrightarrow> tn_ents d nm = Some e \<Longrightarrow> count_ok (del_ent nm e d) k"
    and "finite (dom (tn_ents d)) \<Longrightarrow> tn_kind d = Directory \<Longrightarrow> tn_ents d nm = None \<Longrightarrow> count_ok (add_ent nm e d) k"
    and "tn_kind d = me_kind e \<Longrightarrow> count_ok (unname e d) (k - 1)"
    and "tn_kind d \<noteq> Directory \<Longrightarrow> count_ok (d\<lparr>tn_nlink := Suc (tn_nlink d)\<rparr>) (Suc k)"
proof -
  show "count_ok (del_ent nm e d) k" if "finite (dom (tn_ents d))" "tn_kind d = Directory" "tn_ents d nm = Some e"
    using assms card_subdirs_del [OF that(1,3)] that(2) unfolding count_ok_def op_fields by (cases "k = 1") simp_all
  show "count_ok (add_ent nm e d) k" if "finite (dom (tn_ents d))" "tn_kind d = Directory" "tn_ents d nm = None"
    using assms card_subdirs_add [OF that(1,3), of e] that(2) unfolding count_ok_def op_fields by (cases "k = 1") simp_all
  show "count_ok (unname e d) (k - 1)" if "tn_kind d = me_kind e"
    using assms that by (auto simp: count_ok_def unname_def)
  show "count_ok (d\<lparr>tn_nlink := Suc (tn_nlink d)\<rparr>) (Suc k)" if "tn_kind d \<noteq> Directory"
    using assms that by (simp add: count_ok_def)
qed

lemma count_ok_new: "count_ok (t_new k b) 1"
  by (simp add: count_ok_def t_new_def subdirs_def)

lemma counts_okD: "counts_ok T L \<Longrightarrow> T n = Some d \<Longrightarrow> count_ok d (L n)"
  by (simp add: counts_ok_def)

lemma nodes_ok_at:
  assumes "nodes_ok T" "\<And>d. T n = Some d \<Longrightarrow> finite (dom (tn_ents (f d))) \<and> (tn_kind (f d) \<noteq> Directory \<longrightarrow> tn_ents (f d) = Map.empty)"
  shows "nodes_ok (at n f T)"
proof -
  have "dom (at n f T) = dom T" by (auto simp: at_apply dom_def)
  with assms show ?thesis by (auto simp: nodes_ok_def at_apply split: if_splits)
qed

lemma nodes_ok_ops:
  assumes "nodes_ok T"
  shows "nodes_ok (at n (del_ent nm e) T)" "nodes_ok (at n (unname e) T)"
    "nodes_ok (at n (\<lambda>d. d\<lparr>tn_nlink := k d\<rparr>) T)" "nodes_ok (T(n \<mapsto> t_new kind b))"
    "(\<And>d. T n = Some d \<Longrightarrow> tn_kind d = Directory) \<Longrightarrow> nodes_ok (at n (add_ent nm e) T)"
  using assms by (auto intro!: nodes_ok_at dest: nodes_okD(1)) (auto simp: nodes_ok_def)

text \<open>Kinds do not change, so entries keep leading to nodes of the kind they say.\<close>

definition same_kinds :: "tree \<Rightarrow> tree \<Rightarrow> bool" where
  "same_kinds T T' \<longleftrightarrow> (\<forall>n. map_option tn_kind (T' n) = map_option tn_kind (T n))"

lemma same_kinds_at: "(\<And>d. tn_kind (f d) = tn_kind d) \<Longrightarrow> same_kinds T (at n f T)"
  by (auto simp: same_kinds_def at_apply option.map_comp comp_def)

lemma same_kinds_trans: "same_kinds T T1 \<Longrightarrow> same_kinds T1 T2 \<Longrightarrow> same_kinds T T2"
  by (simp add: same_kinds_def)

lemma entries_ok_same_kinds:
  assumes "same_kinds T T'"
    and "\<And>n d nm e. T' n = Some d \<Longrightarrow> tn_ents d nm = Some e \<Longrightarrow>
      me_ino e \<noteq> 1 \<and> (\<exists>d'. T (me_ino e) = Some d' \<and> tn_kind d' = me_kind e)"
  shows "entries_ok T'"
  unfolding entries_ok_def
proof (intro allI impI)
  fix n d nm e assume "T' n = Some d" "tn_ents d nm = Some e"
  from assms(2) [OF this] obtain d' where d': "me_ino e \<noteq> 1" "T (me_ino e) = Some d'" "tn_kind d' = me_kind e" by blast
  from assms(1) have "map_option tn_kind (T' (me_ino e)) = map_option tn_kind (T (me_ino e))" unfolding same_kinds_def by blast
  with d' show "me_ino e \<noteq> 1 \<and> (\<exists>d'. T' (me_ino e) = Some d' \<and> tn_kind d' = me_kind e)" by (cases "T' (me_ino e)") auto
qed

lemma same_kinds_root: "same_kinds T T' \<Longrightarrow> \<exists>d. T 1 = Some d \<and> tn_kind d = Directory \<Longrightarrow> \<exists>d. T' 1 = Some d \<and> tn_kind d = Directory"
  unfolding same_kinds_def by (metis (no_types, lifting) map_option_eq_Some)

text \<open>The tree at the start: a root.\<close>

lemma tree_ok_root: "tree_ok [1 \<mapsto> t_new Directory b] ((\<lambda>_. 0)(1 := 1))"
proof -
  have "refs [1 \<mapsto> t_new Directory b] m = {}" for m by (auto simp: refs_def)
  with count_ok_new show ?thesis by (auto simp: tree_ok_def nodes_ok_def entries_ok_def counts_ok_def)
qed

text \<open>Removing a name.\<close>

lemma tree_ok_remove:
  assumes ok: "tree_ok T L" and P: "T p = Some P" "tn_ents P nm = Some e"
  shows "tree_ok (t_remove p nm e T) (L(me_ino e := L (me_ino e) - 1))"
proof -
  let ?m = "me_ino e" let ?T = "t_remove p nm e T" let ?L = "L(?m := L ?m - 1)"
  note o = tree_okD [OF ok] and ent = entries_okD [OF tree_okD(2) [OF ok] P]
  have fin: "finite (refs T m)" for m using finite_refs [OF o(1)] .
  have refs: "refs ?T m = refs T m - {(p, nm)}" for m
    by (simp add: t_remove_def refs_at_same refs_at_del)
  have kinds: "same_kinds T ?T" unfolding t_remove_def by (intro same_kinds_trans [OF same_kinds_at same_kinds_at]) simp_all
  have nodes: "nodes_ok ?T" unfolding t_remove_def by (intro nodes_ok_ops o(1))
  have entries: "entries_ok ?T"
    using kinds by (rule entries_ok_same_kinds) (auto simp: t_remove_def at_apply split: if_splits dest: entries_okD [OF o(2)])
  have "(p, nm) \<in> refs T ?m" using P by (auto simp: refs_mem)
  moreover have "card (refs T ?m) \<le> L ?m" "card (refs T m - {(p, nm)}) \<le> L m" for m
    using o(4) [of m] o(4) [of ?m] card_mono [OF fin, of "refs T m - {(p, nm)}" m] by auto
  ultimately have card: "card (refs ?T m) \<le> ?L m" for m
    using fin [of ?m] by (auto simp: refs card_Diff_singleton)
  have "counts_ok ?T ?L"
    unfolding counts_ok_def
  proof (intro allI impI)
    fix n d' assume d': "?T n = Some d'"
    then obtain d where d: "T n = Some d" by (auto simp: t_remove_def at_apply split: if_splits)
    note c = counts_okD [OF o(3) d]
    have dirP: "tn_kind P = Directory" using nodes_okD(2) [OF o(1) P] .
    note del = count_ok_ops(1) [OF _ nodes_okD(1) [OF o(1) P(1)] dirP P(2)]
    show "count_ok d' (?L n)"
    proof (cases "n = ?m")
      case True
      with ent(2) d have kind: "tn_kind d = me_kind e" by auto
      have "count_ok (if p = ?m then del_ent nm e d else d) (L n)" using c del P d True by auto
      moreover have "d' = unname e (if p = ?m then del_ent nm e d else d)"
        using True d d' by (auto simp: t_remove_def at_apply)
      ultimately show ?thesis using count_ok_ops(3) [of "if p = ?m then del_ent nm e d else d" "L n" e] kind True by auto
    next
      case False
      with d d' P c del show ?thesis by (auto simp: t_remove_def at_apply split: if_splits)
    qed
  qed
  with nodes entries card o(5) ent(1) same_kinds_root [OF kinds o(6)] show ?thesis by (simp add: tree_ok_def)
qed

text \<open>A name may also go while its link stays.\<close>

lemma tree_ok_lose:
  assumes ok: "tree_ok T L" and P: "T p = Some P" "tn_ents P nm = Some e"
  shows "tree_ok (at p (del_ent nm e) T) L"
proof -
  let ?T = "at p (del_ent nm e) T"
  note o = tree_okD [OF ok]
  have kinds: "same_kinds T ?T" by (intro same_kinds_at) simp
  have entries: "entries_ok ?T"
    using kinds by (rule entries_ok_same_kinds) (auto simp: at_apply split: if_splits dest: entries_okD [OF o(2)])
  have "card (refs ?T m) \<le> L m" for m
    using o(4) [of m] card_mono [OF finite_refs [OF o(1)], of "refs T m - {(p, nm)}" m] by (auto simp: refs_at_del)
  moreover have "counts_ok ?T L"
    using counts_okD [OF o(3)] P count_ok_ops(1) [OF counts_okD [OF o(3) P(1)] nodes_okD(1) [OF o(1) P(1)] nodes_okD(2) [OF o(1) P] P(2)]
    by (auto simp: counts_ok_def at_apply)
  ultimately show ?thesis using entries nodes_ok_ops(1) [OF o(1)] o(5) same_kinds_root [OF kinds o(6)] by (simp add: tree_ok_def)
qed

text \<open>Moving a name to a place that is free, possibly in the same directory.\<close>

lemma tree_ok_move:
  assumes ok: "tree_ok T L" and P: "T p = Some P" "tn_ents P nm = Some e"
    and Q: "T q = Some Q" "tn_kind Q = Directory" "tn_ents Q nm' = None"
  shows "tree_ok (t_move p nm q nm' e T) L"
proof -
  let ?T = "t_move p nm q nm' e T" let ?T1 = "at p (del_ent nm e) T"
  note o = tree_okD [OF ok] and ent = entries_okD [OF tree_okD(2) [OF ok] P]
  have dirP: "tn_kind P = Directory" using nodes_okD(2) [OF o(1) P] .
  have fin: "finite (refs T m)" for m using finite_refs [OF o(1)] .
  define Q1 where "Q1 = (if q = p then del_ent nm e Q else Q)"
  have Q1: "?T1 q = Some Q1" "tn_ents Q1 nm' = None" "tn_kind Q1 = Directory" using Q by (auto simp: Q1_def at_apply)
  have refs: "refs ?T m = (if me_ino e = m then insert (q, nm') (refs T m - {(p, nm)}) else refs T m - {(p, nm)})" for m
    unfolding t_move_def refs_at_add [of ?T1, OF Q1(1,2)] refs_at_del ..
  have kinds: "same_kinds T ?T" unfolding t_move_def by (intro same_kinds_trans [OF same_kinds_at same_kinds_at]) simp_all
  have nodes: "nodes_ok ?T" unfolding t_move_def using Q1 by (intro nodes_ok_ops o(1)) auto
  have entries: "entries_ok ?T"
    using kinds by (rule entries_ok_same_kinds) (use ent in \<open>auto simp: t_move_def at_apply split: if_splits dest: entries_okD [OF o(2)]\<close>)
  have "(p, nm) \<in> refs T (me_ino e)" using P by (auto simp: refs_mem)
  then have "card (insert (q, nm') (refs T (me_ino e) - {(p, nm)})) \<le> card (refs T (me_ino e))"
    using fin [of "me_ino e"] by (metis card_Suc_Diff1 card_insert_le_m1 diff_Suc_1 finite_Diff zero_less_Suc card_insert_if le_SucI order_refl)
  moreover have "card (refs T m - {(p, nm)}) \<le> card (refs T m)" for m using fin by (intro card_mono) auto
  ultimately have card: "card (refs ?T m) \<le> L m" for m
    unfolding refs using o(4) [of m] order_trans by (auto split: if_splits)
  have "counts_ok ?T L"
    unfolding counts_ok_def
  proof (intro allI impI)
    fix n d' assume d': "?T n = Some d'"
    then obtain d where d: "T n = Some d" by (auto simp: t_move_def at_apply split: if_splits)
    note c = counts_okD [OF o(3) d]
    note del = count_ok_ops(1) [OF _ nodes_okD(1) [OF o(1) P(1)] dirP P(2)]
    let ?d = "if n = p then del_ent nm e d else d"
    have 1: "count_ok ?d (L n)" using c del P d by auto
    show "count_ok d' (L n)"
    proof (cases "n = q")
      case True
      have "?d = Q1" "d' = add_ent nm' e Q1" using True d d' Q1 by (auto simp: t_move_def at_apply)
      with count_ok_ops(2) [OF 1, of nm' e] Q1 nodes_okD(1) [OF nodes_ok_ops(1) [OF o(1)] Q1(1)] show ?thesis by simp
    next
      case False
      with d d' 1 show ?thesis by (auto simp: t_move_def at_apply split: if_splits)
    qed
  qed
  with nodes entries card o(5) same_kinds_root [OF kinds o(6)] show ?thesis by (simp add: tree_ok_def)
qed

text \<open>Adding a name: for a fresh inode, or for a node that is there and not a directory.\<close>

lemma refs_unused: "tree_ok T L \<Longrightarrow> L m = 0 \<Longrightarrow> refs T m = {}"
  using tree_okD(4) [of T L m] finite_refs [OF tree_okD(1), of T L m] by simp

lemma tree_ok_create:
  assumes ok: "tree_ok T L" and P: "T p = Some P" "tn_kind P = Directory" "tn_ents P nm = None"
    and m: "T (me_ino e) = None" "L (me_ino e) = 0"
  shows "tree_ok (t_create p nm e b T) (L(me_ino e := 1))"
proof -
  let ?m = "me_ino e" let ?T = "t_create p nm e b T" let ?T1 = "T(?m \<mapsto> t_new (me_kind e) b)"
  note o = tree_okD [OF ok]
  have pm: "p \<noteq> ?m" "?m \<noteq> 1" using P m o(6) by auto
  have P1: "?T1 p = Some P" using P pm by simp
  have refs: "refs ?T x = (if ?m = x then {(p, nm)} else refs T x)" for x
    unfolding t_create_def refs_at_add [of ?T1, OF P1 P(3)] refs_fresh [of T, OF m(1)] using refs_unused [OF ok m(2)] by auto
  have nodes: "nodes_ok ?T" unfolding t_create_def using P1 P by (intro nodes_ok_ops o(1)) simp
  have kinds: "same_kinds ?T1 ?T" unfolding t_create_def by (intro same_kinds_at) simp
  have entries: "entries_ok ?T"
    using kinds
  proof (rule entries_ok_same_kinds)
    fix n d nm' e' assume "?T n = Some d" "tn_ents d nm' = Some e'"
    then have "e' = e \<or> (\<exists>d. T n = Some d \<and> tn_ents d nm' = Some e')"
      using pm P by (auto simp: t_create_def at_apply split: if_splits)
    with pm m entries_okD [OF o(2)] show "me_ino e' \<noteq> 1 \<and> (\<exists>d'. ?T1 (me_ino e') = Some d' \<and> tn_kind d' = me_kind e')"
      by (metis fun_upd_apply op_fields(7) option.distinct(1))
  qed
  have "counts_ok ?T (L(?m := 1))"
    unfolding counts_ok_def
  proof (intro allI impI)
    fix n d assume d: "?T n = Some d"
    then show "count_ok d ((L(?m := 1)) n)"
      using pm P counts_okD [OF o(3)] count_ok_new count_ok_ops(2) [OF counts_okD [OF o(3) P(1)] nodes_okD(1) [OF o(1) P(1)] P(2,3)]
      by (auto simp: t_create_def at_apply split: if_splits)
  qed
  moreover have "card (refs ?T x) \<le> (L(?m := 1)) x" for x using o(4) [of x] by (simp add: refs)
  ultimately show ?thesis
    using nodes entries o(5,6) pm same_kinds_root [OF kinds] by (simp add: tree_ok_def)
qed

lemma tree_ok_link:
  assumes ok: "tree_ok T L" and Q: "T q = Some Q" "tn_kind Q = Directory" "tn_ents Q nm = None"
    and m: "T (me_ino e) = Some M" "tn_kind M = me_kind e" "me_kind e \<noteq> Directory"
  shows "tree_ok (t_link q nm e T) (L(me_ino e := Suc (L (me_ino e))))"
proof -
  let ?m = "me_ino e" let ?T = "t_link q nm e T" let ?L = "L(?m := Suc (L ?m))"
  note o = tree_okD [OF ok]
  have qm: "q \<noteq> ?m" "?m \<noteq> 1" using Q m o(6) by auto
  have refs: "refs ?T x = (if ?m = x then insert (q, nm) (refs T x) else refs T x)" for x
    by (simp add: t_link_def refs_at_same refs_at_add [of T, OF Q(1,3)])
  have kinds: "same_kinds T ?T" unfolding t_link_def by (intro same_kinds_trans [OF same_kinds_at same_kinds_at]) simp_all
  have nodes: "nodes_ok ?T" unfolding t_link_def using Q by (intro nodes_ok_ops o(1)) auto
  have entries: "entries_ok ?T"
    using kinds by (rule entries_ok_same_kinds) (use qm m in \<open>auto simp: t_link_def at_apply split: if_splits dest: entries_okD [OF o(2)]\<close>)
  have "counts_ok ?T ?L"
    unfolding counts_ok_def
  proof (intro allI impI)
    fix n d assume d: "?T n = Some d"
    then show "count_ok d (?L n)"
      using qm Q m counts_okD [OF o(3)] count_ok_ops(2) [OF counts_okD [OF o(3) Q(1)] nodes_okD(1) [OF o(1) Q(1)] Q(2,3)]
        count_ok_ops(4) [OF counts_okD [OF o(3) m(1)]]
      by (auto simp: t_link_def at_apply split: if_splits)
  qed
  moreover have "card (refs ?T x) \<le> ?L x" for x
    using o(4) [of x] card_insert_le_m1 [of "Suc (L x)" "refs T x" "(q, nm)"] by (auto simp: refs)
  ultimately show ?thesis
    using nodes entries o(5) qm same_kinds_root [OF kinds o(6)] by (simp add: tree_ok_def)
qed

text \<open>Changing the body of a node.\<close>

lemma tree_ok_body:
  assumes ok: "tree_ok T L" shows "tree_ok (t_fill n body T) L"
  unfolding t_fill_def
proof -
  let ?T = "at n (\<lambda>d. d\<lparr>tn_body := body\<rparr>) T"
  note o = tree_okD [OF ok]
  have kinds: "same_kinds T ?T" by (intro same_kinds_at) simp
  have "nodes_ok ?T" using o(1) nodes_okD(1) [OF o(1)] by (intro nodes_ok_at) (auto simp: nodes_ok_def)
  moreover have "entries_ok ?T"
    using kinds by (rule entries_ok_same_kinds) (auto simp: at_apply split: if_splits dest: entries_okD [OF o(2)])
  moreover have "count_ok (d\<lparr>tn_body := b\<rparr>) k = count_ok d k" for d b k by (simp add: count_ok_def subdirs_def)
  then have "counts_ok ?T L" using counts_okD [OF o(3)] by (auto simp: counts_ok_def at_apply split: if_splits)
  moreover have "refs ?T m = refs T m" for m by (rule refs_at_same) simp
  ultimately show "tree_ok ?T L" using o(4,5) same_kinds_root [OF kinds o(6)] by (simp add: tree_ok_def)
qed

text \<open>
  The runtime may drop inodes without links, and the link count of a directory without links means nothing: it may be
  anything.
\<close>

definition drops :: "(u64 \<Rightarrow> nat) \<Rightarrow> tree \<Rightarrow> tree \<Rightarrow> bool" where
  "drops L T T' \<longleftrightarrow> (\<forall>n. T' n = T n \<or> L n = 0 \<and> (T' n = None \<or>
     (\<exists>d k. T n = Some d \<and> tn_kind d = Directory \<and> T' n = Some (d\<lparr>tn_nlink := k\<rparr>))))"

lemma drops_trans: "drops L T T1 \<Longrightarrow> drops L T1 T2 \<Longrightarrow> drops L T T2"
  unfolding drops_def
proof
  fix n assume "\<forall>n. T1 n = T n \<or> L n = 0 \<and> (T1 n = None \<or> (\<exists>d k. T n = Some d \<and> tn_kind d = Directory \<and> T1 n = Some (d\<lparr>tn_nlink := k\<rparr>)))"
    "\<forall>n. T2 n = T1 n \<or> L n = 0 \<and> (T2 n = None \<or> (\<exists>d k. T1 n = Some d \<and> tn_kind d = Directory \<and> T2 n = Some (d\<lparr>tn_nlink := k\<rparr>)))"
  then show "T2 n = T n \<or> L n = 0 \<and> (T2 n = None \<or> (\<exists>d k. T n = Some d \<and> tn_kind d = Directory \<and> T2 n = Some (d\<lparr>tn_nlink := k\<rparr>)))"
    by (elim allE [of _ n]) (elim disjE conjE exE; auto; metis)
qed

lemma tree_ok_drop:
  assumes ok: "tree_ok T L" and drop: "drops L T T'" shows "tree_ok T' L"
proof -
  note o = tree_okD [OF ok]
  have sub: "\<exists>d. T n = Some d \<and> tn_kind d = tn_kind d' \<and> tn_ents d = tn_ents d' \<and> (L n \<noteq> 0 \<or> tn_kind d \<noteq> Directory \<longrightarrow> d' = d)"
    if "T' n = Some d'" for n d'
  proof -
    from drop have "T' n = T n \<or> L n = 0 \<and> (\<exists>d k. T n = Some d \<and> tn_kind d = Directory \<and> T' n = Some (d\<lparr>tn_nlink := k\<rparr>))"
      using that unfolding drops_def by (elim allE [of _ n]) auto
    with that show ?thesis by (elim disjE conjE exE) auto
  qed
  have "dom T' \<subseteq> dom T" using sub by blast
  then have nodes: "nodes_ok T'" using o(1) sub finite_subset [of "dom T'" "dom T"] unfolding nodes_ok_def by metis
  have refs: "refs T' m \<subseteq> refs T m" for m unfolding refs_def using sub by fastforce
  have "entries_ok T'"
    unfolding entries_ok_def
  proof (intro allI impI)
    fix n d nm e assume "T' n = Some d" "tn_ents d nm = Some e"
    with sub [of n d] obtain d0 where d: "T n = Some d0" and e: "tn_ents d0 nm = Some e" by auto
    have "T' (me_ino e) = T (me_ino e)" using named_has_link [OF ok d e] drop unfolding drops_def by (elim allE [of _ "me_ino e"]) auto
    with entries_okD [OF o(2) d e] show "me_ino e \<noteq> 1 \<and> (\<exists>d'. T' (me_ino e) = Some d' \<and> tn_kind d' = me_kind e)" by simp
  qed
  moreover have "card (refs T' m) \<le> L m" for m using card_mono [OF finite_refs [OF o(1)] refs, of m] o(4) [of m] by simp
  moreover have "T' 1 = T 1" using drop o(5) unfolding drops_def by (elim allE [of _ 1]) auto
  moreover have "counts_ok T' L"
    unfolding counts_ok_def
  proof (intro allI impI)
    fix n d' assume "T' n = Some d'"
    from sub [OF this] obtain d where d: "T n = Some d" "tn_kind d = tn_kind d'" "L n \<noteq> 0 \<or> tn_kind d \<noteq> Directory \<longrightarrow> d' = d" by blast
    show "count_ok d' (L n)"
    proof (cases "d' = d")
      case True
      with counts_okD [OF o(3) d(1)] show ?thesis by simp
    next
      case False
      with d(3) have "L n = 0" "tn_kind d = Directory" by auto
      with d(2) show ?thesis by (simp add: count_ok_def)
    qed
  qed
  ultimately show ?thesis using nodes o(5,6) unfolding tree_ok_def by (intro conjI allI) (assumption | simp)+
qed

end
