(* ===== verification/Memory_Inv.thy ===== *)
theory Memory_Inv
  imports Memory_Tree Runtime_Stable
begin

text \<open>
  The in-memory filesystem implements the tree of \<open>Memory_Tree\<close>. Triples \<open>does P m Q\<close> say what a callback that does not panic
  does to the tree the store represents; each method on names is shown to be one abstract operation. The invariant \<open>mem_inv\<close>
  follows, and with it the two contracts of the runtime.
\<close>

section \<open>The tree a store represents\<close>

fun body_of :: "content \<Rightarrow> content" where
  "body_of (DirContent _) = SpecialContent"
| "body_of body = body"

definition tnode_of :: "node_data \<Rightarrow> tnode" where
  "tnode_of d = \<lparr>tn_kind = nd_kind d, tn_ents = (case nd_content d of DirContent entries \<Rightarrow> bt_get entries | _ \<Rightarrow> Map.empty),
     tn_body = body_of (nd_content d), tn_nlink = unat (nd_nlink d)\<rparr>"

definition tree_of :: "mem_node shared \<Rightarrow> tree" where
  "tree_of sh n = map_option (\<lambda>s. tnode_of (mn_data (payload sh (s_record s)))) (slot_at sh n)"

text \<open>The content of a node fits its kind, and its maps are in order.\<close>

fun content_ok :: "file_kind \<Rightarrow> content \<Rightarrow> bool" where
  "content_ok kind (DirContent entries) \<longleftrightarrow> kind = Directory \<and> bt_sorted entries"
| "content_ok kind (FileContent _) \<longleftrightarrow> kind = RegularFile"
| "content_ok kind (SymlinkContent _) \<longleftrightarrow> kind = file_kind.Symlink"
| "content_ok kind SpecialContent \<longleftrightarrow> kind \<in> {CharDevice, BlockDevice, NamedPipe, Socket}"

definition data_ok :: "node_data \<Rightarrow> bool" where
  "data_ok d \<longleftrightarrow> content_ok (nd_kind d) (nd_content d) \<and> bt_sorted (nd_xattrs d)"

definition store_ok :: "mem_node shared \<Rightarrow> bool" where
  "store_ok sh \<longleftrightarrow> (\<forall>n s. slot_at sh n = Some s \<longrightarrow>
     \<not> mn_poisoned (payload sh (s_record s)) \<and> data_ok (mn_data (payload sh (s_record s))))"

definition shows_tree :: "tree \<Rightarrow> (u64 \<Rightarrow> nat) \<Rightarrow> memory_fs \<times> mem_node shared \<Rightarrow> bool" where
  "shows_tree T L st \<longleftrightarrow> table_inv (snd st) \<and> store_ok (snd st) \<and> tree_of (snd st) = T \<and> links_of (snd st) = L"

definition mem_inv :: "memory_fs \<times> mem_node shared \<Rightarrow> bool" where
  "mem_inv st \<longleftrightarrow> table_inv (snd st) \<and> store_ok (snd st) \<and> tree_ok (tree_of (snd st)) (links_of (snd st))"

lemma mem_inv_shows: "mem_inv st \<longleftrightarrow> (\<exists>T L. shows_tree T L st \<and> tree_ok T L)"
  by (auto simp: mem_inv_def shows_tree_def)

lemma tnode_of_fields [simp]:
  "tn_kind (tnode_of d) = nd_kind d" "tn_nlink (tnode_of d) = unat (nd_nlink d)" "tn_body (tnode_of d) = body_of (nd_content d)"
  "nd_content d = DirContent entries \<Longrightarrow> tn_ents (tnode_of d) = bt_get entries"
  by (simp_all add: tnode_of_def)

lemma store_okD:
  assumes "store_ok sh" "slot_at sh n = Some s"
  shows "mn_poisoned (payload sh (s_record s)) = False" "data_ok (mn_data (payload sh (s_record s)))"
  using assms by (auto simp: store_ok_def)

lemma tree_of_slot: "slot_at sh n = Some s \<Longrightarrow> tree_of sh n = Some (tnode_of (mn_data (payload sh (s_record s))))"
  by (simp add: tree_of_def)

lemma tree_of_None: "tree_of sh n = None \<longleftrightarrow> slot_at sh n = None"
  by (simp add: tree_of_def)

text \<open>Writing the payload of one node changes that node only.\<close>

lemma write_payload:
  assumes inv: "table_inv sh" and s: "slot_at sh n = Some s"
  shows "tree_of (set_payload (s_record s) p sh) = (tree_of sh)(n \<mapsto> tnode_of (mn_data p))"
    and "store_ok sh \<Longrightarrow> \<not> mn_poisoned p \<Longrightarrow> data_ok (mn_data p) \<Longrightarrow> store_ok (set_payload (s_record s) p sh)"
proof -
  have pl: "payload (set_payload (s_record s) p sh) (s_record s') = (if n = m then p else payload sh (s_record s'))"
    if "slot_at sh m = Some s'" for m s'
    using table_inv_slotD(4) [OF inv s] table_inv_record_unique [OF inv s that] s that
    by (auto simp: payload_def nth_list_update)
  show "tree_of (set_payload (s_record s) p sh) = (tree_of sh)(n \<mapsto> tnode_of (mn_data p))"
  proof
    fix m show "tree_of (set_payload (s_record s) p sh) m = ((tree_of sh)(n \<mapsto> tnode_of (mn_data p))) m"
      using pl [of m] s by (cases "slot_at sh m") (auto simp: tree_of_def)
  qed
  show "store_ok (set_payload (s_record s) p sh)" if "store_ok sh" "\<not> mn_poisoned p" "data_ok (mn_data p)"
    using that pl by (auto simp: store_ok_def)
qed

lemma links_of_set_payload [simp]: "links_of (set_payload a p sh) = links_of sh"
  by (simp add: links_of_def fun_eq_iff)

section \<open>Triples\<close>

definition does :: "('st \<Rightarrow> bool) \<Rightarrow> ('st, 'e, 'a) prog \<Rightarrow> (('e, 'a) outcome \<Rightarrow> 'st \<Rightarrow> bool) \<Rightarrow> bool" where
  "does P m Q \<longleftrightarrow> (\<forall>s r s'. P s \<longrightarrow> m s = (r, s') \<longrightarrow> r \<noteq> Panic \<longrightarrow> Q r s')"

lemma doesI: "(\<And>s r s'. P s \<Longrightarrow> m s = (r, s') \<Longrightarrow> r \<noteq> Panic \<Longrightarrow> Q r s') \<Longrightarrow> does P m Q"
  by (simp add: does_def)

lemma doesD: "does P m Q \<Longrightarrow> P s \<Longrightarrow> m s = (r, s') \<Longrightarrow> r \<noteq> Panic \<Longrightarrow> Q r s'"
  by (simp add: does_def)

lemma does_weaken: "does P m Q \<Longrightarrow> (\<And>r s. Q r s \<Longrightarrow> Q' r s) \<Longrightarrow> does P m Q'"
  by (auto simp: does_def)

lemma does_bnd:
  assumes "does P m R" "\<And>a. does (R (Ok a)) (f a) Q" "\<And>e s. R (Err e) s \<Longrightarrow> Q (Err e) s" "\<And>s. R Blocks s \<Longrightarrow> Q Blocks s"
  shows "does P (bnd m f) Q"
proof (rule doesI)
  fix s r s' assume p: "P s" and "bnd m f s = (r, s')" and np: "r \<noteq> Panic"
  from this(2) show "Q r s'"
    by (cases rule: bnd_cases) (use assms p np in \<open>auto simp: does_def\<close>)
qed

lemma does_ret: "does P (ret a) (\<lambda>r s. r = Ok a \<and> P s)" and does_fail: "does P (fail e) (\<lambda>r s. r = Err e \<and> P s)"
  by (auto simp: does_def)

lemma does_pre: "(\<And>s. P s \<Longrightarrow> P' s) \<Longrightarrow> does P' m Q \<Longrightarrow> does P m Q"
  by (auto simp: does_def)

lemma does_fact: "(A \<Longrightarrow> does P m Q) \<Longrightarrow> does (\<lambda>s. A \<and> P s) m Q"
  by (auto simp: does_def)

text \<open>The clock does not matter to the tree.\<close>

lemma does_now: "does (shows_tree T L) system_now (\<lambda>r s. (\<exists>t. r = Ok t) \<and> shows_tree T L s)"
  by (auto simp: does_def system_now_def tick_def shows_tree_def)

section \<open>Reads\<close>

lemma does_leased_read:
  "does (shows_tree T L) (leased nid (\<lambda>a. read_node a f)) (\<lambda>r s. shows_tree T L s \<and>
     (T (ino_of nid) = None \<and> r = Err ENOENT \<or> (\<exists>d. T (ino_of nid) = Some (tnode_of d) \<and> data_ok d \<and> r = f d)))"
proof (rule doesI)
  fix st r s' assume p: "shows_tree T L st" and run: "leased nid (\<lambda>a. read_node a f) st = (r, s')" and np: "r \<noteq> Panic"
  obtain fs sh where st: "st = (fs, sh)" by (cases st)
  from p have inv: "table_inv sh" "store_ok sh" "tree_of sh = T" by (simp_all add: shows_tree_def st)
  show "shows_tree T L s' \<and>
     (T (ino_of nid) = None \<and> r = Err ENOENT \<or> (\<exists>d. T (ino_of nid) = Some (tnode_of d) \<and> data_ok d \<and> r = f d))"
  proof (cases "slot_at sh (ino_of nid)")
    case None
    with run p inv(3) show ?thesis by (auto simp: leased_def st lease_or_absent tree_of_None)
  next
    case (Some s)
    let ?d = "mn_data (payload sh (s_record s))"
    have "read_node (s_record s) f (fs, sh1) = (f ?d, (fs, sh1\<lparr>sh_heap := sh_heap sh\<rparr>))" if "sh_heap sh1 = sh_heap sh" for sh1
      using that store_okD(1) [OF inv(2) Some] by (simp add: read_node_def payload_def flip: that)
    from lease_or_store [where body = "\<lambda>a. read_node a f", OF inv(1) Some this, of "fail ENOENT"] run np
    have "r = f ?d" "s' = (fs, sh)" by (auto simp: leased_def st)
    with p inv Some store_okD(2) [OF inv(2) Some] show ?thesis by (auto simp: st tree_of_def)
  qed
qed

text \<open>What the reads find out, in terms of the tree.\<close>

definition t_entry :: "tree \<Rightarrow> u64 \<Rightarrow> os_str \<Rightarrow> mem_entry result" where
  "t_entry T p nm = (case T p of None \<Rightarrow> Err ENOENT | Some d \<Rightarrow>
     if tn_kind d \<noteq> Directory then Err ENOTDIR
     else (case tn_ents d nm of None \<Rightarrow> Err ENOENT | Some e \<Rightarrow> Ok e))"

definition t_kind :: "tree \<Rightarrow> u64 \<Rightarrow> file_kind result" where
  "t_kind T n = (case T n of None \<Rightarrow> Err ENOENT | Some d \<Rightarrow> Ok (tn_kind d))"

definition t_check_new :: "tree \<Rightarrow> u64 \<Rightarrow> os_str \<Rightarrow> unit result" where
  "t_check_new T p nm = (case t_entry T p nm of
     Ok _ \<Rightarrow> Err EEXIST
   | Err e \<Rightarrow> if T p \<noteq> None \<and> e = ENOENT then Ok () else Err e
   | _ \<Rightarrow> Panic)"

definition t_check_replaced :: "tree \<Rightarrow> bool \<Rightarrow> u64 \<Rightarrow> unit result" where
  "t_check_replaced T is_dir n = (case T n of None \<Rightarrow> Err ENOENT | Some d \<Rightarrow>
     if tn_kind d = Directory
     then if \<not> is_dir then Err EISDIR else if tn_ents d \<noteq> Map.empty then Err ENOTEMPTY else Ok ()
     else if is_dir then Err ENOTDIR else Ok ())"

definition dir_entries :: "node_data \<Rightarrow> (os_str, mem_entry) btree" where
  "dir_entries d = (case nd_content d of DirContent es \<Rightarrow> es | _ \<Rightarrow> [])"

lemma tn_ents_entries: "tn_ents (tnode_of d) = bt_get (dir_entries d)"
  by (cases "nd_content d") (auto simp: tnode_of_def dir_entries_def)

lemma content_case:
  "data_ok d \<Longrightarrow> (case nd_content d of DirContent es \<Rightarrow> f es | FileContent _ \<Rightarrow> x | SymlinkContent _ \<Rightarrow> x | SpecialContent \<Rightarrow> x) =
     (if nd_kind d = Directory then f (dir_entries d) else x)"
  by (cases "nd_content d") (auto simp: data_ok_def dir_entries_def)

lemma does_entry:
  "does (shows_tree T L) (mem_entry_of p nm) (\<lambda>r s. r = t_entry T (ino_of p) nm \<and> shows_tree T L s)"
  unfolding mem_entry_of_def
  by (rule does_weaken [OF does_leased_read]) (auto simp: t_entry_def content_case tn_ents_entries)

lemma does_kind:
  "does (shows_tree T L) (mem_kind nid) (\<lambda>r s. r = t_kind T (ino_of nid) \<and> shows_tree T L s)"
  unfolding mem_kind_def
  by (rule does_weaken [OF does_leased_read]) (auto simp: t_kind_def)

lemma does_check_new:
  "does (shows_tree T L) (check_new_entry p nm) (\<lambda>r s. r = t_check_new T (ino_of p) nm \<and> shows_tree T L s)"
  unfolding check_new_entry_def
  by (rule does_weaken [OF does_leased_read])
    (auto simp: t_check_new_def t_entry_def errno_defs content_case tn_ents_entries split: option.splits)

lemma does_check_replaced:
  "does (shows_tree T L) (check_replaced is_dir nid) (\<lambda>r s. r = t_check_replaced T is_dir (ino_of nid) \<and> shows_tree T L s)"
  unfolding check_replaced_def
  by (rule does_weaken [OF does_leased_read])
    (auto simp: t_check_replaced_def bt_get_empty content_case tn_ents_entries)

lemma does_optional:
  assumes "does P m (\<lambda>r s. r = x \<and> P s)" "x \<noteq> Panic" "x \<noteq> Blocks"
  shows "does P (optional m) (\<lambda>r s. r = (case x of Ok v \<Rightarrow> Ok (Some v) | Err e \<Rightarrow> if e = ENOENT then Ok None else Err e) \<and> P s)"
  using assms by (fastforce simp: does_def optional_def split: outcome.splits prod.splits)

lemma t_entry_total [simp]: "t_entry T p nm \<noteq> Panic" "t_entry T p nm \<noteq> Blocks"
  by (auto simp: t_entry_def split: option.splits)

section \<open>Writes\<close>

text \<open>
  A body that runs under the write guard refines a function on tree nodes: whatever data it finds that satisfies \<open>K\<close>, unless it
  panics it leaves data in order that represents the changed tree node.
\<close>

definition refines :: "(tnode \<Rightarrow> bool) \<Rightarrow> (memory_fs \<times> node_data, errno, 'a) prog \<Rightarrow> (node_data \<Rightarrow> 'a result) \<Rightarrow> (tnode \<Rightarrow> tnode) \<Rightarrow> bool" where
  "refines K m res g \<longleftrightarrow> (\<forall>fs d r fs' d'. data_ok d \<longrightarrow> K (tnode_of d) \<longrightarrow> m (fs, d) = (r, (fs', d')) \<longrightarrow> r \<noteq> Panic \<longrightarrow>
     data_ok d' \<and> tnode_of d' = g (tnode_of d) \<and> r = res d)"

lemma write_node_refines:
  assumes ref: "refines K m res g" and inv: "table_inv sh" "store_ok sh" and s: "slot_at sh n = Some s"
    and K: "\<And>t. tree_of sh n = Some t \<Longrightarrow> K t"
    and run: "write_node (s_record s) m (fs, sh) = (r, s')" "r \<noteq> Panic"
  shows "\<exists>fs' sh' d. s' = (fs', sh') \<and> tree_of sh n = Some (tnode_of d) \<and> data_ok d \<and> r = res d \<and> store_ok sh' \<and>
    tree_of sh' = (tree_of sh)(n \<mapsto> g (tnode_of d)) \<and> (\<exists>p. sh' = set_payload (s_record s) p sh)"
proof -
  let ?d = "mn_data (payload sh (s_record s))"
  obtain fs' d' where m: "m (fs, ?d) = (r, (fs', d'))" "s' = (fs', set_payload (s_record s) \<lparr>mn_poisoned = False, mn_data = d'\<rparr> sh)"
    using run store_okD(1) [OF inv(2) s] by (auto simp: write_node_def Let_def split: prod.splits outcome.splits)
  have d': "data_ok d'" "tnode_of d' = g (tnode_of ?d)" "r = res ?d"
    using ref store_okD(2) [OF inv(2) s] K [OF tree_of_slot [OF s]] m(1) run(2) unfolding refines_def by blast+
  with m write_payload [OF inv(1) s, of "\<lparr>mn_poisoned = False, mn_data = d'\<rparr>"] inv s store_okD(2) [OF inv(2) s] show ?thesis
    by (auto simp: tree_of_slot)
qed

lemma does_lease_write:
  assumes ref: "refines K m res g" and K: "\<And>t. T (ino_of nid) = Some t \<Longrightarrow> K t"
  shows "does (shows_tree T L) (lease_or (ret b) nid (\<lambda>a. write_node a m)) (\<lambda>r s. shows_tree (at (ino_of nid) g T) L s \<and>
    (T (ino_of nid) = None \<and> r = Ok b \<or> (\<exists>d. T (ino_of nid) = Some (tnode_of d) \<and> data_ok d \<and> r = res d)))"
proof (rule doesI)
  fix st r s' assume p: "shows_tree T L st" and run: "lease_or (ret b) nid (\<lambda>a. write_node a m) st = (r, s')" and np: "r \<noteq> Panic"
  obtain fs sh where st: "st = (fs, sh)" by (cases st)
  from p have inv: "table_inv sh" "store_ok sh" "tree_of sh = T" "links_of sh = L" by (simp_all add: shows_tree_def st)
  show "shows_tree (at (ino_of nid) g T) L s' \<and>
    (T (ino_of nid) = None \<and> r = Ok b \<or> (\<exists>d. T (ino_of nid) = Some (tnode_of d) \<and> data_ok d \<and> r = res d))"
  proof (cases "slot_at sh (ino_of nid)")
    case None
    then have "T (ino_of nid) = None" using inv(3) tree_of_None [of sh "ino_of nid"] by simp
    with run p None show ?thesis by (auto simp: st lease_or_absent at_def fun_upd_idem)
  next
    case (Some s)
    obtain q fs2 sh2 where w: "write_node (s_record s) m (fs, sh) = (q, (fs2, sh2))" by (metis surj_pair)
    have body: "write_node (s_record s) m (fs, sh1) = (q, (fs2, sh1\<lparr>sh_heap := sh_heap sh2\<rparr>))" if "sh_heap sh1 = sh_heap sh" for sh1
      using w that by (auto simp: write_node_def Let_def payload_def set_payload_def split: prod.splits if_splits)
    have heap: "sh2 = sh\<lparr>sh_heap := sh_heap sh2\<rparr>" using body [of sh] w by simp
    from lease_or_store [where body = "\<lambda>a. write_node a m", OF inv(1) Some body, of "ret b"] run np
    have "r = q" "s' = (fs2, sh2)" using heap by (auto simp: st)
    with write_node_refines [OF ref inv(1,2) Some _ w] np inv K Some show ?thesis
      by (auto simp: shows_tree_def at_def)
  qed
qed

lemma does_write_leased:
  assumes "refines K m (\<lambda>_. Ok ()) g" "\<And>t. T (ino_of nid) = Some t \<Longrightarrow> K t"
  shows "does (shows_tree T L) (write_leased nid m) (\<lambda>r s. r = Ok () \<and> shows_tree (at (ino_of nid) g T) L s)"
  unfolding write_leased_def by (rule does_weaken [OF does_lease_write [OF assms(1)]]) (auto dest: assms(2))

lemma does_modify_leased:
  assumes "\<And>d. data_ok d \<Longrightarrow> data_ok (f d) \<and> tnode_of (f d) = g (tnode_of d)"
  shows "does (shows_tree T L) (write_leased nid (modify f)) (\<lambda>r s. r = Ok () \<and> shows_tree (at (ino_of nid) g T) L s)"
  by (rule does_write_leased [where K = "\<lambda>_. True"]) (auto simp: refines_def modify_def assms)

text \<open>What the changes of a node are on tree nodes. Times do not matter.\<close>

definition cut_ent :: "os_str \<Rightarrow> tnode \<Rightarrow> tnode" where
  "cut_ent nm t = t\<lparr>tn_ents := (tn_ents t)(nm := None)\<rparr>"

definition put_ent :: "os_str \<Rightarrow> mem_entry \<Rightarrow> tnode \<Rightarrow> tnode" where
  "put_ent nm e t = t\<lparr>tn_ents := (tn_ents t)(nm \<mapsto> e)\<rparr>"

definition less_link :: "tnode \<Rightarrow> tnode" where
  "less_link t = t\<lparr>tn_nlink := tn_nlink t - 1\<rparr>"

lemma tnode_of_times [simp]:
  "tnode_of (d\<lparr>nd_ctime := t\<rparr>) = tnode_of d" "data_ok (d\<lparr>nd_ctime := t\<rparr>) = data_ok d"
  "tnode_of (touch now d) = tnode_of d" "data_ok (touch now d) = data_ok d"
  by (simp_all add: tnode_of_def data_ok_def touch_def)

lemma tnode_of_links [simp]:
  "tnode_of (d\<lparr>nd_nlink := n\<rparr>) = (tnode_of d)\<lparr>tn_nlink := unat n\<rparr>" "data_ok (d\<lparr>nd_nlink := n\<rparr>) = data_ok d"
  "tnode_of (fewer_links d) = less_link (tnode_of d)" "data_ok (fewer_links d) = data_ok d"
  by (simp_all add: tnode_of_def data_ok_def fewer_links_def less_link_def)

lemma tnode_of_remove_name [simp]:
  "tnode_of (remove_name nm d) = cut_ent nm (tnode_of d)" "data_ok d \<Longrightarrow> data_ok (remove_name nm d)"
  by (auto simp: tnode_of_def data_ok_def remove_name_def cut_ent_def fun_eq_iff split: content.splits)

lemma tnode_of_put_entry:
  assumes "data_ok d"
  shows "data_ok (put_entry nm e d)" "nd_kind d = Directory \<Longrightarrow> tnode_of (put_entry nm e d) = put_ent nm e (tnode_of d)"
  using assms by (cases "nd_content d"; auto simp: tnode_of_def data_ok_def put_entry_def put_ent_def fun_eq_iff)+

lemma more_links_run: "more_links (fs, d) = (r, (fs', d')) \<Longrightarrow> r \<noteq> Panic \<Longrightarrow>
    r = Ok () \<and> tnode_of d' = (tnode_of d)\<lparr>tn_nlink := Suc (unat (nd_nlink d))\<rparr> \<and> data_ok d' = data_ok d"
  by (auto simp: more_links_def split: option.splits dest!: unat_checked_add_1)

lemma more_links_outcome [simp]: "more_links s \<noteq> (Err e, t)" "more_links s \<noteq> (Blocks, t)"
  by (auto simp: more_links_def split: option.splits)

lemma does_link_into:
  assumes "\<And>t. T (ino_of p) = Some t \<Longrightarrow> tn_kind t = Directory"
  shows "does (shows_tree T L) (link_into p nm e now) (\<lambda>r s. r = Ok () \<and> shows_tree (at (ino_of p) (add_ent nm e) T) L s)"
  unfolding link_into_def
proof (rule does_write_leased [where K = "\<lambda>t. tn_kind t = Directory"])
  show "refines (\<lambda>t. tn_kind t = Directory) (bnd (modify (put_entry nm e)) (\<lambda>_.
     bnd (if me_kind e = Directory then more_links else ret ()) (\<lambda>_. modify (touch now)))) (\<lambda>_. Ok ()) (add_ent nm e)"
    unfolding refines_def
  proof (intro allI impI)
    fix fs d r fs' d' assume ok: "data_ok d" and K: "tn_kind (tnode_of d) = Directory" and np: "r \<noteq> Panic"
      and run: "bnd (modify (put_entry nm e)) (\<lambda>_. bnd (if me_kind e = Directory then more_links else ret ()) (\<lambda>_. modify (touch now))) (fs, d) = (r, (fs', d'))"
    note put = tnode_of_put_entry [OF ok, of nm e]
    show "data_ok d' \<and> tnode_of d' = add_ent nm e (tnode_of d) \<and> r = Ok ()"
    proof (cases "me_kind e = Directory")
      case True
      with run np obtain fs1 d1 where "more_links (fs, put_entry nm e d) = (Ok (), (fs1, d1))" "d' = touch now d1" "r = Ok ()"
        by (auto simp: bnd_def modify_def split: prod.splits outcome.splits)
      with more_links_run [OF this(1)] put K True show ?thesis by (simp add: add_ent_def put_ent_def dir_weight_def flip: tnode_of_fields(2))
    next
      case False
      with run put K show ?thesis by (auto simp: bnd_def modify_def add_ent_def put_ent_def dir_weight_def)
    qed
  qed
qed (rule assms)

lemma does_exchange:
  assumes "T (ino_of p) = Some t" "tn_kind t = Directory"
  shows "does (shows_tree T L) (exchange_entry p nm e) (\<lambda>r s. r = Ok (tn_ents t nm) \<and> shows_tree (at (ino_of p) (put_ent nm e) T) L s)"
  unfolding exchange_entry_def
proof (rule does_weaken [OF does_lease_write [where K = "\<lambda>t. tn_kind t = Directory" and res = "\<lambda>d. Ok (tn_ents (tnode_of d) nm)"]])
  show "refines (\<lambda>t. tn_kind t = Directory) (\<lambda>s. case nd_content (snd s) of
       DirContent entries \<Rightarrow> (Ok (bt_get entries nm), (fst s, put_entry nm e (snd s))) | _ \<Rightarrow> (Err ENOTDIR, s))
     (\<lambda>d. Ok (tn_ents (tnode_of d) nm)) (put_ent nm e)"
    by (auto simp: refines_def tnode_of_put_entry content_case tn_ents_entries)
qed (use assms in auto)

section \<open>Changes of the table\<close>

lemma does_reparent: "does (shows_tree T L) (on_nodes (cx_reparent nid np)) (\<lambda>r s. r = Ok () \<and> shows_tree T L s)"
proof (rule doesI)
  fix st r s' assume p: "shows_tree T L st" and run: "on_nodes (cx_reparent nid np) st = (r, s')"
  obtain fs sh where st: "st = (fs, sh)" by (cases st)
  have slots: "map_option s_record (slot_at (cx_reparent nid np sh) n) = map_option s_record (slot_at sh n)" for n
    by (auto simp: cx_reparent_def split: option.splits)
  have "payload (cx_reparent nid np sh) = payload sh" by (auto simp: cx_reparent_def payload_def split: option.splits)
  then have "tree_of (cx_reparent nid np sh) n = tree_of sh n" for n
    using slots [of n] by (cases "slot_at sh n"; cases "slot_at (cx_reparent nid np sh) n") (auto simp: tree_of_def)
  moreover have "store_ok (cx_reparent nid np sh)" if "store_ok sh"
    using that slots \<open>payload (cx_reparent nid np sh) = payload sh\<close> unfolding store_ok_def
    by (metis (no_types, opaque_lifting) map_option_eq_Some)
  ultimately show "r = Ok () \<and> shows_tree T L s'"
    using p run by (auto simp: st on_nodes_def shows_tree_def table_inv_cx_reparent)
qed

text \<open>Dropping a link may release the inode.\<close>

definition released :: "tree \<Rightarrow> (u64 \<Rightarrow> nat) \<Rightarrow> memory_fs \<times> mem_node shared \<Rightarrow> bool" where
  "released T L s \<longleftrightarrow> (\<exists>T'. shows_tree T' L s \<and> drops L T T')"

lemma released_ok: "released T L s \<Longrightarrow> tree_ok T L \<Longrightarrow> mem_inv s"
  by (auto simp: released_def mem_inv_shows dest: tree_ok_drop)

lemma shows_released: "shows_tree T L s \<Longrightarrow> released T L s"
  by (auto simp: released_def drops_def)

lemma released_mono: "released T L s \<Longrightarrow> drops L T0 T \<Longrightarrow> released T0 L s"
  by (auto simp: released_def intro: drops_trans)

lemma released_bookkeeping:
  assumes "released T L (fs, sh)" "bookkeeping sh sh'" shows "released T L (fs', sh')"
proof -
  from assms(1) obtain T1 where T1: "shows_tree T1 L (fs, sh)" "drops L T T1" by (auto simp: released_def)
  have sub: "tree_of sh' n = tree_of sh n" if "slot_at sh' n \<noteq> None" for n
    using that assms(2) by (fastforce simp: bookkeeping_def tree_of_def payload_def)
  have links: "links_of sh' = L" using assms(2) T1(1) by (simp add: bookkeeping_def shows_tree_def)
  have "store_ok sh'" using assms(2) T1(1) unfolding bookkeeping_def shows_tree_def store_ok_def payload_def by (metis snd_conv)
  then have "shows_tree (tree_of sh') L (fs', sh')" using assms(2) links by (simp add: shows_tree_def bookkeeping_def)
  moreover have "tree_of sh' n = T1 n \<or> tree_of sh' n = None \<and> L n = 0" for n
  proof (cases "slot_at sh' n")
    case None
    then have "L n = 0" by (simp add: links_of_def flip: links)
    with None show ?thesis by (simp add: tree_of_def)
  next
    case (Some s)
    with sub [of n] T1 show ?thesis by (metis option.distinct(1) shows_tree_def snd_conv)
  qed
  then have "drops L T1 (tree_of sh')" by (auto simp: drops_def)
  ultimately show ?thesis using drops_trans [OF T1(2)] by (auto simp: released_def)
qed

lemma does_remove_link:
  "does (shows_tree T L) (on_nodes (cx_remove_link nid))
     (\<lambda>r s. r = Ok () \<and> released T (L(ino_of nid := L (ino_of nid) - 1)) s)"
proof (rule doesI)
  fix st r s' assume p: "shows_tree T L st" and run: "on_nodes (cx_remove_link nid) st = (r, s')"
  obtain fs sh where st: "st = (fs, sh)" by (cases st)
  let ?sh = "cx_remove_link nid sh" let ?L = "L(ino_of nid := L (ino_of nid) - 1)"
  from p have inv: "table_inv sh" "store_ok sh" "tree_of sh = T" "links_of sh = L" by (simp_all add: shows_tree_def st)
  have links: "links_of ?sh = ?L" by (simp add: links_cx_remove_link inv(4))
  have sub: "\<exists>s. slot_at sh n = Some s \<and> s_record s = s_record s'" if "slot_at ?sh n = Some s'" for n s'
    using that by (auto simp: cx_remove_link_def slot_at_maybe_drop split: option.splits if_splits)
  have heap: "payload ?sh = payload sh" by (auto simp: cx_remove_link_def payload_def split: option.splits)
  have dr: "tree_of ?sh n = T n \<or> tree_of ?sh n = None \<and> ?L n = 0" for n
  proof (cases "slot_at ?sh n")
    case None
    then have "links_of ?sh n = 0" by (simp add: links_of_def)
    with None show ?thesis by (simp add: links tree_of_def)
  next
    case (Some s')
    with sub [OF this] heap inv(3) show ?thesis by (auto simp: tree_of_def)
  qed
  have "store_ok ?sh" using inv(2) sub heap unfolding store_ok_def by metis
  then have "shows_tree (tree_of ?sh) ?L (fs, ?sh)" using links table_inv_cx_remove_link [OF inv(1), of nid] by (simp add: shows_tree_def)
  with dr have "released T ?L (fs, ?sh)" unfolding released_def drops_def by blast
  with run show "r = Ok () \<and> released T ?L s'" by (auto simp: st on_nodes_def)
qed

lemma does_insert:
  assumes "data_ok (mn_data p)" "\<not> mn_poisoned p"
  shows "does (shows_tree T L) (insert_node p parent) (\<lambda>r s. \<exists>nid. r = Ok nid \<and> T (ino_of nid) = None \<and> L (ino_of nid) = 0 \<and>
    shows_tree (T(ino_of nid \<mapsto> tnode_of (mn_data p))) (L(ino_of nid := 1)) s)"
proof (rule doesI)
  fix st r s' assume p: "shows_tree T L st" and run: "insert_node p parent st = (r, s')" and np: "r \<noteq> Panic"
  obtain fs sh where st: "st = (fs, sh)" by (cases st)
  from p have inv: "table_inv sh" "store_ok sh" "tree_of sh = T" "links_of sh = L" by (simp_all add: shows_tree_def st)
  obtain sh' where ins: "cx_insert p parent sh = (r, sh')" "s' = (fs, sh')" using run by (auto simp: insert_node_def st split: prod.splits)
  with np obtain nid where nid: "r = Ok nid"
    by (cases r) (auto simp: cx_insert_def alloc_def split: prod.splits outcome.splits if_splits option.splits)
  note i = ins(1) [unfolded nid]
  note l = links_cx_insert [OF inv(1) i] and pl = payload_cx_insert [OF inv(1) i]
  obtain g where slots: "slot_at sh' = (slot_at sh)(ino_of nid \<mapsto> fresh_slot sh g parent)" "slot_at sh (ino_of nid) = None"
    using slot_at_cx_insert [OF inv(1) i] by metis
  have "tree_of sh' n = (T(ino_of nid \<mapsto> tnode_of (mn_data p))) n" for n
  proof (cases "slot_at sh' n")
    case None
    with slots inv(3) show ?thesis by (auto simp: tree_of_def split: if_splits)
  next
    case (Some s)
    with pl [OF Some] inv(3) show ?thesis by (auto simp: tree_of_def)
  qed
  moreover have "store_ok sh'" using inv(2) assms pl unfolding store_ok_def by metis
  moreover have "table_inv sh'" using table_inv_cx_insert [OF inv(1) i] .
  moreover have "T (ino_of nid) = None" using slots(2) inv(3) tree_of_None [of sh] by simp
  ultimately show "\<exists>nid. r = Ok nid \<and> T (ino_of nid) = None \<and> L (ino_of nid) = 0 \<and>
    shows_tree (T(ino_of nid \<mapsto> tnode_of (mn_data p))) (L(ino_of nid := 1)) s'"
    using l inv(4) nid ins(2) by (auto simp: shows_tree_def)
qed

lemma does_add_link:
  assumes "T (ino_of nid) \<noteq> None"
  shows "does (shows_tree T L) (add_link_to nid) (\<lambda>r s. r = Ok () \<and> shows_tree T (L(ino_of nid := Suc (L (ino_of nid)))) s)"
proof (rule doesI)
  fix st r s' assume p: "shows_tree T L st" and run: "add_link_to nid st = (r, s')" and np: "r \<noteq> Panic"
  obtain fs sh where st: "st = (fs, sh)" by (cases st)
  from p have inv: "table_inv sh" "store_ok sh" "tree_of sh = T" "links_of sh = L" by (simp_all add: shows_tree_def st)
  from assms inv(3) tree_of_None [of sh "ino_of nid"] obtain s where s: "slot_at sh (ino_of nid) = Some s" by auto
  from run np obtain l where l: "checked_add (s_links s) 1 = Some l" "r = Ok ()"
      "s' = (fs, with_table (set_slot (ino_of nid) (s\<lparr>s_links := l\<rparr>)) sh)"
    by (auto simp: add_link_to_def st cx_add_link_def s split: option.splits)
  let ?sh = "with_table (set_slot (ino_of nid) (s\<lparr>s_links := l\<rparr>)) sh"
  have "table_inv ?sh" using table_inv_cx_add_link [OF inv(1), of nid "Ok ()" ?sh] by (simp add: cx_add_link_def s l)
  moreover have "tree_of ?sh n = tree_of sh n" for n using s by (simp add: tree_of_def payload_def)
  then have "tree_of ?sh = T" using inv(3) by (simp add: fun_eq_iff)
  moreover have "store_ok ?sh" using inv(2) s by (simp add: store_ok_def payload_def)
  moreover have "links_of ?sh = L(ino_of nid := Suc (L (ino_of nid)))"
    using inv(4) unat_checked_add_1 [OF l(1)] counts_slot(4) [OF s] by (auto simp: counts_slot)
  ultimately show "r = Ok () \<and> shows_tree T (L(ino_of nid := Suc (L (ino_of nid)))) s'" using l by (simp add: shows_tree_def)
qed

end
