(* ===== verification/Memory_Refine.thy ===== *)
theory Memory_Refine
  imports Memory_Inv
begin

text \<open>
  The methods of the in-memory filesystem on names implement operations on the tree: each answers what the operation answers on
  the tree the store represents and leaves a store that represents the tree the operation leaves. An operation that fails
  leaves the tree as it was.
\<close>

section \<open>The operations on names\<close>

type_synonym names = "tree \<times> (u64 \<Rightarrow> nat)"

definition fewer :: "mem_entry \<Rightarrow> (u64 \<Rightarrow> nat) \<Rightarrow> (u64 \<Rightarrow> nat)" where
  "fewer e L = L(me_ino e := L (me_ino e) - 1)"

definition t_lookup :: "u64 \<Rightarrow> os_str \<Rightarrow> names \<Rightarrow> node_id option result" where
  "t_lookup p nm N = (case t_entry (fst N) p nm of
     Ok e \<Rightarrow> Ok (Some (me_id e)) | Err x \<Rightarrow> if x = ENOENT then Ok None else Err x | _ \<Rightarrow> Panic)"

definition t_unlink :: "u64 \<Rightarrow> os_str \<Rightarrow> names \<Rightarrow> unit result \<times> names" where
  "t_unlink p nm N = (case t_entry (fst N) p nm of
     Ok e \<Rightarrow> if me_kind e = Directory then (Err EISDIR, N) else (Ok (), (t_remove p nm e (fst N), fewer e (snd N)))
   | Err x \<Rightarrow> (Err x, N)
   | _ \<Rightarrow> (Panic, N))"

definition t_rmdir :: "u64 \<Rightarrow> os_str \<Rightarrow> names \<Rightarrow> unit result \<times> names" where
  "t_rmdir p nm N = (case t_entry (fst N) p nm of
     Ok e \<Rightarrow> (case t_check_replaced (fst N) True (me_ino e) of
        Ok _ \<Rightarrow> (Ok (), (t_remove p nm e (fst N), fewer e (snd N))) | x \<Rightarrow> (x, N))
   | Err x \<Rightarrow> (Err x, N)
   | _ \<Rightarrow> (Panic, N))"

text \<open>
  A rename onto another name of the same node does nothing. A new parent that is not there takes the name nowhere: the runtime
  does not look at the parents it passes on.
\<close>

definition t_rename :: "u64 \<Rightarrow> os_str \<Rightarrow> u64 \<Rightarrow> os_str \<Rightarrow> names \<Rightarrow> unit result \<times> names" where
  "t_rename p nm q nm' N = (case N of (T, L) \<Rightarrow> (case t_entry T p nm of
     Ok e \<Rightarrow>
       (case t_entry T q nm' of
          Ok old \<Rightarrow>
            if me_ino old = me_ino e then (Ok (), N)
            else (case t_check_replaced T (me_kind e = Directory) (me_ino old) of
               Ok _ \<Rightarrow> (Ok (), (t_move p nm q nm' e (t_remove q nm' old T), fewer old L)) | x \<Rightarrow> (x, N))
        | Err x \<Rightarrow>
            if x \<noteq> ENOENT then (Err x, N)
            else (Ok (), (if T q = None then at p (del_ent nm e) T else t_move p nm q nm' e T, L))
        | _ \<Rightarrow> (Panic, N))
   | Err x \<Rightarrow> (Err x, N)
   | _ \<Rightarrow> (Panic, N)))"

definition t_link_to :: "node_id \<Rightarrow> u64 \<Rightarrow> os_str \<Rightarrow> names \<Rightarrow> node_id result \<times> names" where
  "t_link_to nid q nm N = (case N of (T, L) \<Rightarrow> (case t_kind T (ino_of nid) of
     Ok kind \<Rightarrow>
       if kind = Directory then (Err EPERM, N)
       else (case t_check_new T q nm of
          Ok _ \<Rightarrow> (Ok nid, (t_link q nm \<lparr>me_id = nid, me_kind = kind\<rparr> T, L(ino_of nid := Suc (L (ino_of nid)))))
        | Err x \<Rightarrow> (Err x, N)
        | _ \<Rightarrow> (Panic, N))
   | Err x \<Rightarrow> (Err x, N)
   | _ \<Rightarrow> (Panic, N)))"

text \<open>How a method implements an operation.\<close>

definition answers :: "'a result \<times> names \<Rightarrow> names \<Rightarrow> 'a result \<Rightarrow> memory_fs \<times> mem_node shared \<Rightarrow> bool" where
  "answers X N r s \<longleftrightarrow> r = fst X \<and> tree_ok (fst (snd X)) (snd (snd X)) \<and> released (fst (snd X)) (snd (snd X)) s \<and>
     ((\<exists>e. r = Err e) \<longrightarrow> snd X = N \<and> shows_tree (fst N) (snd N) s)"

definition implements :: "'a mem_call \<Rightarrow> (names \<Rightarrow> 'a result \<times> names) \<Rightarrow> bool" where
  "implements m spec \<longleftrightarrow> (\<forall>T L. tree_ok T L \<longrightarrow> does (shows_tree T L) m (answers (spec (T, L)) (T, L)))"

lemma implementsI: "(\<And>T L. tree_ok T L \<Longrightarrow> does (shows_tree T L) m (answers (spec (T, L)) (T, L))) \<Longrightarrow> implements m spec"
  by (simp add: implements_def)

lemma answers_Err: "tree_ok T L \<Longrightarrow> shows_tree T L s \<Longrightarrow> answers (Err e, (T, L)) (T, L) (Err e) s"
  by (simp add: answers_def shows_released)

lemma answers_Ok: "tree_ok T' L' \<Longrightarrow> released T' L' s \<Longrightarrow> answers (Ok a, (T', L')) N (Ok a) s"
  by (simp add: answers_def)

section \<open>Rules for sequences\<close>

lemma does_step:
  assumes "does P m (\<lambda>r s. r = x \<and> P' s)" "\<And>a. x = Ok a \<Longrightarrow> does P' (f a) Q" "\<And>e s. x = Err e \<Longrightarrow> P' s \<Longrightarrow> Q (Err e) s" "x \<noteq> Blocks"
  shows "does P (bnd m f) Q"
  using assms by (intro does_bnd [OF assms(1)]) (auto intro: does_fact)

lemma does_then: "does P m (\<lambda>r s. r = Ok a \<and> P' s) \<Longrightarrow> does P' (f a) Q \<Longrightarrow> does P (bnd m f) Q"
  by (rule does_step [where x = "Ok a"]) auto

lemma does_after_now: "(\<And>now. does (shows_tree T L) (f now) Q) \<Longrightarrow> does (shows_tree T L) (bnd system_now f) Q"
  by (rule does_bnd [OF does_now]) (auto simp: does_def)

lemma does_result: "(\<And>s. P s \<Longrightarrow> Q (Ok a) s) \<Longrightarrow> does P (ret a) Q" and does_error: "(\<And>s. P s \<Longrightarrow> Q (Err e) s) \<Longrightarrow> does P (fail e) Q"
  by (auto simp: does_def)

text \<open>A lease that lasts: a read that may fail, then a body that may release the node.\<close>

lemma does_leased_then:
  assumes body: "\<And>d x. T (ino_of nid) = Some (tnode_of d) \<Longrightarrow> data_ok d \<Longrightarrow> f d = Ok x \<Longrightarrow> does (shows_tree T L) (body x) Q"
    and closed: "\<And>r fs sh nr. Q r (fs, sh) \<Longrightarrow> Q r (fs, node_ref_drop nr sh)"
  shows "does (shows_tree T L) (leased nid (\<lambda>a. bnd (read_node a f) body)) (\<lambda>r s.
    T (ino_of nid) = None \<and> r = Err ENOENT \<and> shows_tree T L s \<or>
    (\<exists>d. T (ino_of nid) = Some (tnode_of d) \<and> data_ok d \<and>
       ((\<exists>x. f d = Ok x) \<and> Q r s \<or> (\<exists>e. f d = Err e \<and> r = Err e \<or> f d = Blocks \<and> r = Blocks) \<and> shows_tree T L s)))"
proof (rule doesI)
  fix st r s' assume p: "shows_tree T L st" and run: "leased nid (\<lambda>a. bnd (read_node a f) body) st = (r, s')" and np: "r \<noteq> Panic"
  obtain fs sh where st: "st = (fs, sh)" by (cases st)
  from p have inv: "table_inv sh" "store_ok sh" "tree_of sh = T" "links_of sh = L" by (simp_all add: shows_tree_def st)
  show "T (ino_of nid) = None \<and> r = Err ENOENT \<and> shows_tree T L s' \<or>
    (\<exists>d. T (ino_of nid) = Some (tnode_of d) \<and> data_ok d \<and>
       ((\<exists>x. f d = Ok x) \<and> Q r s' \<or> (\<exists>e. f d = Err e \<and> r = Err e \<or> f d = Blocks \<and> r = Blocks) \<and> shows_tree T L s'))"
  proof (cases "slot_at sh (ino_of nid)")
    case None
    with run p inv(3) show ?thesis by (auto simp: leased_def st lease_or_absent tree_of_None)
  next
    case (Some s)
    show ?thesis
    proof (cases "checked_add (s_leases s) 1")
      case None
      with Some run np show ?thesis by (simp add: leased_def lease_or_def cx_get_def st)
    next
      case l: (Some l)
      let ?d = "mn_data (payload sh (s_record s))" let ?nr = "\<lparr>nr_id = nid, nr_record = s_record s\<rparr>"
      let ?sh = "with_table (set_slot (ino_of nid) (s\<lparr>s_leases := l\<rparr>)) sh"
      note b = lease_bracket [OF inv(1) Some l refl]
      have d: "T (ino_of nid) = Some (tnode_of ?d)" "data_ok ?d" using inv(3) Some store_okD(2) [OF inv(2) Some] by (auto simp: tree_of_def)
      have pl: "payload ?sh = payload sh" by (simp add: payload_def fun_eq_iff)
      have read: "read_node (s_record s) f (fs, ?sh) = (f ?d, (fs, ?sh))" using store_okD(1) [OF inv(2) Some] by (simp add: read_node_def pl)
      have "tree_of ?sh n = tree_of sh n" for n using Some by (simp add: tree_of_def pl)
      then have "tree_of ?sh = T" using inv(3) by (simp add: fun_eq_iff)
      moreover have "store_ok ?sh" using inv(2) Some by (simp add: store_ok_def pl)
      moreover have "links_of ?sh = L" using inv(4) counts_slot(4) [OF Some] by (auto simp: counts_slot fun_eq_iff)
      ultimately have shows1: "shows_tree T L (fs, ?sh)" using table_inv_cx_get [OF inv(1) b(1)] by (simp add: shows_tree_def)
      have same: "?sh\<lparr>sh_heap := sh_heap sh\<rparr> = ?sh" by (simp add: with_table_def)
      have restored: "node_ref_drop ?nr ?sh = sh" using b(2) [of "sh_heap sh"] unfolding same by simp
      show ?thesis
      proof (cases "f ?d")
        case (Ok x)
        obtain fs2 sh2 where body2: "body x (fs, ?sh) = (r, (fs2, sh2))" "s' = (fs2, node_ref_drop ?nr sh2)"
          using run by (auto simp: leased_def lease_or_def st b(1) bnd_def read Ok split: prod.splits)
        from closed [OF doesD [OF body [OF d Ok] shows1 body2(1) np], of ?nr] body2(2) d Ok show ?thesis by auto
      qed (use run np d p in \<open>auto simp: leased_def lease_or_def st b(1) bnd_def read restored\<close>)
    qed
  qed
qed

section \<open>Lookup, unlink and rmdir\<close>

lemma at_cong: "(\<And>d. T n = Some d \<Longrightarrow> f d = g d) \<Longrightarrow> at n f T = at n g T"
  by (cases "T n") (auto simp: at_def)

lemma t_entry_Ok:
  assumes "tree_ok T L" "t_entry T p nm = Ok e"
  obtains P M where "T p = Some P" "tn_kind P = Directory" "tn_ents P nm = Some e" "me_ino e \<noteq> 1"
    "T (me_ino e) = Some M" "tn_kind M = me_kind e"
proof -
  from assms(2) obtain P where P: "T p = Some P" "tn_kind P = Directory" "tn_ents P nm = Some e"
    by (auto simp: t_entry_def split: option.splits if_splits)
  with entries_okD [OF tree_okD(2) [OF assms(1)] P(1,3)] that show thesis by blast
qed

lemma released_drop_lease: "released T L (fs, sh) \<Longrightarrow> released T L (fs, node_ref_drop nr sh)"
proof -
  assume r: "released T L (fs, sh)"
  then have "table_inv sh" by (auto simp: released_def shows_tree_def)
  from released_bookkeeping [OF r bookkeeping_node_ref_drop [OF this]] show ?thesis .
qed

lemma does_mem_lookup:
  "does (shows_tree T L) (mem_lookup p nm c) (\<lambda>r s. r = t_lookup (ino_of p) nm (T, L) \<and> shows_tree T L s)"
  unfolding mem_lookup_def
  by (rule does_step [OF does_optional [OF does_entry]])
    (auto simp: t_lookup_def split: outcome.splits if_splits intro!: does_result)

text \<open>The changes of nodes, put together as the tree has them.\<close>

lemma file_changes:
  assumes "me_kind e \<noteq> Directory" shows "cut_ent nm = del_ent nm e" "less_link = unname e"
  using assms by (auto simp: fun_eq_iff cut_ent_def del_ent_def less_link_def unname_def dir_weight_def)

lemma dir_changes:
  assumes "me_kind e = Directory"
  shows "(\<lambda>t. less_link (cut_ent nm t)) = del_ent nm e" "(\<lambda>t. t\<lparr>tn_nlink := 0\<rparr>) = unname e"
  using assms by (auto simp: fun_eq_iff cut_ent_def del_ent_def less_link_def unname_def dir_weight_def)

lemma does_remove:
  assumes f: "\<And>d. data_ok d \<Longrightarrow> data_ok (f d) \<and> tnode_of (f d) = del_ent nm e (tnode_of d)"
    and g: "\<And>d. data_ok d \<Longrightarrow> data_ok (g d) \<and> tnode_of (g d) = unname e (tnode_of d)"
  shows "does (shows_tree T L) (bnd (write_leased p (modify f)) (\<lambda>_. bnd (write_leased (me_id e) (modify g)) (\<lambda>_.
      on_nodes (cx_remove_link (me_id e))))) (\<lambda>r s. r = Ok () \<and> released (t_remove (ino_of p) nm e T) (fewer e L) s)"
  unfolding t_remove_def fewer_def
  by (intro does_then [OF does_modify_leased [of f "del_ent nm e", OF f]] does_then [OF does_modify_leased [of g "unname e", OF g]]
      does_remove_link)

lemma implements_unlink: "implements (mem_unlink p nm c) (t_unlink (ino_of p) nm)"
proof (rule implementsI)
  fix T L assume ok: "tree_ok T L"
  show "does (shows_tree T L) (mem_unlink p nm c) (answers (t_unlink (ino_of p) nm (T, L)) (T, L))"
    unfolding mem_unlink_def
  proof (rule does_step [OF does_entry], goal_cases)
    case (1 e)
    from t_entry_Ok [OF ok 1] obtain P M where P: "T (ino_of p) = Some P" "tn_ents P nm = Some e"
      and M: "T (me_ino e) = Some M" "tn_kind M = me_kind e" by metis
    then have kind: "t_kind T (me_ino e) = Ok (me_kind e)" by (simp add: t_kind_def)
    show ?case
    proof (rule does_step [OF does_kind], goal_cases)
      case (1 k)
      with kind have k: "k = me_kind e" by simp
      show ?case
      proof (cases "me_kind e = Directory")
        case True
        with k \<open>t_entry T (ino_of p) nm = Ok e\<close> ok show ?thesis by (auto simp: t_unlink_def intro!: does_error answers_Err)
      next
        case False
        with \<open>t_entry T (ino_of p) nm = Ok e\<close> have spec: "t_unlink (ino_of p) nm (T, L) = (Ok (), t_remove (ino_of p) nm e T, fewer e L)"
          by (simp add: t_unlink_def)
        from False k show ?thesis unfolding spec
          by (auto intro!: does_after_now does_weaken [OF does_remove] answers_Ok tree_ok_remove [OF ok P, folded fewer_def]
              simp: file_changes [OF False])
      qed
    qed (use kind in auto)
  qed (use ok in \<open>auto simp: t_unlink_def intro: answers_Err\<close>)
qed

lemma implements_rmdir: "implements (mem_rmdir p nm c) (t_rmdir (ino_of p) nm)"
proof (rule implementsI)
  fix T L assume ok: "tree_ok T L"
  show "does (shows_tree T L) (mem_rmdir p nm c) (answers (t_rmdir (ino_of p) nm (T, L)) (T, L))"
    unfolding mem_rmdir_def
  proof (rule does_step [OF does_entry], goal_cases)
    case (1 e)
    from t_entry_Ok [OF ok 1] obtain P M where P: "T (ino_of p) = Some P" "tn_ents P nm = Some e"
      and M: "T (me_ino e) = Some M" "tn_kind M = me_kind e" by metis
    show ?case
    proof (rule does_weaken [OF does_leased_then [where Q = "\<lambda>r s. r = Ok () \<and> released (t_remove (ino_of p) nm e T) (fewer e L) s"]], goal_cases)
      case (1 d x)
      with M have dir: "me_kind e = Directory" by (auto simp: content_case split: if_splits)
      show ?case by (intro does_after_now does_remove) (auto simp flip: dir_changes [OF dir])
    next
      case (3 r s)
      then show ?case
        using ok 1 M P tree_ok_remove [OF ok P, folded fewer_def]
        by (auto simp: t_rmdir_def t_check_replaced_def content_case tn_ents_entries bt_get_empty split: if_splits intro!: answers_Ok answers_Err)
    qed (auto intro: released_drop_lease)
  qed (use ok in \<open>auto simp: t_rmdir_def intro: answers_Err\<close>)
qed

section \<open>Creating and linking\<close>

lemma t_check_new_Ok:
  assumes "t_check_new T p nm = Ok u" obtains P where "T p = Some P" "tn_kind P = Directory" "tn_ents P nm = None"
  using assms that by (auto simp: t_check_new_def t_entry_def errno_defs split: option.splits if_splits)

lemma t_check_new_total [simp]: "t_check_new T p nm \<noteq> Panic" "t_check_new T p nm \<noteq> Blocks"
  by (auto simp: t_check_new_def t_entry_def split: option.splits)

text \<open>A new node gets an inode that was free.\<close>

definition creates :: "file_kind \<Rightarrow> content \<Rightarrow> u64 \<Rightarrow> os_str \<Rightarrow> names \<Rightarrow> node_id result \<Rightarrow> memory_fs \<times> mem_node shared \<Rightarrow> bool" where
  "creates kind content p nm N r s \<longleftrightarrow> (case t_check_new (fst N) p nm of
     Ok _ \<Rightarrow> \<exists>nid. r = Ok nid \<and> fst N (ino_of nid) = None \<and> snd N (ino_of nid) = 0 \<and>
       shows_tree (t_create p nm \<lparr>me_id = nid, me_kind = kind\<rparr> (body_of content) (fst N)) ((snd N)(ino_of nid := 1)) s
   | Err x \<Rightarrow> r = Err x \<and> shows_tree (fst N) (snd N) s
   | _ \<Rightarrow> False)"

definition fresh_content :: "file_kind \<Rightarrow> content \<Rightarrow> bool" where
  "fresh_content kind content \<longleftrightarrow> content_ok kind content \<and> (kind = Directory \<longrightarrow> content = DirContent [])"

lemma new_node:
  assumes "fresh_content kind content"
  shows "data_ok (mn_data (mem_node_new now kind content perm uid gid rdev))"
    "tnode_of (mn_data (mem_node_new now kind content perm uid gid rdev)) = t_new kind (body_of content)"
    "\<not> mn_poisoned (mem_node_new now kind content perm uid gid rdev)"
  using assms by (auto simp: mem_node_new_def node_data_new_def data_ok_def tnode_of_def t_new_def fresh_content_def bt_sorted_def
      split: content.splits)

lemma does_create_child:
  assumes fresh: "fresh_content kind content"
  shows "does (shows_tree T L) (create_child p nm kind content perm rdev) (creates kind content (ino_of p) nm (T, L))"
  unfolding create_child_def
proof (rule does_step [OF does_check_new], goal_cases)
  case (1 u)
  from t_check_new_Ok [OF 1] obtain P where P: "T (ino_of p) = Some P" "tn_kind P = Directory" "tn_ents P nm = None" .
  have child: "does (shows_tree T L) (bnd (insert_node (mem_node_new t kind content perm uid gid rdev) p) (\<lambda>nid.
      bnd system_now (\<lambda>now. bnd (link_into p nm \<lparr>me_id = nid, me_kind = kind\<rparr> now) (\<lambda>_. ret nid)))) (creates kind content (ino_of p) nm (T, L))"
    for t uid gid
  proof (rule does_bnd [OF does_insert], goal_cases)
    case (3 nid)
    let ?T = "T(ino_of nid \<mapsto> t_new kind (body_of content))" let ?L = "L(ino_of nid := 1)" let ?e = "\<lparr>me_id = nid, me_kind = kind\<rparr>"
    have "does (shows_tree ?T ?L) (bnd system_now (\<lambda>now. bnd (link_into p nm ?e now) (\<lambda>_. ret nid)))
        (\<lambda>r s. r = Ok nid \<and> shows_tree (at (ino_of p) (add_ent nm ?e) ?T) ?L s)" if "T (ino_of nid) = None"
      using that P by (intro does_after_now does_then [OF does_link_into] does_result) (auto split: if_splits)
    then have "does (shows_tree ?T ?L) (bnd system_now (\<lambda>now. bnd (link_into p nm ?e now) (\<lambda>_. ret nid)))
        (creates kind content (ino_of p) nm (T, L))" if "T (ino_of nid) = None" "L (ino_of nid) = 0"
      by (rule does_weaken) (use that 1 in \<open>auto simp: creates_def t_create_def\<close>)
    then show ?case by (auto simp: new_node [OF fresh] intro!: doesI elim!: doesD)
  qed (use new_node [OF fresh] in auto)
  show ?case by (rule does_after_now) (use child in \<open>auto simp: does_def\<close>)
qed (auto simp: creates_def)

lemma creates_ok:
  assumes "creates kind content p nm (T, L) r s" "tree_ok T L" shows "mem_inv s"
proof (cases "t_check_new T p nm")
  case (Ok u)
  from t_check_new_Ok [OF Ok] obtain P where P: "T p = Some P" "tn_kind P = Directory" "tn_ents P nm = None" .
  from assms(1) Ok obtain nid where n: "T (ino_of nid) = None" "L (ino_of nid) = 0"
      and s: "shows_tree (t_create p nm \<lparr>me_id = nid, me_kind = kind\<rparr> (body_of content) T) (L(ino_of nid := 1)) s"
    by (auto simp: creates_def)
  from tree_ok_create [OF assms(2) P, of "\<lparr>me_id = nid, me_kind = kind\<rparr>"] n s show ?thesis by (auto simp: mem_inv_shows)
qed (use assms in \<open>auto simp: creates_def mem_inv_shows\<close>)

lemma implements_link: "implements (mem_link nid q nm c) (t_link_to nid (ino_of q) nm)"
proof (rule implementsI)
  fix T L assume ok: "tree_ok T L"
  show "does (shows_tree T L) (mem_link nid q nm c) (answers (t_link_to nid (ino_of q) nm (T, L)) (T, L))"
    unfolding mem_link_def
  proof (rule does_step [OF does_kind], goal_cases)
    case (1 kind)
    let ?e = "\<lparr>me_id = nid, me_kind = kind\<rparr>"
    from 1 obtain M where M: "T (ino_of nid) = Some M" "tn_kind M = kind" by (auto simp: t_kind_def split: option.splits)
    show ?case
    proof (cases "kind = Directory")
      case True
      with 1 ok show ?thesis by (auto simp: t_link_to_def intro!: does_error answers_Err)
    next
      case regular: False
      have "does (shows_tree T L) (bnd (check_new_entry q nm) (\<lambda>_. bnd system_now (\<lambda>now. bnd (mem_kind nid) (\<lambda>kind.
         bnd (link_into q nm \<lparr>me_id = nid, me_kind = kind\<rparr> now) (\<lambda>_. bnd (add_link_to nid) (\<lambda>_.
         bnd (write_leased nid (bnd more_links (\<lambda>_. modify (\<lambda>d. d\<lparr>nd_ctime := now\<rparr>)))) (\<lambda>_. ret nid)))))))
         (answers (t_link_to nid (ino_of q) nm (T, L)) (T, L))"
      proof (rule does_step [OF does_check_new], goal_cases)
        case (1 u)
        from t_check_new_Ok [OF 1] obtain Q where Q: "T (ino_of q) = Some Q" "tn_kind Q = Directory" "tn_ents Q nm = None" .
        let ?T1 = "at (ino_of q) (add_ent nm ?e) T" let ?L = "L(ino_of nid := Suc (L (ino_of nid)))"
        have spec: "t_link_to nid (ino_of q) nm (T, L) = (Ok nid, t_link (ino_of q) nm ?e T, ?L)"
          using 1 regular M by (simp add: t_link_to_def t_kind_def)
        have k: "does (shows_tree T L) (mem_kind nid) (\<lambda>r s. r = Ok kind \<and> shows_tree T L s)"
          using does_kind [of T L nid] M by (simp add: t_kind_def)
        have i: "does (shows_tree T L) (link_into q nm ?e now) (\<lambda>r s. r = Ok () \<and> shows_tree ?T1 L s)" for now
          using Q by (intro does_link_into) auto
        have a: "does (shows_tree ?T1 L) (add_link_to nid) (\<lambda>r s. r = Ok () \<and> shows_tree ?T1 ?L s)"
          using M by (intro does_add_link) (auto simp: at_apply)
        have w: "does (shows_tree ?T1 ?L) (write_leased nid (bnd more_links (\<lambda>_. modify (\<lambda>d. d\<lparr>nd_ctime := now\<rparr>))))
            (\<lambda>r s. r = Ok () \<and> shows_tree (t_link (ino_of q) nm ?e T) ?L s)" for now
          unfolding t_link_def mem_entry.simps
          by (rule does_write_leased [where K = "\<lambda>_. True"])
            (auto simp: refines_def bnd_def modify_def split: prod.splits outcome.splits dest: more_links_run)
        from tree_ok_link [OF ok Q, of ?e M] M regular have ok': "tree_ok (t_link (ino_of q) nm ?e T) ?L" by simp
        show ?case unfolding spec
          by (intro does_after_now does_then [OF k] does_then [OF i] does_then [OF a] does_then [OF w] does_result answers_Ok ok' shows_released)
      qed (use ok 1 regular in \<open>auto simp: t_link_to_def intro: answers_Err\<close>)
      with regular show ?thesis by simp
    qed
  qed (use ok in \<open>auto simp: t_link_to_def t_kind_def intro: answers_Err split: option.splits\<close>)
qed

section \<open>Renaming\<close>

text \<open>
  What the statements of a rename do to the tree, one after another. It is the abstract move and removal, up to the link counts of
  directories that have no link.
\<close>

definition more_link :: "tnode \<Rightarrow> tnode" where
  "more_link t = t\<lparr>tn_nlink := Suc (tn_nlink t)\<rparr>"

definition swap_names :: "u64 \<Rightarrow> os_str \<Rightarrow> u64 \<Rightarrow> os_str \<Rightarrow> mem_entry \<Rightarrow> tree \<Rightarrow> tree" where
  "swap_names p nm q nm' e T = (let T2 = at q (put_ent nm' e) (at p (cut_ent nm) T) in
     if me_kind e = Directory \<and> p \<noteq> q then at q more_link (at p less_link T2) else T2)"

definition drop_old :: "u64 \<Rightarrow> mem_entry \<Rightarrow> tree \<Rightarrow> tree" where
  "drop_old q old T = at (me_ino old) (unname old) (if me_kind old = Directory then at q less_link T else T)"

lemma dropsI:
  assumes "\<And>n. T' n = T n \<or> L n = 0 \<and> (\<exists>d d'. T n = Some d \<and> T' n = Some d' \<and> tn_kind d = Directory \<and> tn_kind d' = Directory \<and> tn_ents d' = tn_ents d \<and> tn_body d' = tn_body d)"
  shows "drops L T T'"
  unfolding drops_def
proof
  fix n
  have "d' = d\<lparr>tn_nlink := tn_nlink d'\<rparr>" if "tn_kind d' = tn_kind d" "tn_ents d' = tn_ents d" "tn_body d' = tn_body d" for d d' :: tnode
    using that by (cases d; cases d') simp
  with assms [of n] show "T' n = T n \<or> L n = 0 \<and> (T' n = None \<or> (\<exists>d k. T n = Some d \<and> tn_kind d = Directory \<and> T' n = Some (d\<lparr>tn_nlink := k\<rparr>)))"
    by metis
qed

lemma linked_dir_count:
  assumes "tree_ok T L" "T n = Some d" "tn_kind d = Directory" "L n \<noteq> 0" shows "2 \<le> tn_nlink d"
  using counts_okD [OF tree_okD(3) [OF assms(1)] assms(2)] assms(3,4) by (simp add: count_ok_def)

lemmas change_defs = put_ent_def cut_ent_def add_ent_def del_ent_def more_link_def less_link_def unname_def dir_weight_def Let_def

lemma drops_move:
  assumes ok: "tree_ok T L" and P: "T p = Some P" "tn_kind P = Directory" and Q: "T q = Some Q" "tn_kind Q = Directory"
  shows "drops L (t_move p nm q nm' e T) (swap_names p nm q nm' e T)"
proof (rule dropsI)
  fix n
  have "2 \<le> tn_nlink P" if "L p \<noteq> 0" using linked_dir_count [OF ok P that] .
  then show "swap_names p nm q nm' e T n = t_move p nm q nm' e T n \<or> L n = 0 \<and> (\<exists>d d'. t_move p nm q nm' e T n = Some d \<and>
      swap_names p nm q nm' e T n = Some d' \<and> tn_kind d = Directory \<and> tn_kind d' = Directory \<and> tn_ents d' = tn_ents d \<and> tn_body d' = tn_body d)"
    using P Q by (cases "n = p"; cases "n = q") (auto simp: swap_names_def t_move_def at_apply change_defs)
qed

lemma drops_replace:
  assumes ok: "tree_ok T L" and P: "T p = Some P" "tn_kind P = Directory" and Q: "T q = Some Q" "tn_kind Q = Directory"
    and old: "me_ino old \<noteq> p" "me_ino old \<noteq> q" "me_kind old = Directory \<longleftrightarrow> me_kind e = Directory" and nm: "p = q \<Longrightarrow> nm \<noteq> nm'"
  shows "drops (fewer old L) (t_move p nm q nm' e (t_remove q nm' old T)) (drop_old q old (swap_names p nm q nm' e T))"
proof (rule dropsI)
  fix n
  have "2 \<le> tn_nlink P" if "L p \<noteq> 0" using linked_dir_count [OF ok P that] .
  moreover have "2 \<le> tn_nlink Q" if "L q \<noteq> 0" using linked_dir_count [OF ok Q that] .
  ultimately show "drop_old q old (swap_names p nm q nm' e T) n = t_move p nm q nm' e (t_remove q nm' old T) n \<or>
      fewer old L n = 0 \<and> (\<exists>d d'. t_move p nm q nm' e (t_remove q nm' old T) n = Some d \<and>
      drop_old q old (swap_names p nm q nm' e T) n = Some d' \<and> tn_kind d = Directory \<and> tn_kind d' = Directory \<and> tn_ents d' = tn_ents d \<and> tn_body d' = tn_body d)"
    using P Q old nm by (cases "n = p"; cases "n = q")
      (auto simp: swap_names_def drop_old_def t_move_def t_remove_def at_apply fewer_def change_defs fun_upd_twist)
qed

lemma at_id [simp]: "at n id T = T" and at_absent: "T n = None \<Longrightarrow> at n f T = T"
  by (simp_all add: at_def option.map_id fun_upd_idem)

lemma does_touch: "does (shows_tree T L) (write_leased nid (modify (touch now))) (\<lambda>r s. r = Ok () \<and> shows_tree T L s)"
  using does_modify_leased [of "touch now" id T L nid] by simp

lemma does_change_parent:
  "does (shows_tree T L) (if me_kind e = Directory \<and> p \<noteq> q
      then bnd (on_nodes (cx_reparent (me_id e) q)) (\<lambda>_. bnd (write_leased p (modify fewer_links)) (\<lambda>_. write_leased q more_links))
      else ret ()) (\<lambda>r s. r = Ok () \<and> shows_tree
        (if me_kind e = Directory \<and> ino_of p \<noteq> ino_of q then at (ino_of q) more_link (at (ino_of p) less_link T) else T) L s)"
proof (cases "me_kind e = Directory \<and> p \<noteq> q")
  case True
  have "does (shows_tree T L) (write_leased q more_links) (\<lambda>r s. r = Ok () \<and> shows_tree (at (ino_of q) more_link T) L s)" for T
    by (rule does_write_leased [where K = "\<lambda>_. True"]) (auto simp: refines_def more_link_def dest: more_links_run)
  then have "does (shows_tree T L) (bnd (on_nodes (cx_reparent (me_id e) q)) (\<lambda>_. bnd (write_leased p (modify fewer_links)) (\<lambda>_. write_leased q more_links)))
      (\<lambda>r s. r = Ok () \<and> shows_tree (at (ino_of q) more_link (at (ino_of p) less_link T)) L s)"
    by (intro does_then [OF does_reparent] does_then [OF does_modify_leased [where g = less_link]]) simp_all
  with True show ?thesis by (simp add: node_id_eq_iff)
qed (auto simp: node_id_eq_iff intro: does_result)

lemma does_drop_replaced:
  "does (shows_tree T L) (drop_replaced q old now) (\<lambda>r s. r = Ok () \<and> released (drop_old (ino_of q) old T) (fewer old L) s)"
proof -
  have parent: "does (shows_tree T L) (if me_kind old = Directory then write_leased q (modify fewer_links) else ret ())
      (\<lambda>r s. r = Ok () \<and> shows_tree (if me_kind old = Directory then at (ino_of q) less_link T else T) L s)"
    using does_modify_leased [of fewer_links less_link T L q] by (auto intro: does_result)
  show ?thesis
    unfolding drop_replaced_def drop_old_def fewer_def
    by (intro does_then [OF parent] does_then [OF does_modify_leased [where g = "unname old"]] does_remove_link)
      (auto simp: unname_def less_link_def)
qed

lemma does_swap:
  assumes Q: "T (ino_of q) = Some Q" "tn_kind Q = Directory" and nm: "ino_of p = ino_of q \<Longrightarrow> nm \<noteq> nm'"
    and rest: "does (shows_tree (swap_names (ino_of p) nm (ino_of q) nm' e T) L)
      (case tn_ents Q nm' of None \<Rightarrow> ret () | Some old \<Rightarrow> drop_replaced q old now) X"
  shows "does (shows_tree T L) (move_entry p nm q nm' e now) X"
proof -
  let ?T1 = "at (ino_of p) (cut_ent nm) T" let ?Q = "if ino_of p = ino_of q then cut_ent nm Q else Q"
  have Q1: "?T1 (ino_of q) = Some ?Q" "tn_kind ?Q = Directory" "tn_ents ?Q nm' = tn_ents Q nm'"
    using Q nm by (auto simp: at_apply cut_ent_def)
  note ex = does_exchange [of ?T1 q ?Q _ nm', OF Q1(1,2), unfolded Q1(3)]
  show ?thesis
    unfolding move_entry_def
    by (intro does_then [OF does_modify_leased [where g = "cut_ent nm" and nid = p]] does_then [OF ex]
        does_then [OF does_touch] does_then [OF does_change_parent] rest [unfolded swap_names_def Let_def]) simp
qed

lemma does_lose:
  assumes Q: "T (ino_of q) = None" and p: "ino_of p \<noteq> ino_of q"
  shows "does (shows_tree T L) (move_entry p nm q nm' e now) (\<lambda>r s. r = Ok () \<and> shows_tree (at (ino_of p) (del_ent nm e) T) L s)"
proof -
  let ?T1 = "at (ino_of p) (cut_ent nm) T"
  have Q1: "?T1 (ino_of q) = None" using Q p by (simp add: at_apply)
  then have ex: "does (shows_tree ?T1 L) (exchange_entry q nm' e) (\<lambda>r s. r = Ok None \<and> shows_tree ?T1 L s)"
    unfolding exchange_entry_def
    by (intro does_weaken [OF does_lease_write [where K = "\<lambda>_. False" and g = id]]) (auto simp: refines_def)
  have "(if me_kind e = Directory \<and> ino_of p \<noteq> ino_of q then at (ino_of q) more_link (at (ino_of p) less_link ?T1) else ?T1) =
      at (ino_of p) (del_ent nm e) T"
    using Q p by (cases "T (ino_of p)") (auto simp: at_def change_defs fun_eq_iff)
  then show ?thesis
    unfolding move_entry_def
    by (intro does_then [OF does_modify_leased [where g = "cut_ent nm" and nid = p]] does_then [OF ex]
        does_then [OF does_touch] does_then [OF does_change_parent]) (auto intro: does_result)
qed

text \<open>A checked rename onto a free name, and onto a name that is replaced.\<close>

lemma does_move_free:
  assumes ok: "tree_ok T L" and P: "T (ino_of p) = Some P" "tn_kind P = Directory" "tn_ents P nm = Some e"
    and Q: "T (ino_of q) = Some Q" "tn_kind Q = Directory" "tn_ents Q nm' = None"
  shows "does (shows_tree T L) (move_entry p nm q nm' e now) (\<lambda>r s. r = Ok () \<and> released (t_move (ino_of p) nm (ino_of q) nm' e T) L s)"
proof (rule does_swap [of T q, OF Q(1,2)])
  show "ino_of p = ino_of q \<Longrightarrow> nm \<noteq> nm'" using P Q by auto
  show "does (shows_tree (swap_names (ino_of p) nm (ino_of q) nm' e T) L)
      (case tn_ents Q nm' of None \<Rightarrow> ret () | Some old \<Rightarrow> drop_replaced q old now)
      (\<lambda>r s. r = Ok () \<and> released (t_move (ino_of p) nm (ino_of q) nm' e T) L s)"
    using Q(3) released_mono [OF shows_released drops_move [OF ok P(1,2) Q(1,2)]] by (auto intro!: does_result)
qed

lemma does_move_over:
  assumes ok: "tree_ok T L" and P: "T (ino_of p) = Some P" "tn_kind P = Directory" "tn_ents P nm = Some e"
    and Q: "T (ino_of q) = Some Q" "tn_kind Q = Directory" "tn_ents Q nm' = Some old" and ne: "me_ino old \<noteq> me_ino e"
    and check: "t_check_replaced T (me_kind e = Directory) (me_ino old) = Ok u"
  shows "does (shows_tree T L) (move_entry p nm q nm' e now)
    (\<lambda>r s. r = Ok () \<and> released (t_move (ino_of p) nm (ino_of q) nm' e (t_remove (ino_of q) nm' old T)) (fewer old L) s)"
proof (rule does_swap [of T q, OF Q(1,2)])
  obtain D where D: "T (me_ino old) = Some D" "tn_kind D = me_kind old" using entries_okD(2) [OF tree_okD(2) [OF ok] Q(1,3)] by blast
  with check have old: "me_kind old = Directory \<longleftrightarrow> me_kind e = Directory" "me_kind old = Directory \<Longrightarrow> tn_ents D = Map.empty"
    by (auto simp: t_check_replaced_def split: if_splits)
  have apart: "me_ino old \<noteq> ino_of p" "me_ino old \<noteq> ino_of q" using D old P Q by auto
  show nm: "ino_of p = ino_of q \<Longrightarrow> nm \<noteq> nm'" using P Q ne by auto
  show "does (shows_tree (swap_names (ino_of p) nm (ino_of q) nm' e T) L)
      (case tn_ents Q nm' of None \<Rightarrow> ret () | Some old \<Rightarrow> drop_replaced q old now)
      (\<lambda>r s. r = Ok () \<and> released (t_move (ino_of p) nm (ino_of q) nm' e (t_remove (ino_of q) nm' old T)) (fewer old L) s)"
    unfolding Q(3) option.case
    by (rule does_weaken [OF does_drop_replaced]) (auto intro: released_mono [OF _ drops_replace [OF ok P(1,2) Q(1,2) apart old(1) nm]])
qed

lemma tree_ok_replace:
  assumes ok: "tree_ok T L" and P: "T p = Some P" "tn_ents P nm = Some e" and Q: "T q = Some Q" "tn_kind Q = Directory" "tn_ents Q nm' = Some old"
    and ne: "me_ino old \<noteq> me_ino e" "me_ino old \<noteq> p" "me_ino old \<noteq> q"
  shows "tree_ok (t_move p nm q nm' e (t_remove q nm' old T)) (fewer old L)"
proof -
  let ?T = "t_remove q nm' old T"
  have "?T p = Some (if p = q then del_ent nm' old P else P)" "?T q = Some (del_ent nm' old Q)"
    using P Q ne by (auto simp: t_remove_def at_apply)
  moreover have "p = q \<Longrightarrow> nm \<noteq> nm'" using P Q ne by auto
  ultimately show ?thesis
    using tree_ok_move [OF tree_ok_remove [OF ok Q(1,3)], of p _ nm e q _ nm'] P Q by (auto simp: fewer_def split: if_splits)
qed

text \<open>What the check of the replaced node rules out.\<close>

lemma t_check_replaced_Ok:
  assumes ok: "tree_ok T L" and e: "t_entry T p nm = Ok e" "t_entry T q nm' = Ok old" and check: "t_check_replaced T (me_kind e = Directory) (me_ino old) = Ok u"
  shows "me_ino old \<noteq> p" "me_ino old \<noteq> q"
proof -
  from t_entry_Ok [OF ok e(1)] obtain P where P: "T p = Some P" "tn_kind P = Directory" "tn_ents P nm = Some e" by metis
  from t_entry_Ok [OF ok e(2)] obtain Q where Q: "T q = Some Q" "tn_kind Q = Directory" "tn_ents Q nm' = Some old" by metis
  from check P Q show "me_ino old \<noteq> p" "me_ino old \<noteq> q" by (auto simp: t_check_replaced_def split: option.splits if_splits)
qed

lemma does_rename_free:
  assumes ok: "tree_ok T L" and e: "t_entry T (ino_of p) nm = Ok e" and free: "t_entry T (ino_of q) nm' = Err ENOENT"
  shows "does (shows_tree T L) (move_entry p nm q nm' e now) (answers (t_rename (ino_of p) nm (ino_of q) nm' (T, L)) (T, L))"
proof -
  from t_entry_Ok [OF ok e] obtain P where P: "T (ino_of p) = Some P" "tn_kind P = Directory" "tn_ents P nm = Some e" by metis
  show ?thesis
  proof (cases "T (ino_of q)")
    case None
    with P have "ino_of p \<noteq> ino_of q" by auto
    note lose = does_lose [of T q p, OF None this]
    show ?thesis
      by (rule does_weaken [OF lose]) (use e free None tree_ok_lose [OF ok P(1,3)] in \<open>auto simp: t_rename_def intro!: answers_Ok shows_released\<close>)
  next
    case (Some Q)
    with free have Q: "tn_kind Q = Directory" "tn_ents Q nm' = None" by (auto simp: t_entry_def errno_defs split: if_splits option.splits)
    show ?thesis
      by (rule does_weaken [OF does_move_free [OF ok P Some Q]]) (use e free Some tree_ok_move [OF ok P(1,3) Some Q] in \<open>auto simp: t_rename_def intro!: answers_Ok\<close>)
  qed
qed

lemma does_rename_over:
  assumes ok: "tree_ok T L" and e: "t_entry T (ino_of p) nm = Ok e" and old: "t_entry T (ino_of q) nm' = Ok old" "me_ino old \<noteq> me_ino e"
    and check: "t_check_replaced T (me_kind e = Directory) (me_ino old) = Ok u"
  shows "does (shows_tree T L) (move_entry p nm q nm' e now) (answers (t_rename (ino_of p) nm (ino_of q) nm' (T, L)) (T, L))"
proof -
  from t_entry_Ok [OF ok e] obtain P where P: "T (ino_of p) = Some P" "tn_kind P = Directory" "tn_ents P nm = Some e" by metis
  from t_entry_Ok [OF ok old(1)] obtain Q where Q: "T (ino_of q) = Some Q" "tn_kind Q = Directory" "tn_ents Q nm' = Some old" by metis
  have ok': "tree_ok (t_move (ino_of p) nm (ino_of q) nm' e (t_remove (ino_of q) nm' old T)) (fewer old L)"
    using tree_ok_replace [OF ok P(1,3) Q old(2)] t_check_replaced_Ok [OF ok e old(1) check] .
  show ?thesis
    by (rule does_weaken [OF does_move_over [OF ok P Q old(2) check]]) (use e old check ok' in \<open>auto simp: t_rename_def intro!: answers_Ok\<close>)
qed

lemma implements_rename: "implements (mem_rename p nm q nm' flags c) (t_rename (ino_of p) nm (ino_of q) nm')"
proof (rule implementsI)
  fix T L assume ok: "tree_ok T L"
  let ?X = "t_rename (ino_of p) nm (ino_of q) nm' (T, L)"
  show "does (shows_tree T L) (mem_rename p nm q nm' flags c) (answers ?X (T, L))"
    unfolding mem_rename_def
  proof (rule does_step [OF does_entry], goal_cases)
    case e: (1 e)
    have kind: "t_kind T (me_ino e) = Ok (me_kind e)" by (rule t_entry_Ok [OF ok e]) (simp add: t_kind_def)
    show ?case
    proof (rule does_step [OF does_kind], goal_cases)
      case (1 k)
      with kind have k: "k = me_kind e" "\<lparr>me_id = me_id e, me_kind = k\<rparr> = e" by simp_all
      show ?case unfolding k(2) unfolding k(1)
      proof (rule does_step [OF does_optional [OF does_entry]], goal_cases)
        case (3 x)
        consider (same) old where "t_entry T (ino_of q) nm' = Ok old" "x = Some old" "me_ino old = me_ino e"
          | (old) old where "t_entry T (ino_of q) nm' = Ok old" "x = Some old" "me_ino old \<noteq> me_ino e"
          | (free) "t_entry T (ino_of q) nm' = Err ENOENT" "x = None"
          using 3 by (auto split: outcome.splits if_splits)
        then show ?case
        proof cases
          case same
          with e ok show ?thesis by (auto simp: t_rename_def node_id_eq_iff intro!: does_result answers_Ok shows_released)
        next
          case old
          have "does (shows_tree T L) (bnd (check_replaced (me_kind e = Directory) (me_id old)) (\<lambda>_. bnd system_now (move_entry p nm q nm' e)))
              (answers ?X (T, L))"
            by (rule does_step [OF does_check_replaced])
              (use ok e old does_rename_over [OF ok e old(1,3)] in
                \<open>auto simp: t_rename_def t_check_replaced_def intro!: does_after_now answers_Err split: option.splits\<close>)
          with old show ?thesis by (simp add: node_id_eq_iff)
        next
          case free
          with does_rename_free [OF ok e free(1)] show ?thesis by (auto intro!: does_after_now does_then [OF does_ret])
        qed
      qed (use ok e in \<open>auto simp: t_rename_def intro: answers_Err split: outcome.splits if_splits\<close>)
    qed (use kind in auto)
  qed (use ok in \<open>auto simp: t_rename_def intro: answers_Err\<close>)
qed

end
