(* ===== verification/Memory_Contract.thy ===== *)
theory Memory_Contract
  imports Memory_Refine
begin

text \<open>
  The in-memory filesystem keeps the contract of the runtime, and unless a request panics every request keeps the invariant
  \<open>mem_inv\<close>: the store represents a well-formed tree. So the tree is well-formed after every run in which no request panicked.
\<close>

section \<open>The contract of the runtime\<close>

lemma quiet_now: "quiet system_now"
  by (rule quiet_pure) (simp add: system_now_def split: prod.splits)

lemma quiet_read_node: "quiet (read_node a f)"
  by (rule quiet_pure) (simp add: read_node_def Let_def)

lemma quiet_write_node: "quiet (write_node a m)"
  by (rule quietI) (auto simp: write_node_def Let_def eff_refl eff_set_payload split: prod.splits if_splits)

lemma quiet_write_leased: "quiet (write_leased nid m)"
  unfolding write_leased_def by (intro quiet_lease_or quiet_ret quiet_write_node)

lemma quiet_insert_node: "quiet (insert_node p parent)" and quiet_add_link_to: "quiet (add_link_to nid)"
  by (auto intro!: quietI simp: insert_node_def add_link_to_def split: prod.splits intro: eff_cx_insert eff_cx_add_link)

lemma quiet_optional: "quiet m \<Longrightarrow> quiet (optional m)"
  by (rule quietI) (auto simp: optional_def split: prod.splits outcome.splits dest: quietD)

lemma quiet_mem_reads: "quiet (check_new_entry p nm)" "quiet (mem_entry_of p nm)" "quiet (mem_kind nid)" "quiet (check_replaced b nid)"
  unfolding check_new_entry_def mem_entry_of_def mem_kind_def check_replaced_def by (intro quiet_leased quiet_read_node)+

lemma quiet_fs: "(\<And>fs. quiet (f fs)) \<Longrightarrow> quiet (\<lambda>s. f (fst s) s)"
  by (auto simp: quiet_def)

lemmas quiet_parts = quiet_bnd quiet_ret quiet_fail quiet_now quiet_read_node quiet_write_node quiet_write_leased quiet_insert_node
  quiet_add_link_to quiet_optional quiet_mem_reads quiet_leased

lemma quiet_create_child: "quiet (create_child p nm kind content perm rdev)"
proof -
  have "quiet (\<lambda>s. bnd (insert_node (mem_node_new now kind content perm (mf_uid (fst s)) (mf_gid (fst s)) rdev) p) (\<lambda>nid.
      bnd system_now (\<lambda>now. bnd (link_into p nm \<lparr>me_id = nid, me_kind = kind\<rparr> now) (\<lambda>_. ret nid))) s)" for now
    unfolding link_into_def by (rule quiet_fs) (intro quiet_parts)
  then show ?thesis unfolding create_child_def by (intro quiet_bnd quiet_mem_reads quiet_now)
qed

lemma quiet_mem_names:
  "quiet (mem_lookup p nm c)" "quiet (mem_mknod p nm mode rdev um c)" "quiet (mem_mkdir p nm mode um c)" "quiet (mem_symlink p nm tgt c)"
  "quiet (mem_create p nm mode um flags c)" "quiet (mem_link nid p nm c)"
  unfolding mem_lookup_def mem_mknod_def mem_mkdir_def mem_symlink_def mem_create_def mem_link_def link_into_def
  by (auto intro!: quiet_parts quiet_create_child split: option.splits)

lemma quiet_remove: "quiet (on_nodes (cx_remove_link nid))"
  by (rule quiet_on_nodes) (rule eff_cx_remove_link)

lemma quiet_mem_removes: "quiet (mem_unlink p nm c)" "quiet (mem_rmdir p nm c)" "quiet (mem_rename p nm q nm' flags c)"
proof -
  have move: "quiet (move_entry p nm q nm' e now)" for e now
    unfolding move_entry_def drop_replaced_def exchange_entry_def
    by (auto intro!: quiet_parts quiet_remove quiet_lease_or quiet_on_nodes eff_cx_reparent split: option.splits)
  show "quiet (mem_unlink p nm c)" "quiet (mem_rmdir p nm c)" "quiet (mem_rename p nm q nm' flags c)"
    unfolding mem_unlink_def mem_rmdir_def mem_rename_def
    by (auto intro!: quiet_parts quiet_remove move split: option.splits)
qed

lemma quiet_mem_nodes:
  "quiet (mem_getattr a oh c)" "quiet (mem_opendir a flags c)" "quiet (mem_setattr a oh' sa c)" "quiet (mem_readlink a c)"
  "quiet (mem_open a flags c)" "quiet (mem_read a h off sz c)" "quiet (mem_write a h dat off c)"
  "quiet (mem_setxattr a nm val flags c)" "quiet (mem_getxattr a nm sz c)" "quiet (mem_listxattr a sz c)" "quiet (mem_removexattr a nm c)"
  unfolding mem_getattr_def mem_opendir_def mem_setattr_def mem_readlink_def mem_open_def mem_read_def mem_write_def
    mem_setxattr_def mem_getxattr_def mem_listxattr_def mem_removexattr_def
  by (intro quiet_parts)+

lemma mem_readdir_state: "mem_readdir a this par off c (fs, sh, d, k) = (r, (fs', sh', d', k')) \<Longrightarrow> fs' = fs \<and> sh' = sh"
  by (auto simp: mem_readdir_def Let_def split: if_splits content.splits)

lemma quiet_mem_readdir: "quiet_dir (mem_readdir a this par off c)"
  by (auto simp: quiet_dir_def eff_refl dest!: mem_readdir_state)

interpretation memory: node_fs_contract memory_fs_ops
  by unfold_locales
    (simp_all add: memory_fs_ops_def default_node_fs_def quiet_mem_names quiet_mem_removes quiet_mem_nodes quiet_mem_readdir)

section \<open>Requests keep the tree well-formed\<close>

text \<open>A program under a write guard that changes nothing the tree shows of a node but its body.\<close>

definition tame :: "(memory_fs \<times> node_data, errno, 'a) prog \<Rightarrow> bool" where
  "tame m \<longleftrightarrow> (\<forall>fs d r fs' d'. data_ok d \<longrightarrow> m (fs, d) = (r, (fs', d')) \<longrightarrow> r \<noteq> Panic \<longrightarrow> data_ok d' \<and>
     tnode_of d' = (tnode_of d)\<lparr>tn_body := body_of (nd_content d')\<rparr>)"

lemma tameD:
  assumes "tame m" "data_ok d" "m (fs, d) = (r, (fs', d'))" "r \<noteq> Panic"
  shows "data_ok d'" "tnode_of d' = (tnode_of d)\<lparr>tn_body := body_of (nd_content d')\<rparr>"
  using assms unfolding tame_def by blast+

lemma tame_bnd:
  assumes "tame m" "\<And>a. tame (f a)" shows "tame (bnd m f)"
  unfolding tame_def
proof (intro allI impI)
  fix fs d r fs' d' assume ok: "data_ok d" and run: "bnd m f (fs, d) = (r, (fs', d'))" and np: "r \<noteq> Panic"
  from run show "data_ok d' \<and> tnode_of d' = (tnode_of d)\<lparr>tn_body := body_of (nd_content d')\<rparr>"
  proof (cases rule: bnd_cases)
    case (ok a s)
    obtain fs1 d1 where s: "s = (fs1, d1)" by (cases s)
    note 1 = tameD [OF assms(1) \<open>data_ok d\<close> ok(1) [unfolded s]]
    with tameD [OF assms(2) _ ok(2) [unfolded s] np] show ?thesis by simp
  qed (use tameD [OF assms(1) ok] np in auto)
qed

lemma tame_now: "tame system_now"
  by (auto simp: tame_def system_now_def split: prod.splits)

lemma tame_modify: "(\<And>d. data_ok d \<Longrightarrow> data_ok (f d) \<and> tnode_of (f d) = (tnode_of d)\<lparr>tn_body := body_of (nd_content (f d))\<rparr>) \<Longrightarrow> tame (modify f)"
  by (auto simp: tame_def modify_def)

lemma keeps_write_node:
  assumes "tame m" shows "keeps True mem_inv (write_node a m)"
proof (rule keepsI)
  fix st r s' assume p: "mem_inv st" and run: "write_node a m st = (r, s')" and np: "True \<Longrightarrow> r \<noteq> Panic"
  obtain fs sh where st: "st = (fs, sh)" by (cases st)
  from p have inv: "table_inv sh" "store_ok sh" "tree_ok (tree_of sh) (links_of sh)" by (simp_all add: mem_inv_def st)
  obtain fs' d' where m: "m (fs, mn_data (payload sh a)) = (r, (fs', d'))" "s' = (fs', set_payload a \<lparr>mn_poisoned = False, mn_data = d'\<rparr> sh)"
    using run np by (auto simp: st write_node_def Let_def split: prod.splits outcome.splits if_splits)
  let ?p = "\<lparr>mn_poisoned = False, mn_data = d'\<rparr>"
  show "mem_inv s'"
  proof (cases "\<exists>n s. slot_at sh n = Some s \<and> s_record s = a")
    case True
    then obtain n s where s: "slot_at sh n = Some s" "s_record s = a" by blast
    with store_okD(2) [OF inv(2) s(1)] tameD [OF assms _ m(1)] np have d': "data_ok d'"
        "tnode_of d' = (tnode_of (mn_data (payload sh a)))\<lparr>tn_body := body_of (nd_content d')\<rparr>"
      by simp_all
    have "tree_of (set_payload a ?p sh) = t_fill n (body_of (nd_content d')) (tree_of sh)"
      using write_payload(1) [OF inv(1) s(1), of ?p] d' tree_of_slot [OF s(1)] s by (simp add: t_fill_def at_def)
    with tree_ok_body [OF inv(3), of n "body_of (nd_content d')"]
    have "tree_ok (tree_of (set_payload a ?p sh)) (links_of sh)" by simp
    moreover have "store_ok (set_payload a ?p sh)" using write_payload(2) [OF inv(1) s(1) inv(2), of ?p] d' s by simp
    ultimately show ?thesis using inv m(2) by (simp add: mem_inv_def)
  next
    case False
    then have "a \<noteq> s_record s" if "slot_at sh n = Some s" for n s using that by blast
    then have pl: "payload (set_payload a ?p sh) (s_record s) = payload sh (s_record s)" if "slot_at sh n = Some s" for n s
      using that by (metis heap_set_payload nth_list_update_neq payload_def)
    have "tree_of (set_payload a ?p sh) n = tree_of sh n" for n using pl by (cases "slot_at sh n") (auto simp: tree_of_def)
    then have "tree_of (set_payload a ?p sh) = tree_of sh" by (rule ext)
    moreover have "store_ok (set_payload a ?p sh)" using inv(2) pl by (auto simp: store_ok_def)
    ultimately show ?thesis using inv m(2) by (simp add: mem_inv_def)
  qed
qed

lemma keeps_now: "keeps np mem_inv system_now"
  by (auto simp: keeps_def system_now_def mem_inv_def split: prod.splits)

lemma keeps_read_node: "keeps np I (read_node a f)"
  by (rule keeps_pure) (simp add: read_node_def Let_def)

lemma set_attr_tame: "tame (modify (set_owner sa))" "tame (set_size sa)" "tame (modify (set_times sa now))"
proof -
  show "tame (modify (set_owner sa))" "tame (modify (set_times sa now))"
    by (intro tame_modify; simp add: set_owner_def set_times_def Let_def data_ok_def tnode_of_def split: option.split)+
  show "tame (set_size sa)"
    by (auto simp: tame_def set_size_def data_ok_def tnode_of_def split: option.splits content.splits)
qed

lemma tame_result: "tame (\<lambda>s. (f s, s))"
  by (simp add: tame_def)

lemma keeps_mem_nodes:
  "keeps True mem_inv (mem_getattr a oh c)" "keeps True mem_inv (mem_opendir a flags c)" "keeps True mem_inv (mem_setattr a oh' sa c)"
  "keeps True mem_inv (mem_readlink a c)" "keeps True mem_inv (mem_open a flags c)" "keeps True mem_inv (mem_read a h off sz c)"
  unfolding mem_getattr_def mem_opendir_def mem_setattr_def mem_readlink_def mem_open_def mem_read_def
  by (intro keeps_read_node keeps_write_node tame_bnd tame_now set_attr_tame tame_result)+

lemma keeps_mem_write: "keeps True mem_inv (mem_write a h dat off c)"
  unfolding mem_write_def
  by (intro keeps_bnd keeps_now keeps_write_node)
    (auto simp: tame_def data_ok_def tnode_of_def touch_def split: content.splits option.splits)

lemma keeps_mem_xattrs:
  "keeps True mem_inv (mem_setxattr a nm val flags c)" "keeps True mem_inv (mem_getxattr a nm sz c)"
  "keeps True mem_inv (mem_listxattr a sz c)" "keeps True mem_inv (mem_removexattr a nm c)"
  unfolding mem_setxattr_def mem_getxattr_def mem_listxattr_def mem_removexattr_def
  by (auto intro!: keeps_read_node keeps_write_node
      simp: tame_def Let_def bnd_def modify_def system_now_def data_ok_def tnode_of_def split: prod.splits if_splits)

lemma does_keeps:
  assumes "\<And>T L. tree_ok T L \<Longrightarrow> does (shows_tree T L) m (Q T L)" "\<And>T L r s. tree_ok T L \<Longrightarrow> Q T L r s \<Longrightarrow> mem_inv s"
  shows "keeps True mem_inv m"
proof (rule keepsI)
  fix st r s' assume "mem_inv st" and run: "m st = (r, s')" "True \<Longrightarrow> r \<noteq> Panic"
  then obtain T L where T: "shows_tree T L st" "tree_ok T L" by (auto simp: mem_inv_shows)
  from doesD [OF assms(1) [OF T(2)] T(1) run(1)] assms(2) [OF T(2)] run(2) show "mem_inv s'" by blast
qed

lemma keeps_implements: "implements m spec \<Longrightarrow> keeps True mem_inv m"
  by (rule does_keeps [where Q = "\<lambda>T L. answers (spec (T, L)) (T, L)"]) (auto simp: implements_def answers_def intro: released_ok)

lemma keeps_create_child: "fresh_content kind content \<Longrightarrow> keeps True mem_inv (create_child p nm kind content perm rdev)"
  by (rule does_keeps [OF does_create_child]) (auto intro: creates_ok)

lemma keeps_mem_lookup: "keeps True mem_inv (mem_lookup p nm c)"
  by (rule does_keeps [OF does_mem_lookup]) (auto simp: mem_inv_shows)

lemma keeps_mem_creates:
  "keeps True mem_inv (mem_mknod p nm mode rdev um c)" "keeps True mem_inv (mem_mkdir p nm mode um c)"
  "keeps True mem_inv (mem_symlink p nm tgt c)" "keeps True mem_inv (mem_create p nm mode um flags c)"
proof -
  have "fresh_content kind content" if "mknod_kind mode = Some (kind, content)" for kind content
    using that by (auto simp: mknod_kind_def fresh_content_def Let_def split: if_splits)
  then show "keeps True mem_inv (mem_mknod p nm mode rdev um c)"
    unfolding mem_mknod_def by (auto intro!: keeps_fail keeps_create_child split: option.splits)
qed (auto simp: mem_mkdir_def mem_symlink_def mem_create_def fresh_content_def bt_sorted_def intro!: keeps_create_child keeps_bnd keeps_ret)

lemmas keeps_mem_changes = implements_unlink [THEN keeps_implements] implements_rmdir [THEN keeps_implements]
  implements_rename [THEN keeps_implements] implements_link [THEN keeps_implements]

interpretation memory: fs_invariant True memory_fs_ops mem_inv
proof (unfold_locales, goal_cases)
  case (1 fs sh)
  then show ?case by (simp add: mem_inv_def)
next
  case (2 fs sh sh')
  then show ?case by (auto simp: mem_inv_shows [of "(fs, sh)"] dest: released_bookkeeping [OF shows_released] intro: released_ok)
next
  case (37 fs sh a this par off c d k r fs' sh' d' k')
  then show ?case by (auto simp: memory_fs_ops_def default_node_fs_def dest!: mem_readdir_state)
qed (simp_all add: memory_fs_ops_def default_node_fs_def keeps_mem_nodes keeps_mem_write keeps_mem_xattrs keeps_mem_lookup
    keeps_mem_creates keeps_mem_changes keeps_fail keeps_ret)

section \<open>Runs\<close>

definition memory_rt :: "u32 \<Rightarrow> u32 \<Rightarrow> (nat \<Rightarrow> system_time) \<Rightarrow> (memory_fs, mem_node, unit, unit) runtime" where
  "memory_rt uid gid clock = snd (runtime_new memory_fs_ops (memory_fs_new uid gid clock))"

lemma memory_rt_new: "runtime_new memory_fs_ops (memory_fs_new uid gid clock) = (Ok (), memory_rt uid gid clock)"
  by (simp add: memory_rt_def runtime_new_def memory_fs_ops_def default_node_fs_def split: prod.splits)

lemma link_keeps:
  "on_rt mem_inv rt \<Longrightarrow> serve memory_fs_ops (OnName (Link n p nm) c) rt = (r, rt') \<Longrightarrow> r \<noteq> Panic \<Longrightarrow> on_rt mem_inv rt'"
proof -
  have "keeps True (on_rt mem_inv) (serve memory_fs_ops (OnName (Link n p nm) c))"
    by (simp add: rt_link_def) (intro keeps_fmap memory.keeps_runtime memory.keeps_entry_for,
      simp add: memory_fs_ops_def keeps_mem_changes)
  then show "on_rt mem_inv rt \<Longrightarrow> serve memory_fs_ops (OnName (Link n p nm) c) rt = (r, rt') \<Longrightarrow> r \<noteq> Panic \<Longrightarrow> on_rt mem_inv rt'"
    by (rule keepsD) simp_all
qed

lemma mem_inv_start: "on_rt mem_inv (memory_rt uid gid clock)"
proof -
  let ?rt = "memory_rt uid gid clock"
  have sh: "rt_shared ?rt = shared_new (fst (mem_root (memory_fs_new uid gid clock)))"
    by (simp add: memory_rt_def runtime_new_def memory_fs_ops_def default_node_fs_def split: prod.splits)
  have root: "data_ok (mn_data (fst (mem_root (memory_fs_new uid gid clock))))" "\<not> mn_poisoned (fst (mem_root (memory_fs_new uid gid clock)))"
      "tnode_of (mn_data (fst (mem_root (memory_fs_new uid gid clock)))) = t_new Directory SpecialContent"
    by (simp_all add: mem_root_def new_node fresh_content_def bt_sorted_def split: prod.splits)
  obtain s where slots: "slot_at (rt_shared ?rt) = [1 \<mapsto> s]" "s_record s = 0" "unat (s_links s) = 1"
      "payload (rt_shared ?rt) 0 = fst (mem_root (memory_fs_new uid gid clock))"
  proof
    show "slot_at (rt_shared ?rt) = [1 \<mapsto> \<lparr>s_record = 0, s_generation = 0, s_links = 1, s_lookups = 0, s_opens = 0, s_leases = 0, s_parent = ROOT\<rparr>]"
      by (auto simp: sh shared_new_def slot_at_def set_slot_def table_new_def fun_eq_iff)
  qed (simp_all add: sh shared_new_def payload_def)
  have "tree_of (rt_shared ?rt) = [1 \<mapsto> t_new Directory SpecialContent]" "links_of (rt_shared ?rt) = (\<lambda>_. 0)(1 := 1)" "store_ok (rt_shared ?rt)"
    using slots root by (auto simp: fun_eq_iff tree_of_def links_of_def store_ok_def split: if_splits option.splits)
  then show ?thesis using tree_ok_root table_inv_new by (simp add: on_rt_def mem_inv_def sh)
qed

end
