(* ===== verification/Runtime_Props.thy ===== *)
theory Runtime_Props
  imports Kernel_View
begin

text \<open>
  Properties of the runtime for every filesystem that satisfies the contract, and a minimal filesystem
  on which the contract and the properties are exercised: one directory whose every name is itself.
\<close>

section \<open>A minimal filesystem\<close>

definition loop_fs :: "(unit, unit, nat, unit) node_fs" where
  "loop_fs = (default_node_fs (\<lambda>fs. ((), fs)) (\<lambda>_ _ _. ret default_attr))
     \<lparr>fs_lookup := (\<lambda>_ _ _. ret (Some ROOT)), fs_open := (\<lambda>_ _ _. ret (opened_new 7))\<rparr>"

interpretation loop: node_fs_contract loop_fs
  by unfold_locales (auto simp: loop_fs_def default_node_fs_def)

definition loop_rt :: "(unit, unit, nat, unit) runtime" where
  "loop_rt = snd (runtime_new loop_fs ())"

lemma loop_new: "runtime_new loop_fs () = (Ok (), loop_rt)"
  by (simp add: loop_rt_def runtime_new_def loop_fs_def default_node_fs_def)

text \<open>Three requests: a lookup, an open, and a forget of the lookup.\<close>

definition loop_requests :: "request list" where
  "loop_requests = [OnName (Lookup 1 ''a'') default_caller, OnNode (Open 0) 1 default_caller, Forget 1 1]"

lemmas rt_eval = loop_rt_def runtime_new_def loop_fs_def default_node_fs_def loop_requests_def
  rt_lookup_def rt_open_def rt_forget_def entry_for_def entry_retain_def callback_def with_node_def on_table_def
  on_handles_def drop_node_def node_ref_drop_def cx_get_def forget_count_def add_open_def add_file_def
  next_handle_def handle_table_new_def handle_record_new_def table_eval opened_new_def fmap_def bnd_def

lemma loop_run:
  "\<exists>e opn rt. run loop_fs loop_requests loop_rt = ([Ok (ReplyLookup (Found e)), Ok (ReplyOpen opn), Ok ReplyUnit], rt) \<and>
     er_ino e = 1 \<and> or_fh opn = 1"
  by (simp add: rt_eval)

section \<open>Properties\<close>

text \<open>
  C1. The node table implements the kernel's bookkeeping: after any sequence of requests served for any
  filesystem that keeps the contract, the lookup count of every inode is at least the number of
  entries the kernel was given and has not forgotten, and is exactly that number when every request
  returned; and the runtime's own invariant holds, with every open handle counted.
\<close>

theorem runtime_refines_kernel_view:
  assumes "node_fs_contract F" and "runtime_new F fs0 = (Ok (), rt0)" and "run F qs rt0 = (rs, rt)"
  shows "rt_inv rt \<and> (\<forall>n. kernel_view qs rs (\<lambda>_. 0) n \<le> lookups_of (rt_shared rt) n) \<and>
    ((\<forall>r \<in> set rs. returned r) \<longrightarrow>
       lookups_of (rt_shared rt) = kernel_view qs rs (\<lambda>_. 0) \<and> opens_of (rt_shared rt) = handle_count (rt_handles rt))"
proof -
  note new = node_fs_contract.new_ok [OF assms(1,2)]
  from node_fs_contract.run_ok [OF assms(1) new(1) assms(3), of "\<lambda>_. 0"] new show ?thesis
    by (simp add: rt_exact_def)
qed

theorem runtime_refines_kernel_view_witness:
  "\<exists>rs rt. run loop_fs loop_requests loop_rt = (rs, rt) \<and> rt_inv rt \<and> lookups_of (rt_shared rt) 1 = 0 \<and>
     opens_of (rt_shared rt) 1 = handle_count (rt_handles rt) 1"
proof -
  from loop_run obtain e opn rt where run: "run loop_fs loop_requests loop_rt =
      ([Ok (ReplyLookup (Found e)), Ok (ReplyOpen opn), Ok ReplyUnit], rt)" "er_ino e = 1" by blast
  from runtime_refines_kernel_view [OF loop.node_fs_contract_axioms loop_new run(1)] run show ?thesis
    by (auto simp: returned_def loop_requests_def entry_delta_def bump_def lower_def fun_eq_iff)
qed

text \<open>
  C5. What the kernel refers to is alive: after any sequence of requests, even ones that panic, an inode
  the kernel holds a lookup on, and the inode of every open file or directory, is in the node table.
\<close>

theorem kernel_references_alive:
  assumes "node_fs_contract F" and "runtime_new F fs0 = (Ok (), rt0)" and "run F qs rt0 = (rs, rt)"
    and "0 < kernel_view qs rs (\<lambda>_. 0) n \<or> 0 < handle_count (rt_handles rt) n"
  shows "\<exists>s. slot_at (rt_shared rt) n = Some s \<and> s_record s < length (sh_heap (rt_shared rt))"
proof -
  note new = node_fs_contract.new_ok [OF assms(1,2)]
  from node_fs_contract.run_ok [OF assms(1) new(1) assms(3), of "\<lambda>_. 0"] new
  have inv: "rt_inv rt" and K: "kernel_view qs rs (\<lambda>_. 0) n \<le> lookups_of (rt_shared rt) n" by auto
  from inv have "handle_count (rt_handles rt) n \<le> opens_of (rt_shared rt) n" by (simp add: rt_inv_def)
  with assms(4) K have "0 < lookups_of (rt_shared rt) n \<or> 0 < opens_of (rt_shared rt) n" by linarith
  then have "slot_at (rt_shared rt) n \<noteq> None" using counted_slot by blast
  with inv show ?thesis by (auto simp: rt_inv_def dest: table_inv_slotD(4))
qed

theorem kernel_references_alive_witness:
  "\<exists>rs rt s. run loop_fs [OnName (Lookup 1 ''a'') default_caller] loop_rt = (rs, rt) \<and> slot_at (rt_shared rt) 1 = Some s"
proof -
  have "\<exists>e rt. run loop_fs [OnName (Lookup 1 ''a'') default_caller] loop_rt = ([Ok (ReplyLookup (Found e))], rt) \<and> er_ino e = 1"
    by (simp add: rt_eval)
  then obtain e rt where run: "run loop_fs [OnName (Lookup 1 ''a'') default_caller] loop_rt = ([Ok (ReplyLookup (Found e))], rt)"
    "er_ino e = 1" by blast
  from kernel_references_alive [OF loop.node_fs_contract_axioms loop_new run(1), of 1] run show ?thesis
    by (auto simp: entry_delta_def bump_def)
qed

text \<open>
  C6. Inodes are neither leaked nor freed early: after any sequence of requests that returned, an inode is in the table exactly
  while it has a name, the kernel was given more entries for it than it has forgotten, or the handle table has a file or directory
  open on it. The last two are counted from the requests and replies and from the handles, not from the node table.
\<close>

theorem inode_lifetime:
  assumes "node_fs_contract F" and "runtime_new F fs0 = (Ok (), rt0)" and "run F qs rt0 = (rs, rt)" and "\<forall>r \<in> set rs. returned r"
  shows "slot_at (rt_shared rt) n \<noteq> None \<longleftrightarrow>
    0 < links_of (rt_shared rt) n \<or> 0 < kernel_view qs rs (\<lambda>_. 0) n \<or> 0 < handle_count (rt_handles rt) n"
proof -
  note new = node_fs_contract.new_ok [OF assms(1,2)]
  from node_fs_contract.run_ok [OF assms(1) new(1) assms(3), of "\<lambda>_. 0"] new assms(4)
  have inv: "rt_inv rt" and k: "lookups_of (rt_shared rt) = kernel_view qs rs (\<lambda>_. 0)" "opens_of (rt_shared rt) = handle_count (rt_handles rt)"
    by (auto simp: rt_exact_def)
  from inv have "table_inv (rt_shared rt)" "leases_of (rt_shared rt) n = 0" by (simp_all add: rt_inv_def)
  with counted_slot_iff [OF this(1), of n] k show ?thesis by auto
qed

theorem inode_lifetime_witness:
  "\<exists>rs rt. run loop_fs loop_requests loop_rt = (rs, rt) \<and> 0 < handle_count (rt_handles rt) 1 \<and> slot_at (rt_shared rt) 1 \<noteq> None \<and>
     slot_at (rt_shared rt) 5 = None"
proof -
  from loop_run obtain e opn rt where run: "run loop_fs loop_requests loop_rt =
      ([Ok (ReplyLookup (Found e)), Ok (ReplyOpen opn), Ok ReplyUnit], rt)" "er_ino e = 1" by blast
  have h: "\<exists>rs rt. run loop_fs loop_requests loop_rt = (rs, rt) \<and> 0 < handle_count (rt_handles rt) 1 \<and> handle_count (rt_handles rt) 5 = 0 \<and>
      links_of (rt_shared rt) 5 = 0"
    by (simp add: rt_eval handle_count_def opens_on_def links_of_def)
  from run(1) h have c: "0 < handle_count (rt_handles rt) 1" "handle_count (rt_handles rt) 5 = 0" "links_of (rt_shared rt) 5 = 0" by auto
  have v: "kernel_view loop_requests [Ok (ReplyLookup (Found e)), Ok (ReplyOpen opn), Ok ReplyUnit] (\<lambda>_. 0) 5 = 0"
    using run(2) by (simp add: loop_requests_def entry_delta_def bump_def lower_def)
  from inode_lifetime [OF loop.node_fs_contract_axioms loop_new run(1), of 1] inode_lifetime [OF loop.node_fs_contract_axioms loop_new run(1), of 5]
    run(1) c v show ?thesis by (auto simp: returned_def)
qed

text \<open>
  C12. Releasing an open file hands its payload to the filesystem once and forgets the handle. The whole
  effect of the request on the filesystem is one call of its \<^verbatim>\<open>release\<close>, from the state before the request
  to the state after it, on the record of the inode, with the payload of the handle, under a lease and after the
  open count was lowered; its result is the reply. The handle number is gone from the table, the inode has one open
  less, and using the number again is \<^verbatim>\<open>EBADF\<close>.
\<close>

theorem release_consumes_handle:
  assumes "node_fs_contract F" and "rt_inv rt" and "bt_get (ht_files (rt_handles rt)) fh = Some rc"
    and "ino_of (hr_node rc) = n" and "rt_release F n fh c rt = (r, rt')"
  shows "(\<exists>s nr sh1 sh2. slot_at (rt_shared rt) n = Some s \<and> nr_id nr = from_ino n \<and> nr_record nr = s_record s \<and>
            cx_get (from_ino n) (rt_shared rt) = (Ok (Some nr), sh1) \<and>
            fs_release F (s_record s) (hr_payload rc) c (rt_fs rt, remove_open n sh1) = (r, rt_fs rt', sh2) \<and>
            rt_shared rt' = node_ref_drop nr sh2) \<and>
    rt_handles rt' = (rt_handles rt)\<lparr>ht_files := bt_remove fh (ht_files (rt_handles rt))\<rparr> \<and>
    opens_of (rt_shared rt') n = opens_of (rt_shared rt) n - 1 \<and>
    rt_release F n fh c rt' = (Err EBADF, rt')"
proof -
  let ?t = "(rt_handles rt)\<lparr>ht_files := bt_remove fh (ht_files (rt_handles rt))\<rparr>"
  let ?cb = "\<lambda>nr h. fs_release F (nr_record nr) h c"
  have b: "release_body n rc ?cb (rt\<lparr>rt_handles := ?t\<rparr>) = (r, rt')"
    using assms(3-5) by (simp add: rt_release_def release_body_def)
  have cb: "quiet (?cb nr h)" for nr h using node_fs_contract.quiet_files(5) [OF assms(1)] .
  have inv: "table_inv (rt_shared rt)" "handles_inv (rt_handles rt)" "leases_of (rt_shared rt) n = 0"
    "handle_count (rt_handles rt) n \<le> opens_of (rt_shared rt) n" using assms(2) by (simp_all add: rt_inv_def)
  have "0 < opens_of (rt_shared rt) n"
    using inv(4) opens_on_pos [OF assms(3)] assms(4) by (simp add: handle_count_def)
  with release_body_effect [OF _ _ _ handles_inv_quiescent(1) [OF inv(2) assms(3)] cb b] inv
  have e: "rt_handles rt' = ?t" "eff id (lower n 1) (rt_shared rt) (rt_shared rt')"
    and "\<exists>nr sh1 rt2. cx_get (from_ino n) (rt_shared rt) = (Ok (Some nr), sh1) \<and>
      callback (?cb nr (hr_payload rc)) (rt\<lparr>rt_handles := ?t, rt_shared := remove_open n sh1\<rparr>) = (r, rt2) \<and> rt' = drop_node nr rt2"
    by simp_all
  then obtain nr sh1 rt2 where g: "cx_get (from_ino n) (rt_shared rt) = (Ok (Some nr), sh1)" "rt' = drop_node nr rt2"
    "callback (?cb nr (hr_payload rc)) (rt\<lparr>rt_handles := ?t, rt_shared := remove_open n sh1\<rparr>) = (r, rt2)" by blast
  from g(1) obtain s where s: "slot_at (rt_shared rt) n = Some s" "nr_record nr = s_record s" "nr_id nr = from_ino n"
    by (auto simp: cx_get_def split: option.splits)
  from g(3) obtain sh2 where "fs_release F (s_record s) (hr_payload rc) c (rt_fs rt, remove_open n sh1) = (r, rt_fs rt2, sh2)"
    "rt_shared rt2 = sh2" by (auto simp: callback_def s(2) split: prod.splits)
  with g s have "fs_release F (s_record s) (hr_payload rc) c (rt_fs rt, remove_open n sh1) = (r, rt_fs rt', sh2)"
    "rt_shared rt' = node_ref_drop nr sh2" by (simp_all add: drop_node_def)
  moreover have "rt_release F n fh c rt' = (Err EBADF, rt')" by (simp add: rt_release_def e(1))
  ultimately show ?thesis using effD(3) [OF e(2)] g(1) s e(1) by (auto simp: lower_def)
qed

theorem release_consumes_handle_witness:
  "\<exists>rt rt'. rt_release loop_fs 1 1 default_caller rt = (Ok (), rt') \<and> rt_release loop_fs 1 1 default_caller rt' = (Err EBADF, rt')"
proof -
  let ?rt = "snd (rt_open loop_fs 1 0 default_caller loop_rt)"
  have inv: "rt_inv ?rt"
    using rt_okD(1) [OF loop.rt_ok_opens(1) loop.new_ok(1) [OF loop_new] surjective_pairing] .
  have f: "bt_get (ht_files (rt_handles ?rt)) 1 = Some (handle_record_new (from_ino 1) 7)"
    by (simp add: rt_eval)
  have r: "fst (rt_release loop_fs 1 1 default_caller ?rt) = Ok ()"
    by (simp add: rt_eval rt_release_def close_and_take_def try_take_def begin_close_def remove_open_def)
  from release_consumes_handle [OF loop.node_fs_contract_axioms inv f _ surjective_pairing, of 1] r show ?thesis
    by (metis prod.collapse hr_node_new ino_of_from_ino)
qed

text \<open>The requests that name a handle number: whether of a directory, the inode, and the number.\<close>

fun names_handle :: "request \<Rightarrow> (bool \<times> u64 \<times> u64) option" where
  "names_handle (OnNode (Getattr (Some fh)) n c) = Some (False, n, fh)"
| "names_handle (OnNode (Setattr (Some fh) sa) n c) = Some (False, n, fh)"
| "names_handle (OnFile q n fh c) = Some (False, n, fh)"
| "names_handle (OnDir q n fh c) = Some (True, n, fh)"
| "names_handle _ = None"

fun is_open :: "('h, 'd) handle_table \<Rightarrow> bool \<times> u64 \<times> u64 \<Rightarrow> bool" where
  "is_open t (dir, n, fh) =
     (if dir then (case bt_get (ht_dirs t) fh of None \<Rightarrow> False | Some rc \<Rightarrow> ino_of (hr_node rc) = n)
      else (case bt_get (ht_files t) fh of None \<Rightarrow> False | Some rc \<Rightarrow> ino_of (hr_node rc) = n))"

text \<open>
  The answer to a refused request: the error number, which \<^verbatim>\<open>read\<close> hands to its continuation. A release looks at the handle only;
  the other requests look for the inode first.
\<close>

fun refusal :: "request \<Rightarrow> errno \<Rightarrow> reply result" where
  "refusal (OnFile (Read off sz) n fh c) e = Ok (ReplyData (Err e))"
| "refusal _ e = Err e"

fun stale_errno :: "request \<Rightarrow> bool \<Rightarrow> errno" where
  "stale_errno (OnFile Release n fh c) known = EBADF"
| "stale_errno (OnDir Releasedir n fh c) known = EBADF"
| "stale_errno _ known = (if known then EBADF else ENOENT)"

definition untouched :: "('fs, 'n, 'h, 'd) runtime \<Rightarrow> ('fs, 'n, 'h, 'd) runtime \<Rightarrow> bool" where
  "untouched rt rt' \<longleftrightarrow> rt_fs rt' = rt_fs rt \<and> rt_handles rt' = rt_handles rt \<and>
     lookups_of (rt_shared rt') = lookups_of (rt_shared rt) \<and> opens_of (rt_shared rt') = opens_of (rt_shared rt)"

lemma with_node_refused:
  assumes "rt_inv rt" and body: "\<And>nr sh. slot_at sh n \<noteq> None \<Longrightarrow> body nr (rt\<lparr>rt_shared := sh\<rparr>) = (Err EBADF, rt\<lparr>rt_shared := sh\<rparr>)"
  shows "\<exists>rt'. with_node (from_ino n) body rt = (Err (if slot_at (rt_shared rt) n \<noteq> None then EBADF else ENOENT), rt') \<and> untouched rt rt'"
proof (cases "slot_at (rt_shared rt) n")
  case None
  then show ?thesis by (simp add: with_node_def on_table_def cx_get_def bnd_def untouched_def)
next
  case (Some s)
  have inv: "table_inv (rt_shared rt)" "leases_of (rt_shared rt) n = 0" using assms(1) by (simp_all add: rt_inv_def)
  obtain nr sh1 where get: "cx_get (from_ino n) (rt_shared rt) = (Ok (Some nr), sh1)"
    using cx_get_quiet [of "rt_shared rt" "from_ino n"] inv(2) Some by auto
  then have "slot_at sh1 n \<noteq> None" by (auto simp: cx_get_def split: option.splits)
  from body [OF this] get have "with_node (from_ino n) body rt = (Err EBADF, drop_node nr (rt\<lparr>rt_shared := sh1\<rparr>))"
    by (simp add: with_node_def on_table_def bnd_def)
  with eff_bracket [OF inv(1) get eff_refl [OF lease_taken(1) [OF inv(1) get]]] Some show ?thesis
    by (simp add: untouched_def eff_def drop_node_def)
qed

lemma stale_lease:
  "\<not> is_open t (False, n, fh) \<Longrightarrow> file_lease n fh t = (Err EBADF, t)"
  "\<not> is_open t (True, n, fh) \<Longrightarrow> dir_lease n fh t = (Err EBADF, t)"
  by (auto simp: file_lease_def dir_lease_def split: option.splits)

lemma fmap_refused:
  assumes "rt_inv rt" and "\<And>nr sh. slot_at sh n \<noteq> None \<Longrightarrow> body nr (rt\<lparr>rt_shared := sh\<rparr>) = (Err EBADF, rt\<lparr>rt_shared := sh\<rparr>)"
    and "fmap f (with_node (from_ino n) body) rt = (r, rt')"
  shows "r = Err (if slot_at (rt_shared rt) n \<noteq> None then EBADF else ENOENT) \<and> untouched rt rt'"
proof -
  from with_node_refused [of rt n body, OF assms(1,2)] obtain rt1 where
    "with_node (from_ino n) body rt = (Err (if slot_at (rt_shared rt) n \<noteq> None then EBADF else ENOENT), rt1)" "untouched rt rt1" by blast
  with assms(3) show ?thesis by (simp add: fmap_def bnd_def)
qed

text \<open>The bodies of the requests, when the handle is not there.\<close>

lemma stale_bodies:
  "\<not> is_open (rt_handles rt) (False, n, fh) \<Longrightarrow> with_file n fh b (rt\<lparr>rt_shared := sh\<rparr>) = (Err EBADF, rt\<lparr>rt_shared := sh\<rparr>)"
  "\<not> is_open (rt_handles rt) (False, n, fh) \<Longrightarrow> bnd (optional_file F n a (Some fh)) g (rt\<lparr>rt_shared := sh\<rparr>) = (Err EBADF, rt\<lparr>rt_shared := sh\<rparr>)"
  "\<not> is_open (rt_handles rt) (True, n, fh) \<Longrightarrow> with_dir n fh h (rt\<lparr>rt_shared := sh\<rparr>) = (Err EBADF, rt\<lparr>rt_shared := sh\<rparr>)"
  "\<not> is_open (rt_handles rt) (True, n, fh) \<Longrightarrow> slot_at sh n \<noteq> None \<Longrightarrow>
     bnd (parent_of n) (\<lambda>par. with_dir n fh (k par)) (rt\<lparr>rt_shared := sh\<rparr>) = (Err EBADF, rt\<lparr>rt_shared := sh\<rparr>)"
  by (auto simp: with_file_def with_dir_def optional_file_def parent_of_def ok_or_def on_handles_def bnd_def stale_lease
      simp del: is_open.simps)

lemma stale_requests:
  assumes "rt_inv rt"
  shows "\<not> is_open (rt_handles rt) (False, n, fh) \<Longrightarrow>
      fmap f (with_node (from_ino n) (\<lambda>nr. bnd (optional_file F n (nr_record nr) (Some fh)) (g nr))) rt = (r, rt') \<Longrightarrow>
      r = Err (if slot_at (rt_shared rt) n \<noteq> None then EBADF else ENOENT) \<and> untouched rt rt'"
    "\<not> is_open (rt_handles rt) (False, n, fh) \<Longrightarrow> fmap f (with_node (from_ino n) (\<lambda>nr. with_file n fh (b nr))) rt = (r, rt') \<Longrightarrow>
      r = Err (if slot_at (rt_shared rt) n \<noteq> None then EBADF else ENOENT) \<and> untouched rt rt'"
    "\<not> is_open (rt_handles rt) (True, n, fh) \<Longrightarrow> fmap f (with_node (from_ino n) (\<lambda>nr. with_dir n fh (h nr))) rt = (r, rt') \<Longrightarrow>
      r = Err (if slot_at (rt_shared rt) n \<noteq> None then EBADF else ENOENT) \<and> untouched rt rt'"
    "\<not> is_open (rt_handles rt) (True, n, fh) \<Longrightarrow>
      fmap f (with_node (from_ino n) (\<lambda>nr. bnd (parent_of n) (\<lambda>par. with_dir n fh (k nr par)))) rt = (r, rt') \<Longrightarrow>
      r = Err (if slot_at (rt_shared rt) n \<noteq> None then EBADF else ENOENT) \<and> untouched rt rt'"
  by (rule fmap_refused [OF assms], rule stale_bodies, assumption+)+

lemma stale_file_request:
  assumes "rt_inv rt" "\<not> is_open (rt_handles rt) (False, n, fh)" "serve_file F q n fh c rt = (r, rt')"
  shows "r = refusal (OnFile q n fh c) (stale_errno (OnFile q n fh c) (slot_at (rt_shared rt) n \<noteq> None)) \<and> untouched rt rt'"
proof (cases q)
  case (Read off sz)
  from with_node_refused [of rt n "\<lambda>nr. with_file n fh (\<lambda>h. callback (fs_read F (nr_record nr) h off sz c))",
      OF assms(1) stale_bodies(1) [OF assms(2)]] Read assms(3)
  show ?thesis by (auto simp: rt_read_def reply_with_def fmap_def bnd_def)
next
  case Release
  with assms(2,3) show ?thesis
    by (auto simp: rt_release_def fmap_def bnd_def untouched_def split: option.splits if_splits)
qed (use assms in \<open>auto simp del: is_open.simps dest: stale_requests simp: rt_write_def rt_flush_def rt_fsync_def rt_fallocate_def rt_lseek_def rt_getlk_def rt_setlk_def rt_flock_def\<close>)

lemma stale_dir_request:
  assumes "rt_inv rt" "\<not> is_open (rt_handles rt) (True, n, fh)" "serve_dir F q n fh c rt = (r, rt')"
  shows "r = refusal (OnDir q n fh c) (stale_errno (OnDir q n fh c) (slot_at (rt_shared rt) n \<noteq> None)) \<and> untouched rt rt'"
proof (cases q)
  case Releasedir
  with assms(2,3) show ?thesis
    by (auto simp: rt_releasedir_def fmap_def bnd_def untouched_def split: option.splits if_splits)
qed (use assms in \<open>auto simp del: is_open.simps dest: stale_requests simp: rt_readdir_def rt_readdirplus_def rt_fsyncdir_def\<close>)

text \<open>
  C13. A handle number works only on its own inode. Every request that names a number which is not open on its inode, as a file or
  as a directory according to the request, is refused: \<^verbatim>\<open>ENOENT\<close> when the inode is unknown and the request looks for it first,
  otherwise \<^verbatim>\<open>EBADF\<close>. The filesystem's state, the handle table and all counts are as they were.
\<close>

theorem stale_handle_rejected:
  assumes "rt_inv rt" and "names_handle q = Some (dir, n, fh)" and "\<not> is_open (rt_handles rt) (dir, n, fh)"
    and "serve F q rt = (r, rt')"
  shows "r = refusal q (stale_errno q (slot_at (rt_shared rt) n \<noteq> None)) \<and> untouched rt rt'"
proof (cases q)
  case (OnNode x m c)
  from OnNode assms(2) have "m = n" "\<not> dir" "x = Getattr (Some fh) \<or> (\<exists>sa. x = Setattr (Some fh) sa)"
    by (cases x; auto elim: names_handle.elims)+
  with assms(1,3,4) OnNode show ?thesis
    by (auto simp: rt_getattr_def rt_setattr_def simp del: is_open.simps dest: stale_requests)
next
  case (OnFile x m fh' c)
  with assms stale_file_request [of rt n fh F x c r rt'] show ?thesis by auto
next
  case (OnDir x m fh' c)
  with assms stale_dir_request [of rt n fh F x c r rt'] show ?thesis by auto
qed (use assms in auto)

theorem stale_handle_rejected_witness:
  "\<exists>rt'. serve loop_fs (OnFile (Write [] 0) 1 9 default_caller) loop_rt = (Err EBADF, rt') \<and> untouched loop_rt rt'"
proof -
  let ?q = "OnFile (Write [] 0) 1 9 default_caller"
  obtain r rt' where s: "serve loop_fs ?q loop_rt = (r, rt')" by fastforce
  have "slot_at (rt_shared loop_rt) 1 \<noteq> None" "\<not> is_open (rt_handles loop_rt) (False, 1, 9)" "names_handle ?q = Some (False, 1, 9)"
    by (simp_all add: rt_eval)
  with stale_handle_rejected [OF loop.new_ok(1) [OF loop_new] _ _ s] s show ?thesis by (auto simp del: is_open.simps serve.simps)
qed




end
