(* ===== verification/Session_Ops.thy ===== *)
theory Session_Ops
  imports Session_Shims Runtime_Props
begin

text \<open>
  The operation table (\<^verbatim>\<open>make_ops\<close>) and what holds of every trampoline: each is a decoding of the raw request,
  one request to the runtime, and an encoding of its reply. From this follow the guarantees of the session:
  one reply per request, no filesystem panic reaches libfuse, and the inodes the kernel learned about from
  the raw replies stay alive.
\<close>

section \<open>The operation table\<close>

text \<open>Requests on a node, on an open file, on an open directory, and on names, with the raw arguments of the shims.\<close>

datatype raw_node_request =
    RqGetattr u64 "file_info option"
  | RqSetattr u64 "raw_stat option" i32 "file_info option"
  | RqReadlink u64
  | RqOpen u64 "file_info option"
  | RqOpendir u64 "file_info option"
  | RqStatfs u64
  | RqSetxattr u64 os_str bytes int
  | RqGetxattr u64 os_str nat
  | RqListxattr u64 nat
  | RqRemovexattr u64 os_str
  | RqAccess u64 int

datatype raw_file_request =
    RqRead u64 nat i64 "file_info option"
  | RqWrite u64 bytes i64 "file_info option"
  | RqFlush u64 "file_info option"
  | RqRelease u64 "file_info option"
  | RqFsync u64 i32 "file_info option"
  | RqFallocate u64 int i64 i64 "file_info option"
  | RqLseek u64 i64 int "file_info option"
  | RqGetlk u64 "file_info option" raw_flock
  | RqSetlk u64 "file_info option" raw_flock i32
  | RqFlock u64 "file_info option" int

datatype raw_dir_request =
    RqReaddir u64 nat i64 "file_info option"
  | RqReaddirplus u64 nat i64 "file_info option"
  | RqReleasedir u64 "file_info option"
  | RqFsyncdir u64 i32 "file_info option"

datatype raw_name_request =
    RqLookup u64 os_str
  | RqMknod u64 os_str u32 u64
  | RqMkdir u64 os_str u32
  | RqUnlink u64 os_str
  | RqRmdir u64 os_str
  | RqSymlink os_str u64 os_str
  | RqRename u64 os_str u64 os_str u32
  | RqLink u64 u64 os_str
  | RqCreate u64 os_str u32 "file_info option"
  | RqCopyFileRange u64 i64 u64 i64 u64 int

datatype raw_request =
    AtNode raw_node_request
  | AtFile raw_file_request
  | AtDir raw_dir_request
  | AtName raw_name_request
  | RqForget u64 u64
  | RqForgetMulti "(u64 \<times> u64) list"

text \<open>An operation that is not installed is left to libfuse.\<close>

primrec make_ops_node :: "shim_env \<Rightarrow> ('fs, 'n, 'h, 'd) node_fs \<Rightarrow> caller \<Rightarrow> raw_node_request \<Rightarrow> ('fs, 'n, 'h, 'd) shim option" where
  "make_ops_node E F c (RqGetattr ino fi) = Some (getattr_shim F c ino fi)"
| "make_ops_node E F c (RqSetattr ino attr to_set fi) = Some (setattr_shim E F c ino attr to_set fi)"
| "make_ops_node E F c (RqReadlink ino) = Some (readlink_shim F c ino)"
| "make_ops_node E F c (RqOpen ino fi) = Some (open_shim E F c ino fi)"
| "make_ops_node E F c (RqOpendir ino fi) = Some (opendir_shim E F c ino fi)"
| "make_ops_node E F c (RqStatfs ino) = Some (statfs_shim F c ino)"
| "make_ops_node E F c (RqSetxattr ino name val flags) = Some (setxattr_shim F c ino name val flags)"
| "make_ops_node E F c (RqGetxattr ino name sz) = Some (getxattr_shim F c ino name sz)"
| "make_ops_node E F c (RqListxattr ino sz) = Some (listxattr_shim F c ino sz)"
| "make_ops_node E F c (RqRemovexattr ino name) = Some (removexattr_shim F c ino name)"
| "make_ops_node E F c (RqAccess ino msk) = Some (access_shim F c ino msk)"

primrec make_ops_file :: "shim_env \<Rightarrow> ('fs, 'n, 'h, 'd) node_fs \<Rightarrow> caller \<Rightarrow> raw_file_request \<Rightarrow> ('fs, 'n, 'h, 'd) shim option" where
  "make_ops_file E F c (RqRead ino sz off fi) = Some (read_shim F c ino sz off fi)"
| "make_ops_file E F c (RqWrite ino dat off fi) = Some (write_shim F c ino dat off fi)"
| "make_ops_file E F c (RqFlush ino fi) = Some (flush_shim F c ino fi)"
| "make_ops_file E F c (RqRelease ino fi) = Some (release_shim F c ino fi)"
| "make_ops_file E F c (RqFsync ino datasync fi) = Some (fsync_shim F c ino datasync fi)"
| "make_ops_file E F c (RqFallocate ino mode off len fi) = Some (fallocate_shim F c ino mode off len fi)"
| "make_ops_file E F c (RqLseek ino off whence fi) = Some (lseek_shim F c ino off whence fi)"
| "make_ops_file E F c (RqGetlk ino fi rl) = (if fs_posix_locks F then Some (getlk_shim F c ino fi rl) else None)"
| "make_ops_file E F c (RqSetlk ino fi rl sleep) = (if fs_posix_locks F then Some (setlk_shim F c ino fi rl sleep) else None)"
| "make_ops_file E F c (RqFlock ino fi operation) = (if fs_supports_flock F then Some (flock_shim F c ino fi operation) else None)"

primrec make_ops_dir :: "shim_env \<Rightarrow> ('fs, 'n, 'h, 'd) node_fs \<Rightarrow> caller \<Rightarrow> raw_dir_request \<Rightarrow> ('fs, 'n, 'h, 'd) shim option" where
  "make_ops_dir E F c (RqReaddir ino sz off fi) = Some (readdir_shim E F c ino sz off fi)"
| "make_ops_dir E F c (RqReaddirplus ino sz off fi) =
     (if fs_supports_readdirplus F then Some (readdirplus_shim E F c ino sz off fi) else None)"
| "make_ops_dir E F c (RqReleasedir ino fi) = Some (releasedir_shim F c ino fi)"
| "make_ops_dir E F c (RqFsyncdir ino datasync fi) = Some (fsyncdir_shim F c ino datasync fi)"

primrec make_ops_name :: "shim_env \<Rightarrow> ('fs, 'n, 'h, 'd) node_fs \<Rightarrow> caller \<Rightarrow> raw_name_request \<Rightarrow> ('fs, 'n, 'h, 'd) shim option" where
  "make_ops_name E F c (RqLookup parent name) = Some (lookup_shim F c parent name)"
| "make_ops_name E F c (RqMknod parent name mode rdev) = Some (mknod_shim F c parent name mode rdev)"
| "make_ops_name E F c (RqMkdir parent name mode) = Some (mkdir_shim F c parent name mode)"
| "make_ops_name E F c (RqUnlink parent name) = Some (unlink_shim F c parent name)"
| "make_ops_name E F c (RqRmdir parent name) = Some (rmdir_shim F c parent name)"
| "make_ops_name E F c (RqSymlink link parent name) = Some (symlink_shim F c link parent name)"
| "make_ops_name E F c (RqRename parent name newparent newname flags) = Some (rename_shim F c parent name newparent newname flags)"
| "make_ops_name E F c (RqLink ino newparent newname) = Some (link_shim F c ino newparent newname)"
| "make_ops_name E F c (RqCreate parent name mode fi) = Some (create_shim E F c parent name mode fi)"
| "make_ops_name E F c (RqCopyFileRange ino_in off_in ino_out off_out len flags) =
     Some (copy_file_range_shim F c ino_in off_in ino_out off_out len flags)"

primrec make_ops :: "shim_env \<Rightarrow> ('fs, 'n, 'h, 'd) node_fs \<Rightarrow> caller \<Rightarrow> raw_request \<Rightarrow> ('fs, 'n, 'h, 'd) shim option" where
  "make_ops E F c (AtNode rq) = make_ops_node E F c rq"
| "make_ops E F c (AtFile rq) = make_ops_file E F c rq"
| "make_ops E F c (AtDir rq) = make_ops_dir E F c rq"
| "make_ops E F c (AtName rq) = make_ops_name E F c rq"
| "make_ops E F c (RqForget ino nlookup) = Some (forget_shim F ino nlookup)"
| "make_ops E F c (RqForgetMulti forgets) = Some (forget_multi_shim F forgets)"

text \<open>The two entries of the table that are not requests: they run when the connection is set up and torn down.\<close>

record ('fs, 'n, 'h, 'd) connection_ops =
  co_init :: "raw_conn \<Rightarrow> ('fs, 'n, 'h, 'd) runtime \<Rightarrow> unit result \<times> raw_conn \<times> ('fs, 'n, 'h, 'd) runtime"
  co_destroy :: "('fs, 'n, 'h, 'd, unit) rt_op"

definition make_ops_connection :: "('fs, 'n, 'h, 'd) node_fs \<Rightarrow> ('fs, 'n, 'h, 'd) connection_ops" where
  "make_ops_connection F = \<lparr>co_init = init_shim F, co_destroy = destroy_shim F\<rparr>"

text \<open>
  Neither lets a panic of the filesystem out; they change nothing but the filesystem's state, and \<^verbatim>\<open>init\<close> touches only the three
  fields of the connection that can be negotiated.
\<close>

lemma connection_ops_contained:
  "fst (co_init (make_ops_connection F) conn rt) \<noteq> Panic" "fst (co_destroy (make_ops_connection F) rt) \<noteq> Panic"
  "co_init (make_ops_connection F) conn rt = (r, conn', rt') \<Longrightarrow>
     rt' = rt\<lparr>rt_fs := rt_fs rt'\<rparr> \<and>
     conn' = conn\<lparr>rc_max_write := rc_max_write conn', rc_max_readahead := rc_max_readahead conn', rc_want := rc_want conn'\<rparr>"
  "co_destroy (make_ops_connection F) rt = (r, rt') \<Longrightarrow> rt' = rt\<lparr>rt_fs := rt_fs rt'\<rparr>"
proof -
  have c: "catch_unwind_unit r \<noteq> Panic" "catch_unwind_unit r \<noteq> Err e" for r e by (cases r; simp)+
  show "fst (co_init (make_ops_connection F) conn rt) \<noteq> Panic" "fst (co_destroy (make_ops_connection F) rt) \<noteq> Panic"
    "co_init (make_ops_connection F) conn rt = (r, conn', rt') \<Longrightarrow>
     rt' = rt\<lparr>rt_fs := rt_fs rt'\<rparr> \<and>
     conn' = conn\<lparr>rc_max_write := rc_max_write conn', rc_max_readahead := rc_max_readahead conn', rc_want := rc_want conn'\<rparr>"
    "co_destroy (make_ops_connection F) rt = (r, rt') \<Longrightarrow> rt' = rt\<lparr>rt_fs := rt_fs rt'\<rparr>"
    by (auto simp: make_ops_connection_def init_shim_def destroy_shim_def rt_init_def rt_destroy_def conn_apply_def Let_def c
        split: prod.splits outcome.splits)
qed

section \<open>Decoding and encoding\<close>

text \<open>A raw request is rejected, aborts the process in its conversion, or is a list of runtime requests.\<close>

datatype decoded = Serve request | ServeForgets "(u64 \<times> u64) list" | Reject errno | Abort

definition decode_lock :: "raw_flock \<Rightarrow> (file_lock \<Rightarrow> request) \<Rightarrow> decoded" where
  "decode_lock rl q = (case from_flock rl of Ok lk \<Rightarrow> Serve (q lk) | Err e \<Rightarrow> Reject e | _ \<Rightarrow> Abort)"

primrec decode_node :: "shim_env \<Rightarrow> caller \<Rightarrow> nat \<Rightarrow> raw_node_request \<Rightarrow> decoded" where
  "decode_node E c ttl (RqGetattr ino fi) = Serve (OnNode (Getattr (fi_fh_opt fi)) ino c)"
| "decode_node E c ttl (RqSetattr ino attr to_set fi) = (case setattr_from_raw (se_bits E) attr to_set of
     None \<Rightarrow> Abort | Some sa \<Rightarrow> Serve (OnNode (Setattr (fi_fh_opt fi) sa) ino c))"
| "decode_node E c ttl (RqReadlink ino) = Serve (OnNode Readlink ino c)"
| "decode_node E c ttl (RqOpen ino fi) = Serve (OnNode (Open (fi_flags fi)) ino c)"
| "decode_node E c ttl (RqOpendir ino fi) = Serve (OnNode (Opendir (fi_flags fi)) ino c)"
| "decode_node E c ttl (RqStatfs ino) = Serve (OnNode Statfs ino c)"
| "decode_node E c ttl (RqSetxattr ino name val flags) = Serve (OnNode (Setxattr name val flags) ino c)"
| "decode_node E c ttl (RqGetxattr ino name sz) = Serve (OnNode (Getxattr name sz) ino c)"
| "decode_node E c ttl (RqListxattr ino sz) = Serve (OnNode (Listxattr sz) ino c)"
| "decode_node E c ttl (RqRemovexattr ino name) = Serve (OnNode (Removexattr name) ino c)"
| "decode_node E c ttl (RqAccess ino msk) = Serve (OnNode (Access msk) ino c)"

primrec decode_file :: "shim_env \<Rightarrow> caller \<Rightarrow> nat \<Rightarrow> raw_file_request \<Rightarrow> decoded" where
  "decode_file E c ttl (RqRead ino sz off fi) = Serve (OnFile (Read off sz) ino (fi_fh fi) c)"
| "decode_file E c ttl (RqWrite ino dat off fi) = Serve (OnFile (Write dat off) ino (fi_fh fi) c)"
| "decode_file E c ttl (RqFlush ino fi) = Serve (OnFile Flush ino (fi_fh fi) c)"
| "decode_file E c ttl (RqRelease ino fi) = Serve (OnFile Release ino (fi_fh fi) c)"
| "decode_file E c ttl (RqFsync ino datasync fi) = Serve (OnFile (Fsync (datasync \<noteq> 0)) ino (fi_fh fi) c)"
| "decode_file E c ttl (RqFallocate ino mode off len fi) = Serve (OnFile (Fallocate mode off len) ino (fi_fh fi) c)"
| "decode_file E c ttl (RqLseek ino off whence fi) = Serve (OnFile (Lseek off whence) ino (fi_fh fi) c)"
| "decode_file E c ttl (RqGetlk ino fi rl) = decode_lock rl (\<lambda>lk. OnFile (Getlk (lock_owner fi) lk) ino (fi_fh fi) c)"
| "decode_file E c ttl (RqSetlk ino fi rl sleep) =
     decode_lock rl (\<lambda>lk. OnFile (Setlk (lock_owner fi) lk (sleep \<noteq> 0)) ino (fi_fh fi) c)"
| "decode_file E c ttl (RqFlock ino fi operation) = Serve (OnFile (Flock operation) ino (fi_fh fi) c)"

primrec decode_dir :: "shim_env \<Rightarrow> caller \<Rightarrow> nat \<Rightarrow> raw_dir_request \<Rightarrow> decoded" where
  "decode_dir E c ttl (RqReaddir ino sz off fi) = (if sint off < 0 then Reject EINVAL
     else Serve (OnDir (Readdir off (dirent_sink (se_format E) sz)) ino (fi_fh fi) c))"
| "decode_dir E c ttl (RqReaddirplus ino sz off fi) = (if sint off < 0 then Reject EINVAL
     else Serve (OnDir (Readdirplus off (dirent_plus_sink (se_format E) sz ttl)) ino (fi_fh fi) c))"
| "decode_dir E c ttl (RqReleasedir ino fi) = Serve (OnDir Releasedir ino (fi_fh fi) c)"
| "decode_dir E c ttl (RqFsyncdir ino datasync fi) = Serve (OnDir (Fsyncdir (datasync \<noteq> 0)) ino (fi_fh fi) c)"

primrec decode_name :: "shim_env \<Rightarrow> caller \<Rightarrow> nat \<Rightarrow> raw_name_request \<Rightarrow> decoded" where
  "decode_name E c ttl (RqLookup parent name) = Serve (OnName (Lookup parent name) c)"
| "decode_name E c ttl (RqMknod parent name mode rdev) = Serve (OnName (Mknod parent name mode (ucast rdev) (ca_umask c)) c)"
| "decode_name E c ttl (RqMkdir parent name mode) = Serve (OnName (Mkdir parent name mode (ca_umask c)) c)"
| "decode_name E c ttl (RqUnlink parent name) = Serve (OnName (Unlink parent name) c)"
| "decode_name E c ttl (RqRmdir parent name) = Serve (OnName (Rmdir parent name) c)"
| "decode_name E c ttl (RqSymlink link parent name) = Serve (OnName (Symlink parent name link) c)"
| "decode_name E c ttl (RqRename parent name newparent newname flags) = Serve (OnName (Rename parent name newparent newname flags) c)"
| "decode_name E c ttl (RqLink ino newparent newname) = Serve (OnName (Link ino newparent newname) c)"
| "decode_name E c ttl (RqCreate parent name mode fi) = Serve (OnName (Create parent name mode (ca_umask c) (fi_flags fi)) c)"
| "decode_name E c ttl (RqCopyFileRange ino_in off_in ino_out off_out len flags) =
     Serve (OnName (CopyFileRange ino_in off_in ino_out off_out len flags) c)"

primrec decode :: "shim_env \<Rightarrow> caller \<Rightarrow> nat \<Rightarrow> raw_request \<Rightarrow> decoded" where
  "decode E c ttl (AtNode rq) = decode_node E c ttl rq"
| "decode E c ttl (AtFile rq) = decode_file E c ttl rq"
| "decode E c ttl (AtDir rq) = decode_dir E c ttl rq"
| "decode E c ttl (AtName rq) = decode_name E c ttl rq"
| "decode E c ttl (RqForget ino nlookup) = ServeForgets [(ino, nlookup)]"
| "decode E c ttl (RqForgetMulti forgets) = ServeForgets forgets"

text \<open>The raw reply of a typed one; \<open>None\<close> is a panic in a conversion.\<close>

definition encode_entry :: "nat \<Rightarrow> entry_reply \<Rightarrow> entry_param option" where
  "encode_entry ttl e = entry_to_entry_param (er_ino e) (er_generation e) (er_attr e) ttl"

definition request_ino :: "raw_request \<Rightarrow> u64" where
  "request_ino rq = (case rq of AtNode (RqGetattr ino _) \<Rightarrow> ino | AtNode (RqSetattr ino _ _ _) \<Rightarrow> ino | _ \<Rightarrow> 0)"

definition request_size :: "raw_request \<Rightarrow> nat" where
  "request_size rq = (case rq of AtFile (RqRead _ sz _ _) \<Rightarrow> sz | AtNode (RqGetxattr _ _ sz) \<Rightarrow> sz
     | AtNode (RqListxattr _ sz) \<Rightarrow> sz | _ \<Rightarrow> 0)"

definition request_fi :: "raw_request \<Rightarrow> file_info option" where
  "request_fi rq = (case rq of AtNode (RqOpen _ fi) \<Rightarrow> fi | AtNode (RqOpendir _ fi) \<Rightarrow> fi
     | AtName (RqCreate _ _ _ fi) \<Rightarrow> fi | _ \<Rightarrow> None)"

lemmas request_defs = request_ino_def request_size_def request_fi_def

fun encode_xattr :: "xattr_reply \<Rightarrow> nat \<Rightarrow> raw_reply" where
  "encode_xattr (XSize len) sz = (if sz = 0 then RXattr len else RErr (raw EIO))"
| "encode_xattr (XData dat) sz =
     (if sz = 0 then RXattr (length dat) else if length dat > sz then RErr (raw ERANGE) else RBuf dat)"

primrec encode :: "shim_env \<Rightarrow> raw_request \<Rightarrow> nat \<Rightarrow> nat \<Rightarrow> nat \<Rightarrow> Kernel_View.reply \<Rightarrow> raw_reply option" where
  "encode E rq ttl nttl ttl0 ReplyUnit = Some (RErr 0)"
| "encode E rq ttl nttl ttl0 (ReplyLookup l) = (case l of
     Found e \<Rightarrow> map_option REntry (encode_entry ttl e)
   | Negative \<Rightarrow> Some (REntry (negative_entry_param nttl)))"
| "encode E rq ttl nttl ttl0 (ReplyEntry e) = map_option REntry (encode_entry ttl e)"
| "encode E rq ttl nttl ttl0 (ReplyCreate e r) =
     map_option (\<lambda>p. RCreate p (apply_open (se_has_pdw E) (or_fh r) (or_hints r) (request_fi rq))) (encode_entry ttl e)"
| "encode E rq ttl nttl ttl0 (ReplyOpen r) = Some (ROpen (apply_open (se_has_pdw E) (or_fh r) (or_hints r) (request_fi rq)))"
| "encode E rq ttl nttl ttl0 (ReplyAttr a) = map_option (\<lambda>st. RAttr st ttl) (attr_to_stat (request_ino rq) a)"
| "encode E rq ttl nttl ttl0 (ReplyStatfs s) = Some (RStatfs (statfs_to_raw s))"
| "encode E rq ttl nttl ttl0 (ReplyPath p) = Some (if no_nul p then RReadlink p else RErr (raw EINVAL))"
| "encode E rq ttl nttl ttl0 (ReplyXattr x) = Some (encode_xattr x (request_size rq))"
| "encode E rq ttl nttl ttl0 (ReplyData r) = Some (read_reply (request_size rq) r)"
| "encode E rq ttl nttl ttl0 (ReplyCount n) = Some (RWrite n)"
| "encode E rq ttl nttl ttl0 (ReplyOffset n) = Some (RLseek n)"
| "encode E rq ttl nttl ttl0 (ReplyLock lk) = (case to_flock lk of
     Ok l \<Rightarrow> Some (RLock l) | Err e \<Rightarrow> Some (RErr (raw e)) | _ \<Rightarrow> None)"
| "encode E rq ttl nttl ttl0 (ReplyDir k) = Some (RBuf (concat (map (item_image (se_format E)) (sk_items k))))"
| "encode E rq ttl nttl ttl0 (ReplyPlus k ids) =
     Some (RBuf (concat (map (plus_image (se_format E) ttl0) (sk_items (ps_sink k)))))"

end
