(* ===== verification/Session_Props.thy ===== *)
theory Session_Props
  imports Session_Ops "HOL-Library.Sublist"
begin

text \<open>
  Properties of the session: every trampoline is the same pipeline of decoding, serving and encoding, and the
  guarantees that follow for an arbitrary filesystem.
\<close>

section \<open>The pipeline\<close>

text \<open>What happens after a reply was sent: only \<^verbatim>\<open>readdirplus\<close> looks at its result.\<close>

definition after_reply :: "shim_env \<Rightarrow> ('fs, 'n, 'h, 'd) node_fs \<Rightarrow> Kernel_View.reply \<Rightarrow> raw_reply \<Rightarrow> ('fs, 'n, 'h, 'd) shim" where
  "after_reply E F r rr = (case r of
     ReplyPlus k ids \<Rightarrow> if se_reply_rc E rr \<noteq> 0 then on_runtime (forget_all F ids) else ret ()
   | _ \<Rightarrow> ret ())"

definition serve_raw :: "shim_env \<Rightarrow> ('fs, 'n, 'h, 'd) node_fs \<Rightarrow> caller \<Rightarrow> raw_request \<Rightarrow> ('fs, 'n, 'h, 'd) shim" where
  "serve_raw E F c rq st = (case st of (rt, out) \<Rightarrow>
     (case decode E c (rt_ttl rt) rq of
        Reject e \<Rightarrow> (Ok (), (rt, out @ [RErr (raw e)]))
      | Abort \<Rightarrow> (Panic, (rt, out))
      | ServeForgets es \<Rightarrow> unit_then_none (forget_entries F es) (rt, out)
      | Serve q \<Rightarrow> (case serve F q rt of
          (Ok r, rt') \<Rightarrow> (case encode E rq (rt_ttl rt') (rt_negative_ttl rt') (rt_ttl rt) r of
              None \<Rightarrow> (Panic, (rt', out))
            | Some rr \<Rightarrow> after_reply E F r rr (rt', out @ [rr]))
        | (Err e, rt') \<Rightarrow> (Ok (), (rt', out @ [RErr (raw e)]))
        | (Panic, rt') \<Rightarrow> (Ok (), (rt', out @ [RErr (raw EIO)]))
        | (Blocks, rt') \<Rightarrow> (Blocks, (rt', out)))))"

lemma answer_cases:
  "answer m ok (rt, out) = (case m rt of
     (Ok a, rt') \<Rightarrow> ok a (rt', out)
   | (Err e, rt') \<Rightarrow> (Ok (), (rt', out @ [RErr (raw e)]))
   | (Panic, rt') \<Rightarrow> (Ok (), (rt', out @ [RErr (raw EIO)]))
   | (Blocks, rt') \<Rightarrow> (Blocks, (rt', out)))"
  by (simp add: answer_def call_fs_def reply_err_def reply_def split: prod.splits outcome.splits)

lemma fmap_cases:
  "fmap f m rt = (case m rt of
     (Ok a, rt') \<Rightarrow> (Ok (f a), rt')
   | (Err e, rt') \<Rightarrow> (Err e, rt')
   | (Panic, rt') \<Rightarrow> (Panic, rt')
   | (Blocks, rt') \<Rightarrow> (Blocks, rt'))"
  by (simp add: fmap_def bnd_def split: prod.splits outcome.splits)

text \<open>One request to the runtime, answered by an encoding of its reply.\<close>

lemma answer_pipeline:
  assumes "\<And>a rt'. m rt = (Ok a, rt') \<Longrightarrow> ok a (rt', out) =
    (case encode E rq (rt_ttl rt') (rt_negative_ttl rt') (rt_ttl rt) (f a) of
       None \<Rightarrow> (Panic, (rt', out)) | Some rr \<Rightarrow> after_reply E F (f a) rr (rt', out @ [rr]))"
    and "decode E c (rt_ttl rt) rq = Serve q" "serve F q = fmap f m"
  shows "answer m ok (rt, out) = serve_raw E F c rq (rt, out)"
  using assms by (auto simp: answer_cases serve_raw_def fmap_cases split: prod.splits outcome.splits)

lemmas reply_defs = reply_ok_def reply_err_def reply_def reply_entry_def reply_negative_def reply_attr_def converted_def
  encode_entry_def after_reply_def reply_dir_buf_def request_defs

lemma node_shims:
  assumes "make_ops_node E F c rq = Some sh"
  shows "sh (rt, out) = serve_raw E F c (AtNode rq) (rt, out)"
  using assms
proof (cases rq)
  case (RqSetattr ino attr to_set fi)
  show ?thesis
  proof (cases "setattr_from_raw (se_bits E) attr to_set")
    case None
    with assms RqSetattr show ?thesis by (auto simp: setattr_shim_def converted_def serve_raw_def)
  next
    case (Some sa)
    with assms RqSetattr have "sh (rt, out) = answer (rt_setattr F ino (fi_fh_opt fi) sa c) (reply_attr ino) (rt, out)"
      by (auto simp: setattr_shim_def converted_def)
    also have "\<dots> = serve_raw E F c (AtNode rq) (rt, out)"
      using Some RqSetattr by (intro answer_pipeline) (auto simp: reply_defs split: option.splits)
    finally show ?thesis .
  qed
qed (auto simp: getattr_shim_def readlink_shim_def open_shim_def opendir_shim_def statfs_shim_def setxattr_shim_def getxattr_shim_def
  listxattr_shim_def removexattr_shim_def access_shim_def reply_defs reply_xattr_def
  intro!: answer_pipeline split: option.splits xattr_reply.splits)

lemma read_pipeline: "read_shim F c ino sz off fi (rt, out) = serve_raw E F c (AtFile (RqRead ino sz off fi)) (rt, out)"
  by (simp add: read_shim_def rt_read_def answer_cases serve_raw_def fmap_cases reply_with_def reply_defs split: prod.splits outcome.splits)

lemma lock_from_raw_eq: "lock_from_raw rl = from_flock rl"
  by (cases rl) (simp add: lock_from_raw_def zeroed_flock_def)

lemma lock_to_raw_eq: "lock_to_raw lk = to_flock lk"
  by (simp add: lock_to_raw_def zeroed_flock_def split: outcome.splits)

lemma from_flock_total: "from_flock rl \<noteq> Panic" "from_flock rl \<noteq> Blocks" "to_flock lk \<noteq> Panic" "to_flock lk \<noteq> Blocks"
  by (simp_all add: from_flock_def to_flock_def res_or_def split: option.splits)

lemma lock_pipeline:
  assumes "\<And>lk. from_flock rl = Ok lk \<Longrightarrow> decode E c (rt_ttl rt) rq = Serve (q lk) \<Longrightarrow> sh lk (rt, out) = serve_raw E F c rq (rt, out)"
    and "\<And>ttl. decode E c ttl rq = decode_lock rl q"
  shows "reply_result (lock_from_raw rl) sh (rt, out) = serve_raw E F c rq (rt, out)"
  using assms from_flock_total(1,2) [of rl]
  by (cases "from_flock rl") (auto simp: lock_from_raw_eq reply_result_def serve_raw_def decode_lock_def reply_defs)

lemma file_shims:
  assumes "make_ops_file E F c rq = Some sh"
  shows "sh (rt, out) = serve_raw E F c (AtFile rq) (rt, out)"
  using assms
proof (cases rq)
  case (RqRead ino sz off fi)
  with assms read_pipeline show ?thesis by auto
next
  case (RqGetlk ino fi rl)
  with assms have "sh = getlk_shim F c ino fi rl" by (auto split: if_splits)
  moreover have "getlk_shim F c ino fi rl (rt, out) = serve_raw E F c (AtFile rq) (rt, out)"
    unfolding getlk_shim_def RqGetlk
  proof (rule lock_pipeline)
    fix lk assume "decode E c (rt_ttl rt) (AtFile (RqGetlk ino fi rl)) = Serve (OnFile (Getlk (lock_owner fi) lk) ino (fi_fh fi) c)"
    then show "answer (rt_getlk F ino (fi_fh fi) (lock_owner fi) lk c) (\<lambda>lk. reply_result (lock_to_raw lk) (\<lambda>r. reply (RLock r)))
        (rt, out) = serve_raw E F c (AtFile (RqGetlk ino fi rl)) (rt, out)"
      by (rule answer_pipeline [rotated])
        (auto simp: reply_result_def lock_to_raw_eq reply_defs from_flock_total split: outcome.splits)
  qed simp
  ultimately show ?thesis by simp
next
  case (RqSetlk ino fi rl sleep)
  with assms have "sh = setlk_shim F c ino fi rl sleep" by (auto split: if_splits)
  moreover have "setlk_shim F c ino fi rl sleep (rt, out) = serve_raw E F c (AtFile rq) (rt, out)"
    unfolding setlk_shim_def RqSetlk
  proof (rule lock_pipeline)
    fix lk
    assume "decode E c (rt_ttl rt) (AtFile (RqSetlk ino fi rl sleep)) =
      Serve (OnFile (Setlk (lock_owner fi) lk (sleep \<noteq> 0)) ino (fi_fh fi) c)"
    then show "answer (rt_setlk F ino (fi_fh fi) (lock_owner fi) lk (sleep \<noteq> 0) c) (\<lambda>_. reply_ok) (rt, out) =
        serve_raw E F c (AtFile (RqSetlk ino fi rl sleep)) (rt, out)"
      by (rule answer_pipeline [rotated]) (auto simp: reply_defs)
  qed simp
  ultimately show ?thesis by simp
qed (auto simp: write_shim_def flush_shim_def release_shim_def fsync_shim_def fallocate_shim_def lseek_shim_def flock_shim_def reply_defs
  intro!: answer_pipeline split: if_splits)

lemma dir_shims:
  assumes "make_ops_dir E F c rq = Some sh"
  shows "sh (rt, out) = serve_raw E F c (AtDir rq) (rt, out)"
  using assms
proof (cases rq)
  case (RqReaddir ino sz off fi)
  show ?thesis
  proof (cases "sint off < 0")
    case False
    with assms RqReaddir show ?thesis
      by (auto simp: readdir_shim_def reply_defs intro!: answer_pipeline)
  qed (use assms RqReaddir in \<open>auto simp: readdir_shim_def serve_raw_def reply_defs\<close>)
next
  case (RqReaddirplus ino sz off fi)
  with assms have sh: "sh = readdirplus_shim E F c ino sz off fi" by (auto split: if_splits)
  show ?thesis
  proof (cases "sint off < 0")
    case False
    with RqReaddirplus show ?thesis
      unfolding sh by (auto simp: readdirplus_shim_def Let_def send_plus_def reply_defs intro!: answer_pipeline)
  qed (use RqReaddirplus sh in \<open>auto simp: readdirplus_shim_def serve_raw_def reply_defs\<close>)
qed (auto simp: releasedir_shim_def fsyncdir_shim_def reply_defs intro!: answer_pipeline)

lemma name_shims:
  assumes "make_ops_name E F c rq = Some sh"
  shows "sh (rt, out) = serve_raw E F c (AtName rq) (rt, out)"
  using assms
  by (cases rq) (auto simp: lookup_shim_def mknod_shim_def mkdir_shim_def unlink_shim_def rmdir_shim_def symlink_shim_def
      rename_shim_def link_shim_def create_shim_def copy_file_range_shim_def reply_defs
      intro!: answer_pipeline split: lookup_reply.splits option.splits)

lemma shim_pipeline:
  assumes "make_ops E F c rq = Some sh" shows "sh (rt, out) = serve_raw E F c rq (rt, out)"
proof (cases rq)
  case (RqForget ino nlookup)
  have "forget_entries F [(ino, nlookup)] = rt_forget F ino nlookup"
    by (auto simp: fun_eq_iff bnd_def split: prod.splits outcome.splits)
  with assms RqForget show ?thesis by (auto simp: forget_shim_def serve_raw_def)
qed (use assms in \<open>auto simp: forget_multi_shim_def serve_raw_def node_shims file_shims dir_shims name_shims\<close>)

text \<open>An environment for the examples.\<close>

definition demo_env :: "(raw_reply \<Rightarrow> int) \<Rightarrow> shim_env" where
  "demo_env rc = \<lparr>se_bits = header_bits, se_format = demo_format, se_has_pdw = True, se_reply_rc = rc\<rparr>"

section \<open>One reply per request\<close>

lemma on_runtime_cases: "on_runtime m (rt, out) = (case m rt of (r, rt') \<Rightarrow> (r, (rt', out)))"
  by (simp add: on_runtime_def)

lemma after_reply_out: "after_reply E F r rr (rt, out) = (x, (rt', out')) \<Longrightarrow> out' = out"
  by (auto simp: after_reply_def on_runtime_cases split: Kernel_View.reply.splits if_splits prod.splits)

lemma unit_then_none_cases:
  "unit_then_none m (rt, out) = (case m rt of (Blocks, rt') \<Rightarrow> (Blocks, (rt', out)) | (_, rt') \<Rightarrow> (Ok (), (rt', out @ [RNone])))"
  by (simp add: unit_then_none_def reply_def split: prod.splits outcome.splits)

lemma serve_raw_out:
  assumes "serve_raw E F c rq (rt, out) = (x, (rt', out'))"
  shows "\<exists>rrs. out' = out @ rrs \<and> length rrs \<le> 1 \<and> (x = Ok () \<longrightarrow> length rrs = 1)"
proof (cases "decode E c (rt_ttl rt) rq")
  case (Serve q)
  obtain r rt1 where s: "serve F q rt = (r, rt1)" by fastforce
  show ?thesis
  proof (cases r)
    case (Ok y)
    with assms Serve s show ?thesis
      by (cases "encode E rq (rt_ttl rt1) (rt_negative_ttl rt1) (rt_ttl rt) y") (auto simp: serve_raw_def dest: after_reply_out)
  qed (use assms Serve s in \<open>auto simp: serve_raw_def\<close>)
qed (use assms in \<open>auto simp: serve_raw_def unit_then_none_cases split: prod.splits outcome.splits\<close>)

text \<open>
  C3. Every operation the session installs answers its request exactly once: a trampoline that returns has sent one
  reply, and one that does not return (the filesystem blocks, or the process aborts) has sent at most one.
\<close>

theorem one_reply_per_request:
  "case make_ops E F c rq of
     None \<Rightarrow> True
   | Some sh \<Rightarrow> (case sh (rt, []) of (x, (rt', out)) \<Rightarrow> (case x of Ok _ \<Rightarrow> length out = 1 | _ \<Rightarrow> length out \<le> 1))"
proof (cases "make_ops E F c rq")
  case (Some sh)
  obtain x rt' out where sh: "sh (rt, []) = (x, (rt', out))" by (metis prod.exhaust)
  with shim_pipeline [OF Some, of rt "[]"] serve_raw_out [of E F c rq rt "[]" x rt' out] have "length out \<le> 1" "x = Ok () \<longrightarrow> length out = 1"
    by auto
  with Some sh show ?thesis by (auto split: outcome.splits)
qed simp

section \<open>Panics\<close>

text \<open>
  C4. A panic of the filesystem is contained: when the runtime request that a trampoline makes panics, the kernel is sent
  \<^verbatim>\<open>EIO\<close> and the trampoline returns. The process aborts only when a conversion of the request or of the reply panics, or
  when giving back the entries of an undelivered \<^verbatim>\<open>readdirplus\<close> reply does.
\<close>

theorem filesystem_panics_contained:
  assumes "make_ops E F c rq = Some sh"
  shows "(case decode E c (rt_ttl rt) rq of
     Serve q \<Rightarrow> (case serve F q rt of
         (Panic, rt') \<Rightarrow> sh (rt, out) = (Ok (), (rt', out @ [RErr 5]))
       | (Ok r, rt') \<Rightarrow> fst (sh (rt, out)) = Panic \<longrightarrow>
           encode E rq (rt_ttl rt') (rt_negative_ttl rt') (rt_ttl rt) r = None \<or>
           (\<exists>k ids. r = ReplyPlus k ids \<and> fst (forget_all F ids rt') = Panic)
       | _ \<Rightarrow> fst (sh (rt, out)) \<noteq> Panic)
   | Abort \<Rightarrow> sh (rt, out) = (Panic, (rt, out))
   | _ \<Rightarrow> fst (sh (rt, out)) \<noteq> Panic)"
proof (cases "decode E c (rt_ttl rt) rq")
  case (Serve q)
  obtain r rt1 where s: "serve F q rt = (r, rt1)" by fastforce
  note eq = shim_pipeline [OF assms, of rt out]
  show ?thesis
  proof (cases r)
    case (Ok y)
    have "fst (after_reply E F y rr (rt1, out')) = Panic \<Longrightarrow> \<exists>k ids. y = ReplyPlus k ids \<and> fst (forget_all F ids rt1) = Panic" for rr out'
      by (auto simp: after_reply_def on_runtime_cases split: Kernel_View.reply.splits if_splits prod.splits)
    with Ok Serve s eq show ?thesis
      by (cases "encode E rq (rt_ttl rt1) (rt_negative_ttl rt1) (rt_ttl rt) y") (auto simp: serve_raw_def)
  qed (use Serve s eq in \<open>simp_all add: serve_raw_def EIO_def\<close>)
qed (use shim_pipeline [OF assms, of rt out] in \<open>auto simp: serve_raw_def unit_then_none_cases split: prod.splits outcome.splits\<close>)

text \<open>A filesystem whose \<^verbatim>\<open>open\<close> panics.\<close>

definition panic_fs :: "(unit, unit, nat, unit) node_fs" where
  "panic_fs = loop_fs\<lparr>fs_open := (\<lambda>_ _ _ s. (Panic, s))\<rparr>"

theorem filesystem_panics_contained_witness:
  "\<exists>rt'. open_shim (demo_env (\<lambda>_. 0)) panic_fs default_caller 1 None (loop_rt, []) = (Ok (), (rt', [RErr 5]))"
  using filesystem_panics_contained [of "demo_env (\<lambda>_. 0)" panic_fs default_caller "AtNode (RqOpen 1 None)" _ loop_rt "[]"]
  by (auto simp: fi_flags_def panic_fs_def fmap_cases rt_eval)

section \<open>The kernel's bookkeeping from the raw replies\<close>

text \<open>
  What the kernel counts: one lookup for every entry in a reply that it took, and the lookups it gives back when it sends a
  \<^verbatim>\<open>forget\<close>. A negative entry has inode number zero. The entries of a \<^verbatim>\<open>readdirplus\<close> reply are in its bytes, which are all that the
  session sends; how the kernel reads them is a parameter \<open>rd\<close>, from the bytes to names and inode numbers, and as in the kernel an
  entry without an inode and the two dots do not count.

  What is assumed of \<open>rd\<close> is that it undoes the layout: from the concatenation of entries that \<^verbatim>\<open>fuse_add_direntry_plus\<close> wrote, with
  names free of NUL, it reads their names and inode numbers from the front, in order, and possibly stops at one it refuses.
\<close>

definition reads_plus :: "direntry_format \<Rightarrow> (bytes \<Rightarrow> (os_str \<times> u64) list) \<Rightarrow> bool" where
  "reads_plus D rd \<longleftrightarrow> (\<forall>es. list_all (\<lambda>(nm, param, off). no_nul nm) es \<longrightarrow>
     prefix (rd (concat (map (\<lambda>(nm, param, off). write_entry (df_plus_size D nm) (df_plus_image D nm param off)) es)))
       (map (\<lambda>(nm, param, off). (nm, ep_ino param)) es))"

definition learned :: "(os_str \<times> u64) list \<Rightarrow> u64 list" where
  "learned es = map snd (filter (\<lambda>(nm, ino). ino \<noteq> 0 \<and> nm \<noteq> ''.'' \<and> nm \<noteq> ''..'') es)"

definition is_plus :: "raw_request \<Rightarrow> bool" where
  "is_plus rq = (case rq of AtDir (RqReaddirplus _ _ _ _) \<Rightarrow> True | _ \<Rightarrow> False)"

definition raw_delta :: "shim_env \<Rightarrow> (bytes \<Rightarrow> (os_str \<times> u64) list) \<Rightarrow> raw_request \<Rightarrow> raw_reply \<Rightarrow> (u64 \<Rightarrow> nat) \<Rightarrow> u64 \<Rightarrow> nat" where
  "raw_delta E rd rq rr = (if se_reply_rc E rr \<noteq> 0 then id else
     (case rr of
        REntry p \<Rightarrow> if ep_ino p = 0 then id else bump (ep_ino p)
      | RCreate p _ \<Rightarrow> bump (ep_ino p)
      | RBuf bs \<Rightarrow> if is_plus rq then add_ids (map from_ino (learned (rd bs))) else id
      | _ \<Rightarrow> id))"

primrec lower_all :: "(u64 \<times> u64) list \<Rightarrow> (u64 \<Rightarrow> nat) \<Rightarrow> u64 \<Rightarrow> nat" where
  "lower_all [] K = K"
| "lower_all (e # es) K = lower_all es (lower (fst e) (unat (snd e)) K)"

definition raw_step :: "shim_env \<Rightarrow> (bytes \<Rightarrow> (os_str \<times> u64) list) \<Rightarrow> raw_request \<Rightarrow> raw_reply list \<Rightarrow> (u64 \<Rightarrow> nat) \<Rightarrow> u64 \<Rightarrow> nat" where
  "raw_step E rd rq out = (case rq of
     RqForget n k \<Rightarrow> lower_all [(n, k)]
   | RqForgetMulti es \<Rightarrow> lower_all es
   | _ \<Rightarrow> fold (raw_delta E rd rq) out)"

text \<open>A session serving requests one after the other, and the kernel's count after them.\<close>

primrec raw_run :: "shim_env \<Rightarrow> ('fs, 'n, 'h, 'd) node_fs \<Rightarrow> (caller \<times> raw_request) list \<Rightarrow> ('fs, 'n, 'h, 'd) runtime \<Rightarrow>
    raw_reply list list \<times> ('fs, 'n, 'h, 'd) runtime" where
  "raw_run E F [] rt = ([], rt)"
| "raw_run E F (q # qs) rt = (case make_ops E F (fst q) (snd q) of
     None \<Rightarrow> (case raw_run E F qs rt of (outs, rt') \<Rightarrow> ([] # outs, rt'))
   | Some sh \<Rightarrow> (case sh (rt, []) of (x, (rt1, out)) \<Rightarrow> (case raw_run E F qs rt1 of (outs, rt') \<Rightarrow> (out # outs, rt'))))"

fun raw_view :: "shim_env \<Rightarrow> (bytes \<Rightarrow> (os_str \<times> u64) list) \<Rightarrow> (caller \<times> raw_request) list \<Rightarrow> raw_reply list list \<Rightarrow>
    (u64 \<Rightarrow> nat) \<Rightarrow> u64 \<Rightarrow> nat" where
  "raw_view E rd (q # qs) (out # outs) K = raw_view E rd qs outs (raw_step E rd (snd q) out K)"
| "raw_view E rd _ _ K = K"

text \<open>The entries of a raw reply are those of the typed reply it encodes.\<close>

lemma encode_delta:
  assumes "encode E rq ttl nttl ttl0 r = Some rr" "\<And>n. K n \<le> K' n" "\<not> is_plus rq"
  shows "raw_delta E rd rq rr K n \<le> reply_delta r K' n"
proof -
  have le: "K n \<le> K' n" "K n \<le> Suc (K' n)" using assms(2) [of n] by simp_all
  have xattr: "encode_xattr x sz \<noteq> REntry p" "encode_xattr x sz \<noteq> RCreate p fi" for x sz p fi
    by (cases x; simp)+
  have data: "read_reply sz x \<noteq> REntry p" "read_reply sz x \<noteq> RCreate p fi" for x sz p fi
    by (simp_all add: read_reply_def split: outcome.splits)
  show ?thesis
    using assms(1,3) le
    by (cases r) (auto simp: raw_delta_def encode_entry_def entry_to_entry_param_def negative_entry_param_def entry_delta_def bump_def
        add_ids_def xattr data split: lookup_reply.splits raw_reply.splits outcome.splits Option.bind_splits if_splits)
qed

text \<open>
  What the kernel reads from the bytes of a \<^verbatim>\<open>readdirplus\<close> reply is among the entries that were offered to it: an entry with a NUL in
  its name has no bytes.
\<close>

lemma plus_bytes_told:
  assumes "reads_plus D rd" "\<forall>x \<in> set items. \<not> ps_panics (dirent_plus_sink D cap ttl) x"
  shows "count_list (learned (rd (concat (map (plus_image D ttl) items)))) n \<le> count_list (told items) n"
proof -
  let ?param = "\<lambda>e. the (entry_to_entry_param (er_ino e) (er_generation e) (er_attr e) ttl)"
  let ?es = "map (\<lambda>(nm, e, off). (nm, ?param e, off)) (filter (\<lambda>(nm, _). no_nul nm) items)"
  have bytes: "concat (map (plus_image D ttl) items) =
      concat (map (\<lambda>(nm, param, off). write_entry (df_plus_size D nm) (df_plus_image D nm param off)) ?es)"
    using assms(2) by (induction items) (auto simp: plus_image_def dirent_plus_sink_def split: option.splits)
  have names: "map (\<lambda>(nm, param, off). (nm, ep_ino param)) ?es = map (\<lambda>(nm, e, off). (nm, er_ino e)) (filter (\<lambda>(nm, _). no_nul nm) items)"
    using assms(2) by (induction items) (auto simp: dirent_plus_sink_def entry_to_entry_param_def split: Option.bind_splits)
  have "list_all (\<lambda>(nm, param, off). no_nul nm) ?es" by (auto simp: list_all_iff)
  with assms(1) have "prefix (rd (concat (map (\<lambda>(nm, param, off). write_entry (df_plus_size D nm) (df_plus_image D nm param off)) ?es)))
      (map (\<lambda>(nm, param, off). (nm, ep_ino param)) ?es)" unfolding reads_plus_def by blast
  then obtain rest where
    all: "map (\<lambda>(nm, e, off). (nm, er_ino e)) (filter (\<lambda>(nm, _). no_nul nm) items) = rd (concat (map (plus_image D ttl) items)) @ rest"
    unfolding bytes [symmetric] names by (auto elim: prefixE)
  have le: "count_list (learned (map (\<lambda>(nm, e, off). (nm, er_ino e)) (filter (\<lambda>(nm, _). no_nul nm) xs))) n \<le> count_list (told xs) n" for xs
    by (induction xs) (auto simp: learned_def told_def)
  from le [of items] show ?thesis by (simp add: all learned_def)
qed

lemma lower_all_le: "lower_all es K n \<le> K n"
proof (induction es arbitrary: K)
  case (Cons e es)
  have "lower (fst e) (unat (snd e)) K n \<le> K n" by (simp add: lower_def)
  with Cons.IH [of "lower (fst e) (unat (snd e)) K"] show ?case by simp
qed simp

lemma decode_Serve: "decode E c ttl rq = Serve q \<Longrightarrow> kernel_step q r = on_ok reply_delta r"
proof -
  have "q \<noteq> Forget n k" if "decode E c ttl rq = Serve q" for n k
  proof (cases rq)
    case (AtNode x) with that show ?thesis by (cases x) (auto split: option.splits)
  next
    case (AtFile x) with that show ?thesis by (cases x) (auto simp: decode_lock_def split: outcome.splits)
  next
    case (AtDir x) with that show ?thesis by (cases x) (auto split: if_splits)
  next
    case (AtName x) with that show ?thesis by (cases x) auto
  qed (use that in auto)
  then show "decode E c ttl rq = Serve q \<Longrightarrow> ?thesis" by (cases q) auto
qed

lemma reply_delta_grows: "(\<And>n. K n \<le> K' n) \<Longrightarrow> K n \<le> reply_delta y K' n"
proof (cases y)
  case (ReplyLookup l)
  assume "\<And>n. K n \<le> K' n"
  with ReplyLookup show ?thesis by (cases l) (auto simp: entry_delta_def bump_def le_SucI)
qed (auto simp: entry_delta_def bump_def add_ids_def le_SucI trans_le_add1)

lemma raw_step_decode:
  "raw_step E rd rq out = (case decode E c ttl rq of ServeForgets es \<Rightarrow> lower_all es | _ \<Rightarrow> fold (raw_delta E rd rq) out)"
proof (cases rq)
  case (AtNode x) then show ?thesis by (cases x) (auto simp: raw_step_def split: option.splits)
next
  case (AtFile x) then show ?thesis by (cases x) (auto simp: raw_step_def decode_lock_def split: outcome.splits)
next
  case (AtDir x) then show ?thesis by (cases x) (auto simp: raw_step_def)
next
  case (AtName x) then show ?thesis by (cases x) (auto simp: raw_step_def)
qed (auto simp: raw_step_def)

context node_fs_contract
begin

lemma forget_entries_ok:
  assumes "rt_inv rt" "forget_entries F es rt = (r, rt')" "\<And>n. K n \<le> lookups_of (rt_shared rt) n"
  shows "rt_inv rt' \<and> (\<forall>n. lower_all es K n \<le> lookups_of (rt_shared rt') n)"
  using assms
proof (induction es arbitrary: rt K)
  case (Cons e es)
  from Cons.prems(2) have "bnd (rt_forget F (fst e) (snd e)) (\<lambda>_. forget_entries F es) rt = (r, rt')" by simp
  then show ?case
  proof (cases rule: bnd_cases)
    case (ok a s)
    note 1 = rt_okD [OF rt_ok_forget Cons.prems(1) ok(1)]
    have "lower (fst e) (unat (snd e)) K n \<le> lookups_of (rt_shared s) n" for n
      using mono_deltas(3) [of K "lookups_of (rt_shared rt)"] Cons.prems(3) 1(2) [of n] by (meson order_trans)
    from Cons.IH [OF 1(1) ok(2) this] show ?thesis by simp
  qed (use rt_okD(1,2) [OF rt_ok_forget Cons.prems(1)] mono_deltas(3) [of K "lookups_of (rt_shared rt)"] Cons.prems(3) lower_all_le in
    \<open>auto intro: order_trans\<close>, (meson order_trans)+)
qed simp

text \<open>Giving back the entries of an undelivered reply takes back at most what the reply had added.\<close>

lemma forget_all_ok:
  assumes "rt_inv rt" "forget_all F ids rt = (r, rt')" "\<And>n. add_ids ids K n \<le> lookups_of (rt_shared rt) n"
  shows "rt_inv rt' \<and> (\<forall>n. K n \<le> lookups_of (rt_shared rt') n)"
proof -
  have t: "table_inv (rt_shared rt)" using assms(1) by (simp add: rt_inv_def)
  from forget_all_effect [OF t assms(2)] obtain js rest where h: "rt_handles rt' = rt_handles rt" and ids: "ids = js @ rest"
    and e: "eff (drop_ids js) id (rt_shared rt) (rt_shared rt')" by blast
  have "K n \<le> lookups_of (rt_shared rt') n" for n
    using assms(3) [of n] effD(2) [OF e] by (simp add: ids add_ids_def drop_ids_def)
  moreover have "rt_inv rt'" using assms(1) h e by (simp add: rt_inv_def eff_def)
  ultimately show ?thesis by blast
qed

text \<open>The encoded reply of a request tells the kernel of no more than the typed reply counts.\<close>

lemma served_delta:
  assumes "reads_plus (se_format E) rd" "rt_inv rt" "decode E c (rt_ttl rt) rq = Serve q" "serve F q rt = (Ok y, rt1)"
    "encode E rq ttl nttl (rt_ttl rt) y = Some rr" "\<And>n. K n \<le> K' n"
  shows "raw_delta E rd rq rr K n \<le> reply_delta y K' n"
proof (cases "is_plus rq")
  case False
  with assms(5,6) show ?thesis by (rule encode_delta)
next
  case True
  then obtain ino sz off fi where rq: "rq = AtDir (RqReaddirplus ino sz off fi)"
    by (auto simp: is_plus_def split: raw_request.splits raw_dir_request.splits)
  let ?k = "dirent_plus_sink (se_format E) sz (rt_ttl rt)"
  from assms(3,4) rq obtain k ids where r: "rt_readdirplus F ino (fi_fh fi) off ?k c rt = (Ok (k, ids), rt1)" "y = ReplyPlus k ids"
    by (auto simp: fmap_cases split: if_splits prod.splits outcome.splits)
  from readdirplus_told [OF assms(2) r(1)] obtain items where items: "sk_items (ps_sink k) = items" "map ino_of ids = told items"
    "\<forall>x \<in> set items. \<not> ps_panics ?k x" by (auto simp: dirent_plus_sink_def image_sink_def)
  from assms(5) r(2) items(1) have rr: "rr = RBuf (concat (map (plus_image (se_format E) (rt_ttl rt)) items))" by simp
  from plus_bytes_told [OF assms(1) items(3), of n] assms(6) [of n] show ?thesis
    by (simp add: rr r(2) raw_delta_def add_ids_def items(2) comp_def trans_le_add1 add_mono)
qed

lemma serve_raw_ok:
  assumes rd: "reads_plus (se_format E) rd" and inv: "rt_inv rt" and K: "\<And>n. K n \<le> lookups_of (rt_shared rt) n"
    and run: "serve_raw E F c rq (rt, []) = (x, (rt', out))"
  shows "rt_inv rt' \<and> (\<forall>n. raw_step E rd rq out K n \<le> lookups_of (rt_shared rt') n)"
proof (cases "decode E c (rt_ttl rt) rq")
  case (Serve q)
  obtain r rt1 where s: "serve F q rt = (r, rt1)" by fastforce
  note ok = rt_okD [OF serve_ok inv s, unfolded decode_Serve [OF Serve]]
  have step: "raw_step E rd rq out = fold (raw_delta E rd rq) out" using raw_step_decode [of E rd rq out c "rt_ttl rt"] Serve by simp
  show ?thesis
  proof (cases "\<exists>y. r = Ok y")
    case True
    then obtain y where y: "r = Ok y" by blast
    show ?thesis
    proof (cases "encode E rq (rt_ttl rt1) (rt_negative_ttl rt1) (rt_ttl rt) y")
      case None
      with run Serve s y have "rt' = rt1" "out = []" by (auto simp: serve_raw_def)
      moreover have "K n \<le> lookups_of (rt_shared rt1) n" for n
        using reply_delta_grows [of K, OF K, where y = y and n = n] ok(2) [of n] y by (simp add: order_trans)
      ultimately show ?thesis using ok(1) step by simp
    next
      case (Some rr)
      then have after: "after_reply E F y rr (rt1, [rr]) = (x, (rt', out))" using run Serve s y by (simp add: serve_raw_def)
      then have out: "out = [rr]" by (rule after_reply_out)
      have d: "raw_delta E rd rq rr K n \<le> lookups_of (rt_shared rt1) n" for n
        using served_delta [where K = K and n = n, OF rd inv Serve s [unfolded y] Some K] ok(2) [of n] y by (simp add: order_trans)
      show ?thesis
      proof (cases "\<exists>k ids. y = ReplyPlus k ids \<and> se_reply_rc E rr \<noteq> 0")
        case True
        then obtain k ids where ids: "y = ReplyPlus k ids" and rc: "se_reply_rc E rr \<noteq> 0" by blast
        with after obtain z where f: "forget_all F ids rt1 = (z, rt')"
          by (auto simp: after_reply_def on_runtime_cases split: prod.splits)
        have "add_ids ids K n \<le> lookups_of (rt_shared rt1) n" for n
          using mono_deltas(2) [where K = K and K' = "lookups_of (rt_shared rt)" and ids = ids and n = n] K ok(2) [of n] y ids
          by (simp add: order_trans)
        from forget_all_ok [OF ok(1) f this] rc show ?thesis by (simp add: step [unfolded out] out raw_delta_def)
      next
        case False
        with after have "rt' = rt1" by (auto simp: after_reply_def split: Kernel_View.reply.splits if_splits)
        with d ok(1) step out show ?thesis by simp
      qed
    qed
  next
    case False
    with run Serve s have "rt' = rt1" "out = [] \<or> (\<exists>e. out = [RErr e])" "on_ok reply_delta r = id"
      by (cases r; auto simp: serve_raw_def)+
    moreover from this have "raw_step E rd rq out K = K" by (auto simp: step raw_delta_def)
    ultimately show ?thesis using ok(1) ok(2) K by (auto intro: order_trans)
  qed
next
  case (ServeForgets es)
  with run obtain q where q: "forget_entries F es rt = (q, rt')"
    by (auto simp: serve_raw_def unit_then_none_cases split: prod.splits outcome.splits)
  with forget_entries_ok [OF inv q K] raw_step_decode [of E rd rq out c "rt_ttl rt"] ServeForgets show ?thesis by simp
qed (use run inv K raw_step_decode [of E rd rq out c "rt_ttl rt"] in \<open>auto simp: serve_raw_def raw_delta_def\<close>)

lemma raw_run_ok:
  assumes rd: "reads_plus (se_format E) rd" and "rt_inv rt" "\<And>n. K n \<le> lookups_of (rt_shared rt) n" "raw_run E F qs rt = (outs, rt')"
  shows "rt_inv rt' \<and> (\<forall>n. raw_view E rd qs outs K n \<le> lookups_of (rt_shared rt') n)"
  using assms(2-)
proof (induction qs arbitrary: rt K outs)
  case (Cons q qs)
  show ?case
  proof (cases "make_ops E F (fst q) (snd q)")
    case None
    with Cons.prems(3) obtain os where outs: "outs = [] # os" "raw_run E F qs rt = (os, rt')" by (auto split: prod.splits)
    have "raw_step E rd (snd q) [] K n \<le> K n" for n
      using lower_all_le by (auto simp: raw_step_def lower_def split: raw_request.splits)
    with Cons.prems(2) have "raw_step E rd (snd q) [] K n \<le> lookups_of (rt_shared rt) n" for n by (meson order_trans)
    from Cons.IH [OF Cons.prems(1) this outs(2)] outs(1) show ?thesis by simp
  next
    case (Some sh)
    obtain x rt1 out where sh: "sh (rt, []) = (x, (rt1, out))" by (metis prod.exhaust)
    with Some Cons.prems(3) obtain os where outs: "outs = out # os" "raw_run E F qs rt1 = (os, rt')" by (auto split: prod.splits)
    from shim_pipeline [OF Some, of rt "[]"] sh have "serve_raw E F (fst q) (snd q) (rt, []) = (x, (rt1, out))" by simp
    from serve_raw_ok [OF rd Cons.prems(1,2) this] have 1: "rt_inv rt1" "\<And>n. raw_step E rd (snd q) out K n \<le> lookups_of (rt_shared rt1) n"
      by blast+
    from Cons.IH [OF 1 outs(2)] outs(1) show ?thesis by simp
  qed
qed simp

end

text \<open>
  C2. End to end, from the raw replies: whatever requests the kernel sends and whichever replies it takes, every inode that
  the kernel learned about from the entry and create replies and from the bytes of the \<^verbatim>\<open>readdirplus\<close> replies it took, and has not
  forgotten, is in the node table, and so is the inode of every open file or directory. That the kernel's reading of those bytes
  undoes libfuse's layout of an entry is the hypothesis \<open>reads_plus\<close>.
\<close>

theorem session_references_alive:
  assumes "node_fs_contract F" "runtime_new F fs0 = (Ok (), rt0)" "raw_run E F qs rt0 = (outs, rt)" "reads_plus (se_format E) rd"
    and "0 < raw_view E rd qs outs (\<lambda>_. 0) n \<or> 0 < handle_count (rt_handles rt) n"
  shows "\<exists>s. slot_at (rt_shared rt) n = Some s \<and> s_record s < length (sh_heap (rt_shared rt))"
proof -
  note new = node_fs_contract.new_ok [OF assms(1,2)]
  from node_fs_contract.raw_run_ok [OF assms(1,4) new(1) _ assms(3), of "\<lambda>_. 0"] new
  have inv: "rt_inv rt" and K: "raw_view E rd qs outs (\<lambda>_. 0) n \<le> lookups_of (rt_shared rt) n" by auto
  from inv have "handle_count (rt_handles rt) n \<le> opens_of (rt_shared rt) n" by (simp add: rt_inv_def)
  with assms(5) K have "0 < lookups_of (rt_shared rt) n \<or> 0 < opens_of (rt_shared rt) n" by linarith
  then have "slot_at (rt_shared rt) n \<noteq> None" using counted_slot by blast
  with inv show ?thesis by (auto simp: rt_inv_def dest: table_inv_slotD(4))
qed

section \<open>Replies that do not arrive\<close>

context node_fs_contract
begin

lemma undelivered_plus:
  assumes inv: "rt_inv rt" and run: "readdirplus_shim E F c ino sz off fi (rt, []) = (Ok (), (rt', [RBuf bs]))"
    and rc: "se_reply_rc E (RBuf bs) \<noteq> 0"
  shows "lookups_of (rt_shared rt') = lookups_of (rt_shared rt)"
proof -
  from run obtain k ids rt1 where r: "rt_readdirplus F ino (fi_fh fi) off (dirent_plus_sink (se_format E) sz (rt_ttl rt)) c rt = (Ok (k, ids), rt1)"
    and f: "forget_all F ids rt1 = (Ok (), rt')"
    using rc by (auto simp: readdirplus_shim_def Let_def answer_cases send_plus_def reply_defs on_runtime_cases
        split: if_splits prod.splits outcome.splits)
  note 1 = rt_okD [OF rt_ok_readdirplus inv r]
  have t: "table_inv (rt_shared rt1)" using 1(1) by (simp add: rt_inv_def)
  from forget_all_effect [OF t f] have "eff (drop_ids ids) id (rt_shared rt1) (rt_shared rt')" by (auto simp: returned_def)
  then have "lookups_of (rt_shared rt') n = lookups_of (rt_shared rt1) n - count_list (map ino_of ids) n" for n
    by (simp add: effD(2) drop_ids_def)
  moreover have "lookups_of (rt_shared rt1) n = lookups_of (rt_shared rt) n + count_list (map ino_of ids) n" for n
    using 1(3) by (simp add: returned_def plus_delta_def add_ids_def)
  ultimately show ?thesis by (simp add: fun_eq_iff)
qed

end

text \<open>
  C31. When libfuse cannot deliver a \<^verbatim>\<open>readdirplus\<close> reply, the lookups counted for its entries are given back: every inode
  has the count it had before the request.
\<close>

theorem undelivered_plus_returns_lookups:
  assumes "node_fs_contract F" "rt_inv rt" "readdirplus_shim E F c ino sz off fi (rt, []) = (Ok (), (rt', [RBuf bs]))"
    and "se_reply_rc E (RBuf bs) \<noteq> 0"
  shows "lookups_of (rt_shared rt') = lookups_of (rt_shared rt)"
  using assms by (rule node_fs_contract.undelivered_plus)

text \<open>A filesystem whose root directory lists one entry, itself.\<close>

definition self_listing :: "addr \<Rightarrow> node_id \<Rightarrow> node_id \<Rightarrow> u64 \<Rightarrow> caller \<Rightarrow> (unit, unit, unit, accounting) dir_call" where
  "self_listing a this par off c st = (case st of (fs, sh, d, ac) \<Rightarrow>
     (case plus_add ''a'' ROOT default_attr 1 (sh, ac) of
        (Ok _, (sh', ac')) \<Rightarrow> (Ok (), (fs, sh', d, ac'))
      | (Err e, (sh', ac')) \<Rightarrow> (Err e, (fs, sh', d, ac'))
      | (Panic, (sh', ac')) \<Rightarrow> (Panic, (fs, sh', d, ac'))
      | (Blocks, (sh', ac')) \<Rightarrow> (Blocks, (fs, sh', d, ac'))))"

lemma quiet_self_listing: "quiet_plus (self_listing a this par off c)"
  unfolding quiet_plus_def
proof (intro allI impI)
  fix fs fs' :: unit and sh sh' :: "unit shared" and d d' :: unit and ac ac' r
  assume "self_listing a this par off c (fs, sh, d, ac) = (r, fs', sh', d', ac')"
  then obtain q where q: "plus_add ''a'' ROOT default_attr 1 (sh, ac) = (q, (sh', ac'))" "(\<forall>b. q \<noteq> Ok b) \<longrightarrow> r \<noteq> Ok ()"
    by (auto simp: self_listing_def split: prod.splits outcome.splits)
  from calls_add [OF calls_start q(1)] q(2) show "\<exists>p. plus_calls (sh, ac) p (sh', ac') \<and> (p \<longrightarrow> r \<noteq> Ok ())" by auto
qed

definition list_fs :: "(unit, unit, nat, unit) node_fs" where
  "list_fs = loop_fs\<lparr>fs_supports_readdirplus := True, fs_opendir := (\<lambda>_ _ _. ret (opened_new ())), fs_readdirplus := self_listing\<rparr>"

interpretation listing: node_fs_contract list_fs
  by unfold_locales (auto simp: list_fs_def loop_fs_def default_node_fs_def quiet_self_listing)

definition list_rt :: "(unit, unit, nat, unit) runtime" where
  "list_rt = snd (rt_opendir list_fs 1 0 default_caller (snd (runtime_new list_fs ())))"

lemma list_rt_inv: "rt_inv list_rt"
proof -
  obtain r rt where n: "runtime_new list_fs () = (r, rt)" by fastforce
  obtain q rt' where o: "rt_opendir list_fs 1 0 default_caller rt = (q, rt')" by fastforce
  from rt_okD(1) [OF listing.rt_ok_opens(2) listing.new_ok(1) [OF n] o] n o show ?thesis by (simp add: list_rt_def)
qed

text \<open>The handle of the directory in the example.\<close>

definition list_fi :: file_info where
  "list_fi = \<lparr>fi_handle = 1, fi_open_flags = 0, fi_lock_owner = 0, fi_direct_io = False, fi_keep_cache = False, fi_nonseekable = False,
     fi_cache_readdir = False, fi_parallel_direct_writes = False\<rparr>"

lemma list_fs_simps:
  "fs_root list_fs = (\<lambda>fs. ((), fs))" "fs_populate list_fs = ret ()" "fs_opendir list_fs = (\<lambda>_ _ _. ret (opened_new ()))"
  "fs_readdirplus list_fs = self_listing" "fs_forget list_fs = (\<lambda>_. ret ())"
  by (simp_all add: list_fs_def loop_fs_def default_node_fs_def)

lemmas list_eval = list_fs_simps rt_opendir_def add_dir_def rt_readdirplus_def parent_of_def with_dir_def dir_lease_def
  dir_callback_def self_listing_def plus_add_def plus_entry_def sink_add_def plus_result_def dir_lease_drop_def retain_lookup_def
  acquire_def lease_drop_def rt_eval

lemma list_read:
  assumes "\<not> ps_panics K (''a'', \<lparr>er_ino = 1, er_generation = 0, er_attr = default_attr\<rparr>, 1)"
    "sk_accepts (ps_sink K) (sk_items (ps_sink K)) (''a'', \<lparr>er_ino = 1, er_generation = 0, er_attr = default_attr\<rparr>, 1)"
  shows "\<exists>k rt1. rt_readdirplus list_fs 1 1 0 K default_caller list_rt = (Ok (k, [ROOT]), rt1) \<and>
    sk_items (ps_sink k) = sk_items (ps_sink K) @ [(''a'', \<lparr>er_ino = 1, er_generation = 0, er_attr = default_attr\<rparr>, 1)] \<and>
    (\<exists>rt2. rt_forget list_fs 1 1 rt1 = (Ok (), rt2))"
  using assms by (simp add: list_rt_def list_eval)

lemma default_entry: "\<exists>p. entry_to_entry_param 1 0 default_attr ttl = Some p \<and> ep_ino p = 1"
  using time_safe_split [of 0]
  by (simp add: entry_to_entry_param_def attr_to_stat_def default_attr_def UNIX_EPOCH_def time_safe_def)

lemma list_lost:
  "\<exists>bs rt'. readdirplus_shim (demo_env (\<lambda>_. - 2)) list_fs default_caller 1 64 0 (Some list_fi) (list_rt, []) =
    (Ok (), (rt', [RBuf bs]))"
proof -
  let ?K = "dirent_plus_sink demo_format 64 (rt_ttl list_rt)"
  obtain p where "entry_to_entry_param 1 0 default_attr (rt_ttl list_rt) = Some p" using default_entry by blast
  then have "\<not> ps_panics ?K (''a'', \<lparr>er_ino = 1, er_generation = 0, er_attr = default_attr\<rparr>, 1)"
    "sk_accepts (ps_sink ?K) (sk_items (ps_sink ?K)) (''a'', \<lparr>er_ino = 1, er_generation = 0, er_attr = default_attr\<rparr>, 1)"
    by (simp_all add: dirent_plus_sink_def image_sink_def plus_image_def demo_format_def no_nul_def)
  from list_read [OF this] show ?thesis
    by (auto simp: readdirplus_shim_def Let_def answer_cases send_plus_def fi_fh_def list_fi_def demo_env_def reply_def on_runtime_cases ROOT_def)
qed

theorem undelivered_plus_returns_lookups_witness:
  "\<exists>bs rt'. readdirplus_shim (demo_env (\<lambda>_. - 2)) list_fs default_caller 1 64 0 (Some list_fi) (list_rt, []) =
    (Ok (), (rt', [RBuf bs])) \<and> lookups_of (rt_shared rt') = lookups_of (rt_shared list_rt)"
proof -
  from list_lost obtain bs rt' where r: "readdirplus_shim (demo_env (\<lambda>_. - 2)) list_fs default_caller 1 64 0 (Some list_fi) (list_rt, []) =
    (Ok (), (rt', [RBuf bs]))" by blast
  from undelivered_plus_returns_lookups [OF listing.node_fs_contract_axioms list_rt_inv r] r show ?thesis
    by (auto simp: demo_env_def)
qed

text \<open>
  A layout and its reader, to run the kernel's side: the bytes of the name, a zero, and the inode number in eight bytes, lowest first.
\<close>

primrec digits :: "nat \<Rightarrow> nat \<Rightarrow> bytes" where
  "digits 0 n = []"
| "digits (Suc k) n = word_of_nat (n mod 256) # digits k (n div 256)"

primrec number :: "bytes \<Rightarrow> nat" where
  "number [] = 0"
| "number (b # bs) = unat b + 256 * number bs"

definition name_bytes :: "os_str \<Rightarrow> bytes" where
  "name_bytes nm = map (\<lambda>ch. word_of_nat (of_char ch)) nm"

definition tagged_format :: direntry_format where
  "tagged_format = demo_format\<lparr>df_plus_size := (\<lambda>nm. length nm + 9),
     df_plus_image := (\<lambda>nm p off. name_bytes nm @ 0 # digits 8 (unat (ep_ino p)))\<rparr>"

function read_tagged :: "bytes \<Rightarrow> (os_str \<times> u64) list" where
  "read_tagged bs = (case dropWhile (\<lambda>b. b \<noteq> 0) bs of
     [] \<Rightarrow> []
   | _ # r \<Rightarrow> (map (\<lambda>b. char_of (unat b)) (takeWhile (\<lambda>b. b \<noteq> 0) bs), word_of_nat (number (take 8 r))) # read_tagged (drop 8 r))"
  by pat_completeness auto
termination
proof (relation "measure length", goal_cases)
  case (2 bs b r)
  then have "length (b # r) \<le> length bs" by (metis length_dropWhile_le)
  then show ?case by simp
qed simp

declare read_tagged.simps [simp del]

lemma length_digits [simp]: "length (digits k n) = k"
  by (induction k arbitrary: n) simp_all

lemma number_digits: "number (digits k n) = n mod 256 ^ k"
proof (induction k arbitrary: n)
  case (Suc k)
  have "unat (word_of_nat (n mod 256) :: 8 word) = n mod 256" by (simp add: unsigned_of_nat take_bit_eq_mod)
  with Suc show ?case by (simp add: mod_mult2_eq)
qed simp

lemma name_bytes_read:
  assumes "no_nul nm"
  shows "takeWhile (\<lambda>b. b \<noteq> 0) (name_bytes nm @ 0 # r) = name_bytes nm" "dropWhile (\<lambda>b. b \<noteq> 0) (name_bytes nm @ 0 # r) = 0 # r"
    "map (\<lambda>b. char_of (unat b)) (name_bytes nm) = nm"
proof -
  have u: "unat (word_of_nat (of_char ch) :: 8 word) = of_char ch" for ch
    by (simp add: unsigned_of_nat take_bit_eq_mod)
  have "b \<noteq> 0" if b: "b \<in> set (name_bytes nm)" for b
  proof
    assume "b = 0"
    with b obtain ch where "ch \<in> set nm" "word_of_nat (of_char ch) = (0 :: 8 word)" by (auto simp: name_bytes_def)
    with u [of ch] have "of_char ch = (0 :: nat)" by simp
    then have "ch = char_of (0 :: nat)" by (metis char_of_char)
    then have "ch = CHR 0x00" by (simp add: char_of_def)
    with \<open>ch \<in> set nm\<close> assms show False by (auto simp: no_nul_def)
  qed
  then show "takeWhile (\<lambda>b. b \<noteq> 0) (name_bytes nm @ 0 # r) = name_bytes nm" "dropWhile (\<lambda>b. b \<noteq> 0) (name_bytes nm @ 0 # r) = 0 # r"
    by (auto simp: takeWhile_tail dropWhile_append3)
  show "map (\<lambda>b. char_of (unat b)) (name_bytes nm) = nm" by (simp add: name_bytes_def comp_def u)
qed

lemma read_tagged_entries:
  assumes "list_all (\<lambda>(nm, param, off). no_nul nm) es"
  shows "read_tagged (concat (map (\<lambda>(nm, param, off). write_entry (df_plus_size tagged_format nm) (df_plus_image tagged_format nm param off)) es)) =
    map (\<lambda>(nm, param, off). (nm, ep_ino param)) es"
  using assms
proof (induction es)
  case Nil
  then show ?case by (simp add: read_tagged.simps)
next
  case (Cons x es)
  obtain nm param off where x: "x = (nm, param, off)" by (cases x)
  have "length (name_bytes nm) = length nm" by (simp add: name_bytes_def)
  then have w: "write_entry (df_plus_size tagged_format nm) (df_plus_image tagged_format nm param off) =
      name_bytes nm @ 0 # digits 8 (unat (ep_ino param))"
    by (simp add: write_entry_def tagged_format_def)
  have "number (digits 8 (unat (ep_ino param))) = unat (ep_ino param)"
    using unsigned_less [of "ep_ino param", where 'a = nat] by (simp add: number_digits)
  with Cons x name_bytes_read [of nm] show ?case by (subst read_tagged.simps) (simp add: w)
qed

lemma tagged_reads: "reads_plus tagged_format read_tagged"
  by (simp add: reads_plus_def read_tagged_entries)

definition tagged_env :: shim_env where
  "tagged_env = (demo_env (\<lambda>_. 0))\<lparr>se_format := tagged_format\<rparr>"

text \<open>Opening the directory and reading it with attributes: the kernel finds the inode of the one entry in the bytes.\<close>

definition list_requests :: "(caller \<times> raw_request) list" where
  "list_requests = [(default_caller, AtNode (RqOpendir 1 None)), (default_caller, AtDir (RqReaddirplus 1 64 0 (Some list_fi)))]"

lemma list_told:
  "\<exists>o1 bs rt. raw_run tagged_env list_fs list_requests (snd (runtime_new list_fs ())) = ([[o1], [RBuf bs]], rt) \<and> read_tagged bs = [(''a'', 1)]"
proof -
  let ?K = "dirent_plus_sink tagged_format 64 (rt_ttl list_rt)"
  let ?x = "(''a'', \<lparr>er_ino = 1, er_generation = 0, er_attr = default_attr\<rparr>, 1)"
  obtain p where p: "entry_to_entry_param 1 0 default_attr (rt_ttl list_rt) = Some p" "ep_ino p = 1" using default_entry by blast
  then have ok: "\<not> ps_panics ?K ?x" "sk_accepts (ps_sink ?K) (sk_items (ps_sink ?K)) ?x" "sk_items (ps_sink ?K) = []"
    by (simp_all add: dirent_plus_sink_def image_sink_def plus_image_def tagged_format_def no_nul_def)
  from list_read [OF ok(1,2)] ok(3) obtain k rt1 where k: "rt_readdirplus list_fs 1 1 0 ?K default_caller list_rt = (Ok (k, [ROOT]), rt1)"
    "sk_items (ps_sink k) = [?x]" by auto
  have o: "\<exists>opn. rt_opendir list_fs 1 0 default_caller (snd (runtime_new list_fs ())) = (Ok opn, list_rt)"
    by (simp add: list_rt_def list_eval)
  have "read_tagged (plus_image tagged_format (rt_ttl list_rt) ?x) = [(''a'', 1)]"
    using read_tagged_entries [of "[(''a'', p, 1)]"] p by (simp add: plus_image_def no_nul_def)
  with o k show ?thesis
    by (auto simp: list_requests_def opendir_shim_def fi_flags_def answer_cases reply_def readdirplus_shim_def Let_def send_plus_def
        fi_fh_def list_fi_def tagged_env_def demo_env_def list_fs_def loop_fs_def default_node_fs_def)
qed

theorem session_references_alive_witness:
  "\<exists>outs rt s. raw_run tagged_env list_fs list_requests (snd (runtime_new list_fs ())) = (outs, rt) \<and>
    0 < raw_view tagged_env read_tagged list_requests outs (\<lambda>_. 0) 1 \<and> slot_at (rt_shared rt) 1 = Some s"
proof -
  have new: "runtime_new list_fs () = (Ok (), snd (runtime_new list_fs ()))" by (simp add: list_eval)
  have rd: "reads_plus (se_format tagged_env) read_tagged" by (simp add: tagged_env_def tagged_reads)
  from list_told obtain o1 bs rt where run: "raw_run tagged_env list_fs list_requests (snd (runtime_new list_fs ())) = ([[o1], [RBuf bs]], rt)"
    and bs: "read_tagged bs = [(''a'', 1)]" by blast
  from bs have "0 < raw_view tagged_env read_tagged list_requests [[o1], [RBuf bs]] (\<lambda>_. 0) 1"
    by (simp add: list_requests_def raw_step_def raw_delta_def is_plus_def learned_def add_ids_def tagged_env_def demo_env_def)
  with session_references_alive [OF listing.node_fs_contract_axioms new run rd, of 1] run show ?thesis by blast
qed

text \<open>
  The other replies are not checked: when libfuse reports that an entry or open reply was not delivered (the request was
  interrupted), the lookup and the open handle stay counted although the kernel never learned of them, and nothing will
  release them.
\<close>

theorem lost_replies_leak:
  "\<exists>outs rt. raw_run (demo_env (\<lambda>_. - 2)) loop_fs [(default_caller, AtName (RqLookup 1 ''a'')), (default_caller, AtNode (RqOpen 1 (Some list_fi)))]
      loop_rt = (outs, rt) \<and>
    raw_view (demo_env (\<lambda>_. - 2)) rd [(default_caller, AtName (RqLookup 1 ''a'')), (default_caller, AtNode (RqOpen 1 (Some list_fi)))] outs (\<lambda>_. 0) 1 = 0 \<and>
    lookups_of (rt_shared rt) 1 = 1 \<and> handle_count (rt_handles rt) 1 = 1"
proof -
  have "\<exists>st. attr_to_stat 1 default_attr = Some st"
    using time_safe_split [of 0] by (auto simp: attr_to_stat_def default_attr_def UNIX_EPOCH_def time_safe_def)
  then show ?thesis
    by (auto simp: lookup_shim_def open_shim_def answer_cases reply_defs entry_to_entry_param_def lookups_of_def raw_step_def raw_delta_def
        demo_env_def fi_flags_def list_fi_def handle_count_def opens_on_def rt_eval split: option.splits)
qed

text \<open>
  A plus entry whose name contains a NUL byte is answered as accepted without being written to the buffer: the runtime counts
  a lookup for it and the kernel is never told.
\<close>

theorem nul_entry_counted:
  "\<exists>sh ac. plus_add [CHR ''a'', CHR 0x00] ROOT default_attr 1
      (rt_shared loop_rt, \<lparr>ac_inner = dirent_plus_sink D cap ttl, ac_accepted = []\<rparr>) = (Ok True, (sh, ac)) \<and>
    ac_accepted ac = [ROOT] \<and> lookups_of sh 1 = 1 \<and> lookups_of (rt_shared loop_rt) 1 = 0 \<and>
    concat (map (plus_image D ttl) (sk_items (ps_sink (ac_inner ac)))) = []"
  by (simp add: plus_add_def plus_entry_def sink_add_def dirent_plus_sink_def image_sink_def plus_image_def no_nul_def
      lookups_of_def retain_lookup_def rt_eval)

end
