(* ===== verification/Hello_Props.thy ===== *)
theory Hello_Props
  imports Hello_Fs No_Opendir Memory_Contract Session_Props
begin

text \<open>
  The two hello examples give the same answers: the runtime and its trampolines over the typed example reply what the raw
  example replies, with two differences that are stated.
\<close>

section \<open>The contract of the runtime\<close>

lemma quiet_on_node: "quiet (on_node a f)"
  by (rule quiet_pure) (simp add: on_node_def)

lemma quiet_hello_populate: "quiet hello_populate"
proof -
  have "quiet (\<lambda>s. (Ok (), (fst s, set_payload a (add_hello hello (payload (snd s) a)) (snd s))) :: unit result \<times> hello_fs \<times> hello_node shared)"
    for a hello
    by (rule quietI) (auto simp: eff_set_payload)
  then show ?thesis unfolding hello_populate_def by (intro quiet_bnd quiet_insert_node quiet_lease_or quiet_ret)
qed

lemma hello_readdir_state: "hello_readdir a this par off c (fs, sh, d, k) = (r, (fs', sh', d', k')) \<Longrightarrow> fs' = fs \<and> sh' = sh"
  by (auto simp: hello_readdir_def split: hello_node.splits)

lemma quiet_hello:
  "quiet (hello_getattr a oh c)" "quiet (hello_lookup p nm c)" "quiet (hello_open a flags c)" "quiet (hello_read a h off sz c)"
  "quiet_dir (hello_readdir a this par off c)"
  by (simp_all add: hello_getattr_def hello_lookup_def hello_open_def hello_read_def quiet_leased quiet_on_node)
    (auto simp: quiet_dir_def eff_refl dest!: hello_readdir_state)

interpretation hello: node_fs_contract hello_ops
  by unfold_locales (simp_all add: hello_ops_def default_node_fs_def quiet_hello quiet_hello_populate)

interpretation hello: no_opendir hello_ops
  by unfold_locales (simp add: hello_ops_def default_node_fs_def)

section \<open>The tree never changes\<close>

definition hello_inv :: "system_time \<Rightarrow> hello_fs \<times> hello_node shared \<Rightarrow> bool" where
  "hello_inv t st \<longleftrightarrow> (case st of (fs, sh) \<Rightarrow>
     hf_mounted_at fs = t \<and> table_inv sh \<and>
     payload sh 0 = HelloDir [(''hello'', NodeId 2)] \<and> payload sh 1 = HelloFile HELLO_CONTENT \<and>
     0 < links_of sh 1 \<and> 0 < links_of sh 2 \<and>
     (\<forall>n s. slot_at sh n = Some s \<longrightarrow> s_generation s = 0 \<and> (n = 1 \<and> s_record s = 0 \<or> n = 2 \<and> s_record s = 1)))"

lemma hello_inv_bookkeeping: "hello_inv t (fs, sh) \<Longrightarrow> bookkeeping sh sh' \<Longrightarrow> hello_inv t (fs, sh')"
  by (fastforce simp: hello_inv_def bookkeeping_def payload_def)

lemma keeps_on_node: "keeps np I (on_node a f)"
  by (rule keeps_pure) (simp add: on_node_def)

lemma keeps_hello_lookup: "keeps np (hello_inv t) (hello_lookup p nm c)"
proof (rule keepsI)
  fix st r st' assume inv: "hello_inv t st" and run: "hello_lookup p nm c st = (r, st')"
  obtain fs sh where st: "st = (fs, sh)" by (cases st)
  obtain g sh1 where g: "cx_get p sh = (g, sh1)" by (cases "cx_get p sh")
  have tab: "hello_inv t (fs, sh) \<Longrightarrow> table_inv sh" for sh by (simp add: hello_inv_def)
  have 1: "hello_inv t (fs, sh1)"
    using hello_inv_bookkeeping bookkeeping_cx_get [OF tab g] inv st by blast
  moreover have "hello_inv t (fs, node_ref_drop nr sh1)" for nr
    using hello_inv_bookkeeping [OF 1] bookkeeping_node_ref_drop [OF tab [OF 1]] by blast
  ultimately show "hello_inv t st'"
    using run g by (auto simp: st hello_lookup_def leased_def lease_or_def on_node_def split: outcome.splits option.splits)
qed

interpretation hello: fs_invariant False hello_ops "hello_inv t"
proof (unfold_locales, goal_cases)
  case (1 fs sh)
  then show ?case by (simp add: hello_inv_def)
next
  case (2 fs sh sh')
  then show ?case by (rule hello_inv_bookkeeping)
next
  case (37 fs sh a this par off c d k r fs' sh' d' k')
  then show ?case by (auto simp: hello_ops_def default_node_fs_def dest!: hello_readdir_state)
qed (simp_all add: hello_ops_def default_node_fs_def hello_getattr_def hello_open_def hello_read_def keeps_on_node keeps_hello_lookup
    keeps_fail keeps_ret)

section \<open>Runs\<close>

definition hello_rt :: "system_time \<Rightarrow> (hello_fs, hello_node, unit, unit) runtime" where
  "hello_rt t = snd (runtime_new hello_ops \<lparr>hf_mounted_at = t\<rparr>)"

lemmas hello_eval = table_eval hello_rt_def runtime_new_def hello_ops_def default_node_fs_def hello_root_def hello_populate_def
  insert_node_def bnd_def lease_or_def add_hello_def payload_def set_payload_def node_ref_drop_def handle_table_new_def

lemma hello_start: "on_rt (hello_inv t) (hello_rt t)" "unlisted 1000000000 1000000000 (hello_rt t)"
    "runtime_new hello_ops \<lparr>hf_mounted_at = t\<rparr> = (Ok (), hello_rt t)"
proof -
  show new: "runtime_new hello_ops \<lparr>hf_mounted_at = t\<rparr> = (Ok (), hello_rt t)"
    by (simp add: hello_eval)
  have "table_inv (rt_shared (hello_rt t))" using hello.new_ok(1) [OF new] by (simp add: rt_inv_def)
  moreover have "slot_at (rt_shared (hello_rt t)) n = Some s \<Longrightarrow> s_generation s = 0 \<and> (n = 1 \<and> s_record s = 0 \<or> n = 2 \<and> s_record s = 1)" for n s
    by (auto simp: hello_eval split: if_splits)
  ultimately show "on_rt (hello_inv t) (hello_rt t)"
    by (simp add: on_rt_def hello_inv_def) (simp add: hello_eval links_of_def)
  show "unlisted 1000000000 1000000000 (hello_rt t)" by (simp add: unlisted_def hello_eval)
qed

lemma hello_reached:
  assumes "run hello_ops qs (hello_rt t) = (rs, rt)"
  shows "rt_inv rt" "hello_inv t (rt_fs rt, rt_shared rt)" "unlisted 1000000000 1000000000 rt"
proof -
  show "rt_inv rt" using hello.run_ok [OF hello.new_ok(1) [OF hello_start(3)] assms, of "\<lambda>_. 0"] by simp
  show "unlisted 1000000000 1000000000 rt" by (rule hello.unlisted_run [OF hello_start(2) assms])
  have any: "each_request hello_ops (\<lambda>_ _. True) qs rt0" for rt0 by (induction qs arbitrary: rt0) simp_all
  have "keeps False (on_rt (hello_inv t)) (serve hello_ops (OnName (Link n p nm) c))" for n p nm c
    by (simp add: rt_link_def) (intro keeps_fmap hello.keeps_runtime hello.keeps_entry_for, simp add: hello_ops_def default_node_fs_def keeps_fail)
  from hello.run_keeps [of t "\<lambda>_ _. True", OF _ hello_start(1) any] always_keepsD [OF this] assms
  show "hello_inv t (rt_fs rt, rt_shared rt)" by (metis on_rt_def snd_conv)
qed

section \<open>What the runtime answers\<close>

text \<open>Between requests no lease is live, so taking one succeeds, and dropping it restores the table.\<close>

lemma lease_restored:
  assumes "rt_inv rt" "slot_at (rt_shared rt) n = Some s"
  obtains sh where "cx_get (from_ino n) (rt_shared rt) = (Ok (Some \<lparr>nr_id = from_ino n, nr_record = s_record s\<rparr>), sh)"
    "sh = with_table (set_slot n (s\<lparr>s_leases := 1\<rparr>)) (rt_shared rt)"
    "sh_heap sh = sh_heap (rt_shared rt)" "node_ref_drop \<lparr>nr_id = from_ino n, nr_record = s_record s\<rparr> sh = rt_shared rt"
proof -
  have inv: "table_inv (rt_shared rt)" and leases: "s_leases s = 0"
    using assms by (auto simp: rt_inv_def leases_of_def unat_eq_0 dest: spec [of _ n])
  have l: "checked_add (s_leases s) 1 = Some 1" by (simp add: leases checked_add_def)
  let ?sh = "with_table (set_slot n (s\<lparr>s_leases := 1\<rparr>)) (rt_shared rt)"
  note b = lease_bracket [of "rt_shared rt" "from_ino n" s 1 ?sh, simplified, OF inv assms(2) l]
  have "node_ref_drop \<lparr>nr_id = from_ino n, nr_record = s_record s\<rparr> ?sh = rt_shared rt"
    using b(2) [of "sh_heap (rt_shared rt)"] by (cases "rt_shared rt") (simp add: with_table_def)
  with that [OF b(1) refl] show ?thesis by simp
qed

text \<open>A request that only looks at a node leaves the runtime as it was.\<close>

lemma with_node_pure:
  assumes "rt_inv rt" "slot_at (rt_shared rt) n = Some s"
    and "\<And>sh. sh_heap sh = sh_heap (rt_shared rt) \<Longrightarrow>
      body \<lparr>nr_id = from_ino n, nr_record = s_record s\<rparr> (rt\<lparr>rt_shared := sh\<rparr>) = (r, rt\<lparr>rt_shared := sh\<rparr>)"
  shows "with_node (from_ino n) body rt = (r, rt)"
  by (rule lease_restored [OF assms(1,2)]) (simp add: with_node_def bnd_def on_table_def drop_node_def assms(3))

lemma leased_on_node:
  assumes "rt_inv rt" "slot_at (rt_shared rt) n = Some s"
  shows "callback (leased (from_ino n) (\<lambda>a. on_node a f)) rt = (f (rt_fs rt) (payload (rt_shared rt) (s_record s)), rt)"
  by (rule lease_restored [OF assms]) (simp add: callback_def leased_def lease_or_def on_node_def payload_def)

lemma with_file_pure:
  assumes "handles_inv (rt_handles rt)" "bt_get (ht_files (rt_handles rt)) fh = Some h" "ino_of (hr_node h) = n"
    and "\<And>t. body (hr_payload h) (rt\<lparr>rt_handles := t\<rparr>) = (r, rt\<lparr>rt_handles := t\<rparr>)"
  shows "with_file n fh body rt = (r, rt)"
proof -
  have "quiescent (hr_state h)" using assms(1,2) by (auto simp: handles_inv_def records_inv_def)
  then obtain t where t: "file_lease n fh (rt_handles rt) = (Ok (fh, hr_payload h), t)"
    using assms(2,3) by (auto simp: file_lease_def acquire_def quiescent_def checked_add_def)
  with file_lease_restored [OF assms(1) t] assms(4) [of t] show ?thesis
    by (simp add: with_file_def bnd_def on_handles_def with_lease_def)
qed

lemma hello_slotD:
  "hello_inv t (fs, sh) \<Longrightarrow> slot_at sh n = Some s \<Longrightarrow> s_generation s = 0 \<and> (n = 1 \<and> s_record s = 0 \<or> n = 2 \<and> s_record s = 1)"
  by (simp add: hello_inv_def)

lemma hello_slots:
  assumes "hello_inv t (fs, sh)"
  shows "\<exists>s. slot_at sh 1 = Some s \<and> s_record s = 0" "\<exists>s. slot_at sh 2 = Some s \<and> s_record s = 1 \<and> s_generation s = 0"
    "n \<noteq> 1 \<Longrightarrow> n \<noteq> 2 \<Longrightarrow> slot_at sh n = None"
proof -
  show "n \<noteq> 1 \<Longrightarrow> n \<noteq> 2 \<Longrightarrow> slot_at sh n = None" using hello_slotD [OF assms] by (cases "slot_at sh n") auto
  have "0 < links_of sh 1" "0 < links_of sh 2" using assms by (simp_all add: hello_inv_def)
  then obtain s s' where "slot_at sh 1 = Some s" "slot_at sh 2 = Some s'" by (auto simp: links_of_def split: option.splits)
  with hello_slotD [OF assms] show "\<exists>s. slot_at sh 1 = Some s \<and> s_record s = 0"
      "\<exists>s. slot_at sh 2 = Some s \<and> s_record s = 1 \<and> s_generation s = 0"
    by fastforce+
qed

lemma hello_getattr_answer:
  assumes "rt_inv rt" "hello_inv t (rt_fs rt, rt_shared rt)"
  shows "rt_getattr hello_ops n None c rt =
    (if n = 1 then Ok (hello_attr_of (rt_fs rt) (HelloDir [])) else if n = 2 then Ok (hello_attr_of (rt_fs rt) (HelloFile HELLO_CONTENT))
     else Err ENOENT, rt)"
proof (cases "slot_at (rt_shared rt) n")
  case None
  then have "n \<noteq> 1 \<and> n \<noteq> 2" using hello_slots(1,2) [OF assms(2)] by auto
  with None show ?thesis by (simp add: rt_getattr_def with_node_def bnd_def on_table_def cx_get_def)
next
  case (Some s)
  have "rt_getattr hello_ops n None c rt = (Ok (hello_attr_of (rt_fs rt) (payload (rt_shared rt) (s_record s))), rt)"
    unfolding rt_getattr_def
    by (rule with_node_pure [OF assms(1) Some])
      (simp add: hello_ops_def default_node_fs_def bnd_def optional_file_def Let_def with_lease_def callback_def hello_getattr_def on_node_def payload_def)
  moreover have "payload (rt_shared rt) 0 = HelloDir [(''hello'', NodeId 2)]" "payload (rt_shared rt) 1 = HelloFile HELLO_CONTENT"
    using assms(2) by (simp_all add: hello_inv_def)
  ultimately show ?thesis using hello_slotD [OF assms(2) Some] by (auto simp: hello_attr_of_def)
qed

lemma hello_read_answer:
  assumes inv: "rt_inv rt" "hello_inv t (rt_fs rt, rt_shared rt)"
    and h: "bt_get (ht_files (rt_handles rt)) fh = Some h" "ino_of (hr_node h) = 2" and sz: "unat off + sz < 2 ^ 64"
  shows "rt_read hello_ops 2 fh off sz c answer_with rt = (Ok (answer_with (Ok (take sz (drop (unat off) HELLO_CONTENT)))), rt)"
proof -
  obtain s where s: "slot_at (rt_shared rt) 2 = Some s" "s_record s = 1" using hello_slots(2) [OF inv(2)] by blast
  have p: "payload (rt_shared rt) 1 = HelloFile HELLO_CONTENT" using inv(2) by (simp add: hello_inv_def)
  have "with_node (from_ino 2) (\<lambda>nr. with_file 2 fh (\<lambda>h. callback (fs_read hello_ops (nr_record nr) h off sz c))) rt =
      (Ok (take sz (drop (unat off) HELLO_CONTENT)), rt)"
  proof (rule with_node_pure [OF inv(1) s(1)], rule with_file_pure)
    fix sh :: "hello_node shared" and t assume heap: "sh_heap sh = sh_heap (rt_shared rt)"
    then have "payload sh 1 = HelloFile HELLO_CONTENT" using p by (simp add: payload_def)
    then show "callback (fs_read hello_ops (nr_record \<lparr>nr_id = from_ino 2, nr_record = s_record s\<rparr>) (hr_payload h) off sz c)
        (rt\<lparr>rt_shared := sh\<rparr>\<lparr>rt_handles := t\<rparr>) = (Ok (take sz (drop (unat off) HELLO_CONTENT)), rt\<lparr>rt_shared := sh\<rparr>\<lparr>rt_handles := t\<rparr>)"
      using sz s(2) by (simp add: callback_def hello_ops_def default_node_fs_def hello_read_def on_node_def Let_def min_def)
  qed (use inv(1) h in \<open>simp_all add: rt_inv_def\<close>)
  then show ?thesis by (simp add: rt_read_def reply_with_def)
qed

section \<open>Names\<close>

text \<open>A name whose lossy form is ASCII is that name: anything else leaves a byte above 127 in it.\<close>

lemma lossy_ascii: "\<forall>c \<in> set (to_string_lossy s). (of_char c :: nat) < 128 \<Longrightarrow> to_string_lossy s = s"
proof (induction s rule: to_string_lossy.induct)
  case (2 c cs)
  obtain ok n where n: "utf8_next (map of_char (c # cs)) = (ok, n)" by fastforce
  have width: "n = 1" if "ok" "(of_char c :: nat) < 128"
    using n that by (auto simp: utf8_next_def safe_get_def utf8_width_def Let_def split: if_splits)
  have pos: "0 < n" using n by (auto simp: utf8_next_def Let_def split: if_splits)
  have eq: "to_string_lossy (c # cs) = (if ok then take n (c # cs) else REPLACEMENT) @ to_string_lossy (drop (n - 1) cs)"
    using n by simp
  have ok using 2(2) by (auto simp: eq REPLACEMENT_def simp del: to_string_lossy.simps split: if_splits)
  moreover from this have "(of_char c :: nat) < 128"
    using 2(2) pos by (cases n) (auto simp: eq simp del: to_string_lossy.simps)
  ultimately show ?case using 2 n width by auto
qed simp

lemma lossy_hello: "to_string_lossy name = ''hello'' \<longleftrightarrow> name = ''hello''"
proof
  assume "to_string_lossy name = ''hello''"
  with lossy_ascii [of name] show "name = ''hello''" by simp
qed (simp add: utf8_next_def safe_get_def utf8_width_def Let_def)

lemma hello_lookup_answer:
  assumes inv: "rt_inv rt" "hello_inv t (rt_fs rt, rt_shared rt)" and room: "lookups_of (rt_shared rt) 2 < 2 ^ 64 - 1"
  shows "\<exists>sh. rt_lookup hello_ops 1 name c rt =
    (Ok (if name = ''hello'' then Found \<lparr>er_ino = 2, er_generation = 0, er_attr = hello_attr_of (rt_fs rt) (HelloFile HELLO_CONTENT)\<rparr>
         else Negative), rt\<lparr>rt_shared := sh\<rparr>)"
proof -
  obtain r s where slots: "slot_at (rt_shared rt) 1 = Some r" "s_record r = 0" "slot_at (rt_shared rt) 2 = Some s" "s_record s = 1" "s_generation s = 0"
    using hello_slots [OF inv(2)] by blast
  have p: "payload (rt_shared rt) 0 = HelloDir [(''hello'', NodeId 2)]" "payload (rt_shared rt) 1 = HelloFile HELLO_CONTENT"
    using inv(2) by (simp_all add: hello_inv_def)
  have found: "callback (fs_lookup hello_ops (from_ino 1) name c) rt = (Ok (if name = ''hello'' then Some (NodeId 2) else None), rt)"
    by (simp add: hello_ops_def hello_lookup_def default_node_fs_def leased_on_node [OF inv(1) slots(1)] slots(2) p(1)
        lossy_hello [THEN trans [OF eq_commute]] del: to_string_lossy.simps)
  have "\<exists>sh. entry_for hello_ops (NodeId 2) c rt = (Ok \<lparr>er_ino = 2, er_generation = 0, er_attr = hello_attr_of (rt_fs rt) (HelloFile HELLO_CONTENT)\<rparr>,
      rt\<lparr>rt_shared := sh\<rparr>)"
  proof (rule lease_restored [OF inv(1) slots(3)])
    fix sh assume sh: "cx_get (from_ino 2) (rt_shared rt) = (Ok (Some \<lparr>nr_id = from_ino 2, nr_record = s_record s\<rparr>), sh)"
      "sh = with_table (set_slot 2 (s\<lparr>s_leases := 1\<rparr>)) (rt_shared rt)" "sh_heap sh = sh_heap (rt_shared rt)"
    have slot: "slot_at sh 2 = Some (s\<lparr>s_leases := 1\<rparr>)" by (simp add: sh(2))
    have "unat (s_lookups s) < 2 ^ 64 - 1" using room slots(3) by (simp add: lookups_of_def)
    then have "checked_add (s_lookups s) 1 = Some (s_lookups s + 1)" by (simp add: checked_add_def)
    then show ?thesis
      using sh(1) [unfolded from_ino_def] sh(3) slots(4,5) p(2) slot
      by (simp add: entry_for_def with_node_def bnd_def on_table_def callback_def hello_ops_def default_node_fs_def hello_getattr_def
          on_node_def payload_def entry_retain_def drop_node_def) blast
  qed
  with found show ?thesis by (auto simp: rt_lookup_def bnd_def) (metis runtime.surjective runtime.update_convs(2))
qed

section \<open>The examples agree\<close>

lemma hello_stat_agrees:
  assumes "UNIX_EPOCH \<le> hf_mounted_at fs"
  shows "attr_to_stat 1 (hello_attr_of fs (HelloDir es)) = hello_stat 1 (mount_time_now (hf_mounted_at fs))"
    "attr_to_stat 2 (hello_attr_of fs (HelloFile HELLO_CONTENT)) = hello_stat 2 (mount_time_now (hf_mounted_at fs))"
  using assms
  by (simp_all add: attr_to_stat_def hello_attr_of_def default_attr_def hello_stat_def system_time_to_secs_nsecs_def
      mount_time_now_def raw_set_times_def zeroed_stat_def Let_def PERM_MASK_def)

text \<open>
  C27. The runtime makes the typed example serve what the raw one does by hand: after any sequence of requests, attributes (of any
  inode), reads of the open file and lookups of \<^verbatim>\<open>hello\<close> are answered with the reply of the raw example, byte for byte. A name that
  does not exist is answered with a negative entry the kernel may cache, where the raw example replies \<^verbatim>\<open>ENOENT\<close>.
\<close>

theorem hello_examples_agree:
  assumes "run hello_ops qs (hello_rt t) = (rs, rt)" and "UNIX_EPOCH \<le> t" and "mt = mount_time_now t"
  shows "(\<exists>r. raw_getattr mt n = Some r \<and> getattr_shim hello_ops c n None (rt, out) = (Ok (), (rt, out @ [r]))) \<and>
    (lookups_of (rt_shared rt) 2 < 2 ^ 64 - 1 \<longrightarrow> (\<exists>r rt'. lookup_shim hello_ops c 1 name (rt, out) = (Ok (), (rt', out @ [r])) \<and>
      (if name = ''hello'' then raw_lookup mt 1 name = Some r
       else r = REntry (negative_entry_param 1000000000) \<and> raw_lookup mt 1 name = Some (RErr (raw ENOENT))))) \<and>
    (\<forall>h. bt_get (ht_files (rt_handles rt)) (fi_fh fi) = Some h \<longrightarrow> ino_of (hr_node h) = 2 \<longrightarrow> unat off + sz < 2 ^ 64 \<longrightarrow>
      (\<exists>r. raw_read 2 sz off = Some r \<and> read_shim hello_ops c 2 sz off fi (rt, out) = (Ok (), (rt, out @ [r]))))"
proof (intro conjI impI allI)
  note inv = hello_reached [OF assms(1)]
  have t: "UNIX_EPOCH \<le> hf_mounted_at (rt_fs rt)" "hf_mounted_at (rt_fs rt) = t" using inv(2) assms(2) by (simp_all add: hello_inv_def)
  note stat = hello_stat_agrees [OF t(1), unfolded t(2), folded assms(3)]
  have ttl: "rt_ttl rt = 1000000000" "rt_negative_ttl rt = 1000000000" using inv(3) by (simp_all add: unlisted_def)
  show "\<exists>r. raw_getattr mt n = Some r \<and> getattr_shim hello_ops c n None (rt, out) = (Ok (), (rt, out @ [r]))"
    by (simp add: raw_getattr_def getattr_shim_def fi_fh_opt_def answer_cases hello_getattr_answer [OF inv(1,2)] stat reply_attr_def
        converted_def reply_def ttl hello_stat_def Let_def)
  show "\<exists>r rt'. lookup_shim hello_ops c 1 name (rt, out) = (Ok (), (rt', out @ [r])) \<and>
      (if name = ''hello'' then raw_lookup mt 1 name = Some r
       else r = REntry (negative_entry_param 1000000000) \<and> raw_lookup mt 1 name = Some (RErr (raw ENOENT)))"
    if room: "lookups_of (rt_shared rt) 2 < 2 ^ 64 - 1"
  proof (cases "name = ''hello''")
    case True
    with hello_lookup_answer [OF inv(1,2) room, of name c] stat(2) ttl show ?thesis
      by (auto simp: lookup_shim_def answer_cases reply_entry_def reply_def converted_def entry_to_entry_param_def
          raw_lookup_def hello_stat_def Let_def)
  next
    case False
    with hello_lookup_answer [OF inv(1,2) room, of name c] ttl show ?thesis
      by (auto simp: lookup_shim_def answer_cases reply_negative_def reply_def raw_lookup_def)
  qed
  show "\<exists>r. raw_read 2 sz off = Some r \<and> read_shim hello_ops c 2 sz off fi (rt, out) = (Ok (), (rt, out @ [r]))"
    if "bt_get (ht_files (rt_handles rt)) (fi_fh fi) = Some h" "ino_of (hr_node h) = 2" "unat off + sz < 2 ^ 64" for h
    using hello_read_answer [OF inv(1,2) that, of c "read_reply sz"] that(3)
    by (auto simp: read_shim_def answer_cases read_reply_def reply_def raw_read_def reply_buf_limited_def Let_def min_def)
qed

text \<open>A run that looks the file up and opens it.\<close>

definition open_hello :: "request list" where
  "open_hello = [OnName (Lookup 1 ''hello'') default_caller, OnNode (Open 0) 2 default_caller]"

lemmas open_eval = hello_eval rt_lookup_def rt_open_def entry_for_def entry_retain_def callback_def with_node_def on_table_def
  on_handles_def drop_node_def add_open_def add_file_def next_handle_def handle_record_new_def opened_new_def fmap_def
  hello_lookup_def hello_open_def hello_getattr_def leased_def on_node_def

lemma hello_run:
  "\<exists>rs rt. run hello_ops open_hello (hello_rt 5) = (rs, rt) \<and> lookups_of (rt_shared rt) 2 = 1 \<and>
     (\<exists>h. bt_get (ht_files (rt_handles rt)) 1 = Some h \<and> ino_of (hr_node h) = 2)"
  by (simp add: open_hello_def open_eval lookups_of_def lossy_hello [THEN trans [OF eq_commute]] del: to_string_lossy.simps)

definition hello_info :: "file_info option" where
  "hello_info = Some \<lparr>fi_handle = 1, fi_open_flags = 0, fi_lock_owner = 0, fi_direct_io = False, fi_keep_cache = False,
     fi_nonseekable = False, fi_cache_readdir = False, fi_parallel_direct_writes = False\<rparr>"

theorem hello_examples_agree_witness:
  "\<exists>rs rt r rt'. run hello_ops open_hello (hello_rt 5) = (rs, rt) \<and>
     lookup_shim hello_ops default_caller 1 ''hello'' (rt, []) = (Ok (), (rt', [r])) \<and> raw_lookup (mount_time_now 5) 1 ''hello'' = Some r \<and>
     read_shim hello_ops default_caller 2 5 0 hello_info (rt, []) = (Ok (), (rt, [RBuf (os_bytes ''Hello'')]))"
proof -
  obtain rs rt h where run: "run hello_ops open_hello (hello_rt 5) = (rs, rt)" "lookups_of (rt_shared rt) 2 = 1"
      "bt_get (ht_files (rt_handles rt)) (fi_fh hello_info) = Some h" "ino_of (hr_node h) = 2"
    using hello_run by (auto simp: fi_fh_def hello_info_def)
  have "raw_read 2 5 0 = Some (RBuf (os_bytes ''Hello''))"
    by (simp add: raw_read_def reply_buf_limited_def HELLO_CONTENT_def os_bytes_def Let_def)
  with run show ?thesis
    using hello_examples_agree [of open_hello 5 rs rt "mount_time_now 5" 2 default_caller "[]" "''hello''" hello_info 0 5, OF run(1)]
    by (auto simp: UNIX_EPOCH_def)
qed

text \<open>
  The typed example cannot be listed, although it implements \<^verbatim>\<open>readdir\<close> and the raw one can: it keeps the default \<^verbatim>\<open>opendir\<close>,
  which replies \<^verbatim>\<open>ENOSYS\<close>, so after any sequence of requests no directory handle exists and every read of the root is refused, with
  whatever handle number it comes; the raw example answers the same read with the entries.
\<close>

theorem hello_cannot_be_listed:
  assumes "run hello_ops qs (hello_rt t) = (rs, rt)"
  shows "snd (snd (opendir_shim E hello_ops c 1 fi (rt, out))) = out @ [RErr (raw ENOSYS)] \<and>
    snd (snd (readdir_shim E hello_ops c 1 sz off fi (rt, out))) = out @ [RErr (raw (if sint off < 0 then EINVAL else EBADF))] \<and>
    (unat off + sz < 2 ^ 64 \<longrightarrow> (\<exists>dat. raw_readdir (se_format E) mt 1 sz off = Some (RBuf dat)))"
proof (intro conjI impI)
  note inv = hello_reached [OF assms]
  obtain s where s: "slot_at (rt_shared rt) 1 = Some s" using hello_slots(1) [OF inv(2)] by blast
  have "rt_opendir hello_ops 1 (fi_flags fi) c rt = (Err ENOSYS, rt)"
    unfolding rt_opendir_def
    by (rule with_node_pure [OF inv(1) s]) (simp add: hello_ops_def default_node_fs_def bnd_def callback_def)
  then show "snd (snd (opendir_shim E hello_ops c 1 fi (rt, out))) = out @ [RErr (raw ENOSYS)]"
    by (simp add: opendir_shim_def answer_cases)
  obtain rt' where "rt_readdir hello_ops 1 (fi_fh fi) off (dirent_sink (se_format E) sz) c rt = (Err EBADF, rt')"
    using hello.readdir_refused [OF inv(3,1), of 1 "fi_fh fi" off "dirent_sink (se_format E) sz" c] s
    by (cases "rt_readdir hello_ops 1 (fi_fh fi) off (dirent_sink (se_format E) sz) c rt") simp
  then show "snd (snd (readdir_shim E hello_ops c 1 sz off fi (rt, out))) = out @ [RErr (raw (if sint off < 0 then EINVAL else EBADF))]"
    by (simp add: readdir_shim_def answer_cases reply_err_def reply_def)
  show "\<exists>dat. raw_readdir (se_format E) mt 1 sz off = Some (RBuf dat)" if "unat off + sz < 2 ^ 64"
    using that by (auto simp: raw_readdir_def dirbuf_add_def hello_stat_def reply_buf_limited_def Let_def)
qed

theorem hello_cannot_be_listed_witness:
  "\<exists>rs rt. run hello_ops open_hello (hello_rt 5) = (rs, rt) \<and>
     snd (snd (readdir_shim (demo_env (\<lambda>_. 0)) hello_ops default_caller 1 4096 0 hello_info (rt, []))) = [RErr (raw EBADF)]"
proof -
  obtain rs rt where run: "run hello_ops open_hello (hello_rt 5) = (rs, rt)" by fastforce
  from hello_cannot_be_listed [OF run, of "demo_env (\<lambda>_. 0)" default_caller hello_info "[]" 4096 0] run show ?thesis by auto
qed

section \<open>Running the raw example\<close>

text \<open>
  The raw example follows the protocol of the session interface on every way out, frees what the parser allocated, and exits with
  success exactly when it printed help or version or every step succeeded.
\<close>

definition lf_calls :: "raw_call list \<Rightarrow> lf_call list" where
  "lf_calls tr = List.map_filter (\<lambda>e. case e of Lf l \<Rightarrow> Some l | _ \<Rightarrow> None) tr"

theorem raw_main_releases_everything:
  assumes "h = nothing\<lparr>h_runtime := True\<rparr>" shows "monitor_all (lf_calls (snd (raw_main E parsed []))) h = Some h"
  unfolding assms
  by (auto simp: raw_main_def run_session_def lf_calls_def map_filter_def nothing_def Let_def split: option.splits)

theorem raw_main_result:
  "fst (raw_main E (Some (args, opts)) tr) = 0 \<longleftrightarrow> co_show_help opts \<or> co_show_version opts \<or>
     (\<exists>mp. co_mountpoint opts = Some mp \<and> ev_session_new E args \<and> ev_set_signal_handlers E = 0 \<and> ev_mount E mp = 0 \<and> ev_session_loop E = 0)"
  by (auto simp: raw_main_def run_session_def Let_def split: option.splits)

end
