(* ===== verification/Memory_Files.thy ===== *)
theory Memory_Files
  imports Memory_Contract
begin

text \<open>
  The contents of the in-memory filesystem: the bytes of files, extended attributes, and what reading a directory returns.
\<close>

section \<open>Bytes\<close>

text \<open>A file after a write: its old bytes, zeros up to the offset if it was shorter, and the data at the offset.\<close>

definition byte_at :: "bytes \<Rightarrow> nat \<Rightarrow> u8" where
  "byte_at bs i = (if i < length bs then bs ! i else 0)"

lemma byte_at_resize:
  assumes "resize n bs = Some bs'" shows "length bs' = n" "i < n \<Longrightarrow> byte_at bs' i = byte_at bs i"
  using assms by (auto simp: resize_def byte_at_def nth_append split: if_splits)

lemma write_at_bytes:
  assumes "write_at off dat bs = Some bs'"
  shows "length bs' = max (length bs) (off + length dat)"
    "byte_at bs' i = (if off \<le> i \<and> i < off + length dat then dat ! (i - off) else byte_at bs i)"
proof -
  let ?stop = "off + length dat"
  from assms obtain b where b: "(if ?stop > length bs then resize ?stop bs else Some bs) = Some b" "bs' = take off b @ dat @ drop ?stop b"
    by (auto simp: write_at_def Let_def split: if_splits option.splits)
  have len: "length b = max (length bs) ?stop" using b(1) byte_at_resize(1) [of ?stop bs b] by (auto split: if_splits)
  then show len': "length bs' = max (length bs) ?stop" using b(2) by simp
  have old: "byte_at b i = byte_at bs i" if "i < length b"
    using b(1) byte_at_resize(1) [of ?stop bs b] byte_at_resize(2) [of ?stop bs b i] that by (auto split: if_splits)
  show "byte_at bs' i = (if off \<le> i \<and> i < ?stop then dat ! (i - off) else byte_at bs i)"
  proof (cases "i < length b")
    case True
    with old len show ?thesis by (auto simp: b(2) byte_at_def nth_append)
  next
    case False
    with len len' show ?thesis by (auto simp: byte_at_def)
  qed
qed

text \<open>When a write does not fit.\<close>

lemma write_at_None: "write_at off dat bs = None \<longleftrightarrow> ISIZE_MAX < off + length dat \<and> (length bs < off + length dat \<or> 2 ^ 64 \<le> off + length dat)"
  by (auto simp: write_at_def Let_def resize_def ISIZE_MAX_def split: if_splits)

section \<open>Files\<close>

definition file_at :: "mem_node shared \<Rightarrow> u64 \<Rightarrow> bytes option" where
  "file_at sh n = (case tree_of sh n of Some d \<Rightarrow> (case tn_body d of FileContent bs \<Rightarrow> Some bs | _ \<Rightarrow> None) | None \<Rightarrow> None)"

lemma file_at_slot:
  assumes "slot_at sh n = Some s" "file_at sh n = Some bs"
  shows "nd_content (mn_data (payload sh (s_record s))) = FileContent bs"
  using assms by (cases "nd_content (mn_data (payload sh (s_record s)))") (auto simp: file_at_def tree_of_def)

lemma mem_read_file:
  assumes "store_ok sh" "slot_at sh n = Some s" "file_at sh n = Some bs" "unat off + sz < 2 ^ 64"
  shows "mem_read (s_record s) () off sz c (fs, sh) = (Ok (take sz (drop (unat off) bs)), (fs, sh))"
proof -
  have "take (min (unat off + sz) (length bs) - unat off) (drop (unat off) bs) = take sz (drop (unat off) bs)" if "unat off < length bs"
    using that by (cases "unat off + sz \<le> length bs") (auto simp: min_def)
  with assms store_okD(1) [OF assms(1,2)] show ?thesis
    by (auto simp: mem_read_def read_node_def file_at_slot Let_def)
qed

text \<open>A write by the method, on the tree.\<close>

lemma mem_write_file:
  assumes inv: "mem_inv (fs, sh)" and s: "slot_at sh n = Some s" and run: "mem_write (s_record s) h dat off c (fs, sh) = (r, (fs', sh'))" "r \<noteq> Panic"
  shows "file_at sh n = None \<and> r = Err EISDIR \<and> tree_of sh' = tree_of sh \<or>
    (\<exists>old new. file_at sh n = Some old \<and> write_at (unat off) dat old = Some new \<and> r = Ok (length dat) \<and>
      tree_of sh' = t_fill n (FileContent new) (tree_of sh) \<and> slot_at sh' = slot_at sh)"
proof -
  from inv have i: "table_inv sh" "store_ok sh" by (simp_all add: mem_inv_def)
  let ?d = "mn_data (payload sh (s_record s))"
  obtain d where d: "sh' = set_payload (s_record s) \<lparr>mn_poisoned = False, mn_data = d\<rparr> sh"
    and c: "(case nd_content ?d of FileContent old \<Rightarrow> (\<exists>t new. write_at (unat off) dat old = Some new \<and> r = Ok (length dat) \<and>
        d = touch t (?d\<lparr>nd_content := FileContent new\<rparr>)) | _ \<Rightarrow> r = Err EISDIR \<and> d = ?d)"
    using run store_okD(1) [OF i(2) s]
    by (auto simp: mem_write_def bnd_def system_now_def tick_def write_node_def Let_def split: content.splits option.splits)
  have tree: "tree_of sh' = (tree_of sh)(n \<mapsto> tnode_of d)" using write_payload(1) [OF i(1) s, of "\<lparr>mn_poisoned = False, mn_data = d\<rparr>"] d by simp
  have here: "tree_of sh n = Some (tnode_of ?d)" using s by (simp add: tree_of_def)
  show ?thesis
  proof (cases "nd_content ?d")
    case (FileContent old)
    with c obtain t new where "write_at (unat off) dat old = Some new" "r = Ok (length dat)" "tnode_of d = (tnode_of ?d)\<lparr>tn_body := FileContent new\<rparr>"
      by (auto simp: tnode_of_def touch_def)
    with FileContent tree here d show ?thesis by (auto simp: file_at_def t_fill_def at_def)
  qed (use c tree here in \<open>auto simp: file_at_def fun_upd_idem\<close>)
qed

section \<open>Extended attributes\<close>

definition xattrs_at :: "mem_node shared \<Rightarrow> addr \<Rightarrow> os_str \<rightharpoonup> bytes" where
  "xattrs_at sh a = bt_get (nd_xattrs (mn_data (payload sh a)))"

text \<open>What setting an attribute answers, and the attributes it leaves.\<close>

definition xattr_set :: "os_str \<Rightarrow> bytes \<Rightarrow> int \<Rightarrow> (os_str \<rightharpoonup> bytes) \<Rightarrow> unit result \<times> (os_str \<rightharpoonup> bytes)" where
  "xattr_set nm val flags m =
     (if flags AND 1 \<noteq> 0 \<and> m nm \<noteq> None then (Err EEXIST, m)
      else if flags AND 2 \<noteq> 0 \<and> m nm = None then (Err ENODATA, m)
      else (Ok (), m(nm \<mapsto> val)))"

lemma mem_xattrs:
  assumes a: "a < length (sh_heap sh)" "\<not> mn_poisoned (payload sh a)"
  shows "mem_setxattr a nm val flags c (fs, sh) = (r, (fs', sh')) \<Longrightarrow> (r, xattrs_at sh' a) = xattr_set nm val flags (xattrs_at sh a)"
    and "mem_removexattr a nm c (fs, sh) = (r, (fs', sh')) \<Longrightarrow>
      (r, xattrs_at sh' a) = (if xattrs_at sh a nm = None then (Err ENODATA, xattrs_at sh a) else (Ok (), (xattrs_at sh a)(nm := None)))"
    and "fst (mem_getxattr a nm sz c (fs, sh)) = (case xattrs_at sh a nm of
        None \<Rightarrow> Err ENODATA | Some val \<Rightarrow> Ok (if sz = 0 then XSize (length val) else XData val))"
  using a by (auto simp: mem_setxattr_def mem_removexattr_def mem_getxattr_def xattr_set_def xattrs_at_def write_node_def read_node_def
      Let_def bnd_def modify_def system_now_def payload_def fun_eq_iff split: prod.splits if_splits option.splits)

section \<open>Reading a directory\<close>

text \<open>The whole listing: the entry at position \<open>i\<close> is handed out with the offset \<open>i + 1\<close>.\<close>

fun entry_items :: "nat \<Rightarrow> (os_str \<times> mem_entry) list \<Rightarrow> dir_item list" where
  "entry_items i [] = []"
| "entry_items i ((nm, e) # es) = (nm, me_id e, me_kind e, of_nat (i + 3)) # entry_items (Suc i) es"

definition mem_listing :: "node_id \<Rightarrow> node_id \<Rightarrow> (os_str, mem_entry) btree \<Rightarrow> dir_item list" where
  "mem_listing this parent entries = (''.'', this, Directory, 1) # (''..'', parent, Directory, 2) # entry_items 0 entries"

fun offer_items :: "dir_item list \<Rightarrow> dir_sink \<Rightarrow> dir_sink" where
  "offer_items [] k = k"
| "offer_items (x # xs) k = (case sink_add x k of (True, k') \<Rightarrow> offer_items xs k' | (False, k') \<Rightarrow> k')"

lemma add_entries_offers: "add_entries i es k = offer_items (entry_items i es) k"
  by (induction i es k rule: add_entries.induct) (auto split: prod.splits bool.splits)

lemma drop_entry_items: "drop n (entry_items i es) = entry_items (i + n) (drop n es)"
  by (induction i es arbitrary: n rule: entry_items.induct) (auto simp: drop_Cons' split: nat.splits)

text \<open>A read offers the listing from the offset on, until the sink is full.\<close>

lemma list_entries_offers: "list_entries this parent off entries k = offer_items (drop (unat off) (mem_listing this parent entries)) k"
proof -
  consider "unat off = 0" | "unat off = 1" | n where "unat off = Suc (Suc n)" by (metis One_nat_def not0_implies_Suc)
  then show ?thesis
  proof cases
    case 3
    then have "\<not> off < 1" "\<not> off < 2" "max off 2 = off" by (auto simp: word_less_nat_alt max_def word_le_nat_alt word_unat_eq_iff)
    with 3 show ?thesis by (simp add: list_entries_def mem_listing_def add_entries_offers drop_entry_items)
  qed (auto simp: list_entries_def mem_listing_def add_entries_offers word_less_nat_alt max_def word_le_nat_alt sink_add_def
      split: prod.splits bool.splits)
qed

text \<open>What a sink takes is a prefix of what it is offered; a sink that takes any single entry takes at least one.\<close>

lemma offer_items_prefix:
  "\<exists>m \<le> length xs. sk_items (offer_items xs k) = sk_items k @ take m xs \<and> sk_accepts (offer_items xs k) = sk_accepts k"
proof (induction xs arbitrary: k)
  case (Cons x xs)
  let ?k = "k\<lparr>sk_items := sk_items k @ [x]\<rparr>"
  obtain m where "m \<le> length xs" "sk_items (offer_items xs ?k) = sk_items k @ x # take m xs" "sk_accepts (offer_items xs ?k) = sk_accepts k"
    using Cons.IH [of ?k] by auto
  then show ?case by (cases "sk_accepts k (sk_items k) x") (auto simp: sink_add_def intro!: exI [of _ "Suc m"])
qed simp

lemma offer_items_some:
  assumes "\<forall>x. sk_accepts k [] x" "sk_items k = []"
  obtains m where "m \<le> length xs" "sk_items (offer_items xs k) = take m xs" "xs \<noteq> [] \<Longrightarrow> 0 < m"
proof (cases xs)
  case (Cons x ys)
  let ?k = "k\<lparr>sk_items := [x]\<rparr>"
  have "sk_accepts k [] x" using assms(1) by blast
  then have "offer_items xs k = offer_items ys ?k" using assms(2) Cons by (simp add: sink_add_def)
  moreover obtain m where "m \<le> length ys" "sk_items (offer_items ys ?k) = x # take m ys" using offer_items_prefix [of ys ?k] by auto
  ultimately show thesis using Cons by (intro that [of "Suc m"]) simp_all
qed (use assms that in simp)

lemma listing_nth:
  assumes "i < length (mem_listing this parent entries)" shows "snd (snd (snd (mem_listing this parent entries ! i))) = of_nat (Suc i)"
proof -
  have "snd (snd (snd (entry_items j es ! i))) = of_nat (i + j + 3)" if "i < length (entry_items j es)" for i j es
    using that by (induction j es arbitrary: i rule: entry_items.induct) (auto simp: nth_Cons algebra_simps split: nat.splits)
  with assms show ?thesis by (auto simp: mem_listing_def nth_Cons split: nat.splits)
qed

lemma length_entry_items [simp]: "length (entry_items i es) = length es"
  by (induction i es rule: entry_items.induct) auto

lemma entry_items_names: "fst ` set (entry_items i es) = fst ` set es"
  by (induction i es rule: entry_items.induct) auto

text \<open>So the stream of reads from any position returns the rest of the listing, if the directory does not change.\<close>

lemma dir_stream_listing:
  assumes rd: "\<And>off k. rd off (fs, sh, d, k) = (Ok (), (fs, sh, d, offer_items (drop (unat off) xs) k))" and fits: "\<forall>x. fits [] x"
    and offs: "\<And>i. i < length xs \<Longrightarrow> snd (snd (snd (xs ! i))) = of_nat (Suc i)" and len: "length xs < 2 ^ 64"
  shows "j \<le> length xs \<Longrightarrow> length xs - j < n \<Longrightarrow> dir_stream rd fits n (of_nat j) (fs, sh, d) = (Ok (drop j xs), (fs, sh, d))"
proof (induction n arbitrary: j)
  case (Suc n)
  have j: "unat (of_nat j :: u64) = j" using Suc.prems(1) len by (simp add: unat_of_nat)
  let ?k = "\<lparr>sk_accepts = fits, sk_items = []\<rparr> :: dir_sink"
  obtain m where m: "m \<le> length (drop j xs)" "sk_items (offer_items (drop j xs) ?k) = take m (drop j xs)" "drop j xs \<noteq> [] \<Longrightarrow> 0 < m"
    using offer_items_some [of ?k "drop j xs"] fits by auto
  show ?case
  proof (cases "drop j xs = []")
    case True
    with m rd [of "of_nat j" ?k] j show ?thesis by simp
  next
    case False
    then have lt: "0 < m" "j + m \<le> length xs" "take m (drop j xs) \<noteq> []" using m by auto
    have "last (take m (drop j xs)) = xs ! (j + m - 1)" using lt by (simp add: last_conv_nth)
    then have cookie: "snd (snd (snd (last (take m (drop j xs))))) = of_nat (j + m)" using offs [of "j + m - 1"] lt by simp
    have rest: "dir_stream rd fits n (of_nat (j + m)) (fs, sh, d) = (Ok (drop (j + m) xs), (fs, sh, d))"
      using Suc.IH [of "j + m"] lt Suc.prems by linarith
    have read: "rd (of_nat j) (fs, sh, d, ?k) = (Ok (), (fs, sh, d, offer_items (drop j xs) ?k))" using rd [of "of_nat j" ?k] unfolding j .
    have "dir_stream rd fits (Suc n) (of_nat j) (fs, sh, d) = (Ok (take m (drop j xs) @ drop (j + m) xs), (fs, sh, d))"
      unfolding dir_stream.simps read prod.case outcome.case m(2) cookie rest using lt(3) by (simp only: if_False)
    moreover have "take m (drop j xs) @ drop (j + m) xs = drop j xs" using append_take_drop_id [of m "drop j xs"] by (simp add: add.commute)
    ultimately show ?thesis by (simp only:)
  qed
qed simp

end
