(* ===== verification/Memory_Props.thy ===== *)
theory Memory_Props
  imports Memory_Files
begin

text \<open>Properties of the in-memory filesystem, and a run that exercises them.\<close>

section \<open>A run\<close>

definition still :: "nat \<Rightarrow> system_time" where
  "still n = 0"

lemmas mem_eval = table_eval memory_rt_def runtime_new_def memory_fs_new_def memory_fs_ops_def default_node_fs_def mem_root_def tick_def
  mem_node_new_def node_data_new_def payload_def set_payload_def entry_for_def entry_retain_def callback_def with_node_def on_table_def
  on_handles_def drop_node_def node_ref_drop_def add_open_def add_file_def next_handle_def handle_table_new_def handle_record_new_def
  opened_new_def fmap_def bnd_def create_child_def check_new_entry_def leased_def lease_or_def read_node_def system_now_def
  insert_node_def link_into_def write_leased_def write_node_def modify_def put_entry_def touch_def mem_getattr_def mem_create_def rt_create_def

definition create_f :: request where
  "create_f = OnName (Create 1 ''f'' 0x81A4 0 0) default_caller"

lemma create_f_run:
  "\<exists>e opn rt. run memory_fs_ops [create_f] (memory_rt 7 8 still) = ([Ok (ReplyCreate e opn)], rt) \<and> er_ino e = 2 \<and>
     opens_of (rt_shared rt) 2 = 1 \<and> file_at (rt_shared rt) 2 = Some []"
  by (simp add: mem_eval create_f_def opens_of_def file_at_def tree_of_def tnode_of_def)

lemma memory_run_inv:
  assumes "run memory_fs_ops qs (memory_rt uid gid clock) = (rs, rt)" "Panic \<notin> set rs" shows "mem_inv (rt_fs rt, rt_shared rt)"
proof -
  have "each_request memory_fs_ops (\<lambda>_ _. True) qs rt0" for rt0 by (induction qs arbitrary: rt0) simp_all
  from memory.run_keeps [of "\<lambda>_ _. True", OF _ mem_inv_start this] link_keeps assms have "on_rt mem_inv rt" by (metis fst_conv snd_conv)
  then show ?thesis by (simp add: on_rt_def)
qed

section \<open>The tree\<close>

lemma does_mem_create:
  "does (shows_tree T L) (mem_create p nm mode um flags c)
     (\<lambda>r. creates RegularFile (FileContent []) (ino_of p) nm (T, L) (map_outcome id fst r))"
  unfolding mem_create_def
  by (rule does_bnd [OF does_create_child]) (auto simp: fresh_content_def creates_def intro!: does_result split: outcome.splits)

text \<open>
  C22. Nodes are well-typed: after any sequence of requests none of which panicked, no lock is poisoned, the content of every node
  is of the sort its kind says, with its maps in order, only directories have entries, and every entry leads to a live
  node, not the root, whose kind is the kind the entry says.
\<close>

theorem memory_well_typed:
  assumes "run memory_fs_ops qs (memory_rt uid gid clock) = (rs, rt)" and "Panic \<notin> set rs"
  shows "store_ok (rt_shared rt) \<and>
    (\<forall>n d nm e. tree_of (rt_shared rt) n = Some d \<longrightarrow> tn_ents d nm = Some e \<longrightarrow> tn_kind d = Directory \<and> me_ino e \<noteq> 1 \<and>
       (\<exists>d'. tree_of (rt_shared rt) (me_ino e) = Some d' \<and> tn_kind d' = me_kind e))"
proof -
  from memory_run_inv [OF assms] have i: "store_ok (rt_shared rt)" "tree_ok (tree_of (rt_shared rt)) (links_of (rt_shared rt))"
    by (simp_all add: mem_inv_def)
  from nodes_okD(2) [OF tree_okD(1) [OF i(2)]] entries_okD [OF tree_okD(2) [OF i(2)]] i(1) show ?thesis by blast
qed

theorem memory_well_typed_witness:
  "\<exists>rs rt. run memory_fs_ops [create_f] (memory_rt 7 8 still) = (rs, rt) \<and> store_ok (rt_shared rt)"
  using memory_well_typed [of "[create_f]" 7 8 still] create_f_run by fastforce

text \<open>
  C23. Link counts are exact: after any sequence of requests none of which panicked, the link count of a node that is not a
  directory is the number of links the runtime counts for it, and it has at most that many names; the link count of a directory
  that is linked is two more than the number of its subdirectories.
\<close>

theorem memory_link_counts:
  assumes "run memory_fs_ops qs (memory_rt uid gid clock) = (rs, rt)" and "Panic \<notin> set rs"
    and "slot_at (rt_shared rt) n = Some s" and "mn_data (payload (rt_shared rt) (s_record s)) = d"
  shows "(nd_kind d \<noteq> Directory \<longrightarrow> unat (nd_nlink d) = links_of (rt_shared rt) n \<and>
      card (refs (tree_of (rt_shared rt)) n) \<le> unat (nd_nlink d)) \<and>
    (\<forall>entries. nd_content d = DirContent entries \<longrightarrow> 0 < links_of (rt_shared rt) n \<longrightarrow>
      unat (nd_nlink d) = 2 + card {nm. \<exists>e. bt_get entries nm = Some e \<and> me_kind e = Directory})"
proof -
  from memory_run_inv [OF assms(1,2)] have i: "store_ok (rt_shared rt)" "tree_ok (tree_of (rt_shared rt)) (links_of (rt_shared rt))"
    by (simp_all add: mem_inv_def)
  have t: "tree_of (rt_shared rt) n = Some (tnode_of d)" using assms(3,4) by (simp add: tree_of_def)
  have "data_ok d" using store_okD(2) [OF i(1) assms(3)] assms(4) by simp
  then have "nd_kind d = Directory" if "nd_content d = DirContent entries" for entries using that by (simp add: data_ok_def)
  with counts_okD [OF tree_okD(3) [OF i(2)] t] tree_okD(4) [OF i(2), of n] show ?thesis
    by (auto simp: count_ok_def subdirs_def split: if_splits)
qed

theorem memory_link_counts_witness:
  "\<exists>rs rt s. run memory_fs_ops [create_f] (memory_rt 7 8 still) = (rs, rt) \<and> slot_at (rt_shared rt) 2 = Some s \<and>
     unat (nd_nlink (mn_data (payload (rt_shared rt) (s_record s)))) = links_of (rt_shared rt) 2"
proof -
  obtain e opn rt where r: "run memory_fs_ops [create_f] (memory_rt 7 8 still) = ([Ok (ReplyCreate e opn)], rt)"
    "file_at (rt_shared rt) 2 = Some []" using create_f_run by blast
  then obtain s where s: "slot_at (rt_shared rt) 2 = Some s" by (auto simp: file_at_def tree_of_def split: option.splits)
  with memory_link_counts [OF r(1) _ s refl] memory_run_inv [OF r(1)] store_okD(2) [of "rt_shared rt" 2 s] file_at_slot [OF s r(2)] r(1)
  show ?thesis by (auto simp: mem_inv_def data_ok_def)
qed

text \<open>
  C21. The names are those of a tree: on every well-formed store each method on names that does not panic answers what the abstract
  operation answers on the tree the store represents, with the same errors, and leaves a store that represents the tree the
  operation leaves, up to inodes that have no link; creating a node gives it a free inode, its kind and its content, and a lookup
  finds what the tree has. An operation that fails leaves the tree as it was.
\<close>

theorem memory_names_refine_tree:
  "implements (mem_unlink p nm c) (t_unlink (ino_of p) nm) \<and> implements (mem_rmdir p nm c) (t_rmdir (ino_of p) nm) \<and>
   implements (mem_rename p nm q nm' flags c) (t_rename (ino_of p) nm (ino_of q) nm') \<and>
   implements (mem_link nid q nm c) (t_link_to nid (ino_of q) nm) \<and>
   does (shows_tree T L) (mem_lookup p nm c) (\<lambda>r s. r = t_lookup (ino_of p) nm (T, L) \<and> shows_tree T L s) \<and>
   does (shows_tree T L) (mem_create p nm mode um flags' c)
     (\<lambda>r. creates RegularFile (FileContent []) (ino_of p) nm (T, L) (map_outcome id fst r)) \<and>
   does (shows_tree T L) (mem_mkdir p nm mode um c) (creates Directory (DirContent []) (ino_of p) nm (T, L)) \<and>
   does (shows_tree T L) (mem_symlink p nm target c) (creates file_kind.Symlink (SymlinkContent target) (ino_of p) nm (T, L))"
  unfolding mem_mkdir_def mem_symlink_def
  by (intro conjI implements_unlink implements_rmdir implements_rename implements_link does_mem_lookup does_mem_create does_create_child)
    (simp_all add: fresh_content_def)

section \<open>Contents\<close>

text \<open>
  C25. What is written is read: a write to a file of a well-formed store that does not panic takes all the data; the file is then as
  long as it was or as the end of the data, whichever is more, holds the data at the offset, its old bytes elsewhere and zeros in
  a gap; every read of it returns the bytes at its offset; and no other node of the tree changes.
\<close>

theorem write_then_read:
  assumes "mem_inv (fs, sh)" and "slot_at sh n = Some s" and "file_at sh n = Some old"
    and "mem_write (s_record s) () dat off c (fs, sh) = (r, (fs', sh'))" and "r \<noteq> Panic"
  shows "r = Ok (length dat) \<and> (\<exists>new. tree_of sh' = t_fill n (FileContent new) (tree_of sh) \<and>
    length new = max (length old) (unat off + length dat) \<and>
    (\<forall>i. byte_at new i = (if unat off \<le> i \<and> i < unat off + length dat then dat ! (i - unat off) else byte_at old i)) \<and>
    (\<forall>off' sz c'. unat off' + sz < 2 ^ 64 \<longrightarrow>
       mem_read (s_record s) () off' sz c' (fs', sh') = (Ok (take sz (drop (unat off') new)), (fs', sh'))))"
proof -
  from mem_write_file [OF assms(1,2,4,5)] assms(3) obtain new where new: "write_at (unat off) dat old = Some new" "r = Ok (length dat)"
    "tree_of sh' = t_fill n (FileContent new) (tree_of sh)" "slot_at sh' = slot_at sh" by auto
  have "mem_inv (fs', sh')" using keepsD [OF keeps_mem_write assms(1,4)] assms(5) by blast
  then have st: "store_ok sh'" by (simp add: mem_inv_def)
  have f: "file_at sh' n = Some new" using new(3) assms(2) by (simp add: file_at_def t_fill_def at_def tree_of_def)
  show ?thesis
    using write_at_bytes [OF new(1)] new(2,3) mem_read_file [OF st _ f, of s] assms(2) new(4) by auto
qed

lemma rw_state:
  "\<exists>fs sh s fs' sh'. mem_inv (fs, sh) \<and> slot_at sh 2 = Some s \<and> file_at sh 2 = Some [] \<and>
     mem_write (s_record s) () [5, 6] 1 default_caller (fs, sh) = (Ok 2, (fs', sh'))"
proof -
  obtain e opn rt where r: "run memory_fs_ops [create_f] (memory_rt 7 8 still) = ([Ok (ReplyCreate e opn)], rt)"
    "file_at (rt_shared rt) 2 = Some []" using create_f_run by blast
  then obtain s where s: "slot_at (rt_shared rt) 2 = Some s" by (auto simp: file_at_def tree_of_def split: option.splits)
  have inv: "mem_inv (rt_fs rt, rt_shared rt)" using memory_run_inv [OF r(1)] by simp
  then have "\<not> mn_poisoned (payload (rt_shared rt) (s_record s))" using s by (simp add: mem_inv_def store_ok_def)
  with file_at_slot [OF s r(2)] have "\<exists>fs' sh'. mem_write (s_record s) () [5, 6] 1 default_caller (rt_fs rt, rt_shared rt) = (Ok 2, (fs', sh'))"
    by (simp add: mem_write_def bnd_def system_now_def tick_def write_node_def Let_def write_at_def resize_def ISIZE_MAX_def)
  with inv s r(2) show ?thesis by blast
qed

theorem write_then_read_witness:
  "\<exists>fs sh s. mem_inv (fs, sh) \<and> slot_at sh 2 = Some s \<and> (\<exists>st'. mem_write (s_record s) () [5, 6] 1 default_caller (fs, sh) = (Ok 2, st') \<and>
     mem_read (s_record s) () 0 9 default_caller st' = (Ok [0, 5, 6], st'))"
proof -
  obtain fs sh s fs' sh' where st: "mem_inv (fs, sh)" "slot_at sh 2 = Some s" "file_at sh 2 = Some []"
    "mem_write (s_record s) () [5, 6] 1 default_caller (fs, sh) = (Ok 2, (fs', sh'))" using rw_state by blast
  from write_then_read [OF st] obtain new where new: "length new = 3"
      "\<forall>i. byte_at new i = (if 1 \<le> i \<and> i < 3 then [5, 6] ! (i - 1) else byte_at [] i)"
      "mem_read (s_record s) () 0 9 default_caller (fs', sh') = (Ok (take 9 new), (fs', sh'))" by force
  have "new = [0, 5, 6]" using new(1) new(2) [rule_format, of 0] new(2) [rule_format, of 1] new(2) [rule_format, of 2]
    by (auto simp: byte_at_def nth_Cons eval_nat_numeral length_Suc_conv)
  with new(3) have "mem_read (s_record s) () 0 9 default_caller (fs', sh') = (Ok [0, 5, 6], (fs', sh'))" by simp
  with st show ?thesis by blast
qed

section \<open>Directories\<close>

text \<open>
  C26. A directory is read completely: while it does not change, the stream of reads that starts at offset zero and resumes at the
  offset of the last entry received ends, whatever the size of the buffer, as long as it holds one entry, and returns the
  directory, its parent and every entry exactly once, in the order of the names.
\<close>

theorem memory_readdir_complete:
  assumes "payload sh a = \<lparr>mn_poisoned = False, mn_data = d\<rparr>" and "nd_content d = DirContent entries" and "\<forall>item. fits [] item"
    and "length entries + 2 < 2 ^ 64"
  shows "dir_stream (\<lambda>off. mem_readdir a this parent off c) fits (length entries + 3) 0 (fs, sh, ()) =
    (Ok (mem_listing this parent entries), (fs, sh, ()))"
proof -
  have len: "length (mem_listing this parent entries) = length entries + 2" by (simp add: mem_listing_def)
  have rd: "mem_readdir a this parent off c (fs, sh, (), k) =
      (Ok (), (fs, sh, (), offer_items (drop (unat off) (mem_listing this parent entries)) k))" for off k
    using assms(1,2) by (simp add: mem_readdir_def list_entries_offers)
  from dir_stream_listing [of "\<lambda>off. mem_readdir a this parent off c" fs sh "()" "mem_listing this parent entries" fits 0 "length entries + 3"]
    rd assms(3) listing_nth len assms(4) show ?thesis by simp
qed

definition two_names :: "(os_str, mem_entry) btree" where
  "two_names = [(''a'', \<lparr>me_id = NodeId 2, me_kind = RegularFile\<rparr>), (''b'', \<lparr>me_id = NodeId 3, me_kind = Directory\<rparr>)]"

theorem memory_readdir_complete_witness:
  "\<exists>sh items. dir_stream (\<lambda>off. mem_readdir 0 ROOT ROOT off default_caller) (\<lambda>items _. items = []) 5 0 (memory_fs_new 7 8 still, sh, ()) =
     (Ok items, (memory_fs_new 7 8 still, sh, ())) \<and> map fst items = [''.'', ''..'', ''a'', ''b'']"
proof -
  let ?sh = "shared_new (mem_node_new 0 Directory (DirContent two_names) 0 7 8 0)"
  have "payload ?sh 0 = \<lparr>mn_poisoned = False, mn_data = node_data_new 0 Directory (DirContent two_names) 0 7 8 0\<rparr>"
    by (simp add: payload_def shared_new_def mem_node_new_def)
  from memory_readdir_complete [OF this, of two_names "\<lambda>items _. items = []" ROOT ROOT default_caller "memory_fs_new 7 8 still"]
  have "dir_stream (\<lambda>off. mem_readdir 0 ROOT ROOT off default_caller) (\<lambda>items _. items = []) 5 0 (memory_fs_new 7 8 still, ?sh, ()) =
      (Ok (mem_listing ROOT ROOT two_names), (memory_fs_new 7 8 still, ?sh, ()))" by (simp add: node_data_new_def two_names_def)
  moreover have "map fst (mem_listing ROOT ROOT two_names) = [''.'', ''..'', ''a'', ''b'']" by (simp add: mem_listing_def two_names_def)
  ultimately show ?thesis by (intro exI [of _ ?sh] exI [of _ "mem_listing ROOT ROOT two_names"] conjI)
qed

text \<open>
  A removal shifts the positions: an offset is the position of an entry among those that are there, so when an entry already
  returned is removed before the next read, the entry after the last one returned moves down a position and no read of the
  stream returns it, although it was there all the time.
\<close>

theorem readdir_skips_after_removal:
  assumes "bt_sorted entries" and "i < j" and "j < length entries" and "length entries + 2 < 2 ^ 64"
  shows "fst (entries ! j) \<in> fst ` set (bt_remove (fst (entries ! i)) entries) \<and>
    fst (entries ! j) \<notin> fst ` set (sk_items (list_entries this parent (of_nat (j + 2)) (bt_remove (fst (entries ! i)) entries)
      \<lparr>sk_accepts = fits, sk_items = []\<rparr>))"
proof -
  let ?es = "bt_remove (fst (entries ! i)) entries" let ?k = "\<lparr>sk_accepts = fits, sk_items = []\<rparr>"
  have es: "?es = take i entries @ drop (Suc i) entries" using bt_remove_nth [OF assms(1)] assms(2,3) by simp
  have rest: "drop j ?es = drop (Suc j) entries" using assms(2,3) by (simp add: es)
  have off: "unat (of_nat (j + 2) :: u64) = Suc (Suc j)" by (subst unat_of_nat) (use assms(3,4) in simp)
  have "sk_items (list_entries this parent (of_nat (j + 2)) ?es ?k) = sk_items (offer_items (entry_items j (drop (Suc j) entries)) ?k)"
    unfolding list_entries_offers off by (simp add: mem_listing_def drop_entry_items rest)
  with offer_items_prefix [of "entry_items j (drop (Suc j) entries)" ?k]
  have "fst ` set (sk_items (list_entries this parent (of_nat (j + 2)) ?es ?k)) \<subseteq> fst ` set (drop (Suc j) entries)"
    by (auto simp flip: entry_items_names [of j] dest!: in_set_takeD)
  moreover have "fst (entries ! j) \<notin> fst ` set (drop (Suc j) entries)"
    using bt_sorted_distinct [OF assms(1)] id_take_nth_drop [OF assms(3)] by (metis (no_types) distinct.simps(2) distinct_append list.simps(9) map_append set_map)
  moreover have "entries ! j \<in> set ?es" using assms(2,3) nth_mem [of "j - Suc i" "drop (Suc i) entries"] by (simp add: es)
  ultimately show ?thesis by blast
qed

theorem readdir_skips_after_removal_witness:
  "bt_sorted two_names \<and> ''b'' \<in> fst ` set (bt_remove ''a'' two_names) \<and>
   ''b'' \<notin> fst ` set (sk_items (list_entries ROOT ROOT 3 (bt_remove ''a'' two_names) \<lparr>sk_accepts = \<lambda>_ _. True, sk_items = []\<rparr>))"
proof -
  have "bt_sorted two_names" by (simp add: two_names_def bt_sorted_def)
  with readdir_skips_after_removal [of two_names 0 1 ROOT ROOT "\<lambda>_ _. True"] show ?thesis by (simp add: two_names_def)
qed

section \<open>Open files\<close>

text \<open>No method on names changes what a node holds.\<close>

definition same_bodies :: "tree \<Rightarrow> tree \<Rightarrow> bool" where
  "same_bodies T T' \<longleftrightarrow> (\<forall>n d'. T' n = Some d' \<longrightarrow> (\<exists>d. T n = Some d \<and> tn_body d' = tn_body d))"

lemma same_bodies_refl: "same_bodies T T"
  by (simp add: same_bodies_def)

lemma same_bodies_trans: "same_bodies T T1 \<Longrightarrow> same_bodies T1 T2 \<Longrightarrow> same_bodies T T2"
  unfolding same_bodies_def by metis

lemma same_bodies_at: "(\<And>d. tn_body (f d) = tn_body d) \<Longrightarrow> same_bodies T (at n f T)"
  by (auto simp: same_bodies_def at_apply split: if_splits)

lemma same_bodies_drops: "drops L T T' \<Longrightarrow> same_bodies T T'"
  unfolding drops_def same_bodies_def
proof (intro allI impI)
  fix n d' assume "\<forall>n. T' n = T n \<or> L n = 0 \<and> (T' n = None \<or> (\<exists>d k. T n = Some d \<and> tn_kind d = Directory \<and> T' n = Some (d\<lparr>tn_nlink := k\<rparr>)))"
    and "T' n = Some d'"
  then show "\<exists>d. T n = Some d \<and> tn_body d' = tn_body d" by (elim allE [of _ n] disjE conjE exE) auto
qed

lemma same_bodies_ops:
  "same_bodies T (fst (snd (t_unlink p nm (T, L))))" "same_bodies T (fst (snd (t_rmdir p nm (T, L))))"
  "same_bodies T (fst (snd (t_rename p nm q nm' (T, L))))" "same_bodies T (fst (snd (t_link_to nid q nm (T, L))))"
proof -
  have del: "same_bodies T (at n (del_ent nm e) T)" and add: "same_bodies T (at n (add_ent nm e) T)" and un: "same_bodies T (at n (unname e) T)"
    and more: "same_bodies T (at n (\<lambda>d. d\<lparr>tn_nlink := Suc (tn_nlink d)\<rparr>) T)" for T n nm e
    by (intro same_bodies_at, simp add: del_ent_def add_ent_def unname_def)+
  note ops = same_bodies_trans [OF del un] same_bodies_trans [OF del add] same_bodies_trans [OF add more]
  show "same_bodies T (fst (snd (t_unlink p nm (T, L))))" "same_bodies T (fst (snd (t_rmdir p nm (T, L))))"
    "same_bodies T (fst (snd (t_link_to nid q nm (T, L))))"
    by (auto simp: t_unlink_def t_rmdir_def t_link_to_def t_remove_def t_link_def same_bodies_refl ops split: outcome.splits)
  show "same_bodies T (fst (snd (t_rename p nm q nm' (T, L))))"
    by (auto simp: t_rename_def t_remove_def t_move_def same_bodies_refl del ops same_bodies_trans [OF ops(1) ops(2)] split: outcome.splits)
qed

lemma names_keep_file:
  assumes spec: "implements m spec" "\<And>T L. same_bodies T (fst (snd (spec (T, L))))" and quiet: "quiet m" and inv: "mem_inv (fs, sh)"
    and run: "m (fs, sh) = (r, (fs', sh'))" "r \<noteq> Panic" and kept: "0 < opens_of sh n \<or> 0 < lookups_of sh n"
  shows "mem_inv (fs', sh')" "slot_at sh' n \<noteq> None" "file_at sh' n = file_at sh n"
proof -
  show "mem_inv (fs', sh')" using keepsD [OF keeps_implements [OF spec(1)] inv run(1)] run(2) by blast
  have "eff id id sh sh'" using quietD [OF quiet _ run(1)] inv by (simp add: mem_inv_def)
  then have "opens_of sh' = opens_of sh" "lookups_of sh' = lookups_of sh" by (auto dest: effD)
  with kept counted_slot [of sh' n] show s': "slot_at sh' n \<noteq> None" by auto
  from inv obtain T L where T: "shows_tree T L (fs, sh)" "tree_ok T L" by (auto simp: mem_inv_shows)
  with spec(1) have "does (shows_tree T L) m (answers (spec (T, L)) (T, L))" by (simp add: implements_def)
  from doesD [OF this T(1) run] have "released (fst (snd (spec (T, L)))) (snd (snd (spec (T, L)))) (fs', sh')" by (simp add: answers_def)
  then obtain T' where T': "tree_of sh' = T'" "drops (snd (snd (spec (T, L)))) (fst (snd (spec (T, L)))) T'"
    by (auto simp: released_def shows_tree_def)
  have "same_bodies (tree_of sh) (tree_of sh')"
    using same_bodies_trans [OF spec(2) same_bodies_drops [OF T'(2)]] T(1) T'(1) by (simp add: shows_tree_def)
  moreover obtain d' where d': "tree_of sh' n = Some d'" using s' tree_of_None [of sh' n] by auto
  ultimately obtain d where "tree_of sh n = Some d" "tn_body d' = tn_body d" unfolding same_bodies_def by blast
  with d' show "file_at sh' n = file_at sh n" by (simp add: file_at_def)
qed

text \<open>The requests that take names away or move them.\<close>

fun unnames :: "name_request \<Rightarrow> bool" where
  "unnames (Unlink p nm) = True"
| "unnames (Rmdir p nm) = True"
| "unnames (Rename p nm q nm' fl) = True"
| "unnames _ = False"

lemma serve_unnames:
  assumes q: "unnames q" and inv: "mem_inv (rt_fs rt, rt_shared rt)" and run: "serve memory_fs_ops (OnName q c) rt = (r, rt')" "r \<noteq> Panic"
    and kept: "0 < opens_of (rt_shared rt) n \<or> 0 < lookups_of (rt_shared rt) n"
  shows "mem_inv (rt_fs rt', rt_shared rt')" "slot_at (rt_shared rt') n \<noteq> None" "file_at (rt_shared rt') n = file_at (rt_shared rt) n"
proof -
  have "\<exists>(m :: unit mem_call) spec r'. implements m spec \<and> (\<forall>T L. same_bodies T (fst (snd (spec (T, L))))) \<and> quiet m \<and>
      m (rt_fs rt, rt_shared rt) = (r', (rt_fs rt', rt_shared rt')) \<and> r' \<noteq> Panic"
  proof -
    obtain m :: "unit mem_call" and spec where m: "serve memory_fs_ops (OnName q c) = fmap (\<lambda>_. ReplyUnit) (callback m)" "implements m spec" "quiet m"
        "\<forall>T L. same_bodies T (fst (snd (spec (T, L))))"
    proof (cases q rule: unnames.cases)
      case (1 p nm)
      with that [OF _ implements_unlink [of "from_ino p" nm c] quiet_mem_removes(1)] same_bodies_ops show thesis
        by (simp add: rt_unlink_def memory_fs_ops_def)
    next
      case (2 p nm)
      with that [OF _ implements_rmdir [of "from_ino p" nm c] quiet_mem_removes(2)] same_bodies_ops show thesis
        by (simp add: rt_rmdir_def memory_fs_ops_def)
    next
      case (3 p nm q nm' fl)
      with that [OF _ implements_rename [of "from_ino p" nm "from_ino q" nm' fl c] quiet_mem_removes(3)] same_bodies_ops show thesis
        by (simp add: rt_rename_def memory_fs_ops_def)
    qed (use q in auto)
    obtain r' fs' sh' where r': "m (rt_fs rt, rt_shared rt) = (r', (fs', sh'))" by (metis surj_pair)
    with run m(1) have "rt' = rt\<lparr>rt_fs := fs', rt_shared := sh'\<rparr>" "r' \<noteq> Panic"
      by (auto simp: fmap_def bnd_def callback_def split: outcome.splits)
    with r' m show ?thesis by auto
  qed
  then show "mem_inv (rt_fs rt', rt_shared rt')" "slot_at (rt_shared rt') n \<noteq> None" "file_at (rt_shared rt') n = file_at (rt_shared rt) n"
    using names_keep_file [OF _ _ _ inv _ _ kept] by metis+
qed

text \<open>
  C24. An open file outlives its names: after any run without a panic, whatever name is removed, moved or replaced, a file that is open or
  that the kernel still references stays in the table with its bytes, and reads of it return them.
\<close>

theorem open_file_outlives_its_names:
  assumes "run memory_fs_ops qs (memory_rt uid gid clock) = (rs, rt)" and "Panic \<notin> set rs"
    and "0 < opens_of (rt_shared rt) n \<or> 0 < lookups_of (rt_shared rt) n" and "file_at (rt_shared rt) n = Some bs"
    and "unnames q" and "serve memory_fs_ops (OnName q c) rt = (r, rt')" and "r \<noteq> Panic"
  shows "\<exists>s. slot_at (rt_shared rt') n = Some s \<and> (\<forall>off sz c'. unat off + sz < 2 ^ 64 \<longrightarrow>
    mem_read (s_record s) () off sz c' (rt_fs rt', rt_shared rt') = (Ok (take sz (drop (unat off) bs)), (rt_fs rt', rt_shared rt')))"
proof -
  note k = serve_unnames [OF assms(5) memory_run_inv [OF assms(1,2)] assms(6,7,3)]
  then obtain s where s: "slot_at (rt_shared rt') n = Some s" by auto
  have "store_ok (rt_shared rt')" using k(1) by (simp add: mem_inv_def)
  from mem_read_file [OF this s] k(3) assms(4) s show ?thesis by auto
qed

lemma unlink_f_run:
  "\<exists>e opn rt rt'. run memory_fs_ops [create_f] (memory_rt 7 8 still) = ([Ok (ReplyCreate e opn)], rt) \<and>
     opens_of (rt_shared rt) 2 = 1 \<and> file_at (rt_shared rt) 2 = Some [] \<and>
     serve memory_fs_ops (OnName (Unlink 1 ''f'') default_caller) rt = (Ok ReplyUnit, rt')"
  by (simp add: mem_eval create_f_def opens_of_def file_at_def tree_of_def tnode_of_def rt_unlink_def mem_unlink_def mem_entry_of_def
      mem_kind_def on_nodes_def remove_name_def fewer_links_def)

theorem open_file_outlives_its_names_witness:
  "\<exists>rs rt rt' s. run memory_fs_ops [create_f] (memory_rt 7 8 still) = (rs, rt) \<and>
     serve memory_fs_ops (OnName (Unlink 1 ''f'') default_caller) rt = (Ok ReplyUnit, rt') \<and> slot_at (rt_shared rt') 2 = Some s \<and>
     mem_read (s_record s) () 0 9 default_caller (rt_fs rt', rt_shared rt') = (Ok [], (rt_fs rt', rt_shared rt'))"
proof -
  obtain e opn rt rt' where r: "run memory_fs_ops [create_f] (memory_rt 7 8 still) = ([Ok (ReplyCreate e opn)], rt)"
    "opens_of (rt_shared rt) 2 = 1" "file_at (rt_shared rt) 2 = Some []"
    "serve memory_fs_ops (OnName (Unlink 1 ''f'') default_caller) rt = (Ok ReplyUnit, rt')" using unlink_f_run by blast
  from open_file_outlives_its_names [OF r(1) _ _ r(3) _ r(4)] r(2) obtain s where "slot_at (rt_shared rt') 2 = Some s"
    "mem_read (s_record s) () 0 9 default_caller (rt_fs rt', rt_shared rt') = (Ok [], (rt_fs rt', rt_shared rt'))" by fastforce
  with r(1,4) show ?thesis by blast
qed

end
