(* ===== verification/Path_Listing.thy ===== *)
theory Path_Listing
  imports Node_Fs
begin

unbundle bit_operations_syntax

text \<open>
  Directory listings of the path adapter (\<^verbatim>\<open>path_fs.rs\<close>): the snapshot a filesystem returns, the
  resume cookies, and the listings a directory handle retains so that a read can continue where an
  earlier one stopped.
\<close>

section \<open>Snapshots\<close>

datatype 's path_dir_identity = Current | Parent | Child 's

record 's dir_entry =
  de_name :: os_str
  de_kind :: file_kind
  de_attr :: "node_attr option"
  de_identity :: "'s path_dir_identity"

text \<open>\<^verbatim>\<open>DirBuffer\<close> is the vector of its entries.\<close>

type_synonym 's dir_buffer = "'s dir_entry list"

definition buffer_push :: "os_str \<Rightarrow> file_kind \<Rightarrow> 's \<Rightarrow> 's dir_buffer \<Rightarrow> 's dir_buffer" where
  "buffer_push nm kind st b = b @ [\<lparr>de_name = nm, de_kind = kind, de_attr = None, de_identity = Child st\<rparr>]"

definition push_plus :: "os_str \<Rightarrow> node_attr \<Rightarrow> 's \<Rightarrow> 's dir_buffer \<Rightarrow> 's dir_buffer" where
  "push_plus nm attr st b = b @ [\<lparr>de_name = nm, de_kind = na_kind attr, de_attr = Some attr, de_identity = Child st\<rparr>]"

definition push_dots :: "node_attr \<Rightarrow> node_attr \<Rightarrow> 's dir_buffer \<Rightarrow> 's dir_buffer" where
  "push_dots self_attr parent_attr b = b @
     [\<lparr>de_name = ''.'', de_kind = Directory, de_attr = Some self_attr, de_identity = Current\<rparr>,
      \<lparr>de_name = ''..'', de_kind = Directory, de_attr = Some parent_attr, de_identity = Parent\<rparr>]"

text \<open>
  \<^verbatim>\<open>replay\<close> emits the entries from index \<open>offset\<close> on until \<open>emit\<close> returns false. The target has
  64-bit \<^verbatim>\<open>usize\<close>, so the conversion of the offset does not fail.
\<close>

primrec replay_loop :: "(nat \<Rightarrow> u64 \<Rightarrow> ('st, errno, bool) prog) \<Rightarrow> nat \<Rightarrow> nat \<Rightarrow> ('st, errno, unit) prog" where
  "replay_loop emit 0 index = ret ()"
| "replay_loop emit (Suc k) index =
     bnd (emit index (of_nat index + 1)) (\<lambda>more. if more then replay_loop emit k (Suc index) else ret ())"

definition replay :: "u64 \<Rightarrow> nat \<Rightarrow> (nat \<Rightarrow> u64 \<Rightarrow> ('st, errno, bool) prog) \<Rightarrow> ('st, errno, unit) prog" where
  "replay offset len emit = (let start = min (unat offset) len in replay_loop emit (len - start) start)"

type_synonym 's path_item = "os_str \<times> file_kind \<times> 's path_dir_identity \<times> u64"
type_synonym 's path_plus_item = "os_str \<times> node_attr option \<times> 's path_dir_identity \<times> u64"

definition offer :: "'e \<Rightarrow> ('e sink, errno, bool) prog" where
  "offer e k = (case sink_add e k of (b, k') \<Rightarrow> (Ok b, k'))"

definition buffer_fill :: "'s dir_buffer \<Rightarrow> u64 \<Rightarrow> ('s path_item sink, errno, unit) prog" where
  "buffer_fill b offset = replay offset (length b) (\<lambda>i next_offset.
     offer (de_name (b ! i), de_kind (b ! i), de_identity (b ! i), next_offset))"

definition buffer_fill_plus :: "'s dir_buffer \<Rightarrow> u64 \<Rightarrow> ('s path_plus_item sink, errno, unit) prog" where
  "buffer_fill_plus b offset = replay offset (length b) (\<lambda>i next_offset.
     offer (de_name (b ! i), de_attr (b ! i), de_identity (b ! i), next_offset))"

section \<open>Resume cookies\<close>

definition COOKIE_INDEX_BITS :: nat where "COOKIE_INDEX_BITS = 27"
definition COOKIE_INDEX_MASK :: u64 where "COOKIE_INDEX_MASK = push_bit COOKIE_INDEX_BITS 1 - 1"
definition COOKIE_GENERATIONS :: u8 where "COOKIE_GENERATIONS = 16"
definition MAX_LISTING_LEN :: nat where "MAX_LISTING_LEN = unat COOKIE_INDEX_MASK"
definition RETAINED_LISTINGS :: nat where "RETAINED_LISTINGS = 4"

definition listing_cookie :: "u8 \<Rightarrow> nat \<Rightarrow> u64" where
  "listing_cookie generation index = push_bit COOKIE_INDEX_BITS (ucast generation) OR (of_nat index + 1)"

definition split_cookie :: "u64 \<Rightarrow> u8 \<times> u64" where
  "split_cookie offset =
     (ucast (drop_bit COOKIE_INDEX_BITS offset AND ucast (COOKIE_GENERATIONS - 1)), offset AND COOKIE_INDEX_MASK)"

section \<open>Retained listings\<close>

text \<open>
  \<open>dl_id\<close> stands for the identity of the listing's \<^verbatim>\<open>Arc\<close>, which \<^verbatim>\<open>Arc::ptr_eq\<close> compares: every
  listing gets a new one from \<open>ls_next_id\<close>. The code has no such counter; nothing but the identity
  test depends on it.
\<close>

record 's dir_listing =
  dl_id :: nat
  dl_generation :: u8
  dl_epoch :: u64
  dl_buffer :: "'s dir_buffer"

record 's dir_listings =
  ls_next_generation :: u8
  ls_retained :: "'s dir_listing list"
  ls_ended :: "u64 option list"
  ls_next_id :: nat

definition listings_new :: "'s dir_listings" where
  "listings_new = \<lparr>ls_next_generation = 0, ls_retained = [], ls_ended = replicate (unat COOKIE_GENERATIONS) None, ls_next_id = 0\<rparr>"

definition has_ended :: "u8 \<Rightarrow> u64 \<Rightarrow> 's dir_listings \<Rightarrow> bool" where
  "has_ended g index ls = (case ls_ended ls ! unat g of None \<Rightarrow> False | Some e \<Rightarrow> index \<ge> e)"

definition listings_get :: "u8 \<Rightarrow> 's dir_listings \<Rightarrow> 's dir_listing option" where
  "listings_get g ls = find (\<lambda>l. dl_generation l = g) (ls_retained ls)"

definition listings_current :: "'s dir_listings \<Rightarrow> 's dir_listing option" where
  "listings_current ls = (if ls_retained ls = [] then None else Some (last (ls_retained ls)))"

definition listings_finish :: "'s dir_listing \<Rightarrow> u64 \<Rightarrow> 's dir_listings \<Rightarrow> 's dir_listings" where
  "listings_finish l e ls =
     (let kept = filter (\<lambda>x. dl_id x \<noteq> dl_id l) (ls_retained ls) in
      if length kept \<noteq> length (ls_retained ls)
      then ls\<lparr>ls_retained := kept, ls_ended := (ls_ended ls)[unat (dl_generation l) := Some e]\<rparr>
      else ls\<lparr>ls_retained := kept\<rparr>)"

definition listings_push :: "u64 \<Rightarrow> 's dir_buffer \<Rightarrow> 's dir_listings \<Rightarrow> 's dir_listing \<times> 's dir_listings" where
  "listings_push epoch buffer ls =
     (let l = \<lparr>dl_id = ls_next_id ls, dl_generation = ls_next_generation ls, dl_epoch = epoch, dl_buffer = buffer\<rparr>;
          kept = (if length (ls_retained ls) = RETAINED_LISTINGS then tl (ls_retained ls) else ls_retained ls)
      in (l, \<lparr>ls_next_generation = (ls_next_generation ls + 1) mod COOKIE_GENERATIONS,
              ls_retained = kept @ [l],
              ls_ended = (ls_ended ls)[unat (dl_generation l) := None],
              ls_next_id = Suc (ls_next_id ls)\<rparr>))"

section \<open>Cookies encode a generation and an index\<close>

lemma small_nat_bits: "m < 2 ^ k \<Longrightarrow> k \<le> j \<Longrightarrow> \<not> bit (m::nat) j"
  by (metis bit_take_bit_iff less_le_not_le linorder_not_le take_bit_nat_eq_self_iff)

lemma small_word_bits: "unat (w :: 'a::len word) < 2 ^ k \<Longrightarrow> k \<le> j \<Longrightarrow> \<not> bit w j"
  using small_nat_bits [of "unat w" k j] by (simp add: bit_unsigned_iff)

lemma unat_index_word: "Suc i < 2 ^ 27 \<Longrightarrow> unat ((of_nat i + 1) :: u64) = Suc i"
  by (simp add: unat_word_ariths unat_of_nat)

lemma cookie_index_mask: "COOKIE_INDEX_MASK = mask 27"
  by (simp add: COOKIE_INDEX_MASK_def COOKIE_INDEX_BITS_def mask_eq_decr_exp)

lemma mask_bits: "bit COOKIE_INDEX_MASK j \<longleftrightarrow> j < 27"
  unfolding cookie_index_mask bit_mask_iff possible_bit_word by auto

lemma generation_mask: "COOKIE_GENERATIONS - 1 = mask 4"
  by (simp add: COOKIE_GENERATIONS_def mask_eq_decr_exp)

lemma fifteen_bits: "bit (COOKIE_GENERATIONS - 1) j \<longleftrightarrow> j < 4"
  unfolding generation_mask bit_mask_iff possible_bit_word by auto

lemma split_listing_cookie:
  assumes g: "unat g < 16" and i: "Suc i < 2 ^ 27"
  shows "split_cookie (listing_cookie g i) = (g, of_nat (Suc i))"
proof -
  let ?w = "(of_nat i + 1) :: u64"
  have hi: "\<not> bit ?w j" if "27 \<le> j" for j
    by (rule small_word_bits [of _ 27]) (use i that unat_index_word [OF i] in simp_all)
  have gb: "bit g j \<Longrightarrow> j < 4" for j
    using small_word_bits [of g 4 j] g by (force simp: not_le [symmetric])
  have "(ucast (drop_bit 27 (push_bit 27 (ucast g) OR ?w) AND ucast (COOKIE_GENERATIONS - 1)) :: u8) = g"
  proof (rule bit_word_eqI)
    fix j assume "j < LENGTH(8)"
    then have j: "j < 8" by simp
    show "bit (ucast (drop_bit 27 (push_bit 27 (ucast g) OR ?w) AND ucast (COOKIE_GENERATIONS - 1)) :: u8) j = bit g j"
      using j hi [of "27 + j"] gb [of j]
      by (simp only: bit_ucast_iff bit_and_iff bit_or_iff bit_drop_bit_eq bit_push_bit_iff o_def)
        (auto simp: bit_ucast_iff possible_bit_word fifteen_bits)
  qed
  moreover have "(push_bit 27 (ucast g) OR ?w) AND COOKIE_INDEX_MASK = ?w"
  proof (rule bit_word_eqI)
    fix j assume "j < LENGTH(64)"
    show "bit ((push_bit 27 (ucast g) OR ?w) AND COOKIE_INDEX_MASK) j = bit ?w j"
      using hi [of j] by (simp only: bit_and_iff bit_or_iff bit_push_bit_iff mask_bits) (force simp: not_le [symmetric])
  qed
  ultimately show ?thesis
    by (simp add: split_cookie_def listing_cookie_def COOKIE_INDEX_BITS_def add.commute)
qed

lemma unat_listing_cookie:
  assumes g: "unat g < 16" and i: "Suc i < 2 ^ 27"
  shows "unat (listing_cookie g i) = unat g * 2 ^ 27 + Suc i"
proof -
  let ?w = "(of_nat i + 1) :: u64" and ?p = "push_bit 27 (ucast g) :: u64"
  have hi: "\<not> bit ?w j" if "27 \<le> j" for j
    by (rule small_word_bits [of _ 27]) (use i that unat_index_word [OF i] in simp_all)
  have "?p AND ?w = 0"
    by (rule bit_word_eqI) (use hi in \<open>auto simp: bit_and_iff bit_push_bit_iff\<close>)
  then have "listing_cookie g i = ?p + ?w"
    by (simp add: listing_cookie_def COOKIE_INDEX_BITS_def disjunctive_add_eq_or)
  moreover have "unat (ucast g :: u64) = unat g" using g by (simp add: unsigned_ucast_eq take_bit_nat_eq_self)
  with g have "unat ?p = unat g * 2 ^ 27"
    by (simp add: push_bit_eq_mult unat_word_ariths)
  ultimately show ?thesis using g i unat_index_word [OF i]
    by (simp add: unat_word_ariths)
qed

section \<open>Which listing a cookie resumes\<close>

text \<open>
  The retained listings of a handle under any interleaving of the two critical sections that change
  them: a new listing is pushed, or a read that sent nothing finishes the listing it was reading,
  which may have been evicted meanwhile.
\<close>

inductive lreach :: "'s dir_listings \<Rightarrow> bool" where
  lreach_new: "lreach listings_new"
| lreach_push: "lreach ls \<Longrightarrow> length b \<le> MAX_LISTING_LEN \<Longrightarrow> lreach (snd (listings_push epoch b ls))"
| lreach_finish: "lreach ls \<Longrightarrow> unat (dl_generation l) < 16 \<Longrightarrow> lreach (listings_finish l e ls)"

definition listing_ok :: "nat \<Rightarrow> 's dir_listing \<Rightarrow> bool" where
  "listing_ok n l \<longleftrightarrow> dl_id l < n \<and> unat (dl_generation l) = dl_id l mod 16 \<and> length (dl_buffer l) \<le> MAX_LISTING_LEN"

definition listings_inv :: "'s dir_listings \<Rightarrow> bool" where
  "listings_inv ls \<longleftrightarrow> length (ls_retained ls) \<le> RETAINED_LISTINGS \<and> length (ls_ended ls) = 16 \<and>
     unat (ls_next_generation ls) = ls_next_id ls mod 16 \<and> sorted_wrt (<) (map dl_id (ls_retained ls)) \<and>
     (\<forall>l \<in> set (ls_retained ls). listing_ok (ls_next_id ls) l)"

lemma next_generation_mod: "unat ((g + 1) mod COOKIE_GENERATIONS) = Suc (unat g) mod 16" if "unat g < 16"
  using that by (simp add: COOKIE_GENERATIONS_def unat_mod_distrib unat_word_ariths)

lemma listings_inv_push:
  assumes "listings_inv ls" "length b \<le> MAX_LISTING_LEN" shows "listings_inv (snd (listings_push epoch b ls))"
proof -
  let ?kept = "if length (ls_retained ls) = RETAINED_LISTINGS then tl (ls_retained ls) else ls_retained ls"
  have sub: "set ?kept \<subseteq> set (ls_retained ls)" by (cases "ls_retained ls") auto
  have len: "length ?kept < RETAINED_LISTINGS" using assms(1) by (auto simp: listings_inv_def RETAINED_LISTINGS_def)
  have srt: "sorted_wrt (<) (map dl_id ?kept)"
    using assms(1) by (cases "ls_retained ls") (auto simp: listings_inv_def)
  have ok: "\<forall>l \<in> set ?kept. listing_ok (Suc (ls_next_id ls)) l" "\<forall>l \<in> set ?kept. dl_id l < ls_next_id ls"
    using assms(1) subsetD [OF sub] unfolding listings_inv_def listing_ok_def by (metis less_SucI)+
  have gen: "unat ((ls_next_generation ls + 1) mod COOKIE_GENERATIONS) = Suc (ls_next_id ls) mod 16"
    using assms(1) by (simp add: listings_inv_def next_generation_mod mod_Suc_eq)
  show ?thesis
    using assms len srt ok gen
    by (simp add: listings_inv_def listings_push_def Let_def sorted_wrt_append listing_ok_def split del: if_split)
qed

lemma listings_inv_finish: "listings_inv ls \<Longrightarrow> listings_inv (listings_finish l e ls)"
  unfolding listings_inv_def listings_finish_def Let_def
  by (auto simp: sorted_wrt_map_filter intro: order_trans [OF length_filter_le])

lemma lreach_inv: "lreach ls \<Longrightarrow> listings_inv ls"
  by (induction rule: lreach.induct)
    (auto simp: listings_inv_push listings_inv_finish, auto simp: listings_inv_def listings_new_def COOKIE_GENERATIONS_def)

lemma find_unique:
  assumes "x \<in> set xs" "P x" "\<And>y. y \<in> set xs \<Longrightarrow> P y \<Longrightarrow> y = x" shows "find P xs = Some x"
  using assms
proof (induction xs)
  case (Cons a xs)
  show ?case
  proof (cases "P a")
    case True
    with Cons.prems(3) [of a] show ?thesis by simp
  next
    case False
    with Cons.prems(1,2) have "x \<in> set xs" by auto
    from Cons.IH [OF this Cons.prems(2)] Cons.prems(3) False show ?thesis by simp
  qed
qed simp

lemma find_first:
  assumes "l \<in> set xs" "P l" "sorted_wrt (<) (map f xs)"
  shows "find P xs = Some l \<longleftrightarrow> (\<forall>x \<in> set xs. f x < (f l :: nat) \<longrightarrow> \<not> P x)"
  using assms
proof (induction xs)
  case (Cons y ys)
  show ?case
  proof (cases "l = y")
    case True
    with Cons.prems show ?thesis by fastforce
  next
    case False
    with Cons.prems have l: "l \<in> set ys" and "f y < f l" by auto
    with Cons.IH [OF l Cons.prems(2)] Cons.prems(3) False show ?thesis by auto
  qed
qed simp

text \<open>
  C18. When a cookie resumes the listing it came from. \<open>dl_id\<close> numbers the listings that the handle has taken; it is the identity of
  the code's \<^verbatim>\<open>Arc\<close>. The generation in a cookie of a retained listing finds exactly that listing unless an older retained listing
  was taken a multiple of 16 listings before it, in which case the older one is resumed. So it always does as long as
  the handle has taken fewer than 16 listings since the oldest one it still retains, whatever other streams on the handle do.
\<close>

theorem cookie_finds_its_listing:
  assumes "lreach ls" and "l \<in> set (ls_retained ls)"
  shows "(listings_get (dl_generation l) ls = Some l \<longleftrightarrow>
      (\<forall>x \<in> set (ls_retained ls). dl_id x < dl_id l \<longrightarrow> \<not> 16 dvd dl_id l - dl_id x)) \<and>
    (ls_next_id ls \<le> dl_id (hd (ls_retained ls)) + 16 \<longrightarrow> listings_get (dl_generation l) ls = Some l)"
proof -
  note inv = lreach_inv [OF assms(1), unfolded listings_inv_def]
  have ok: "listing_ok (ls_next_id ls) x" if "x \<in> set (ls_retained ls)" for x using inv that by auto
  have gen: "dl_generation x = dl_generation l \<longleftrightarrow> dl_id x mod 16 = dl_id l mod 16" if "x \<in> set (ls_retained ls)" for x
    using ok [OF that] ok [OF assms(2)] by (auto simp: listing_ok_def word_unat_eq_iff)
  have congruent: "dl_id x mod 16 = dl_id l mod 16 \<longleftrightarrow> 16 dvd dl_id l - dl_id x" if "dl_id x < dl_id l" for x
    using mod_eq_dvd_iff_nat [of "dl_id x" "dl_id l" 16] that by auto
  have first: "listings_get (dl_generation l) ls = Some l \<longleftrightarrow>
      (\<forall>x \<in> set (ls_retained ls). dl_id x < dl_id l \<longrightarrow> dl_generation x \<noteq> dl_generation l)"
    unfolding listings_get_def using inv by (intro find_first [OF assms(2)]) auto
  have iff: "listings_get (dl_generation l) ls = Some l \<longleftrightarrow>
      (\<forall>x \<in> set (ls_retained ls). dl_id x < dl_id l \<longrightarrow> \<not> 16 dvd dl_id l - dl_id x)"
    unfolding first using gen congruent by blast
  have le: "dl_id (hd (ls_retained ls)) \<le> dl_id x" if "x \<in> set (ls_retained ls)" for x
    using that inv by (cases "ls_retained ls") auto
  have "\<not> 16 dvd dl_id l - dl_id x" if "ls_next_id ls \<le> dl_id (hd (ls_retained ls)) + 16" "x \<in> set (ls_retained ls)" "dl_id x < dl_id l" for x
    using that le [OF that(2)] ok [OF assms(2)] by (auto simp: listing_ok_def dest!: dvd_imp_le)
  with iff show ?thesis by blast
qed

text \<open>
  A stream that has read one entry of a listing pauses; another scans the directory 15 times to its end and starts again. The new
  listing has the generation of the paused one.
\<close>

definition one_file :: "unit dir_buffer" where
  "one_file = buffer_push ''x'' RegularFile () []"

definition scan :: "unit dir_listings \<Rightarrow> unit dir_listings" where
  "scan ls = (case listings_push 0 one_file ls of (l, ls') \<Rightarrow> listings_finish l 1 ls')"

definition lagging :: "unit dir_listings" where
  "lagging = snd (listings_push 0 one_file ((scan ^^ 15) (snd (listings_push 0 one_file listings_new))))"

lemma push_one_file: "lreach ls \<Longrightarrow> lreach (snd (listings_push 0 one_file ls))"
  by (intro lreach_push) (simp_all add: one_file_def buffer_push_def MAX_LISTING_LEN_def COOKIE_INDEX_MASK_def COOKIE_INDEX_BITS_def)

lemma scan_reach: "lreach ls \<Longrightarrow> lreach (scan ls)"
proof -
  assume ls: "lreach ls"
  then have "unat (ls_next_generation ls) < 16" using lreach_inv [OF ls] by (simp add: listings_inv_def)
  with push_one_file [OF ls] show ?thesis by (auto simp: scan_def listings_push_def Let_def intro: lreach_finish)
qed

lemma scan_retained:
  assumes "lreach ls" "length (ls_retained ls) < RETAINED_LISTINGS"
  shows "ls_retained (scan ls) = ls_retained ls" "ls_next_id (scan ls) = Suc (ls_next_id ls)"
proof -
  have "dl_id l \<noteq> ls_next_id ls" if "l \<in> set (ls_retained ls)" for l
    using lreach_inv [OF assms(1)] that by (auto simp: listings_inv_def listing_ok_def)
  then show "ls_retained (scan ls) = ls_retained ls" "ls_next_id (scan ls) = Suc (ls_next_id ls)"
    using assms(2) by (auto simp: scan_def listings_push_def listings_finish_def Let_def filter_id_conv)
qed

lemma lagging_listings: "lreach lagging \<and> map dl_id (ls_retained lagging) = [0, 16]"
proof -
  let ?s = "\<lambda>k. (scan ^^ k) (snd (listings_push 0 one_file listings_new))"
  have s: "lreach (?s k) \<and> map dl_id (ls_retained (?s k)) = [0] \<and> ls_next_id (?s k) = Suc k" for k
  proof (induction k)
    case 0
    show ?case using push_one_file [OF lreach_new] by (simp add: listings_push_def listings_new_def Let_def RETAINED_LISTINGS_def)
  next
    case (Suc k)
    then have "length (ls_retained (?s k)) = 1" by (metis length_map One_nat_def length_Cons list.size(3))
    with Suc show ?case by (simp add: scan_reach scan_retained RETAINED_LISTINGS_def)
  qed
  from s [of 15] have "length (ls_retained (?s 15)) = 1" by (metis length_map One_nat_def length_Cons list.size(3))
  with s [of 15] push_one_file [of "?s 15"] show ?thesis
    by (simp add: lagging_def listings_push_def Let_def RETAINED_LISTINGS_def)
qed

theorem cookie_finds_its_listing_witness:
  "listings_get (dl_generation (ls_retained lagging ! 0)) lagging = Some (ls_retained lagging ! 0) \<and>
   listings_get (dl_generation (ls_retained lagging ! 1)) lagging \<noteq> Some (ls_retained lagging ! 1)"
proof -
  from lagging_listings obtain x y where r: "lreach lagging" "ls_retained lagging = [x, y]" "dl_id x = 0" "dl_id y = 16" by auto
  with cookie_finds_its_listing [OF r(1), of x] cookie_finds_its_listing [OF r(1), of y] show ?thesis by auto
qed

text \<open>
  C19. Cookies are exact and fit a 32-bit offset: for every generation and every index of a listing
  that fits, the cookie splits into the generation and the next index, is not zero (so it is never
  taken for a read from the start), and is below \<open>2 ^ 31\<close>.
\<close>

theorem cookie_roundtrip:
  assumes "unat g < 16" and "i < MAX_LISTING_LEN"
  shows "split_cookie (listing_cookie g i) = (g, of_nat (Suc i)) \<and> listing_cookie g i \<noteq> 0 \<and>
    unat (listing_cookie g i) < 2 ^ 31"
proof -
  have i: "Suc i < 2 ^ 27"
    using assms(2) by (simp add: MAX_LISTING_LEN_def COOKIE_INDEX_MASK_def COOKIE_INDEX_BITS_def)
  have "unat g * 2 ^ 27 \<le> 15 * 2 ^ 27" using assms(1) by simp
  with i unat_listing_cookie [OF assms(1) i] have "unat (listing_cookie g i) < 2 ^ 31" "unat (listing_cookie g i) \<noteq> 0"
    by simp_all
  with split_listing_cookie [OF assms(1) i] show ?thesis by auto
qed

theorem cookie_roundtrip_witness: "split_cookie (listing_cookie 15 41) = (15, 42)"
  using cookie_roundtrip [of 15 41]
  by (simp add: MAX_LISTING_LEN_def COOKIE_INDEX_MASK_def COOKIE_INDEX_BITS_def)

end
