(* ===== verification/Path_Adapter.thy ===== *)
theory Path_Adapter
  imports Fs_Calls Path_Listing Path_Namespace
begin

text \<open>
  The path adapter (\<^verbatim>\<open>PathNodeFs\<close> in \<^verbatim>\<open>path_fs.rs\<close>): it turns a filesystem written against paths,
  the trait \<^verbatim>\<open>PathFilesystem\<close>, into one written against nodes. The trait is again a record of methods,
  over the filesystem's own state; the adapter's methods are one definition each, and \<open>path_node_fs\<close>
  collects them. The lock \<^verbatim>\<open>operations\<close> orders whole callbacks and has no state of its own.
\<close>

section \<open>The path filesystem interface\<close>

record 's path_node_ref =
  pr_path :: "os_str option"
  pr_state :: 's

record 's path_entry =
  pe_attr :: node_attr
  pe_state :: 's

record ('p, 's, 'h, 'dh) path_filesystem =
  pf_posix_locks :: bool
  pf_supports_flock :: bool
  pf_supports_readdirplus :: bool
  pf_root_state :: "'p \<Rightarrow> 's \<times> 'p"
  pf_init :: "('p \<times> conn_info, errno, unit) prog"
  pf_destroy :: "('p, errno, unit) prog"
  pf_forget :: "'s path_node_ref \<Rightarrow> 'p \<Rightarrow> 'p"
  pf_lookup :: "'s path_node_ref \<Rightarrow> os_str \<Rightarrow> caller \<Rightarrow> ('p, errno, 's path_entry option) prog"
  pf_getattr :: "'s path_node_ref \<Rightarrow> 'h option \<Rightarrow> caller \<Rightarrow> ('p, errno, node_attr) prog"
  pf_setattr :: "'s path_node_ref \<Rightarrow> 'h option \<Rightarrow> set_attr \<Rightarrow> caller \<Rightarrow> ('p, errno, node_attr) prog"
  pf_readlink :: "'s path_node_ref \<Rightarrow> caller \<Rightarrow> ('p, errno, os_str) prog"
  pf_mknod :: "'s path_node_ref \<Rightarrow> os_str \<Rightarrow> u32 \<Rightarrow> u32 \<Rightarrow> u32 \<Rightarrow> caller \<Rightarrow> ('p, errno, 's path_entry) prog"
  pf_mkdir :: "'s path_node_ref \<Rightarrow> os_str \<Rightarrow> u32 \<Rightarrow> u32 \<Rightarrow> caller \<Rightarrow> ('p, errno, 's path_entry) prog"
  pf_symlink :: "'s path_node_ref \<Rightarrow> os_str \<Rightarrow> os_str \<Rightarrow> caller \<Rightarrow> ('p, errno, 's path_entry) prog"
  pf_unlink :: "'s path_node_ref \<Rightarrow> os_str \<Rightarrow> caller \<Rightarrow> ('p, errno, unit) prog"
  pf_rmdir :: "'s path_node_ref \<Rightarrow> os_str \<Rightarrow> caller \<Rightarrow> ('p, errno, unit) prog"
  pf_rename :: "'s path_node_ref \<Rightarrow> os_str \<Rightarrow> 's path_node_ref \<Rightarrow> os_str \<Rightarrow> caller \<Rightarrow> ('p, errno, unit) prog"
  pf_link :: "'s path_node_ref \<Rightarrow> 's path_node_ref \<Rightarrow> os_str \<Rightarrow> caller \<Rightarrow> ('p, errno, node_attr) prog"
  pf_open :: "'s path_node_ref \<Rightarrow> int \<Rightarrow> caller \<Rightarrow> ('p, errno, 'h opened) prog"
  pf_read :: "'s path_node_ref \<Rightarrow> 'h \<Rightarrow> u64 \<Rightarrow> nat \<Rightarrow> caller \<Rightarrow> ('p, errno, bytes) prog"
  pf_write :: "'s path_node_ref \<Rightarrow> 'h \<Rightarrow> bytes \<Rightarrow> u64 \<Rightarrow> caller \<Rightarrow> ('p, errno, nat) prog"
  pf_flush :: "'s path_node_ref \<Rightarrow> 'h \<Rightarrow> caller \<Rightarrow> ('p, errno, unit) prog"
  pf_release :: "'s path_node_ref \<Rightarrow> 'h \<Rightarrow> caller \<Rightarrow> ('p, errno, unit) prog"
  pf_fsync :: "'s path_node_ref \<Rightarrow> 'h \<Rightarrow> bool \<Rightarrow> caller \<Rightarrow> ('p, errno, unit) prog"
  pf_opendir :: "'s path_node_ref \<Rightarrow> int \<Rightarrow> caller \<Rightarrow> ('p, errno, 'dh opened) prog"
  pf_list_dir :: "'s path_node_ref \<Rightarrow> 'dh \<Rightarrow> caller \<Rightarrow> ('p, errno, 's dir_buffer) prog"
  pf_releasedir :: "'s path_node_ref \<Rightarrow> 'dh \<Rightarrow> caller \<Rightarrow> ('p, errno, unit) prog"
  pf_fsyncdir :: "'s path_node_ref \<Rightarrow> 'dh \<Rightarrow> bool \<Rightarrow> caller \<Rightarrow> ('p, errno, unit) prog"
  pf_statfs :: "os_str \<Rightarrow> caller \<Rightarrow> ('p, errno, stat_fs) prog"
  pf_setxattr :: "'s path_node_ref \<Rightarrow> os_str \<Rightarrow> bytes \<Rightarrow> int \<Rightarrow> caller \<Rightarrow> ('p, errno, unit) prog"
  pf_getxattr :: "'s path_node_ref \<Rightarrow> os_str \<Rightarrow> nat \<Rightarrow> caller \<Rightarrow> ('p, errno, xattr_reply) prog"
  pf_listxattr :: "'s path_node_ref \<Rightarrow> nat \<Rightarrow> caller \<Rightarrow> ('p, errno, xattr_reply) prog"
  pf_removexattr :: "'s path_node_ref \<Rightarrow> os_str \<Rightarrow> caller \<Rightarrow> ('p, errno, unit) prog"
  pf_access :: "'s path_node_ref \<Rightarrow> int \<Rightarrow> caller \<Rightarrow> ('p, errno, unit) prog"
  pf_create :: "'s path_node_ref \<Rightarrow> os_str \<Rightarrow> u32 \<Rightarrow> u32 \<Rightarrow> int \<Rightarrow> caller \<Rightarrow> ('p, errno, 's path_entry \<times> 'h opened) prog"
  pf_fallocate :: "'s path_node_ref \<Rightarrow> 'h \<Rightarrow> int \<Rightarrow> u64 \<Rightarrow> u64 \<Rightarrow> caller \<Rightarrow> ('p, errno, unit) prog"
  pf_lseek :: "'s path_node_ref \<Rightarrow> 'h \<Rightarrow> u64 \<Rightarrow> int \<Rightarrow> caller \<Rightarrow> ('p, errno, u64) prog"
  pf_getlk :: "'s path_node_ref \<Rightarrow> 'h \<Rightarrow> u64 \<Rightarrow> file_lock \<Rightarrow> caller \<Rightarrow> ('p, errno, file_lock) prog"
  pf_setlk :: "'s path_node_ref \<Rightarrow> 'h \<Rightarrow> u64 \<Rightarrow> file_lock \<Rightarrow> bool \<Rightarrow> caller \<Rightarrow> ('p, errno, unit) prog"
  pf_flock :: "'s path_node_ref \<Rightarrow> 'h \<Rightarrow> int \<Rightarrow> caller \<Rightarrow> ('p, errno, unit) prog"

text \<open>The default methods; \<^verbatim>\<open>root_state\<close> and \<^verbatim>\<open>getattr\<close> have none and are arguments.\<close>

definition default_path_filesystem :: "('p \<Rightarrow> 's \<times> 'p) \<Rightarrow> ('s path_node_ref \<Rightarrow> 'h option \<Rightarrow> caller \<Rightarrow> ('p, errno, node_attr) prog) \<Rightarrow>
    ('p, 's, 'h, 'dh) path_filesystem" where
  "default_path_filesystem root_state getattr = \<lparr>
     pf_posix_locks = False, pf_supports_flock = False, pf_supports_readdirplus = False,
     pf_root_state = root_state,
     pf_init = ret (),
     pf_destroy = ret (),
     pf_forget = (\<lambda>_. id),
     pf_lookup = (\<lambda>_ _ _. fail ENOSYS),
     pf_getattr = getattr,
     pf_setattr = (\<lambda>_ _ _ _. fail ENOSYS),
     pf_readlink = (\<lambda>_ _. fail ENOSYS),
     pf_mknod = (\<lambda>_ _ _ _ _ _. fail ENOSYS),
     pf_mkdir = (\<lambda>_ _ _ _ _. fail ENOSYS),
     pf_symlink = (\<lambda>_ _ _ _. fail ENOSYS),
     pf_unlink = (\<lambda>_ _ _. fail ENOSYS),
     pf_rmdir = (\<lambda>_ _ _. fail ENOSYS),
     pf_rename = (\<lambda>_ _ _ _ _. fail ENOSYS),
     pf_link = (\<lambda>_ _ _ _. fail ENOSYS),
     pf_open = (\<lambda>_ _ _. fail ENOSYS),
     pf_read = (\<lambda>_ _ _ _ _. fail ENOSYS),
     pf_write = (\<lambda>_ _ _ _ _. fail ENOSYS),
     pf_flush = (\<lambda>_ _ _. ret ()),
     pf_release = (\<lambda>_ _ _. ret ()),
     pf_fsync = (\<lambda>_ _ _ _. ret ()),
     pf_opendir = (\<lambda>_ _ _. fail ENOSYS),
     pf_list_dir = (\<lambda>_ _ _. fail ENOSYS),
     pf_releasedir = (\<lambda>_ _ _. ret ()),
     pf_fsyncdir = (\<lambda>_ _ _ _. ret ()),
     pf_statfs = (\<lambda>_ _. ret (default_stat_fs\<lparr>sf_bsize := 512, sf_namelen := 255\<rparr>)),
     pf_setxattr = (\<lambda>_ _ _ _ _. fail ENOSYS),
     pf_getxattr = (\<lambda>_ _ _ _. fail ENOSYS),
     pf_listxattr = (\<lambda>_ _ _. fail ENOSYS),
     pf_removexattr = (\<lambda>_ _ _. fail ENOSYS),
     pf_access = (\<lambda>_ _ _. ret ()),
     pf_create = (\<lambda>_ _ _ _ _ _. fail ENOSYS),
     pf_fallocate = (\<lambda>_ _ _ _ _ _. fail ENOSYS),
     pf_lseek = (\<lambda>_ _ _ _ _. fail ENOSYS),
     pf_getlk = (\<lambda>_ _ _ _ _. fail ENOSYS),
     pf_setlk = (\<lambda>_ _ _ _ _ _. fail ENOSYS),
     pf_flock = (\<lambda>_ _ _ _. fail ENOSYS)\<rparr>"

section \<open>State of the adapter\<close>

record 'p path_fs =
  pa_inner :: 'p
  pa_namespace :: namespace

record ('s, 'dh) path_dir_handle =
  ph_inner :: 'dh
  ph_listings :: "'s dir_listings"

definition path_fs_new :: "'p \<Rightarrow> 'p path_fs" where
  "path_fs_new inner = \<lparr>pa_inner = inner, pa_namespace = namespace_new\<rparr>"

type_synonym ('p, 's, 'a) pcall = "('p path_fs, 's path_node, 'a) call"

text \<open>Calling the path filesystem; it sees its own state only.\<close>

definition inner :: "('p, errno, 'a) prog \<Rightarrow> ('p, 's, 'a) pcall" where
  "inner m s = (case s of (pa, sh) \<Rightarrow> (case m (pa_inner pa) of (r, p') \<Rightarrow> (r, (pa\<lparr>pa_inner := p'\<rparr>, sh))))"

definition on_namespace :: "((namespace \<times> 's path_node shared) \<Rightarrow> 'a result \<times> (namespace \<times> 's path_node shared)) \<Rightarrow> ('p, 's, 'a) pcall" where
  "on_namespace m s = (case s of (pa, sh) \<Rightarrow> (case m (pa_namespace pa, sh) of (r, (ns, sh')) \<Rightarrow> (r, (pa\<lparr>pa_namespace := ns\<rparr>, sh'))))"

section \<open>Paths of nodes\<close>

definition returns_path :: "os_str option option \<Rightarrow> ('st, errno, os_str option) prog" where
  "returns_path x s = (case x of None \<Rightarrow> (Blocks, s) | Some p \<Rightarrow> (Ok p, s))"

definition node_path :: "addr \<Rightarrow> ('p, 's, os_str option) pcall" where
  "node_path a s = (case id_for_node (payload (snd s) a) (pa_namespace (fst s)) of
     None \<Rightarrow> (Ok None, s)
   | Some nid \<Rightarrow> returns_path (path_for (pa_namespace (fst s)) nid) s)"

definition path_of_id :: "node_id \<Rightarrow> ('p, 's, os_str) pcall" where
  "path_of_id nid s = bnd (returns_path (path_for (pa_namespace (fst s)) nid)) (ok_or ENOENT) s"

definition node_state :: "'s path_node shared \<Rightarrow> addr \<Rightarrow> 's" where
  "node_state sh a = pn_state (payload sh a)"

text \<open>A reference to a node by its path, if it still has one.\<close>

definition with_ref :: "addr \<Rightarrow> ('s path_node_ref \<Rightarrow> ('p, 's, 'a) pcall) \<Rightarrow> ('p, 's, 'a) pcall" where
  "with_ref a body = bnd (node_path a) (\<lambda>p.
     with_state (\<lambda>sh. node_state sh a) (\<lambda>st. body \<lparr>pr_path = p, pr_state = st\<rparr>))"

text \<open>The same for methods that fail with \<^verbatim>\<open>ENOENT\<close> on a node without a path.\<close>

definition with_named_ref :: "addr \<Rightarrow> ('s path_node_ref \<Rightarrow> ('p, 's, 'a) pcall) \<Rightarrow> ('p, 's, 'a) pcall" where
  "with_named_ref a body = bnd (node_path a) (\<lambda>p. bnd (ok_or ENOENT p) (\<lambda>p.
     with_state (\<lambda>sh. node_state sh a) (\<lambda>st. body \<lparr>pr_path = Some p, pr_state = st\<rparr>)))"

section \<open>Names\<close>

definition add_node :: "node_id \<Rightarrow> os_str \<Rightarrow> 's path_entry \<Rightarrow> ('p, 's, node_id) pcall" where
  "add_node parent nm e = bnd (on_namespace (namespace_insert parent nm (pe_state e))) (\<lambda>(nid, _).
     bnd (leased nid (\<lambda>a. on_nodes (set_entry_attr a (pe_attr e)))) (\<lambda>_. ret nid))"

definition path_lookup :: "('p, 's, 'h, 'dh) path_filesystem \<Rightarrow> node_id \<Rightarrow> os_str \<Rightarrow> caller \<Rightarrow> ('p, 's, node_id option) pcall" where
  "path_lookup P parent nm c = leased parent (\<lambda>a.
     bnd (path_of_id parent) (\<lambda>pp.
     with_state (\<lambda>sh. node_state sh a) (\<lambda>st.
     bnd (inner (pf_lookup P \<lparr>pr_path = Some pp, pr_state = st\<rparr> nm c)) (\<lambda>x. case x of
       None \<Rightarrow> ret None
     | Some e \<Rightarrow> bnd (add_node parent nm e) (\<lambda>nid. ret (Some nid))))))"

text \<open>
  The shape of the methods that create an entry: lease the parent, count the change, resolve the
  parent's path, call the filesystem, and record the name.
\<close>

definition in_parent :: "node_id \<Rightarrow> ('s path_node_ref \<Rightarrow> ('p, 's, 'a) pcall) \<Rightarrow> ('p, 's, 'a) pcall" where
  "in_parent parent body = leased parent (\<lambda>a.
     bnd (on_nodes (entries_changed a)) (\<lambda>_.
     bnd (path_of_id parent) (\<lambda>pp.
     with_state (\<lambda>sh. node_state sh a) (\<lambda>st. body \<lparr>pr_path = Some pp, pr_state = st\<rparr>))))"

definition path_mknod :: "('p, 's, 'h, 'dh) path_filesystem \<Rightarrow> node_id \<Rightarrow> os_str \<Rightarrow> u32 \<Rightarrow> u32 \<Rightarrow> u32 \<Rightarrow> caller \<Rightarrow> ('p, 's, node_id) pcall" where
  "path_mknod P parent nm mode rdev umask c = in_parent parent (\<lambda>r. bnd (inner (pf_mknod P r nm mode rdev umask c)) (add_node parent nm))"

definition path_mkdir :: "('p, 's, 'h, 'dh) path_filesystem \<Rightarrow> node_id \<Rightarrow> os_str \<Rightarrow> u32 \<Rightarrow> u32 \<Rightarrow> caller \<Rightarrow> ('p, 's, node_id) pcall" where
  "path_mkdir P parent nm mode umask c = in_parent parent (\<lambda>r. bnd (inner (pf_mkdir P r nm mode umask c)) (add_node parent nm))"

definition path_symlink :: "('p, 's, 'h, 'dh) path_filesystem \<Rightarrow> node_id \<Rightarrow> os_str \<Rightarrow> os_str \<Rightarrow> caller \<Rightarrow> ('p, 's, node_id) pcall" where
  "path_symlink P parent nm target c = in_parent parent (\<lambda>r. bnd (inner (pf_symlink P r nm target c)) (add_node parent nm))"

definition path_create :: "('p, 's, 'h, 'dh) path_filesystem \<Rightarrow> node_id \<Rightarrow> os_str \<Rightarrow> u32 \<Rightarrow> u32 \<Rightarrow> int \<Rightarrow> caller \<Rightarrow> ('p, 's, node_id \<times> 'h opened) pcall" where
  "path_create P parent nm mode umask flags c = in_parent parent (\<lambda>r.
     bnd (inner (pf_create P r nm mode umask flags c)) (\<lambda>(e, opened).
     bnd (add_node parent nm e) (\<lambda>nid. ret (nid, opened))))"

definition drop_dentry :: "dentry \<Rightarrow> (namespace \<times> 's path_node shared) \<Rightarrow> unit result \<times> (namespace \<times> 's path_node shared)" where
  "drop_dentry d s = (case s of (ns, sh) \<Rightarrow> (case namespace_remove d ns of
     (Some nid, ns') \<Rightarrow> (Ok (), (ns', cx_remove_link nid sh))
   | (None, ns') \<Rightarrow> (Ok (), (ns', sh))))"

definition rollback_dentry :: "dentry \<Rightarrow> ('p, 's, unit) pcall" where
  "rollback_dentry d = on_namespace (drop_dentry d)"

definition remove_entry :: "('p, 's, 'h, 'dh) path_filesystem \<Rightarrow> node_id \<Rightarrow> os_str \<Rightarrow> caller \<Rightarrow> bool \<Rightarrow> ('p, 's, unit) pcall" where
  "remove_entry P parent nm c directory = in_parent parent (\<lambda>r.
     bnd (inner (if directory then pf_rmdir P r nm c else pf_unlink P r nm c)) (\<lambda>_.
     on_namespace (drop_dentry (Dentry parent nm))))"

definition path_unlink :: "('p, 's, 'h, 'dh) path_filesystem \<Rightarrow> node_id \<Rightarrow> os_str \<Rightarrow> caller \<Rightarrow> ('p, 's, unit) pcall" where
  "path_unlink P parent nm c = remove_entry P parent nm c False"

definition path_rmdir :: "('p, 's, 'h, 'dh) path_filesystem \<Rightarrow> node_id \<Rightarrow> os_str \<Rightarrow> caller \<Rightarrow> ('p, 's, unit) pcall" where
  "path_rmdir P parent nm c = remove_entry P parent nm c True"

definition path_rename :: "('p, 's, 'h, 'dh) path_filesystem \<Rightarrow> node_id \<Rightarrow> os_str \<Rightarrow> node_id \<Rightarrow> os_str \<Rightarrow> u32 \<Rightarrow> caller \<Rightarrow> ('p, 's, unit) pcall" where
  "path_rename P parent nm newparent newname flags c =
     (if flags \<noteq> 0 then fail EOPNOTSUPP
      else leased parent (\<lambda>a. leased newparent (\<lambda>b.
        bnd (on_nodes (entries_changed a)) (\<lambda>_.
        bnd (on_nodes (entries_changed b)) (\<lambda>_.
        bnd (path_of_id parent) (\<lambda>pp.
        bnd (path_of_id newparent) (\<lambda>np.
        with_state (\<lambda>sh. (node_state sh a, node_state sh b)) (\<lambda>(sa, sb).
        bnd (inner (pf_rename P \<lparr>pr_path = Some pp, pr_state = sa\<rparr> nm \<lparr>pr_path = Some np, pr_state = sb\<rparr> newname c)) (\<lambda>_.
        on_namespace (\<lambda>s. (Ok (), rename_dentry (Dentry parent nm) (Dentry newparent newname) s)))))))))))"

definition path_link :: "('p, 's, 'h, 'dh) path_filesystem \<Rightarrow> node_id \<Rightarrow> node_id \<Rightarrow> os_str \<Rightarrow> caller \<Rightarrow> ('p, 's, node_id) pcall" where
  "path_link P nid newparent newname c =
     leased nid (\<lambda>a. leased newparent (\<lambda>b.
       bnd (on_nodes (entries_changed b)) (\<lambda>_.
       bnd (path_of_id nid) (\<lambda>sp.
       bnd (path_of_id newparent) (\<lambda>np.
       with_state (\<lambda>sh. (node_state sh a, node_state sh b)) (\<lambda>(sa, sb).
       bnd (inner (pf_link P \<lparr>pr_path = Some sp, pr_state = sa\<rparr> \<lparr>pr_path = Some np, pr_state = sb\<rparr> newname c)) (\<lambda>_.
       bnd (on_namespace (\<lambda>(ns, sh). (Ok (), (add_alias nid (Dentry newparent newname) ns, sh)))) (\<lambda>_.
       bnd (on_namespace (\<lambda>(ns, sh). case cx_add_link nid sh of (r, sh') \<Rightarrow> (r, (ns, sh')))) (\<lambda>_.
       ret nid)))))))))"

section \<open>Nodes and files\<close>

definition path_root :: "('p, 's, 'h, 'dh) path_filesystem \<Rightarrow> 'p path_fs \<Rightarrow> 's path_node \<times> 'p path_fs" where
  "path_root P pa = (case pf_root_state P (pa_inner pa) of (st, p') \<Rightarrow> (path_node_new 1 st, pa\<lparr>pa_inner := p'\<rparr>))"

definition path_forget :: "('p, 's, 'h, 'dh) path_filesystem \<Rightarrow> addr \<Rightarrow> ('p, 's, unit) pcall" where
  "path_forget P a = with_ref a (\<lambda>r. inner (\<lambda>p. (Ok (), pf_forget P r p)))"

definition path_getattr :: "('p, 's, 'h, 'dh) path_filesystem \<Rightarrow> addr \<Rightarrow> 'h option \<Rightarrow> caller \<Rightarrow> ('p, 's, node_attr) pcall" where
  "path_getattr P a h c = with_ref a (\<lambda>r. inner (pf_getattr P r h c))"

definition path_entry_attr :: "('p, 's, 'h, 'dh) path_filesystem \<Rightarrow> addr \<Rightarrow> caller \<Rightarrow> ('p, 's, node_attr) pcall" where
  "path_entry_attr P a c s = (case s of (pa, sh) \<Rightarrow> (case take_entry_attr a sh of
     (Some attr, sh') \<Rightarrow> (Ok attr, (pa, sh'))
   | (None, sh') \<Rightarrow> path_getattr P a None c (pa, sh')))"

definition path_setattr :: "('p, 's, 'h, 'dh) path_filesystem \<Rightarrow> addr \<Rightarrow> 'h option \<Rightarrow> set_attr \<Rightarrow> caller \<Rightarrow> ('p, 's, node_attr) pcall" where
  "path_setattr P a h sa c = with_ref a (\<lambda>r. inner (pf_setattr P r h sa c))"

definition path_wants_fallback_handle :: "addr \<Rightarrow> 'p path_fs \<times> 's path_node shared \<Rightarrow> bool" where
  "path_wants_fallback_handle a s = (fst (node_path a s) = Ok None)"

definition path_readlink :: "('p, 's, 'h, 'dh) path_filesystem \<Rightarrow> addr \<Rightarrow>  caller \<Rightarrow> ('p, 's, os_str) pcall" where
  "path_readlink P a  c = with_named_ref a (\<lambda>r. inner (pf_readlink P r  c))"

definition path_open :: "('p, 's, 'h, 'dh) path_filesystem \<Rightarrow> addr \<Rightarrow> int \<Rightarrow> caller \<Rightarrow> ('p, 's, 'h opened) pcall" where
  "path_open P a flags c = with_named_ref a (\<lambda>r. inner (pf_open P r flags c))"

definition path_setxattr :: "('p, 's, 'h, 'dh) path_filesystem \<Rightarrow> addr \<Rightarrow> os_str \<Rightarrow> bytes \<Rightarrow> int \<Rightarrow> caller \<Rightarrow> ('p, 's, unit) pcall" where
  "path_setxattr P a nm val flags c = with_named_ref a (\<lambda>r. inner (pf_setxattr P r nm val flags c))"

definition path_getxattr :: "('p, 's, 'h, 'dh) path_filesystem \<Rightarrow> addr \<Rightarrow> os_str \<Rightarrow> nat \<Rightarrow> caller \<Rightarrow> ('p, 's, xattr_reply) pcall" where
  "path_getxattr P a nm sz c = with_named_ref a (\<lambda>r. inner (pf_getxattr P r nm sz c))"

definition path_listxattr :: "('p, 's, 'h, 'dh) path_filesystem \<Rightarrow> addr \<Rightarrow> nat \<Rightarrow> caller \<Rightarrow> ('p, 's, xattr_reply) pcall" where
  "path_listxattr P a sz c = with_named_ref a (\<lambda>r. inner (pf_listxattr P r sz c))"

definition path_removexattr :: "('p, 's, 'h, 'dh) path_filesystem \<Rightarrow> addr \<Rightarrow> os_str \<Rightarrow> caller \<Rightarrow> ('p, 's, unit) pcall" where
  "path_removexattr P a nm c = with_named_ref a (\<lambda>r. inner (pf_removexattr P r nm c))"

definition path_access :: "('p, 's, 'h, 'dh) path_filesystem \<Rightarrow> addr \<Rightarrow> int \<Rightarrow> caller \<Rightarrow> ('p, 's, unit) pcall" where
  "path_access P a msk c = with_named_ref a (\<lambda>r. inner (pf_access P r msk c))"

definition path_read :: "('p, 's, 'h, 'dh) path_filesystem \<Rightarrow> addr \<Rightarrow> 'h \<Rightarrow> u64 \<Rightarrow> nat \<Rightarrow> caller \<Rightarrow> ('p, 's, bytes) pcall" where
  "path_read P a h off sz c = with_ref a (\<lambda>r. inner (pf_read P r h off sz c))"

definition path_write :: "('p, 's, 'h, 'dh) path_filesystem \<Rightarrow> addr \<Rightarrow> 'h \<Rightarrow> bytes \<Rightarrow> u64 \<Rightarrow> caller \<Rightarrow> ('p, 's, nat) pcall" where
  "path_write P a h dat off c = with_ref a (\<lambda>r. inner (pf_write P r h dat off c))"

definition path_flush :: "('p, 's, 'h, 'dh) path_filesystem \<Rightarrow> addr \<Rightarrow> 'h \<Rightarrow> caller \<Rightarrow> ('p, 's, unit) pcall" where
  "path_flush P a h c = with_ref a (\<lambda>r. inner (pf_flush P r h c))"

definition path_release :: "('p, 's, 'h, 'dh) path_filesystem \<Rightarrow> addr \<Rightarrow> 'h \<Rightarrow> caller \<Rightarrow> ('p, 's, unit) pcall" where
  "path_release P a h c = with_ref a (\<lambda>r. inner (pf_release P r h c))"

definition path_fsync :: "('p, 's, 'h, 'dh) path_filesystem \<Rightarrow> addr \<Rightarrow> 'h \<Rightarrow> bool \<Rightarrow> caller \<Rightarrow> ('p, 's, unit) pcall" where
  "path_fsync P a h datasync c = with_ref a (\<lambda>r. inner (pf_fsync P r h datasync c))"

definition path_fallocate :: "('p, 's, 'h, 'dh) path_filesystem \<Rightarrow> addr \<Rightarrow> 'h \<Rightarrow> int \<Rightarrow> u64 \<Rightarrow> u64 \<Rightarrow> caller \<Rightarrow> ('p, 's, unit) pcall" where
  "path_fallocate P a h mode off len c = with_ref a (\<lambda>r. inner (pf_fallocate P r h mode off len c))"

definition path_lseek :: "('p, 's, 'h, 'dh) path_filesystem \<Rightarrow> addr \<Rightarrow> 'h \<Rightarrow> u64 \<Rightarrow> int \<Rightarrow> caller \<Rightarrow> ('p, 's, u64) pcall" where
  "path_lseek P a h off whence c = with_ref a (\<lambda>r. inner (pf_lseek P r h off whence c))"

definition path_getlk :: "('p, 's, 'h, 'dh) path_filesystem \<Rightarrow> addr \<Rightarrow> 'h \<Rightarrow> u64 \<Rightarrow> file_lock \<Rightarrow> caller \<Rightarrow> ('p, 's, file_lock) pcall" where
  "path_getlk P a h owner lk c = with_ref a (\<lambda>r. inner (pf_getlk P r h owner lk c))"

definition path_setlk :: "('p, 's, 'h, 'dh) path_filesystem \<Rightarrow> addr \<Rightarrow> 'h \<Rightarrow> u64 \<Rightarrow> file_lock \<Rightarrow> bool \<Rightarrow> caller \<Rightarrow> ('p, 's, unit) pcall" where
  "path_setlk P a h owner lk sleep c = with_ref a (\<lambda>r. inner (pf_setlk P r h owner lk sleep c))"

definition path_flock :: "('p, 's, 'h, 'dh) path_filesystem \<Rightarrow> addr \<Rightarrow> 'h \<Rightarrow> int \<Rightarrow> caller \<Rightarrow> ('p, 's, unit) pcall" where
  "path_flock P a h operation c = with_ref a (\<lambda>r. inner (pf_flock P r h operation c))"

definition path_statfs :: "('p, 's, 'h, 'dh) path_filesystem \<Rightarrow> caller \<Rightarrow> ('p, 's, stat_fs) pcall" where
  "path_statfs P c = inner (pf_statfs P ''/'' c)"


definition path_init :: "('p, 's, 'h, 'dh) path_filesystem \<Rightarrow> ('p path_fs \<times> conn_info, errno, unit) prog" where
  "path_init P s = (case s of (pa, conn) \<Rightarrow> (case pf_init P (pa_inner pa, conn) of (r, p', conn') \<Rightarrow> (r, pa\<lparr>pa_inner := p'\<rparr>, conn')))"

definition path_destroy :: "('p, 's, 'h, 'dh) path_filesystem \<Rightarrow> ('p path_fs, errno, unit) prog" where
  "path_destroy P pa = (case pf_destroy P (pa_inner pa) of (r, p') \<Rightarrow> (r, pa\<lparr>pa_inner := p'\<rparr>))"

section \<open>Directories\<close>

definition path_opendir :: "('p, 's, 'h, 'dh) path_filesystem \<Rightarrow> addr \<Rightarrow> int \<Rightarrow> caller \<Rightarrow>
    ('p, 's, ('s, 'dh) path_dir_handle opened) pcall" where
  "path_opendir P a flags c = with_named_ref a (\<lambda>r.
     bnd (inner (pf_opendir P r flags c)) (\<lambda>opened.
     ret \<lparr>op_handle = \<lparr>ph_inner = op_handle opened, ph_listings = listings_new\<rparr>, op_hints = op_hints opened\<rparr>))"

definition path_releasedir :: "('p, 's, 'h, 'dh) path_filesystem \<Rightarrow> addr \<Rightarrow> ('s, 'dh) path_dir_handle \<Rightarrow> caller \<Rightarrow> ('p, 's, unit) pcall" where
  "path_releasedir P a h c = with_ref a (\<lambda>r. inner (pf_releasedir P r (ph_inner h) c))"

definition path_fsyncdir :: "('p, 's, 'h, 'dh) path_filesystem \<Rightarrow> addr \<Rightarrow> ('s, 'dh) path_dir_handle \<Rightarrow> bool \<Rightarrow> caller \<Rightarrow> ('p, 's, unit) pcall" where
  "path_fsyncdir P a h datasync c = with_ref a (\<lambda>r. inner (pf_fsyncdir P r (ph_inner h) datasync c))"

text \<open>A directory read runs on the adapter, the node table, the open directory and the sink.\<close>

type_synonym ('p, 's, 'dh, 'k) dir_state = "'p path_fs \<times> 's path_node shared \<times> ('s, 'dh) path_dir_handle \<times> 'k"
type_synonym ('p, 's, 'dh, 'k, 'a) dir_prog = "(('p, 's, 'dh, 'k) dir_state, errno, 'a) prog"

definition in_dir :: "('p, 's, 'a) pcall \<Rightarrow> ('p, 's, 'dh, 'k, 'a) dir_prog" where
  "in_dir m s = (case s of (pa, sh, d, k) \<Rightarrow> (case m (pa, sh) of (r, (pa', sh')) \<Rightarrow> (r, (pa', sh', d, k))))"

definition on_listings :: "('s dir_listings \<Rightarrow> 'a \<times> 's dir_listings) \<Rightarrow> ('p, 's, 'dh, 'k, 'a) dir_prog" where
  "on_listings f s = (case s of (pa, sh, d, k) \<Rightarrow> (case f (ph_listings d) of (r, ls) \<Rightarrow> (Ok r, (pa, sh, d\<lparr>ph_listings := ls\<rparr>, k))))"

text \<open>Offering one listed entry to the kernel; a name recorded for it is taken back if it does not fit.\<close>

definition add_listed_entry :: "node_id \<Rightarrow> node_id \<Rightarrow> 's dir_entry \<Rightarrow> (node_id \<Rightarrow> ('p, 's, 'dh, 'k, bool) dir_prog) \<Rightarrow>
    ('p, 's, 'dh, 'k, bool) dir_prog" where
  "add_listed_entry this parent entry add =
     bnd (case de_identity entry of
            Current \<Rightarrow> ret (this, None)
          | Parent \<Rightarrow> ret (parent, None)
          | Child st \<Rightarrow> bnd (in_dir (on_namespace (namespace_insert this (de_name entry) st))) (\<lambda>(nid, inserted).
              ret (nid, if inserted then Some (Dentry this (de_name entry)) else None))) (\<lambda>(nid, inserted).
     bnd (add nid) (\<lambda>accepted. case inserted of
       Some d \<Rightarrow> if accepted then ret True else bnd (in_dir (rollback_dentry d)) (\<lambda>_. ret False)
     | None \<Rightarrow> ret accepted))"

datatype 's dir_read = Listing "'s dir_listing" u64 bool | Ended

text \<open>What the retained listings say about a resumed read; \<open>None\<close> means the directory is listed afresh.\<close>

definition resume_listing :: "u64 \<Rightarrow> 's dir_listings \<Rightarrow> 's dir_read option" where
  "resume_listing offset ls = (case split_cookie offset of (generation, start) \<Rightarrow>
     if offset = 0 then None
     else case listings_get generation ls of
       Some l \<Rightarrow> Some (Listing l start True)
     | None \<Rightarrow>
         if has_ended generation start ls then Some Ended
         else map_option (\<lambda>l. Listing l start False) (listings_current ls))"

definition directory_listing :: "('p, 's, 'h, 'dh) path_filesystem \<Rightarrow> addr \<Rightarrow> os_str \<Rightarrow> u64 \<Rightarrow> caller \<Rightarrow>
    ('p, 's, 'dh, 'k, 's dir_read) dir_prog" where
  "directory_listing P a path offset c =
     bnd (on_listings (\<lambda>ls. (resume_listing offset ls, ls))) (\<lambda>resumed. case resumed of
       Some rd \<Rightarrow> ret rd
     | None \<Rightarrow> (\<lambda>(pa, sh, d, k).
         let epoch = pn_entries_epoch (payload sh a) in
         bnd (in_dir (inner (pf_list_dir P \<lparr>pr_path = Some path, pr_state = node_state sh a\<rparr> (ph_inner d) c))) (\<lambda>buffer.
         if length buffer > MAX_LISTING_LEN then fail EOVERFLOW
         else bnd (on_listings (listings_push epoch buffer)) (\<lambda>l.
           ret (Listing l (snd (split_cookie offset)) True))) (pa, sh, d, k)))"

text \<open>
  What is sent for a listed child that has to be looked up again: nothing when its name is gone, its
  current state when it is found, the listed entry when the lookup failed but the listed one serves.
\<close>

datatype 's shown = Skip | Show "'s dir_entry" | Stop errno

definition needs_lookup :: "bool \<Rightarrow> bool \<Rightarrow> 's dir_entry \<Rightarrow> bool" where
  "needs_lookup stale is_plus listed \<longleftrightarrow>
     (case de_identity listed of Child _ \<Rightarrow> True | _ \<Rightarrow> False) \<and> (stale \<or> (is_plus \<and> de_attr listed = None))"

definition shown_entry :: "bool \<Rightarrow> 's dir_entry \<Rightarrow> 's path_entry option result \<Rightarrow> 's shown result" where
  "shown_entry is_plus listed found = (case found of
     Ok None \<Rightarrow> Ok Skip
   | Ok (Some e) \<Rightarrow> Ok (Show \<lparr>de_name = de_name listed, de_kind = na_kind (pe_attr e), de_attr = Some (pe_attr e),
       de_identity = Child (pe_state e)\<rparr>)
   | Err e \<Rightarrow> Ok (if e = ENOENT then Skip else if \<not> is_plus \<or> de_attr listed \<noteq> None then Show listed else Stop e)
   | Panic \<Rightarrow> Panic
   | Blocks \<Rightarrow> Blocks)"

definition entry_to_send :: "('p, 's, 'h, 'dh) path_filesystem \<Rightarrow> 's path_node_ref \<Rightarrow> bool \<Rightarrow> bool \<Rightarrow> caller \<Rightarrow> 's dir_entry \<Rightarrow> ('p, errno, 's shown) prog" where
  "entry_to_send P dir stale is_plus c listed p =
     (if needs_lookup stale is_plus listed
      then (case pf_lookup P dir (de_name listed) c p of (found, p') \<Rightarrow> (shown_entry is_plus listed found, p'))
      else (Ok (Show listed), p))"

text \<open>The loop's local variables are the count of accepted entries and the failure that ended it.\<close>

definition in_loop :: "('st, errno, 'a) prog \<Rightarrow> ('st \<times> nat \<times> errno option, errno, 'a) prog" where
  "in_loop m s = (case s of (st, v) \<Rightarrow> (case m st of (r, st') \<Rightarrow> (r, (st', v))))"

definition replay_entry :: "('p, 's, 'h, 'dh) path_filesystem \<Rightarrow> 's path_node_ref \<Rightarrow> bool \<Rightarrow> bool \<Rightarrow> caller \<Rightarrow> 's dir_listing \<Rightarrow>
    ('s dir_entry \<Rightarrow> u64 \<Rightarrow> ('p, 's, 'dh, 'k, bool) dir_prog) \<Rightarrow> nat \<Rightarrow>
    (('p, 's, 'dh, 'k) dir_state \<times> nat \<times> errno option, errno, bool) prog" where
  "replay_entry P dir stale is_plus c l emit index =
     bnd (in_loop (in_dir (inner (entry_to_send P dir stale is_plus c (dl_buffer l ! index))))) (\<lambda>x. case x of
       Skip \<Rightarrow> ret True
     | Stop e \<Rightarrow> (\<lambda>(st, n, _). (Ok False, (st, n, Some e)))
     | Show entry \<Rightarrow> bnd (in_loop (emit entry (listing_cookie (dl_generation l) index))) (\<lambda>more.
         if more then (\<lambda>(st, n, f). (Ok True, (st, Suc n, f))) else ret False))"

definition replay_listing :: "('p, 's, 'h, 'dh) path_filesystem \<Rightarrow> addr \<Rightarrow> os_str \<Rightarrow> 's dir_listing \<Rightarrow> u64 \<Rightarrow> bool \<Rightarrow> caller \<Rightarrow>
    ('s dir_entry \<Rightarrow> u64 \<Rightarrow> ('p, 's, 'dh, 'k, bool) dir_prog) \<Rightarrow> ('p, 's, 'dh, 'k, nat) dir_prog" where
  "replay_listing P a path l start is_plus c emit s = (case s of (pa, sh, d, k) \<Rightarrow>
     let stale = pn_entries_epoch (payload sh a) \<noteq> dl_epoch l;
         dir = \<lparr>pr_path = Some path, pr_state = node_state sh a\<rparr>
     in case replay start (length (dl_buffer l)) (\<lambda>i _. replay_entry P dir stale is_plus c l emit i) (s, 0, None) of
          (Ok _, (s', n, failure)) \<Rightarrow> (case failure of
             Some e \<Rightarrow> (if n = 0 then Err e else Ok n, s')
           | None \<Rightarrow> (Ok n, s'))
        | (Err e, (s', _)) \<Rightarrow> (Err e, s')
        | (Panic, (s', _)) \<Rightarrow> (Panic, s')
        | (Blocks, (s', _)) \<Rightarrow> (Blocks, s'))"

text \<open>The common course of both directory reads, and the two ways of offering an entry.\<close>

definition path_read_dir :: "('p, 's, 'h, 'dh) path_filesystem \<Rightarrow> addr \<Rightarrow> u64 \<Rightarrow> bool \<Rightarrow> caller \<Rightarrow>
    ('s dir_entry \<Rightarrow> u64 \<Rightarrow> ('p, 's, 'dh, 'k, bool) dir_prog) \<Rightarrow> ('p, 's, 'dh, 'k, unit) dir_prog" where
  "path_read_dir P a offset is_plus c emit =
     bnd (in_dir (bnd (node_path a) (ok_or ENOENT))) (\<lambda>path.
     bnd (directory_listing P a path offset c) (\<lambda>rd. case rd of
       Ended \<Rightarrow> ret ()
     | Listing l start owned \<Rightarrow>
         bnd (replay_listing P a path l start is_plus c emit) (\<lambda>accepted.
         if accepted = 0 \<and> owned then on_listings (\<lambda>ls. ((), listings_finish l start ls)) else ret ())))"

definition offer_item :: "dir_item \<Rightarrow> ('p, 's, 'dh, dir_sink, bool) dir_prog" where
  "offer_item item s = (case s of (pa, sh, d, k) \<Rightarrow> (case sink_add item k of (b, k') \<Rightarrow> (Ok b, (pa, sh, d, k'))))"

definition offer_plus :: "os_str \<Rightarrow> node_id \<Rightarrow> node_attr \<Rightarrow> u64 \<Rightarrow> ('p, 's, 'dh, accounting, bool) dir_prog" where
  "offer_plus nm nid attr off s = (case s of (pa, sh, d, ac) \<Rightarrow>
     (case plus_add nm nid attr off (sh, ac) of (r, (sh', ac')) \<Rightarrow> (r, (pa, sh', d, ac'))))"

definition path_readdir :: "('p, 's, 'h, 'dh) path_filesystem \<Rightarrow> addr \<Rightarrow> node_id \<Rightarrow> node_id \<Rightarrow> u64 \<Rightarrow> caller \<Rightarrow>
    ('p path_fs, 's path_node, ('s, 'dh) path_dir_handle, dir_sink) dir_call" where
  "path_readdir P a this parent offset c = path_read_dir P a offset False c (\<lambda>entry next_offset.
     add_listed_entry this parent entry (\<lambda>nid. offer_item (de_name entry, nid, de_kind entry, next_offset)))"

definition path_readdirplus :: "('p, 's, 'h, 'dh) path_filesystem \<Rightarrow> addr \<Rightarrow> node_id \<Rightarrow> node_id \<Rightarrow> u64 \<Rightarrow> caller \<Rightarrow>
    ('p path_fs, 's path_node, ('s, 'dh) path_dir_handle, accounting) dir_call" where
  "path_readdirplus P a this parent offset c = path_read_dir P a offset True c (\<lambda>entry next_offset.
     add_listed_entry this parent entry (\<lambda>nid.
       bnd (expect (de_attr entry)) (\<lambda>attr. offer_plus (de_name entry) nid attr next_offset)))"

section \<open>The adapter as a node filesystem\<close>

definition path_node_fs :: "('p, 's, 'h, 'dh) path_filesystem \<Rightarrow>
    ('p path_fs, 's path_node, 'h, ('s, 'dh) path_dir_handle) node_fs" where
  "path_node_fs P = (default_node_fs (path_root P) (path_getattr P))\<lparr>
     fs_posix_locks := pf_posix_locks P, fs_supports_flock := pf_supports_flock P,
     fs_supports_readdirplus := pf_supports_readdirplus P,
     fs_init := path_init P, fs_destroy := path_destroy P, fs_forget := path_forget P,
     fs_entry_attr := path_entry_attr P, fs_setattr := path_setattr P,
     fs_wants_fallback_handle := path_wants_fallback_handle, fs_lookup := path_lookup P,
     fs_readlink := path_readlink P, fs_mknod := path_mknod P, fs_mkdir := path_mkdir P,
     fs_symlink := path_symlink P, fs_unlink := path_unlink P, fs_rmdir := path_rmdir P,
     fs_rename := path_rename P, fs_link := path_link P, fs_open := path_open P, fs_read := path_read P,
     fs_write := path_write P, fs_flush := path_flush P, fs_release := path_release P,
     fs_fsync := path_fsync P, fs_opendir := path_opendir P, fs_readdir := path_readdir P,
     fs_readdirplus := path_readdirplus P, fs_releasedir := path_releasedir P,
     fs_fsyncdir := path_fsyncdir P, fs_statfs := path_statfs P, fs_setxattr := path_setxattr P,
     fs_getxattr := path_getxattr P, fs_listxattr := path_listxattr P,
     fs_removexattr := path_removexattr P, fs_access := path_access P, fs_create := path_create P,
     fs_fallocate := path_fallocate P, fs_lseek := path_lseek P, fs_getlk := path_getlk P,
     fs_setlk := path_setlk P, fs_flock := path_flock P\<rparr>"

end
