(* ===== verification/Path_Contract.thy ===== *)
theory Path_Contract
  imports Path_Adapter Runtime_Props
begin

text \<open>
  The path adapter keeps the contract of the runtime for every path filesystem, so the properties of
  the runtime hold for it without assumptions. Each combinator the adapter is built from is shown to
  reach the node table only in the ways the contract allows; the methods follow from that.
\<close>

section \<open>Combinators\<close>

lemma quiet_inner: "quiet (inner m)"
  by (rule quiet_pure) (simp add: inner_def split: prod.splits)

lemma quiet_node_path: "quiet (node_path a)"
  by (rule quiet_pure) (simp add: node_path_def returns_path_def split: option.splits)

lemma quiet_path_of_id: "quiet (path_of_id nid)"
proof (rule quiet_pure)
  fix fs :: "'p path_fs" and sh :: "'s path_node shared"
  show "snd (snd (path_of_id nid (fs, sh))) = sh"
    by (cases "path_for (pa_namespace fs) nid") (auto simp: path_of_id_def returns_path_def bnd_def ok_or_def fail_def ret_def split: option.splits)
qed

lemma eff_payload_writes:
  "table_inv sh \<Longrightarrow> eff id id sh (entries_changed a sh)" "table_inv sh \<Longrightarrow> eff id id sh (set_entry_attr a attr sh)"
  by (simp_all add: entries_changed_def set_entry_attr_def eff_set_payload)

text \<open>What the namespace operations do to the node table.\<close>

definition quiet_ns :: "((namespace \<times> 's path_node shared) \<Rightarrow> 'a result \<times> (namespace \<times> 's path_node shared)) \<Rightarrow> bool" where
  "quiet_ns m \<longleftrightarrow> (\<forall>ns sh r ns' sh'. table_inv sh \<longrightarrow> m (ns, sh) = (r, (ns', sh')) \<longrightarrow> eff id id sh sh')"

lemma quiet_on_namespace: "quiet_ns m \<Longrightarrow> quiet (on_namespace m)"
  by (fastforce simp: quiet_def quiet_ns_def on_namespace_def split: prod.splits)

lemma quiet_ns_insert: "quiet_ns (namespace_insert parent nm st)"
  by (auto simp: quiet_ns_def namespace_insert_def Let_def eff_refl eff_cx_insert split: option.splits outcome.splits prod.splits)

lemma quiet_ns_drop: "quiet_ns (drop_dentry d)"
  by (auto simp: quiet_ns_def drop_dentry_def eff_refl eff_cx_remove_link split: option.splits prod.splits)

lemma quiet_ns_rename: "quiet_ns (\<lambda>s. (Ok (), rename_dentry old new s))"
proof -
  have "eff id id sh (cx_reparent nid np (cx_remove_link r sh))" if "table_inv sh" for sh :: "'s path_node shared" and nid np r
    using eff_id_trans(1) [OF eff_cx_remove_link [OF that] eff_cx_reparent] effD(1) [OF eff_cx_remove_link [OF that]] .
  then show ?thesis
    by (auto simp: quiet_ns_def rename_dentry_def Let_def eff_refl eff_cx_reparent split: option.splits prod.splits if_splits)
qed

lemma quiet_ns_link: "quiet_ns (\<lambda>(ns, sh). case cx_add_link nid sh of (r, sh') \<Rightarrow> (r, (ns, sh')))"
  by (auto simp: quiet_ns_def eff_cx_add_link split: prod.splits)

lemma quiet_ns_alias: "quiet_ns (\<lambda>(ns, sh). (Ok (), (f ns, sh)))"
  by (auto simp: quiet_ns_def eff_refl)

lemma quiet_rollback: "quiet (rollback_dentry d)"
  by (simp add: rollback_dentry_def quiet_on_namespace quiet_ns_drop)

lemmas quiet_intros = quiet_bnd quiet_ret quiet_fail quiet_inner quiet_with_state quiet_ok_or quiet_node_path
  quiet_path_of_id quiet_leased quiet_on_nodes quiet_on_namespace quiet_ns_insert quiet_ns_drop quiet_ns_rename
  quiet_ns_link quiet_ns_alias eff_payload_writes

section \<open>Methods on names and nodes\<close>

lemma quiet_with_ref: "(\<And>r. quiet (body r)) \<Longrightarrow> quiet (with_ref a body)"
  and quiet_with_named_ref: "(\<And>r. quiet (body r)) \<Longrightarrow> quiet (with_named_ref a body)"
  and quiet_in_parent: "(\<And>r. quiet (body r)) \<Longrightarrow> quiet (in_parent parent body)"
  unfolding with_ref_def with_named_ref_def in_parent_def by (intro quiet_intros; assumption)+

lemma quiet_add_node: "quiet (add_node parent nm e)"
  unfolding add_node_def by (intro quiet_intros) (auto intro!: quiet_intros)

lemma quiet_path_lookup: "quiet (path_lookup P parent nm c)"
  unfolding path_lookup_def by (intro quiet_intros) (auto intro!: quiet_intros quiet_add_node split: option.splits)

lemma quiet_path_creates:
  "quiet (path_mknod P parent nm mode rdev um c)" "quiet (path_mkdir P parent nm mode um c)"
  "quiet (path_symlink P parent nm tgt c)" "quiet (path_create P parent nm mode um i c)"
  unfolding path_mknod_def path_mkdir_def path_symlink_def path_create_def
  by (intro quiet_in_parent quiet_intros quiet_add_node; auto intro!: quiet_intros quiet_add_node)+

lemma quiet_path_removes: "quiet (path_unlink P parent nm c)" "quiet (path_rmdir P parent nm c)"
  unfolding path_unlink_def path_rmdir_def remove_entry_def by (intro quiet_in_parent quiet_intros)+

lemma quiet_path_rename: "quiet (path_rename P parent nm newparent newname flags c)"
  unfolding path_rename_def by (cases "flags = 0") (auto intro!: quiet_intros)

lemma quiet_path_link: "quiet (path_link P nid newparent newname c)"
  unfolding path_link_def by (auto intro!: quiet_intros)

lemma quiet_path_attrs:
  "quiet (path_getattr P a oh c)" "quiet (path_setattr P a oh sa c)" "quiet (path_readlink P a c)"
  "quiet (path_access P a msk c)" "quiet (path_statfs P c)"
  unfolding path_getattr_def path_setattr_def path_readlink_def path_access_def path_statfs_def
  by (intro quiet_with_ref quiet_with_named_ref quiet_inner)+

lemma quiet_path_xattrs:
  "quiet (path_setxattr P a nm bs i c)" "quiet (path_getxattr P a nm sz c)"
  "quiet (path_listxattr P a sz c)" "quiet (path_removexattr P a nm c)"
  unfolding path_setxattr_def path_getxattr_def path_listxattr_def path_removexattr_def
  by (intro quiet_with_named_ref quiet_inner)+

lemma quiet_path_files:
  "quiet (path_open P a i c)" "quiet (path_read P a h off sz c)" "quiet (path_write P a h bs off c)"
  "quiet (path_flush P a h c)" "quiet (path_release P a h c)" "quiet (path_fsync P a h b c)"
  "quiet (path_fallocate P a h i off len c)" "quiet (path_lseek P a h off i c)" "quiet (path_getlk P a h own lk c)"
  "quiet (path_setlk P a h own lk b c)" "quiet (path_flock P a h i c)"
  unfolding path_open_def path_read_def path_write_def path_flush_def path_release_def path_fsync_def path_fallocate_def
    path_lseek_def path_getlk_def path_setlk_def path_flock_def
  by (intro quiet_with_ref quiet_with_named_ref quiet_inner)+

lemma quiet_path_dirs:
  "quiet (path_opendir P a i c)" "quiet (path_releasedir P a d c)" "quiet (path_fsyncdir P a d b c)"
  unfolding path_opendir_def path_releasedir_def path_fsyncdir_def
  by (intro quiet_with_ref quiet_with_named_ref quiet_inner quiet_bnd quiet_ret)+

lemma quiet_path_forget: "quiet (path_forget P a)"
  unfolding path_forget_def by (intro quiet_with_ref quiet_inner)

lemma quiet_path_entry_attr: "quiet (path_entry_attr P a c)"
proof (rule quietI)
  fix fs sh r fs' sh' assume inv: "table_inv sh" and run: "path_entry_attr P a c (fs, sh) = (r, fs', sh')"
  obtain x sh1 where x: "take_entry_attr a sh = (x, sh1)" by (cases "take_entry_attr a sh")
  then have e: "eff id id sh sh1" using eff_set_payload [OF inv] by (auto simp: take_entry_attr_def)
  show "eff id id sh sh'"
  proof (cases x)
    case None
    with run x have "path_getattr P a None c (fs, sh1) = (r, fs', sh')" by (simp add: path_entry_attr_def)
    from eff_id_trans(1) [OF e quietD [OF quiet_path_attrs(1) effD(1) [OF e] this]] show ?thesis .
  qed (use run x e in \<open>simp add: path_entry_attr_def\<close>)
qed

lemma path_forget_no_error: "fst (path_forget P a st) \<noteq> Err e"
proof -
  obtain pa sh where st: "st = (pa, sh)" by (cases st)
  show ?thesis
    by (auto simp: st path_forget_def with_ref_def node_path_def returns_path_def with_state_def inner_def bnd_def
        split: option.splits prod.splits)
qed

section \<open>Directory reads\<close>

text \<open>
  Both directory reads run the same loop over different sinks. What the loop needs of a claim about
  them is a locale: an invariant \<open>I\<close> of the adapter and the node table, a relation \<open>R\<close> that holds of the
  silent steps, and the effect \<open>E\<close> of a read on the sink too, which contains those steps and composes. The
  effect may claim more of a step that returned, which is what its first argument says.
\<close>

locale dir_effect =
  fixes I :: "'fs \<times> 'n shared \<Rightarrow> bool" and R :: "'fs \<times> 'n shared \<Rightarrow> 'fs \<times> 'n shared \<Rightarrow> bool"
    and E :: "bool \<Rightarrow> 'fs \<times> 'n shared \<Rightarrow> 'k \<Rightarrow> 'fs \<times> 'n shared \<Rightarrow> 'k \<Rightarrow> bool"
  assumes R_refl: "I s \<Longrightarrow> R s s" and R_E: "I s \<Longrightarrow> R s s' \<Longrightarrow> E ok s k s' k"
    and E_trans: "E True s k s1 k1 \<Longrightarrow> E ok s1 k1 s2 k2 \<Longrightarrow> E ok s k s2 k2"
    and E_weaken: "E True s k s' k' \<Longrightarrow> E ok s k s' k'"
    and E_inv: "I s \<Longrightarrow> E ok s k s' k' \<Longrightarrow> I s'"

fun is_ok :: "('e, 'a) outcome \<Rightarrow> bool" where
  "is_ok (Ok _) = True"
| "is_ok _ = False"

definition effects :: "('fs \<times> 'n shared \<Rightarrow> bool) \<Rightarrow> (bool \<Rightarrow> 'fs \<times> 'n shared \<Rightarrow> 'k \<Rightarrow> 'fs \<times> 'n shared \<Rightarrow> 'k \<Rightarrow> bool) \<Rightarrow>
    ('fs \<times> 'n shared \<times> 'd \<times> 'k, errno, 'a) prog \<Rightarrow> bool" where
  "effects I E m \<longleftrightarrow> (\<forall>fs sh d k r fs' sh' d' k'. I (fs, sh) \<longrightarrow> m (fs, sh, d, k) = (r, (fs', sh', d', k')) \<longrightarrow>
     E (is_ok r) (fs, sh) k (fs', sh') k')"

definition loop_effects :: "('fs \<times> 'n shared \<Rightarrow> bool) \<Rightarrow> (bool \<Rightarrow> 'fs \<times> 'n shared \<Rightarrow> 'k \<Rightarrow> 'fs \<times> 'n shared \<Rightarrow> 'k \<Rightarrow> bool) \<Rightarrow>
    (('fs \<times> 'n shared \<times> 'd \<times> 'k) \<times> nat \<times> errno option, errno, 'a) prog \<Rightarrow> bool" where
  "loop_effects I E m \<longleftrightarrow> (\<forall>fs sh d k v r fs' sh' d' k' v'. I (fs, sh) \<longrightarrow>
     m ((fs, sh, d, k), v) = (r, ((fs', sh', d', k'), v')) \<longrightarrow> E (is_ok r) (fs, sh) k (fs', sh') k')"

lemma effectsD:
  "effects I E m \<Longrightarrow> I (fs, sh) \<Longrightarrow> m (fs, sh, d, k) = (r, (fs', sh', d', k')) \<Longrightarrow> E (is_ok r) (fs, sh) k (fs', sh') k'"
  unfolding effects_def by blast

lemma loop_effectsD:
  "loop_effects I E m \<Longrightarrow> I (fs, sh) \<Longrightarrow> m ((fs, sh, d, k), v) = (r, ((fs', sh', d', k'), v')) \<Longrightarrow> E (is_ok r) (fs, sh) k (fs', sh') k'"
  unfolding loop_effects_def by blast

lemma loop_effects_in_loop: "effects I E m \<Longrightarrow> loop_effects I E (in_loop m)"
  unfolding effects_def loop_effects_def in_loop_def by (auto split: prod.splits)

context dir_effect
begin

lemma effects_pure:
  assumes "\<And>fs sh d k. \<exists>r d'. m (fs, sh, d, k) = (r, (fs, sh, d', k))" shows "effects I E m"
  unfolding effects_def
proof (intro allI impI)
  fix fs sh d k r fs' sh' d' k' assume "I (fs, sh)" "m (fs, sh, d, k) = (r, (fs', sh', d', k'))"
  with assms [of fs sh d k] show "E (is_ok r) (fs, sh) k (fs', sh') k'" by (auto intro: R_E R_refl)
qed

lemma loop_effects_pure:
  assumes "\<And>fs sh d k v. \<exists>r v'. m ((fs, sh, d, k), v) = (r, ((fs, sh, d, k), v'))" shows "loop_effects I E m"
  unfolding loop_effects_def
proof (intro allI impI)
  fix fs sh d k v r fs' sh' d' k' v' assume "I (fs, sh)" "m ((fs, sh, d, k), v) = (r, ((fs', sh', d', k'), v'))"
  with assms [of fs sh d k v] show "E (is_ok r) (fs, sh) k (fs', sh') k'" by (auto intro: R_E R_refl)
qed

lemma effects_ret: "effects I E (ret x)" and effects_fail: "effects I E (fail e)" and effects_expect: "effects I E (expect o1)"
  by (auto intro!: effects_pure simp: expect_def split: option.splits)

lemma loop_effects_ret: "loop_effects I E (ret x)"
  by (auto intro!: loop_effects_pure)

lemma effects_bnd:
  assumes "effects I E m" "\<And>a. effects I E (f a)" shows "effects I E (bnd m f)"
  unfolding effects_def
proof (intro allI impI)
  fix fs sh d k r fs' sh' d' k'
  assume inv: "I (fs, sh)" and "bnd m f (fs, sh, d, k) = (r, (fs', sh', d', k'))"
  from this(2) show "E (is_ok r) (fs, sh) k (fs', sh') k'"
  proof (cases rule: bnd_cases)
    case (ok a s)
    obtain fs1 sh1 d1 k1 where s: "s = (fs1, sh1, d1, k1)" by (cases s)
    have 1: "E True (fs, sh) k (fs1, sh1) k1" using effectsD [OF assms(1) inv, of d k "Ok a"] ok(1) s by simp
    from effectsD [OF assms(2) E_inv [OF inv 1]] ok(2) s have "E (is_ok r) (fs1, sh1) k1 (fs', sh') k'" by blast
    with 1 show ?thesis by (rule E_trans)
  qed (use effectsD [OF assms(1) inv, of d k _ fs' sh' d' k'] in fastforce)+
qed

lemma loop_effects_bnd:
  assumes "loop_effects I E m" "\<And>a. loop_effects I E (f a)" shows "loop_effects I E (bnd m f)"
  unfolding loop_effects_def
proof (intro allI impI)
  fix fs sh d k v r fs' sh' d' k' v'
  assume inv: "I (fs, sh)" and "bnd m f ((fs, sh, d, k), v) = (r, ((fs', sh', d', k'), v'))"
  from this(2) show "E (is_ok r) (fs, sh) k (fs', sh') k'"
  proof (cases rule: bnd_cases)
    case (ok a s)
    obtain fs1 sh1 d1 k1 v1 where s: "s = ((fs1, sh1, d1, k1), v1)" by (metis prod.exhaust)
    have 1: "E True (fs, sh) k (fs1, sh1) k1" using loop_effectsD [OF assms(1) inv, of d k v "Ok a"] ok(1) s by simp
    from loop_effectsD [OF assms(2) E_inv [OF inv 1]] ok(2) s have "E (is_ok r) (fs1, sh1) k1 (fs', sh') k'" by blast
    with 1 show ?thesis by (rule E_trans)
  qed (use loop_effectsD [OF assms(1) inv, of d k v _ fs' sh' d' k' v'] in fastforce)+
qed

lemma loop_effects_replay_loop:
  "(\<And>i off. loop_effects I E (emit i off)) \<Longrightarrow> loop_effects I E (replay_loop emit n i)"
  by (induction n arbitrary: i) (auto intro!: loop_effects_bnd loop_effects_ret split: if_splits)

end

text \<open>On the adapter, the silent steps are calls of the path filesystem and the two namespace sections.\<close>

locale path_dir_effect = dir_effect I R E
  for I :: "'p path_fs \<times> 's path_node shared \<Rightarrow> bool" and R and E :: "bool \<Rightarrow> _ \<Rightarrow> 'k \<Rightarrow> _ \<Rightarrow> 'k \<Rightarrow> bool" +
  assumes R_inner: "I (pa, sh) \<Longrightarrow> R (pa, sh) (pa\<lparr>pa_inner := p\<rparr>, sh)"
    and R_insert: "I (pa, sh) \<Longrightarrow> namespace_insert parent nm st (pa_namespace pa, sh) = (r, (ns, sh')) \<Longrightarrow>
      R (pa, sh) (pa\<lparr>pa_namespace := ns\<rparr>, sh')"
    and R_drop: "I (pa, sh) \<Longrightarrow> drop_dentry d (pa_namespace pa, sh) = (r', (ns, sh')) \<Longrightarrow>
      R (pa, sh) (pa\<lparr>pa_namespace := ns\<rparr>, sh')"
begin

lemma effects_inner: "effects I E (in_dir (inner m))"
  unfolding effects_def in_dir_def inner_def by (auto split: prod.splits intro: R_E R_inner)

lemma effects_insert: "effects I E (in_dir (on_namespace (namespace_insert parent nm st)))"
  unfolding effects_def in_dir_def on_namespace_def by (auto split: prod.splits intro: R_E R_insert)

lemma effects_rollback: "effects I E (in_dir (rollback_dentry d))"
  unfolding effects_def in_dir_def rollback_dentry_def on_namespace_def by (auto split: prod.splits intro: R_E R_drop)

lemma effects_node_path: "effects I E (in_dir (bnd (node_path a) (ok_or ENOENT)))"
proof (rule effects_pure)
  fix fs :: "'p path_fs" and sh :: "'s path_node shared" and d k
  show "\<exists>r d'. in_dir (bnd (node_path a) (ok_or ENOENT)) (fs, sh, d, k) = (r, (fs, sh, d', k))"
    by (auto simp: in_dir_def bnd_def node_path_def returns_path_def ok_or_def fail_def ret_def split: option.splits)
qed

lemma effects_on_listings: "effects I E (on_listings f)"
  by (rule effects_pure) (auto simp: on_listings_def split: prod.splits)

lemma effects_add_listed_entry:
  assumes "\<And>nid. effects I E (add nid)" shows "effects I E (add_listed_entry this parent entry add)"
  unfolding add_listed_entry_def
  by (intro effects_bnd)
    (auto intro!: effects_bnd effects_ret assms effects_insert effects_rollback split: path_dir_identity.splits option.splits)

lemma effects_directory_listing: "effects I E (directory_listing P a path offset c)"
proof -
  have m: "effects I E (bnd (in_dir (inner (g sh d))) (\<lambda>buffer. if length buffer > MAX_LISTING_LEN then fail EOVERFLOW
      else bnd (on_listings (listings_push epoch buffer)) (\<lambda>l. ret (Listing l x True))))" for g sh d epoch x
    by (intro effects_bnd effects_inner) (auto intro!: effects_bnd effects_on_listings effects_ret effects_fail)
  show ?thesis
    unfolding directory_listing_def
  proof (intro effects_bnd effects_on_listings)
    fix resumed :: "'s dir_read option"
    show "effects I E (case resumed of Some rd \<Rightarrow> ret rd | None \<Rightarrow> (\<lambda>(pa, sh, d, k).
         let epoch = pn_entries_epoch (payload sh a) in
         bnd (in_dir (inner (pf_list_dir P \<lparr>pr_path = Some path, pr_state = node_state sh a\<rparr> (ph_inner d) c))) (\<lambda>buffer.
         if length buffer > MAX_LISTING_LEN then fail EOVERFLOW
         else bnd (on_listings (listings_push epoch buffer)) (\<lambda>l.
           ret (Listing l (snd (split_cookie offset)) True))) (pa, sh, d, k)))"
      by (cases resumed) (auto simp: effects_def Let_def dest!: effectsD [OF m, rotated] intro: R_E R_refl)
  qed
qed

lemma loop_effects_replay_entry:
  assumes "\<And>e off. effects I E (emit e off)" shows "loop_effects I E (replay_entry P dir stale is_plus c l emit i)"
  unfolding replay_entry_def
proof (intro loop_effects_bnd loop_effects_in_loop effects_inner)
  fix x :: "'s shown"
  show "loop_effects I E (case x of Skip \<Rightarrow> ret True
     | Stop e \<Rightarrow> (\<lambda>(st, n, _). (Ok False, (st, n, Some e)))
     | Show entry \<Rightarrow> bnd (in_loop (emit entry (listing_cookie (dl_generation l) i))) (\<lambda>more.
         if more then (\<lambda>(st, n, f). (Ok True, (st, Suc n, f))) else ret False))"
  proof (cases x)
    case (Show entry)
    have "loop_effects I E (if more then (\<lambda>(st, n, f). (Ok True, (st, Suc n, f))) else ret False)" for more
      by (rule loop_effects_pure) auto
    then show ?thesis using Show by (auto intro!: loop_effects_bnd loop_effects_in_loop assms)
  qed (auto intro!: loop_effects_ret loop_effects_pure)
qed

lemma effects_replay_listing:
  assumes "\<And>e off. effects I E (emit e off)" shows "effects I E (replay_listing P a path l start is_plus c emit)"
  unfolding effects_def
proof (intro allI impI)
  fix fs sh d k r fs' sh' d' k'
  assume inv: "I (fs, sh)" and run: "replay_listing P a path l start is_plus c emit (fs, sh, d, k) = (r, (fs', sh', d', k'))"
  let ?dir = "\<lparr>pr_path = Some path, pr_state = node_state sh a\<rparr>" and ?stale = "pn_entries_epoch (payload sh a) \<noteq> dl_epoch l"
  let ?m = "replay start (length (dl_buffer l)) (\<lambda>i _. replay_entry P ?dir ?stale is_plus c l emit i)"
  have eff: "loop_effects I E ?m"
    unfolding replay_def Let_def by (intro loop_effects_replay_loop loop_effects_replay_entry assms)
  obtain q s1 v where m: "?m ((fs, sh, d, k), 0, None) = (q, (s1, v))" by (metis prod.exhaust)
  from run m have "s1 = (fs', sh', d', k')" "is_ok q \<or> \<not> is_ok r"
    by (cases q; auto simp: replay_listing_def Let_def split: option.splits prod.splits if_splits)+
  moreover have "E (is_ok q) (fs, sh) k (fs', sh') k'" using loop_effectsD [OF eff inv] m calculation(1) by (cases v) blast
  ultimately show "E (is_ok r) (fs, sh) k (fs', sh') k'" by (cases "is_ok q") (auto intro: E_weaken)
qed

lemma effects_path_read_dir:
  assumes "\<And>e off. effects I E (emit e off)" shows "effects I E (path_read_dir P a offset is_plus c emit)"
  unfolding path_read_dir_def
  by (intro effects_bnd effects_node_path effects_directory_listing)
    (auto intro!: effects_bnd effects_replay_listing assms effects_on_listings effects_ret split: dir_read.splits)

lemma effects_path_readdir:
  "(\<And>item. effects I E (add item)) \<Longrightarrow> effects I E (path_read_dir P a offset is_plus c (\<lambda>entry next_offset.
     add_listed_entry this parent entry (\<lambda>nid. add (de_name entry, nid, de_kind entry, next_offset))))"
  by (intro effects_path_read_dir effects_add_listed_entry)

lemma effects_path_readdirplus:
  "(\<And>nm nid attr off. effects I E (add nm nid attr off)) \<Longrightarrow> effects I E (path_read_dir P a offset is_plus c (\<lambda>entry next_offset.
     add_listed_entry this parent entry (\<lambda>nid. bnd (expect (de_attr entry)) (\<lambda>attr. add (de_name entry) nid attr next_offset))))"
  by (intro effects_path_read_dir effects_add_listed_entry effects_bnd effects_expect)

end

text \<open>A plain read leaves the counts alone; a plus read counts one lookup per recorded entry.\<close>

definition good_table :: "'fs \<times> 'n shared \<Rightarrow> bool" where
  "good_table s \<longleftrightarrow> table_inv (snd s)"

definition silent :: "'fs \<times> 'n shared \<Rightarrow> 'fs \<times> 'n shared \<Rightarrow> bool" where
  "silent s s' \<longleftrightarrow> eff id id (snd s) (snd s')"

definition silent_read :: "bool \<Rightarrow> 'fs \<times> 'n shared \<Rightarrow> 'k \<Rightarrow> 'fs \<times> 'n shared \<Rightarrow> 'k \<Rightarrow> bool" where
  "silent_read ok s k s' k' \<longleftrightarrow> eff id id (snd s) (snd s')"

definition accounted :: "bool \<Rightarrow> 'fs \<times> 'n shared \<Rightarrow> accounting \<Rightarrow> 'fs \<times> 'n shared \<Rightarrow> accounting \<Rightarrow> bool" where
  "accounted ok s ac s' ac' \<longleftrightarrow> table_inv (snd s) \<and> (\<exists>p. plus_calls (snd s, ac) p (snd s', ac') \<and> (ok \<longrightarrow> \<not> p))"

lemma silent_steps:
  "good_table s \<Longrightarrow> silent s s" "good_table (pa, sh) \<Longrightarrow> silent (pa, sh) (pa\<lparr>pa_inner := p\<rparr>, sh)"
  "good_table (pa, sh) \<Longrightarrow> namespace_insert parent nm st (pa_namespace pa, sh) = (r, (ns, sh')) \<Longrightarrow>
     silent (pa, sh) (pa\<lparr>pa_namespace := ns\<rparr>, sh')"
  "good_table (pa, sh) \<Longrightarrow> drop_dentry d (pa_namespace pa, sh) = (r', (ns, sh')) \<Longrightarrow> silent (pa, sh) (pa\<lparr>pa_namespace := ns\<rparr>, sh')"
  by (auto simp: good_table_def silent_def eff_refl
      intro: quiet_ns_insert [unfolded quiet_ns_def, rule_format] quiet_ns_drop [unfolded quiet_ns_def, rule_format])

interpretation plain_read: path_dir_effect good_table silent
    "silent_read :: bool \<Rightarrow> 'p path_fs \<times> 's path_node shared \<Rightarrow> 'k \<Rightarrow> 'p path_fs \<times> 's path_node shared \<Rightarrow> 'k \<Rightarrow> bool"
proof (unfold_locales, goal_cases)
  case (3 s k s1 k1 ok s2 k2)
  then show ?case by (auto simp: silent_read_def intro: eff_id_trans)
qed (auto simp: silent_read_def silent_def good_table_def dest: effD(1) intro: silent_steps [unfolded silent_def good_table_def snd_conv])

lemma accounted_inv: "accounted ok s ac s' ac' \<Longrightarrow> table_inv (snd s')"
  unfolding accounted_def using plus_calls_effect [of "snd s" ac _ "(snd s', ac')"] effD(1) by fastforce

interpretation plus_read: path_dir_effect good_table silent
    "accounted :: bool \<Rightarrow> 'p path_fs \<times> 's path_node shared \<Rightarrow> accounting \<Rightarrow> 'p path_fs \<times> 's path_node shared \<Rightarrow> accounting \<Rightarrow> bool"
proof (unfold_locales, goal_cases)
  case (2 s s' ok k)
  then have "plus_calls (snd s, k) False (snd s', k)" by (auto simp: silent_def intro: calls_other [OF calls_start])
  with 2 show ?case by (auto simp: accounted_def good_table_def)
next
  case (3 s k s1 k1 ok s2 k2)
  then obtain q where "plus_calls (snd s, k) False (snd s1, k1)" "plus_calls (snd s1, k1) q (snd s2, k2)" "ok \<longrightarrow> \<not> q"
    by (auto simp: accounted_def)
  with 3 show ?case using plus_calls_trans [of "(snd s1, k1)" q "(snd s2, k2)" "(snd s, k)" False] by (auto simp: accounted_def)
next
  case (4 s k s' k' ok)
  then show ?case by (auto simp: accounted_def)
next
  case (5 s ok k s' k')
  then show ?case using accounted_inv [of ok s k s' k'] by (simp add: good_table_def)
qed (auto intro: silent_steps)

lemma quiet_path_readdir: "quiet_dir (path_readdir P a this parent offset c)"
proof -
  have "effects good_table silent_read (offer_item item)" for item
    by (auto simp: effects_def silent_read_def good_table_def offer_item_def eff_refl split: prod.splits)
  then have "effects good_table silent_read (path_readdir P a this parent offset c)"
    unfolding path_readdir_def by (rule plain_read.effects_path_readdir)
  then show ?thesis
    unfolding quiet_dir_def effects_def silent_read_def good_table_def snd_conv by blast
qed

lemma plus_add_calls:
  assumes "plus_add nm nid attr off (sh, ac) = (r, (sh', ac'))" shows "plus_calls (sh, ac) (\<not> is_ok r) (sh', ac')"
proof -
  have "(False \<or> (\<forall>b. r \<noteq> Ok b)) = (\<not> is_ok r)" by (cases r) auto
  with calls_add [OF calls_start assms] show ?thesis by simp
qed

lemma quiet_path_readdirplus: "quiet_plus (path_readdirplus P a this parent offset c)"
proof -
  have "effects good_table accounted (offer_plus nm nid attr off)" for nm nid attr off
    by (auto simp: effects_def accounted_def good_table_def offer_plus_def split: prod.splits dest: plus_add_calls)
  then have "effects good_table accounted (path_readdirplus P a this parent offset c)"
    unfolding path_readdirplus_def by (rule plus_read.effects_path_readdirplus)
  then show ?thesis
    unfolding quiet_plus_def effects_def accounted_def good_table_def snd_conv by (metis is_ok.simps(1))
qed

section \<open>The contract\<close>

interpretation path: node_fs_contract "path_node_fs P" for P :: "('p, 's, 'h, 'dh) path_filesystem"
  by unfold_locales
    (simp_all add: path_node_fs_def default_node_fs_def quiet_path_forget path_forget_no_error quiet_path_attrs quiet_path_entry_attr
      quiet_path_xattrs quiet_path_lookup quiet_path_creates quiet_path_removes quiet_path_rename quiet_path_link
      quiet_path_files quiet_path_dirs quiet_path_readdir quiet_path_readdirplus)

end
