(* ===== verification/Path_Invariant.thy ===== *)
theory Path_Invariant
  imports Path_Contract Runtime_Stable
begin

text \<open>
  The invariant that ties the path adapter to the node table: the two name maps of the namespace are
  inverse to each other, the link count of every inode is the number of its names, and the key stored in
  a live node leads back to that node. Every request of the runtime keeps it, hard links to names the
  namespace does not know included.
\<close>

section \<open>The invariant\<close>

definition keys_ok :: "namespace \<Rightarrow> 's path_node shared \<Rightarrow> bool" where
  "keys_ok ns sh \<longleftrightarrow> (\<forall>k nid. bt_get (ns_keys ns) k = Some nid \<longrightarrow> k < ns_next_key ns) \<and>
     (\<forall>n s. slot_at sh n = Some s \<longrightarrow> bt_get (ns_keys ns) (pn_key (payload sh (s_record s))) = Some (from_ino n))"

definition adapter_inv :: "'p path_fs \<times> 's path_node shared \<Rightarrow> bool" where
  "adapter_inv s \<longleftrightarrow> (case s of (pa, sh) \<Rightarrow> table_inv sh \<and> ns_inv (pa_namespace pa) \<and>
     name_links (pa_namespace pa) sh \<and> keys_ok (pa_namespace pa) sh)"

text \<open>Changes of the node table that names and keys do not depend on.\<close>

definition same_names :: "'s path_node shared \<Rightarrow> 's path_node shared \<Rightarrow> bool" where
  "same_names sh sh' \<longleftrightarrow> table_inv sh' \<and> links_of sh' = links_of sh \<and>
     (\<forall>n s'. slot_at sh' n = Some s' \<longrightarrow> (\<exists>s. slot_at sh n = Some s \<and> s_record s = s_record s')) \<and>
     (\<forall>a. pn_key (payload sh' a) = pn_key (payload sh a))"

lemma adapter_inv_same:
  assumes "adapter_inv (pa, sh)" "same_names sh sh'" "pa_namespace pa' = pa_namespace pa"
  shows "adapter_inv (pa', sh')"
  using assms unfolding adapter_inv_def same_names_def name_links_def keys_ok_def by fastforce

lemma same_names_bookkeeping: "bookkeeping sh sh' \<Longrightarrow> same_names sh sh'"
  by (auto simp: bookkeeping_def same_names_def payload_def)

lemma same_names_set_payload:
  assumes "table_inv sh" "pn_key p = pn_key (payload sh a)" shows "same_names sh (set_payload a p sh)"
proof -
  have "pn_key (payload (set_payload a p sh) b) = pn_key (payload sh b)" for b
    using assms(2) by (cases "a < length (sh_heap sh)") (auto simp: payload_def nth_list_update list_update_beyond)
  with assms(1) show ?thesis by (auto simp: same_names_def links_of_def)
qed

lemma same_names_writes:
  assumes "table_inv sh"
  shows "same_names sh (entries_changed a sh)" "same_names sh (set_entry_attr a attr sh)" "same_names sh (snd (take_entry_attr a sh))"
  using assms by (auto simp: entries_changed_def set_entry_attr_def take_entry_attr_def intro!: same_names_set_payload)

lemma adapter_inv_table: "adapter_inv (pa, sh) \<Longrightarrow> table_inv sh"
  by (simp add: adapter_inv_def)

section \<open>Namespace sections\<close>

lemma keys_ok_insert:
  assumes "table_inv sh" "keys_ok ns sh" "namespace_insert parent nm st (ns, sh) = (Ok (nid, new), (ns', sh'))"
  shows "keys_ok ns' sh'"
proof (cases "bt_get (ns_by_name ns) (Dentry parent nm)")
  case (Some m)
  with assms show ?thesis by (auto simp: namespace_insert_def)
next
  case None
  let ?k = "ns_next_key ns" let ?p = "path_node_new ?k st"
  from assms(3) None obtain k where ins: "cx_insert ?p parent sh = (Ok nid, sh')" "checked_add ?k 1 = Some k"
    and ns': "ns' = add_alias nid (Dentry parent nm) (ns\<lparr>ns_next_key := k, ns_keys := bt_insert ?k nid (ns_keys ns)\<rparr>)"
    by (auto simp: namespace_insert_def Let_def split: option.splits prod.splits outcome.splits)
  have keys: "ns_keys ns' = bt_insert ?k nid (ns_keys ns)" "ns_next_key ns' = k" by (simp_all add: ns' add_alias_def)
  have less: "?k < k" using ins(2) by (rule checked_add_1_less)
  have old: "q < ?k" if "bt_get (ns_keys ns) q = Some m" for q m using assms(2) that by (auto simp: keys_ok_def)
  have "bt_get (ns_keys ns') (pn_key (payload sh' (s_record s))) = Some (from_ino n)" if s: "slot_at sh' n = Some s" for n s
  proof (cases "n = ino_of nid")
    case True
    with payload_cx_insert(1) [OF assms(1) ins(1) s] show ?thesis
      by (simp add: keys path_node_new_def from_ino_def)
  next
    case False
    with payload_cx_insert [OF assms(1) ins(1) s] assms(2)
    have "bt_get (ns_keys ns) (pn_key (payload sh' (s_record s))) = Some (from_ino n)" by (auto simp: keys_ok_def)
    moreover from old [OF this] have "pn_key (payload sh' (s_record s)) \<noteq> ?k" by simp
    ultimately show ?thesis by (simp add: keys)
  qed
  moreover have "q < k" if "bt_get (ns_keys ns') q = Some m" for q m
    using that old less by (auto simp: keys split: if_splits dest: less_trans)
  ultimately show ?thesis by (simp add: keys_ok_def keys)
qed

lemma adapter_inv_insert:
  assumes "adapter_inv (pa, sh)" "namespace_insert parent nm st (pa_namespace pa, sh) = (r, (ns, sh'))"
  shows "adapter_inv (pa\<lparr>pa_namespace := ns\<rparr>, sh')"
proof (cases "\<exists>nid new. r = Ok (nid, new)")
  case True
  with assms name_links_insert [of sh "pa_namespace pa" parent nm st _ _ ns sh'] keys_ok_insert [of sh "pa_namespace pa" parent nm st _ _ ns sh']
  show ?thesis by (auto simp: adapter_inv_def)
next
  case False
  then have sh': "sh' = sh" "ns = pa_namespace pa \<or> (\<exists>k. ns = (pa_namespace pa)\<lparr>ns_next_key := k\<rparr> \<and> ns_next_key (pa_namespace pa) < k)"
    using assms(2) cx_insert_not_Ok checked_add_1_less
    by (fastforce simp: namespace_insert_def Let_def split: option.splits outcome.splits prod.splits)+
  then show ?thesis
    using assms(1) by (fastforce simp: adapter_inv_def ns_inv_def has_alias_def name_links_def names_of_def keys_ok_def dest: less_trans)
qed

lemma namespace_remove_keys:
  "namespace_remove d ns = (r, ns') \<Longrightarrow> ns_keys ns' = ns_keys ns \<and> ns_next_key ns' = ns_next_key ns"
  by (auto simp: namespace_remove_def Let_def split: option.splits)

lemma keys_ok_remove_link: "keys_ok ns sh \<Longrightarrow> keys_ok ns (cx_remove_link nid sh)"
proof -
  have "\<exists>s0. slot_at sh n = Some s0 \<and> s_record s0 = s_record s" if "slot_at (cx_remove_link nid sh) n = Some s" for n s
    using that by (auto simp: cx_remove_link_def slot_at_maybe_drop split: option.splits if_splits)
  moreover have "payload (cx_remove_link nid sh) = payload sh"
    by (auto simp: cx_remove_link_def payload_def split: option.splits)
  moreover assume "keys_ok ns sh"
  ultimately show ?thesis unfolding keys_ok_def by metis
qed

lemma keys_ok_cong: "ns_keys ns' = ns_keys ns \<Longrightarrow> ns_next_key ns' = ns_next_key ns \<Longrightarrow> keys_ok ns' sh \<longleftrightarrow> keys_ok ns sh"
  by (simp add: keys_ok_def)

lemma adapter_inv_drop:
  assumes "adapter_inv (pa, sh)" "drop_dentry d (pa_namespace pa, sh) = (r, (ns, sh'))"
  shows "adapter_inv (pa\<lparr>pa_namespace := ns\<rparr>, sh')"
proof -
  obtain x ns' where x: "namespace_remove d (pa_namespace pa) = (x, ns')" by fastforce
  show ?thesis
  proof (cases x)
    case None
    with x assms names_of_remove_None [of d "pa_namespace pa" ns'] show ?thesis by (auto simp: drop_dentry_def adapter_inv_def)
  next
    case (Some nid)
    with x assms(2) have eq: "ns = ns'" "sh' = cx_remove_link nid sh" by (auto simp: drop_dentry_def)
    have i: "table_inv sh" "ns_inv (pa_namespace pa)" "name_links (pa_namespace pa) sh" "keys_ok (pa_namespace pa) sh"
      using assms(1) by (simp_all add: adapter_inv_def)
    have "keys_ok ns' (cx_remove_link nid sh)"
      using keys_ok_cong [of ns' "pa_namespace pa"] namespace_remove_keys [OF x] keys_ok_remove_link [OF i(4)] by blast
    with name_links_remove [OF x [unfolded Some] i(2,3)] ns_inv_remove [OF x i(2)] table_inv_cx_remove_link [OF i(1)]
    show ?thesis by (simp add: adapter_inv_def eq)
  qed
qed

lemma keys_ok_reparent: "keys_ok ns sh \<Longrightarrow> keys_ok ns (cx_reparent nid np sh)"
  by (auto simp: keys_ok_def cx_reparent_def payload_def split: option.splits if_splits)

lemma adapter_inv_rename:
  assumes "adapter_inv (pa, sh)" "rename_dentry old new (pa_namespace pa, sh) = (ns, sh')"
  shows "adapter_inv (pa\<lparr>pa_namespace := ns\<rparr>, sh')"
proof -
  have i: "table_inv sh" "ns_inv (pa_namespace pa)" "name_links (pa_namespace pa) sh" "keys_ok (pa_namespace pa) sh"
    using assms(1) by (simp_all add: adapter_inv_def)
  from assms(2) i(2) have "keys_ok ns sh' \<and> table_inv sh'"
  proof (cases rule: rename_dentry_cases)
    case (moved source replaced ns1 ns2)
    have "ns_keys ns = ns_keys (pa_namespace pa)" "ns_next_key ns = ns_next_key (pa_namespace pa)"
      using namespace_remove_keys [OF moved(3)] namespace_remove_keys [OF moved(4)] moved(5) by (auto simp: add_alias_def)
    with i(1,4) moved(9) show ?thesis
      by (simp add: keys_ok_cong [of ns "pa_namespace pa"] keys_ok_reparent keys_ok_remove_link table_inv_cx_reparent table_inv_cx_remove_link split: option.splits)
  qed (use i in auto)
  with name_links_rename [OF i(2,3) assms(2)] ns_inv_rename_dentry [OF assms(2) i(2)] show ?thesis by (simp add: adapter_inv_def)
qed

section \<open>Methods keep the invariant\<close>

lemma keeps_adapter_pure:
  assumes "\<And>pa sh. \<exists>r pa'. m (pa, sh) = (r, (pa', sh)) \<and> pa_namespace pa' = pa_namespace pa" shows "keeps False adapter_inv m"
proof (rule keepsI)
  fix s r s' assume "adapter_inv s" "m s = (r, s')"
  with assms [of "fst s" "snd s"] show "adapter_inv s'"
    by (cases s) (auto intro: adapter_inv_same same_names_bookkeeping bookkeeping_refl adapter_inv_table)
qed

lemma keeps_inner: "keeps False adapter_inv (inner m)"
  by (rule keeps_adapter_pure) (simp add: inner_def split: prod.splits)

lemma keeps_with_state: "(\<And>x. keeps False I (body x)) \<Longrightarrow> keeps False I (with_state f body)"
  by (simp add: keeps_def with_state_def)

lemma keeps_node_path: "keeps False I (node_path a)"
  by (rule keeps_pure) (simp add: node_path_def returns_path_def split: option.splits)

lemma keeps_path_of_id: "keeps False I (path_of_id nid)"
proof (rule keeps_pure)
  fix s :: "'p path_fs \<times> 's path_node shared"
  show "snd (path_of_id nid s) = s"
    by (cases "path_for (pa_namespace (fst s)) nid")
      (auto simp: path_of_id_def returns_path_def bnd_def ok_or_def fail_def ret_def split: option.splits)
qed

lemma adapter_inv_get: "adapter_inv (pa, sh) \<Longrightarrow> cx_get nid sh = (r, sh') \<Longrightarrow> adapter_inv (pa, sh')"
  by (rule adapter_inv_same) (auto intro: same_names_bookkeeping bookkeeping_cx_get adapter_inv_table)

lemma adapter_inv_unlease: "adapter_inv (pa, sh) \<Longrightarrow> adapter_inv (pa, node_ref_drop nr sh)"
  by (rule adapter_inv_same) (auto intro: same_names_bookkeeping bookkeeping_node_ref_drop adapter_inv_table)

lemma keeps_leased:
  assumes "\<And>a. keeps False adapter_inv (body a)" shows "keeps False adapter_inv (leased nid body)"
proof (rule keepsI)
  fix s r s' assume inv: "adapter_inv s" and run: "leased nid body s = (r, s')"
  obtain pa sh where s: "s = (pa, sh)" by (cases s)
  obtain g sh1 where g: "cx_get nid sh = (g, sh1)" by (cases "cx_get nid sh")
  note 1 = adapter_inv_get [OF inv [unfolded s] g]
  show "adapter_inv s'"
  proof (cases "\<exists>nr. g = Ok (Some nr)")
    case True
    then obtain nr where nr: "g = Ok (Some nr)" by blast
    obtain r2 pa2 sh2 where b: "body (nr_record nr) (pa, sh1) = (r2, pa2, sh2)" by (cases "body (nr_record nr) (pa, sh1)") auto
    from always_keepsD [OF assms 1 b] have "adapter_inv (pa2, node_ref_drop nr sh2)" by (rule adapter_inv_unlease)
    with run g nr b s show ?thesis by (simp add: leased_def lease_or_def)
  qed (use run g s 1 in \<open>auto simp: leased_def lease_or_def split: outcome.splits option.splits\<close>)
qed

lemma keeps_on_nodes:
  "(\<And>sh. table_inv sh \<Longrightarrow> same_names sh (f sh)) \<Longrightarrow> keeps False adapter_inv (on_nodes f)"
  by (rule keepsI) (auto simp: on_nodes_def intro: adapter_inv_same adapter_inv_table)

lemma keeps_on_namespace:
  assumes "\<And>(pa :: 'p path_fs) sh r ns sh'. adapter_inv (pa, sh) \<Longrightarrow> m (pa_namespace pa, sh) = (r, (ns, sh')) \<Longrightarrow>
    adapter_inv (pa\<lparr>pa_namespace := ns\<rparr>, sh')"
  shows "keeps False (adapter_inv :: 'p path_fs \<times> 's path_node shared \<Rightarrow> bool) (on_namespace m)"
  by (rule keepsI) (auto simp: on_namespace_def split: prod.splits intro: assms)

lemma keeps_insert: "keeps False adapter_inv (on_namespace (namespace_insert parent nm st))"
  by (rule keeps_on_namespace) (rule adapter_inv_insert)

lemma keeps_drop: "keeps False adapter_inv (on_namespace (drop_dentry d))"
  by (rule keeps_on_namespace) (rule adapter_inv_drop)

lemma keeps_rename: "keeps False adapter_inv (on_namespace (\<lambda>s. (Ok (), rename_dentry old new s)))"
  by (rule keeps_on_namespace) (auto intro: adapter_inv_rename)

lemmas keeps_intros = keeps_bnd keeps_ret keeps_fail keeps_ok_or keeps_inner keeps_with_state keeps_node_path keeps_path_of_id
  keeps_leased keeps_on_nodes keeps_insert keeps_drop keeps_rename same_names_writes

lemma keeps_with_ref: "(\<And>r. keeps False adapter_inv (body r)) \<Longrightarrow> keeps False adapter_inv (with_ref a body)"
  and keeps_with_named_ref: "(\<And>r. keeps False adapter_inv (body r)) \<Longrightarrow> keeps False adapter_inv (with_named_ref a body)"
  and keeps_in_parent: "(\<And>r. keeps False adapter_inv (body r)) \<Longrightarrow> keeps False adapter_inv (in_parent parent body)"
  unfolding with_ref_def with_named_ref_def in_parent_def by (intro keeps_intros; assumption)+

lemma keeps_add_node: "keeps False adapter_inv (add_node parent nm e)"
  unfolding add_node_def by (intro keeps_intros) (auto intro!: keeps_intros)

lemma keeps_path_lookup: "keeps False adapter_inv (path_lookup P parent nm c)"
  unfolding path_lookup_def by (intro keeps_intros) (auto intro!: keeps_intros keeps_add_node split: option.splits)

lemma keeps_path_creates:
  "keeps False adapter_inv (path_mknod P parent nm mode rdev um c)" "keeps False adapter_inv (path_mkdir P parent nm mode um c)"
  "keeps False adapter_inv (path_symlink P parent nm tgt c)" "keeps False adapter_inv (path_create P parent nm mode um i c)"
  unfolding path_mknod_def path_mkdir_def path_symlink_def path_create_def
  by (intro keeps_in_parent keeps_intros keeps_add_node; auto intro!: keeps_intros keeps_add_node)+

lemma keeps_path_removes:
  "keeps False adapter_inv (path_unlink P parent nm c)" "keeps False adapter_inv (path_rmdir P parent nm c)"
  unfolding path_unlink_def path_rmdir_def remove_entry_def by (intro keeps_in_parent keeps_intros)+

lemma keeps_path_rename: "keeps False adapter_inv (path_rename P parent nm newparent newname flags c)"
  unfolding path_rename_def by (cases "flags = 0") (auto intro!: keeps_intros)

lemma keeps_path_nodes:
  "keeps False adapter_inv (path_getattr P a oh c)" "keeps False adapter_inv (path_setattr P a oh sa c)" "keeps False adapter_inv (path_readlink P a c)"
  "keeps False adapter_inv (path_access P a msk c)" "keeps False adapter_inv (path_statfs P c)" "keeps False adapter_inv (path_forget P a)"
  "keeps False adapter_inv (path_setxattr P a nm bs i c)" "keeps False adapter_inv (path_getxattr P a nm sz c)"
  "keeps False adapter_inv (path_listxattr P a sz c)" "keeps False adapter_inv (path_removexattr P a nm c)"
  "keeps False adapter_inv (path_opendir P a i c)" "keeps False adapter_inv (path_releasedir P a d c)" "keeps False adapter_inv (path_fsyncdir P a d b c)"
  unfolding path_getattr_def path_setattr_def path_readlink_def path_access_def path_statfs_def path_forget_def path_setxattr_def
    path_getxattr_def path_listxattr_def path_removexattr_def path_opendir_def path_releasedir_def path_fsyncdir_def
  by (intro keeps_with_ref keeps_with_named_ref keeps_inner keeps_bnd keeps_ret)+

lemma keeps_path_files:
  "keeps False adapter_inv (path_open P a i c)" "keeps False adapter_inv (path_read P a h off sz c)" "keeps False adapter_inv (path_write P a h bs off c)"
  "keeps False adapter_inv (path_flush P a h c)" "keeps False adapter_inv (path_release P a h c)" "keeps False adapter_inv (path_fsync P a h b c)"
  "keeps False adapter_inv (path_fallocate P a h i off len c)" "keeps False adapter_inv (path_lseek P a h off i c)"
  "keeps False adapter_inv (path_getlk P a h own lk c)" "keeps False adapter_inv (path_setlk P a h own lk b c)" "keeps False adapter_inv (path_flock P a h i c)"
  unfolding path_open_def path_read_def path_write_def path_flush_def path_release_def path_fsync_def path_fallocate_def
    path_lseek_def path_getlk_def path_setlk_def path_flock_def
  by (intro keeps_with_ref keeps_with_named_ref keeps_inner)+

lemma keeps_path_entry_attr: "keeps False adapter_inv (path_entry_attr P a c)"
proof (rule keepsI)
  fix s r s' assume inv: "adapter_inv s" and run: "path_entry_attr P a c s = (r, s')"
  obtain pa sh where s: "s = (pa, sh)" by (cases s)
  obtain x sh1 where x: "take_entry_attr a sh = (x, sh1)" by (cases "take_entry_attr a sh")
  have 1: "adapter_inv (pa, sh1)"
    using adapter_inv_same [OF inv [unfolded s] same_names_writes(3) [OF adapter_inv_table [OF inv [unfolded s]]]] x by (metis snd_conv)
  with run x s always_keepsD [OF keeps_path_nodes(1) [of P a None c] 1] show "adapter_inv s'"
    by (auto simp: path_entry_attr_def split: option.splits)
qed

section \<open>Directory reads keep the invariant\<close>

definition adapter_step :: "'p path_fs \<times> 's path_node shared \<Rightarrow> 'p path_fs \<times> 's path_node shared \<Rightarrow> bool" where
  "adapter_step s s' \<longleftrightarrow> adapter_inv s'"

definition adapter_read :: "bool \<Rightarrow> 'p path_fs \<times> 's path_node shared \<Rightarrow> 'k \<Rightarrow> 'p path_fs \<times> 's path_node shared \<Rightarrow> 'k \<Rightarrow> bool" where
  "adapter_read ok s k s' k' \<longleftrightarrow> adapter_inv s'"

lemma adapter_inv_inner: "adapter_inv (pa, sh) \<Longrightarrow> adapter_inv (pa\<lparr>pa_inner := p\<rparr>, sh)"
  by (simp add: adapter_inv_def)

interpretation adapter_reads: path_dir_effect adapter_inv adapter_step
    "adapter_read :: bool \<Rightarrow> 'p path_fs \<times> 's path_node shared \<Rightarrow> 'k \<Rightarrow> 'p path_fs \<times> 's path_node shared \<Rightarrow> 'k \<Rightarrow> bool"
  by unfold_locales
    (auto simp: adapter_step_def adapter_read_def intro: adapter_inv_insert adapter_inv_drop adapter_inv_inner)

lemma keeps_path_readdir:
  assumes "adapter_inv (fs, sh)" "path_readdir P a this par off c (fs, sh, d, k) = (r, (fs', sh', d', k'))"
  shows "adapter_inv (fs', sh')"
proof -
  have "effects adapter_inv adapter_read (offer_item item)" for item
    by (auto simp: effects_def adapter_read_def offer_item_def split: prod.splits)
  then have "effects adapter_inv adapter_read (path_readdir P a this par off c)"
    unfolding path_readdir_def by (rule adapter_reads.effects_path_readdir)
  from effectsD [OF this assms] show ?thesis by (simp add: adapter_read_def)
qed

lemma plus_add_bookkeeping:
  assumes "table_inv sh" "plus_add nm nid attr off (sh, ac) = (r, (sh', ac'))" shows "bookkeeping sh sh'"
proof (cases "sh' = sh")
  case False
  with assms(2) have "snd (retain_lookup nid sh) = sh'"
    by (auto simp: plus_add_def Let_def plus_entry_def split: option.splits outcome.splits prod.splits bool.splits if_splits)
  with assms(1) show ?thesis by (metis bookkeeping_retain prod.collapse)
qed (use assms(1) in \<open>simp add: bookkeeping_refl\<close>)

lemma keeps_path_readdirplus:
  assumes "adapter_inv (fs, sh)" "path_readdirplus P a this par off c (fs, sh, d, k) = (r, (fs', sh', d', k'))"
  shows "adapter_inv (fs', sh')"
proof -
  have "effects adapter_inv adapter_read (offer_plus nm nid attr off)" for nm nid attr off
    by (auto simp: effects_def adapter_read_def offer_plus_def split: prod.splits
        intro: adapter_inv_same same_names_bookkeeping plus_add_bookkeeping adapter_inv_table)
  then have "effects adapter_inv adapter_read (path_readdirplus P a this par off c)"
    unfolding path_readdirplus_def by (rule adapter_reads.effects_path_readdirplus)
  from effectsD [OF this assms] show ?thesis by (simp add: adapter_read_def)
qed

interpretation adapter: fs_invariant False "path_node_fs P" adapter_inv for P :: "('p, 's, 'h, 'dh) path_filesystem"
proof (unfold_locales, goal_cases)
  case 1
  then show ?case by (rule adapter_inv_table)
next
  case (2 fs sh sh')
  then show ?case by (auto intro: adapter_inv_same same_names_bookkeeping)
next
  case (37 fs sh a this par off c d k r fs' sh' d' k')
  then show ?case using keeps_path_readdir [of fs sh P a this par off c d k r fs' sh' d' k'] by (simp add: path_node_fs_def)
next
  case (38 fs sh a this par off c d k r fs' sh' d' k')
  then show ?case using keeps_path_readdirplus [of fs sh P a this par off c d k r fs' sh' d' k'] by (simp add: path_node_fs_def)
qed (simp_all add: path_node_fs_def default_node_fs_def keeps_path_nodes keeps_path_entry_attr keeps_path_lookup keeps_path_creates
    keeps_path_removes keeps_path_rename keeps_path_files keeps_fail)

end
