(* ===== verification/Path_Reads.thy ===== *)
theory Path_Reads
  imports Path_Invariant
begin

text \<open>
  Reading a directory through the path adapter, page by page. A stream of reads starts at offset zero and
  continues at the cookie of the last entry it was given, until a read returns nothing. The stream returns
  the listing the filesystem gave at its start: every entry once, in order, with the cookie of its index.
\<close>

section \<open>Names along a path stay\<close>

lemma under_named:
  assumes "under ns a nid" shows "path_for ns nid = Some (Some p) \<Longrightarrow> a \<noteq> ROOT \<Longrightarrow> first_alias a ns \<noteq> None"
  using assms
proof (induction arbitrary: p rule: under.induct)
  case under_self
  then show ?case by (auto simp: path_for.simps split: option.splits)
next
  case (under_child nid d)
  from under_child.prems under_child.hyps(1,2) obtain q where "path_for ns (d_parent d) = Some (Some q)"
    by (subst (asm) path_for.simps) (auto simp: bind_eq_Some_conv)
  with under_child.IH under_child.prems(2) show ?case by blast
qed

lemma path_for_stays:
  assumes "path_for ns nid = Some (Some p)" "\<And>a d. first_alias a ns = Some d \<Longrightarrow> first_alias a ns' = Some d"
  shows "path_for ns' nid = Some (Some p)"
  by (rule path_for_cong [OF assms(1)]) (use under_named [OF _ assms(1)] assms(2) in force)

section \<open>The state of a directory being read\<close>

definition room :: "nat \<Rightarrow> 'p path_fs \<times> 's path_node shared \<Rightarrow> bool" where
  "room m s \<longleftrightarrow> unat (ns_next_key (pa_namespace (fst s))) + m < 2 ^ 64 \<and> unat (t_next_ino (sh_table (snd s))) + m < 2 ^ 64"

text \<open>
  \<open>dir_ok ep did a m\<close>: the adapter's invariant holds, the directory \<open>did\<close> has its node at \<open>a\<close>, a path, and
  the entries epoch \<open>ep\<close>, and there is room for \<open>m\<close> more nodes.
\<close>

definition dir_ok :: "u64 \<Rightarrow> node_id \<Rightarrow> addr \<Rightarrow> nat \<Rightarrow> 'p path_fs \<times> 's path_node shared \<Rightarrow> bool" where
  "dir_ok ep did a m s \<longleftrightarrow> (case s of (pa, sh) \<Rightarrow> adapter_inv s \<and> a < length (sh_heap sh) \<and>
     pn_entries_epoch (payload sh a) = ep \<and> bt_get (ns_keys (pa_namespace pa)) (pn_key (payload sh a)) = Some did \<and>
     (\<exists>p. path_for (pa_namespace pa) did = Some (Some p)) \<and> room m s)"

lemma room_less: "room m s \<Longrightarrow> n \<le> m \<Longrightarrow> room n s"
  by (simp add: room_def)

lemma dir_ok_less: "dir_ok ep did a m s \<Longrightarrow> n \<le> m \<Longrightarrow> dir_ok ep did a n s"
  by (auto simp: dir_ok_def intro: room_less split: prod.splits)

lemma checked_add_room: "unat (x :: 64 word) + Suc m < 2 ^ 64 \<Longrightarrow> \<exists>y. checked_add x 1 = Some y \<and> unat y = Suc (unat x)"
  by (cases "checked_add x 1") (auto simp: checked_add_None_iff dest: unat_checked_add_1)

lemma cx_insert_room:
  assumes "table_inv sh" "unat (t_next_ino (sh_table sh)) + Suc m < 2 ^ 64"
  obtains nid sh' where "cx_insert p parent sh = (Ok nid, sh')" "unat (t_next_ino (sh_table sh')) + m < 2 ^ 64"
proof (cases "t_free (sh_table sh) = []")
  case True
  from checked_add_room [OF assms(2)] obtain y where "checked_add (t_next_ino (sh_table sh)) 1 = Some y"
    "unat y = Suc (unat (t_next_ino (sh_table sh)))" by blast
  with True assms(2) show ?thesis
    by (intro that) (auto simp: cx_insert_def alloc_def set_slot_def)
next
  case False
  obtain n g where "last (t_free (sh_table sh)) = (n, g)" by fastforce
  with False assms(2) show ?thesis by (intro that) (auto simp: cx_insert_def alloc_def set_slot_def)
qed

text \<open>Recording a listed name, and taking it back, leave the directory as it was.\<close>

lemma insert_dir_ok:
  assumes ok: "dir_ok ep did a (Suc m) (pa, sh)"
  obtains nid new ns sh' where "namespace_insert this nm st (pa_namespace pa, sh) = (Ok (nid, new), (ns, sh'))"
    "dir_ok ep did a m (pa\<lparr>pa_namespace := ns\<rparr>, sh')"
    "new \<Longrightarrow> \<exists>ns2 sh2. drop_dentry (Dentry this nm) (ns, sh') = (Ok (), (ns2, sh2)) \<and> dir_ok ep did a m (pa\<lparr>pa_namespace := ns2\<rparr>, sh2)"
proof (cases "bt_get (ns_by_name (pa_namespace pa)) (Dentry this nm)")
  case (Some nid)
  then show ?thesis
    by (intro that [of nid False "pa_namespace pa" sh]) (use dir_ok_less [OF ok, of m] in \<open>simp_all add: namespace_insert_def\<close>)
next
  case None
  let ?ns = "pa_namespace pa" let ?k = "ns_next_key ?ns" let ?p = "path_node_new ?k st" let ?d = "Dentry this nm"
  have inv: "adapter_inv (pa, sh)" "a < length (sh_heap sh)" "pn_entries_epoch (payload sh a) = ep"
    "bt_get (ns_keys ?ns) (pn_key (payload sh a)) = Some did" "room (Suc m) (pa, sh)" using ok by (simp_all add: dir_ok_def)
  obtain p where path: "path_for ?ns did = Some (Some p)" using ok by (auto simp: dir_ok_def)
  have tab: "table_inv sh" and nsi: "ns_inv ?ns" and nl: "name_links ?ns sh" and keys: "keys_ok ?ns sh"
    using inv(1) by (simp_all add: adapter_inv_def)
  from checked_add_room [of ?k m] inv(5) obtain k where k: "checked_add ?k 1 = Some k" "unat k = Suc (unat ?k)"
    by (auto simp: room_def)
  from cx_insert_room [OF tab, of m ?p this] inv(5) obtain nid sh' where
    ins: "cx_insert ?p this sh = (Ok nid, sh')" "unat (t_next_ino (sh_table sh')) + m < 2 ^ 64" by (auto simp: room_def)
  let ?ns1 = "?ns\<lparr>ns_next_key := k, ns_keys := bt_insert ?k nid (ns_keys ?ns)\<rparr>"
  let ?ns' = "add_alias nid ?d ?ns1"
  have run: "namespace_insert this nm st (?ns, sh) = (Ok (nid, True), (?ns', sh'))"
    using None k(1) ins(1) by (simp add: namespace_insert_def Let_def)
  note inv' = adapter_inv_insert [OF inv(1) run]
  have heap: "sh_heap sh' = sh_heap sh @ [?p]" using slot_at_cx_insert [OF tab ins(1)] by metis
  then have pay: "payload sh' a = payload sh a" "a < length (sh_heap sh')" using inv(2) by (simp_all add: payload_def nth_append)
  have fresh: "names_of ?ns nid = 0" using links_cx_insert(2) [OF tab ins(1)] nl by (simp add: name_links_def)
  have nid: "bt_get (ns_aliases ?ns) nid = None"
    using fresh nsi unfolding names_of_def ns_inv_def by (auto split: option.splits)
  have al: "first_alias x ?ns' = Some e" if "first_alias x ?ns = Some e" for x e
    using that nid by (auto simp: first_alias_def add_alias_def alias_add_def split: option.splits)
  have ne: "pn_key (payload sh a) \<noteq> ?k" using keys inv(4) by (auto simp: keys_ok_def)
  have room': "room m (pa\<lparr>pa_namespace := ?ns'\<rparr>, sh')"
    using inv(5) k(2) ins(2) by (simp add: room_def add_alias_def)
  have 1: "dir_ok ep did a m (pa\<lparr>pa_namespace := ?ns'\<rparr>, sh')"
    using inv' pay inv(3,4) ne path_for_stays [OF path al] room' by (auto simp: dir_ok_def add_alias_def)
  obtain x ns2 where x: "namespace_remove ?d ?ns' = (x, ns2)" by fastforce
  have by_name: "bt_get (ns_by_name ?ns') ?d = Some nid" by (simp add: add_alias_def)
  have aliases: "bt_get (ns_aliases ?ns') nid = Some [(?d, ())]" using nid by (simp add: add_alias_def alias_add_def)
  have ns2: "x = Some nid" "ns_aliases ns2 = bt_remove nid (ns_aliases ?ns')" "ns_keys ns2 = ns_keys ?ns'" "ns_next_key ns2 = ns_next_key ?ns'"
    using x by_name aliases by (auto simp: namespace_remove_def Let_def bt_remove_def)
  let ?sh2 = "cx_remove_link nid sh'"
  have drop: "drop_dentry ?d (?ns', sh') = (Ok (), (ns2, ?sh2))" using x ns2(1) by (simp add: drop_dentry_def)
  have al2: "first_alias y ns2 = Some e" if "first_alias y ?ns = Some e" for y e
    using that nid by (auto simp: first_alias_def ns2(2) add_alias_def alias_add_def split: option.splits if_splits)
  have "adapter_inv ((pa\<lparr>pa_namespace := ?ns'\<rparr>)\<lparr>pa_namespace := ns2\<rparr>, ?sh2)"
    by (rule adapter_inv_drop [OF inv']) (use drop in simp)
  moreover have "payload ?sh2 a = payload sh' a" "length (sh_heap ?sh2) = length (sh_heap sh')"
    "t_next_ino (sh_table ?sh2) = t_next_ino (sh_table sh')"
    by (auto simp: cx_remove_link_def payload_def with_table_def maybe_drop_def set_slot_def split: option.splits)
  ultimately have 2: "dir_ok ep did a m (pa\<lparr>pa_namespace := ns2\<rparr>, ?sh2)"
    using pay inv(3,4) ne path_for_stays [OF path al2] room' ns2 by (auto simp: dir_ok_def room_def add_alias_def)
  show ?thesis using that [OF run 1] drop 2 by blast
qed

section \<open>Offering entries\<close>

definition item_of :: "'s dir_entry \<Rightarrow> node_id \<Rightarrow> u64 \<Rightarrow> dir_item" where
  "item_of e nid off = (de_name e, nid, de_kind e, off)"

definition offered :: "dir_item \<Rightarrow> bool \<Rightarrow> dir_sink \<Rightarrow> dir_sink" where
  "offered item acc k = (if acc then k\<lparr>sk_items := sk_items k @ [item]\<rparr> else k)"

lemma offer_item_run:
  "offer_item item (pa, sh, d, k) = (Ok acc, (pa, sh, d, offered item acc k))" if "acc = sk_accepts k (sk_items k) item"
  using that by (simp add: offer_item_def sink_add_def offered_def)

lemma emit_run:
  assumes ok: "dir_ok ep did a (Suc m) (pa, sh)"
  obtains nid acc pa' sh' where
    "add_listed_entry this parent e (\<lambda>nid. offer_item (item_of e nid off)) (pa, sh, d, k) = (Ok acc, (pa', sh', d, offered (item_of e nid off) acc k))"
    "acc = sk_accepts k (sk_items k) (item_of e nid off)" "dir_ok ep did a m (pa', sh')"
proof (cases "de_identity e")
  case (Child st)
  from insert_dir_ok [OF ok, of this "de_name e" st] obtain nid new ns sh' where
    ins: "namespace_insert this (de_name e) st (pa_namespace pa, sh) = (Ok (nid, new), (ns, sh'))"
    and ok': "dir_ok ep did a m (pa\<lparr>pa_namespace := ns\<rparr>, sh')"
    and dr: "new \<Longrightarrow> \<exists>ns2 sh2. drop_dentry (Dentry this (de_name e)) (ns, sh') = (Ok (), (ns2, sh2)) \<and>
      dir_ok ep did a m (pa\<lparr>pa_namespace := ns2\<rparr>, sh2)" by metis
  let ?acc = "sk_accepts k (sk_items k) (item_of e nid off)"
  note o = offer_item_run [of ?acc k "item_of e nid off" "pa\<lparr>pa_namespace := ns\<rparr>" sh' d, OF refl]
  show ?thesis
  proof (cases "new \<and> \<not> ?acc")
    case True
    with dr obtain ns2 sh2 where "drop_dentry (Dentry this (de_name e)) (ns, sh') = (Ok (), (ns2, sh2))"
      "dir_ok ep did a m (pa\<lparr>pa_namespace := ns2\<rparr>, sh2)" by blast
    with True Child ins o show ?thesis
      by (intro that [where nid = nid and acc = False and pa' = "pa\<lparr>pa_namespace := ns2\<rparr>" and sh' = sh2])
        (simp_all add: add_listed_entry_def in_dir_def on_namespace_def rollback_dentry_def bnd_def)
  next
    case False
    with Child ins o ok' show ?thesis
      by (intro that [where nid = nid and acc = ?acc and pa' = "pa\<lparr>pa_namespace := ns\<rparr>" and sh' = sh'])
        (auto simp: add_listed_entry_def in_dir_def on_namespace_def bnd_def split: option.splits)
  qed
next
  case Current
  show ?thesis
    by (rule that [where nid = this and acc = "sk_accepts k (sk_items k) (item_of e this off)" and pa' = pa and sh' = sh])
      (use Current dir_ok_less [OF ok, of m] in \<open>simp_all add: add_listed_entry_def bnd_def offer_item_run [OF refl]\<close>)
next
  case Parent
  show ?thesis
    by (rule that [where nid = parent and acc = "sk_accepts k (sk_items k) (item_of e parent off)" and pa' = pa and sh' = sh])
      (use Parent dir_ok_less [OF ok, of m] in \<open>simp_all add: add_listed_entry_def bnd_def offer_item_run [OF refl]\<close>)
qed

section \<open>One page\<close>

text \<open>What is sent for the entry at an index: everything but the node id.\<close>

definition listed :: "'s dir_listing \<Rightarrow> nat \<Rightarrow> os_str \<times> file_kind \<times> u64" where
  "listed l i = (de_name (dl_buffer l ! i), de_kind (dl_buffer l ! i), listing_cookie (dl_generation l) i)"

definition shown_items :: "dir_item list \<Rightarrow> (os_str \<times> file_kind \<times> u64) list" where
  "shown_items = map (\<lambda>(nm, nid, kind, off). (nm, kind, off))"

lemma shown_items_append [simp]: "shown_items (xs @ ys) = shown_items xs @ shown_items ys"
  by (simp add: shown_items_def)

lemma shown_items_Nil [simp]: "shown_items [] = []" "shown_items xs = [] \<longleftrightarrow> xs = []"
  by (simp_all add: shown_items_def)

definition emit_to :: "node_id \<Rightarrow> node_id \<Rightarrow> 's dir_entry \<Rightarrow> u64 \<Rightarrow> ('p, 's, 'dh, dir_sink, bool) dir_prog" where
  "emit_to this parent entry off = add_listed_entry this parent entry (\<lambda>nid. offer_item (item_of entry nid off))"

lemma path_readdir_emit: "path_readdir P a this parent offset c = path_read_dir P a offset False c (emit_to this parent)"
  by (simp add: path_readdir_def emit_to_def [abs_def] item_of_def)

text \<open>
  The loop over a current listing: it sends a run of consecutive entries, and stops early only at an
  entry the sink rejects.
\<close>

lemma page_loop:
  assumes "dir_ok ep did a (m + n) (pa, sh)"
  shows "\<exists>j pa' sh' k'. replay_loop (\<lambda>i _. replay_entry P dir False False c l (emit_to this parent) i) n i ((pa, sh, d, k), v, None) =
      (Ok (), ((pa', sh', d, k'), v + j, None)) \<and> j \<le> n \<and> dir_ok ep did a (m + (n - Suc j)) (pa', sh') \<and>
      (\<exists>items. sk_items k' = sk_items k @ items \<and> shown_items items = map (listed l) [i..<i + j]) \<and>
      sk_accepts k' = sk_accepts k \<and>
      (j < n \<longrightarrow> (\<exists>nid. \<not> sk_accepts k (sk_items k') (item_of (dl_buffer l ! (i + j)) nid (listing_cookie (dl_generation l) (i + j)))))"
  using assms
proof (induction n arbitrary: i pa sh k v)
  case 0
  then show ?case by (intro exI [of _ 0] exI [of _ pa] exI [of _ sh] exI [of _ k]) simp
next
  case (Suc n)
  let ?e = "dl_buffer l ! i" and ?off = "listing_cookie (dl_generation l) i"
  from Suc.prems have "dir_ok ep did a (Suc (m + n)) (pa, sh)" by simp
  from emit_run [OF this, of this parent ?e ?off d k] obtain nid acc pa1 sh1 where
    em: "emit_to this parent ?e ?off (pa, sh, d, k) = (Ok acc, (pa1, sh1, d, offered (item_of ?e nid ?off) acc k))"
    and acc: "acc = sk_accepts k (sk_items k) (item_of ?e nid ?off)" and ok1: "dir_ok ep did a (m + n) (pa1, sh1)"
    unfolding emit_to_def by metis
  have entry: "replay_entry P dir False False c l (emit_to this parent) i ((pa, sh, d, k), v, None) =
      (Ok acc, ((pa1, sh1, d, offered (item_of ?e nid ?off) acc k), if acc then Suc v else v, None))"
    using em by (simp add: replay_entry_def in_loop_def in_dir_def inner_def entry_to_send_def needs_lookup_def bnd_def)
  show ?case
  proof (cases acc)
    case False
    with entry acc ok1 show ?thesis
      by (intro exI [of _ 0] exI [of _ pa1] exI [of _ sh1] exI [of _ k]) (auto simp: bnd_def offered_def)
  next
    case True
    let ?k1 = "offered (item_of ?e nid ?off) True k"
    from Suc.IH [OF ok1, of "Suc i" ?k1 "Suc v"] obtain j pa' sh' k' items where
      r: "replay_loop (\<lambda>i _. replay_entry P dir False False c l (emit_to this parent) i) n (Suc i) ((pa1, sh1, d, ?k1), Suc v, None) =
        (Ok (), ((pa', sh', d, k'), Suc v + j, None))" "j \<le> n" "dir_ok ep did a (m + (n - Suc j)) (pa', sh')"
        "sk_items k' = sk_items ?k1 @ items" "shown_items items = map (listed l) [Suc i..<Suc i + j]" "sk_accepts k' = sk_accepts ?k1"
        "j < n \<longrightarrow> (\<exists>nid. \<not> sk_accepts ?k1 (sk_items k') (item_of (dl_buffer l ! (Suc i + j)) nid (listing_cookie (dl_generation l) (Suc i + j))))"
      by blast
    have "shown_items (item_of ?e nid ?off # items) = map (listed l) [i..<i + Suc j]"
    proof -
      have "[i..<i + Suc j] = i # [Suc i..<Suc i + j]" by (simp add: upt_conv_Cons del: upt_Suc)
      with r(5) show ?thesis by (simp add: shown_items_def listed_def item_of_def del: upt_Suc)
    qed
    with r True entry show ?thesis
      by (intro exI [of _ "Suc j"] exI [of _ pa'] exI [of _ sh'] exI [of _ k'] conjI exI [of _ "item_of ?e nid ?off # items"])
        (auto simp: bnd_def offered_def)
  qed
qed

text \<open>A page read from index \<open>start\<close> of a listing taken at the directory's current epoch.\<close>

definition page :: "'s dir_listing \<Rightarrow> nat \<Rightarrow> dir_sink \<Rightarrow> nat \<Rightarrow> dir_sink \<Rightarrow> bool" where
  "page l start k j k' \<longleftrightarrow> start + j \<le> length (dl_buffer l) \<and>
     (\<exists>items. sk_items k' = sk_items k @ items \<and> shown_items items = map (listed l) [start..<start + j]) \<and>
     (start + j < length (dl_buffer l) \<longrightarrow> (\<exists>item. \<not> sk_accepts k (sk_items k') item))"

lemma replay_page:
  assumes ok: "dir_ok ep did a (m + (length (dl_buffer l) - unat start)) (pa, sh)" and ep: "dl_epoch l = ep"
    and start: "unat start \<le> length (dl_buffer l)"
  shows "\<exists>j pa' sh' k'. replay_listing P a path l start False c (emit_to this parent) (pa, sh, d, k) = (Ok j, (pa', sh', d, k')) \<and>
      dir_ok ep did a (m + (length (dl_buffer l) - unat start - Suc j)) (pa', sh') \<and> page l (unat start) k j k'"
proof -
  let ?dir = "\<lparr>pr_path = Some path, pr_state = node_state sh a\<rparr>"
  from page_loop [OF ok, of P ?dir c l this parent "unat start" d k 0] obtain j pa' sh' k' items where
    "replay_loop (\<lambda>i _. replay_entry P ?dir False False c l (emit_to this parent) i) (length (dl_buffer l) - unat start) (unat start)
        ((pa, sh, d, k), 0, None) = (Ok (), ((pa', sh', d, k'), j, None))"
    "j \<le> length (dl_buffer l) - unat start" "dir_ok ep did a (m + (length (dl_buffer l) - unat start - Suc j)) (pa', sh')"
    "sk_items k' = sk_items k @ items" "shown_items items = map (listed l) [unat start..<unat start + j]"
    "j < length (dl_buffer l) - unat start \<longrightarrow> (\<exists>item. \<not> sk_accepts k (sk_items k') item)"
    unfolding add_0 by blast
  moreover have "pn_entries_epoch (payload sh a) = dl_epoch l" using ok ep by (simp add: dir_ok_def)
  ultimately show ?thesis
    using start by (intro exI [of _ j] exI [of _ pa'] exI [of _ sh'] exI [of _ k'])
      (auto simp: replay_listing_def replay_def Let_def page_def)
qed

lemma dir_ok_path:
  assumes "dir_ok ep did a m (pa, sh)"
  shows "\<exists>p. in_dir (bnd (node_path a) (ok_or ENOENT)) (pa, sh, d, k) = (Ok p, (pa, sh, d, k))"
proof -
  from assms obtain p where "bt_get (ns_keys (pa_namespace pa)) (pn_key (payload sh a)) = Some did"
    "path_for (pa_namespace pa) did = Some (Some p)" by (auto simp: dir_ok_def)
  then show ?thesis by (simp add: in_dir_def node_path_def id_for_node_def returns_path_def bnd_def)
qed

lemma read_resumed:
  assumes ok: "dir_ok ep did a (m + (length (dl_buffer l) - unat start)) (pa, sh)" and ep: "dl_epoch l = ep"
    and start: "unat start \<le> length (dl_buffer l)" and res: "resume_listing offset (ph_listings d) = Some (Listing l start True)"
  shows "\<exists>j pa' sh' k'. path_readdir P a this parent offset c (pa, sh, d, k) =
        (Ok (), (pa', sh', if j = 0 then d\<lparr>ph_listings := listings_finish l start (ph_listings d)\<rparr> else d, k')) \<and>
      dir_ok ep did a (m + (length (dl_buffer l) - unat start - Suc j)) (pa', sh') \<and> page l (unat start) k j k'"
proof -
  from dir_ok_path [OF ok, of d k] obtain path where p: "in_dir (bnd (node_path a) (ok_or ENOENT)) (pa, sh, d, k) = (Ok path, (pa, sh, d, k))"
    by blast
  have dl: "directory_listing P a path offset c (pa, sh, d, k) = (Ok (Listing l start True), (pa, sh, d, k))"
    using res by (simp add: directory_listing_def on_listings_def bnd_def)
  from replay_page [OF ok ep start, of P path c this parent d k] obtain j pa' sh' k' where
    "replay_listing P a path l start False c (emit_to this parent) (pa, sh, d, k) = (Ok j, (pa', sh', d, k'))"
    "dir_ok ep did a (m + (length (dl_buffer l) - unat start - Suc j)) (pa', sh')" "page l (unat start) k j k'" by blast
  with p dl show ?thesis
    by (intro exI [of _ j] exI [of _ pa'] exI [of _ sh'] exI [of _ k'])
      (auto simp: path_readdir_emit path_read_dir_def bnd_def on_listings_def)
qed

lemma read_fresh:
  assumes ok: "dir_ok ep did a (m + length b) (pa, sh)"
    and path: "path_for (pa_namespace pa) did = Some (Some path)"
    and list: "pf_list_dir P \<lparr>pr_path = Some path, pr_state = node_state sh a\<rparr> (ph_inner d) c (pa_inner pa) = (Ok b, p')"
    and len: "length b \<le> MAX_LISTING_LEN" and push: "listings_push ep b (ph_listings d) = (l, ls)"
  shows "\<exists>j pa' sh' k'. path_readdir P a this parent 0 c (pa, sh, d, k) =
        (Ok (), (pa', sh', d\<lparr>ph_listings := if j = 0 then listings_finish l 0 ls else ls\<rparr>, k')) \<and>
      dir_ok ep did a (m + (length b - Suc j)) (pa', sh') \<and> page l 0 k j k'"
proof -
  let ?pa = "pa\<lparr>pa_inner := p'\<rparr>" and ?d = "d\<lparr>ph_listings := ls\<rparr>"
  have l: "dl_buffer l = b" "dl_epoch l = ep" using push by (auto simp: listings_push_def Let_def)
  have ok1: "dir_ok ep did a (m + (length (dl_buffer l) - unat (0 :: u64))) (?pa, sh)"
    using ok l by (simp add: dir_ok_def adapter_inv_def room_def)
  have p: "in_dir (bnd (node_path a) (ok_or ENOENT)) (pa, sh, d, k) = (Ok path, (pa, sh, d, k))"
    using ok path by (auto simp: dir_ok_def in_dir_def node_path_def id_for_node_def returns_path_def bnd_def)
  have ep: "pn_entries_epoch (payload sh a) = ep" using ok by (simp add: dir_ok_def)
  have dl: "directory_listing P a path 0 c (pa, sh, d, k) = (Ok (Listing l 0 True), (?pa, sh, ?d, k))"
    using list len push ep
    by (simp add: directory_listing_def on_listings_def bnd_def resume_listing_def split_cookie_def in_dir_def inner_def)
  from replay_page [OF ok1 l(2), of P path c this parent ?d k] obtain j pa' sh' k' where
    "replay_listing P a path l 0 False c (emit_to this parent) (?pa, sh, ?d, k) = (Ok j, (pa', sh', ?d, k'))"
    "dir_ok ep did a (m + (length b - Suc j)) (pa', sh')" "page l 0 k j k'" by (auto simp: l)
  with p dl show ?thesis
    by (intro exI [of _ j] exI [of _ pa'] exI [of _ sh'] exI [of _ k'])
      (auto simp: path_readdir_emit path_read_dir_def bnd_def on_listings_def)
qed

section \<open>The whole stream\<close>

lemma upt_split: "a \<le> b \<Longrightarrow> b \<le> c \<Longrightarrow> [a..<c] = [a..<b] @ [b..<c]"
  by (metis le_add_diff_inverse upt_add_eq_append)

lemma shown_last_cookie:
  assumes "shown_items items = map (listed l) [s..<s + j]" "0 < j"
  shows "items \<noteq> []" "snd (snd (snd (last items))) = listing_cookie (dl_generation l) (s + j - 1)"
proof -
  have ne: "shown_items items \<noteq> []" using assms by simp
  then show "items \<noteq> []" by auto
  have "last (shown_items items) = listed l (s + j - 1)" using assms by (simp add: last_map last_upt)
  moreover have "snd (snd (last (shown_items items))) = snd (snd (snd (last items)))"
    using ne by (auto simp: shown_items_def last_map split: prod.splits)
  ultimately show "snd (snd (snd (last items))) = listing_cookie (dl_generation l) (s + j - 1)" by (simp add: listed_def)
qed

text \<open>A buffer that takes any single entry makes every page but the last one progress.\<close>

lemma page_progress:
  assumes "page l start \<lparr>sk_accepts = fits, sk_items = []\<rparr> j k'" "\<And>item. fits [] item"
  shows "shown_items (sk_items k') = map (listed l) [start..<start + j]" "start + j \<le> length (dl_buffer l)"
    "j = 0 \<Longrightarrow> start = length (dl_buffer l)"
  using assms by (auto simp: page_def)

lemma resume_cookie:
  assumes "listings_get (dl_generation l) ls = Some l" "unat (dl_generation l) < 16" "Suc i < 2 ^ 27"
  shows "resume_listing (listing_cookie (dl_generation l) i) ls = Some (Listing l (of_nat (Suc i)) True)"
proof -
  have "listing_cookie (dl_generation l) i \<noteq> 0"
    using unat_listing_cookie [OF assms(2,3)] by (metis Suc_neq_Zero add_is_0 unat_0)
  with assms(1) split_listing_cookie [OF assms(2,3)] show ?thesis by (simp add: resume_listing_def)
qed

lemma stream_tail:
  assumes fits: "\<And>item. fits [] item" and get: "listings_get (dl_generation l) (ph_listings d) = Some l"
    and g: "unat (dl_generation l) < 16" and len: "length (dl_buffer l) < 2 ^ 27" and ep: "dl_epoch l = ep"
  shows "i < length (dl_buffer l) \<Longrightarrow> length (dl_buffer l) - Suc i < n \<Longrightarrow> dir_ok ep did a (2 * (length (dl_buffer l) - Suc i)) (pa, sh) \<Longrightarrow>
    \<exists>items s'. dir_stream (\<lambda>off. path_readdir P a this parent off c) fits n (listing_cookie (dl_generation l) i) (pa, sh, d) = (Ok items, s') \<and>
      shown_items items = map (listed l) [Suc i..<length (dl_buffer l)]"
proof (induction n arbitrary: i pa sh)
  case (Suc n)
  let ?r = "length (dl_buffer l) - Suc i" let ?k = "\<lparr>sk_accepts = fits, sk_items = []\<rparr>"
  have i: "Suc i < 2 ^ 27" using Suc.prems(1) len by simp
  have u: "unat (of_nat (Suc i) :: u64) = Suc i" using unat_index_word [OF i] by (simp add: add.commute)
  from Suc.prems(3) have ok: "dir_ok ep did a (?r + (length (dl_buffer l) - unat (of_nat (Suc i) :: u64))) (pa, sh)"
    by (simp only: u mult_2)
  have st: "unat (of_nat (Suc i) :: u64) \<le> length (dl_buffer l)" using Suc.prems(1) u by simp
  from read_resumed [OF ok ep st resume_cookie [OF get g i], of P this parent c ?k] obtain j pa' sh' k' where
    rd: "path_readdir P a this parent (listing_cookie (dl_generation l) i) c (pa, sh, d, ?k) =
        (Ok (), (pa', sh', if j = 0 then d\<lparr>ph_listings := listings_finish l (of_nat (Suc i)) (ph_listings d)\<rparr> else d, k'))"
    and ok': "dir_ok ep did a (?r + (?r - Suc j)) (pa', sh')" and pg: "page l (Suc i) ?k j k'" unfolding u by blast
  note pr = page_progress [OF pg fits]
  show ?case
  proof (cases "j = 0")
    case True
    with pr have "sk_items k' = []" "Suc i = length (dl_buffer l)" by auto
    with rd True show ?thesis by simp
  next
    case False
    then have "0 < j" by simp
    note last = shown_last_cookie [OF pr(1) this]
    show ?thesis
    proof (cases "i + j < length (dl_buffer l)")
      case True
      have n: "length (dl_buffer l) - Suc (i + j) < n" using Suc.prems(2) True \<open>0 < j\<close> by simp
      have "2 * (length (dl_buffer l) - Suc (i + j)) \<le> ?r + (?r - Suc j)" using pr(2) \<open>0 < j\<close> by simp
      from Suc.IH [OF True _ dir_ok_less [OF ok' this]] n obtain items s' where
        "dir_stream (\<lambda>off. path_readdir P a this parent off c) fits n (listing_cookie (dl_generation l) (i + j)) (pa', sh', d) = (Ok items, s')"
        "shown_items items = map (listed l) [Suc (i + j)..<length (dl_buffer l)]" by blast
      moreover have "[Suc i..<length (dl_buffer l)] = [Suc i..<Suc i + j] @ [Suc (i + j)..<length (dl_buffer l)]"
        using pr(2) upt_split [of "Suc i" "Suc i + j" "length (dl_buffer l)"] unfolding add_Suc by simp
      ultimately show ?thesis using rd last pr(1) False by (cases s') simp
    qed (use pr(2) in simp)
  qed
qed simp

end
