(* ===== verification/Path_Props.thy ===== *)
theory Path_Props
  imports Path_Reads
begin

text \<open>
  Properties of the path adapter under the runtime: what it owes the kernel, that the names it keeps are
  names of live nodes, what a hard link over a name it still knows does to them, and that a directory is
  read completely and in order.
\<close>

section \<open>Hard links\<close>

text \<open>
  A link to a name the namespace does not know keeps the invariant, unless a link count overflows: then
  the name has been recorded when \<^verbatim>\<open>add_link\<close> panics.
\<close>

definition link_fresh :: "('p, 's, 'h, 'dh) path_filesystem \<Rightarrow> request \<Rightarrow>
    ('p path_fs, 's path_node, 'h, ('s, 'dh) path_dir_handle) runtime \<Rightarrow> bool" where
  "link_fresh P q rt \<longleftrightarrow> (case q of
     OnName (Link _ p nm) _ \<Rightarrow> bt_get (ns_by_name (pa_namespace (rt_fs rt))) (Dentry (from_ino p) nm) = None \<and>
       fst (serve (path_node_fs P) q rt) \<noteq> Panic
   | _ \<Rightarrow> True)"

definition ends :: "('st \<Rightarrow> bool) \<Rightarrow> ('st, 'e, 'a) prog \<Rightarrow> ('st \<Rightarrow> bool) \<Rightarrow> bool" where
  "ends I m J \<longleftrightarrow> (\<forall>s r s'. I s \<longrightarrow> m s = (r, s') \<longrightarrow> r \<noteq> Panic \<longrightarrow> J s')"

lemma ends_bnd:
  assumes "keeps False I m" "\<And>s. I s \<Longrightarrow> J s" "\<And>a. ends I (f a) J" shows "ends I (bnd m f) J"
  unfolding ends_def
proof (intro allI impI)
  fix s r s' assume i: "I s" and "bnd m f s = (r, s')" and np: "r \<noteq> Panic"
  from this(2) show "J s'"
  proof (cases rule: bnd_cases)
    case (ok a s1)
    with always_keepsD [OF assms(1) i] assms(3) [of a] np show ?thesis by (auto simp: ends_def)
  qed (use always_keepsD [OF assms(1) i] assms(2) np in auto)
qed

lemma ends_with_state: "(\<And>x. ends I (body x) J) \<Longrightarrow> ends I (with_state f body) J"
  by (simp add: ends_def with_state_def)

definition link_ready :: "node_id \<Rightarrow> dentry \<Rightarrow> 'p path_fs \<times> 's path_node shared \<Rightarrow> bool" where
  "link_ready nid d s \<longleftrightarrow> adapter_inv s \<and> slot_at (snd s) (ino_of nid) \<noteq> None \<and> bt_get (ns_by_name (pa_namespace (fst s))) d = None"

lemma keeps_link_ready:
  assumes "keeps False adapter_inv m" "\<And>pa sh. \<exists>r pa' sh'. m (pa, sh) = (r, (pa', sh')) \<and> pa_namespace pa' = pa_namespace pa \<and> slot_at sh' = slot_at sh"
  shows "keeps False (link_ready nid d) m"
proof (rule keepsI)
  fix s r s' assume "link_ready nid d s" "m s = (r, s')"
  with always_keepsD [OF assms(1), of s r s'] assms(2) [of "fst s" "snd s"] show "link_ready nid d s'"
    by (cases s) (auto simp: link_ready_def)
qed

lemma link_ready_inner: "keeps False (link_ready nid d) (inner m)"
  by (rule keeps_link_ready [OF keeps_inner]) (simp add: inner_def split: prod.splits)

lemma link_ready_changed: "keeps False (link_ready nid d) (on_nodes (entries_changed a))"
  by (rule keeps_link_ready [OF keeps_on_nodes [OF same_names_writes(1)]]) (simp_all add: on_nodes_def entries_changed_def)

lemma leased_ends:
  assumes get: "\<And>pa sh nr sh'. I (pa, sh) \<Longrightarrow> cx_get nid sh = (Ok (Some nr), sh') \<Longrightarrow> I' (pa, sh')"
    and inv: "\<And>s. I s \<Longrightarrow> adapter_inv s" and body: "\<And>a. ends I' (body a) adapter_inv"
  shows "ends I (leased nid body) adapter_inv"
  unfolding ends_def
proof (intro allI impI)
  fix s r s' assume i: "I s" and run: "leased nid body s = (r, s')" and np: "r \<noteq> Panic"
  obtain pa sh where s: "s = (pa, sh)" by (cases s)
  obtain g sh1 where g: "cx_get nid sh = (g, sh1)" by (cases "cx_get nid sh")
  note 1 = adapter_inv_get [OF inv [OF i, unfolded s] g]
  show "adapter_inv s'"
  proof (cases "\<exists>nr. g = Ok (Some nr)")
    case True
    then obtain nr where nr: "g = Ok (Some nr)" by blast
    obtain r2 pa2 sh2 where b: "body (nr_record nr) (pa, sh1) = (r2, pa2, sh2)" by (cases "body (nr_record nr) (pa, sh1)") auto
    with run g nr s have eq: "r = r2" "s' = (pa2, node_ref_drop nr sh2)" by (auto simp: leased_def lease_or_def)
    from body [of "nr_record nr"] get [OF i [unfolded s] g [unfolded nr]] b np eq(1) have "adapter_inv (pa2, sh2)"
      by (auto simp: ends_def)
    then show ?thesis unfolding eq by (rule adapter_inv_unlease)
  qed (use run g s 1 in \<open>auto simp: leased_def lease_or_def split: outcome.splits option.splits\<close>)
qed

lemma link_recorded:
  "ends (link_ready nid d) (bnd (on_namespace (\<lambda>(ns, sh). (Ok (), (add_alias nid d ns, sh)))) (\<lambda>_.
     bnd (on_namespace (\<lambda>(ns, sh). case cx_add_link nid sh of (r, sh') \<Rightarrow> (r, (ns, sh')))) (\<lambda>_. ret nid))) adapter_inv"
  unfolding ends_def
proof (intro allI impI)
  fix s :: "'p path_fs \<times> 's path_node shared" and r s'
  assume ready: "link_ready nid d s" and np: "r \<noteq> Panic"
    and run: "bnd (on_namespace (\<lambda>(ns, sh). (Ok (), (add_alias nid d ns, sh)))) (\<lambda>_.
       bnd (on_namespace (\<lambda>(ns, sh). case cx_add_link nid sh of (r, sh') \<Rightarrow> (r, (ns, sh')))) (\<lambda>_. ret nid)) s = (r, s')"
  obtain pa sh where s: "s = (pa, sh)" by (cases s)
  let ?ns = "pa_namespace pa"
  have i: "table_inv sh" "ns_inv ?ns" "name_links ?ns sh" "keys_ok ?ns sh" "bt_get (ns_by_name ?ns) d = None"
    using ready by (simp_all add: s link_ready_def adapter_inv_def)
  from ready obtain sl where sl: "slot_at sh (ino_of nid) = Some sl" by (auto simp: s link_ready_def)
  from run np obtain l where l: "checked_add (s_links sl) 1 = Some l"
    and s': "s' = (pa\<lparr>pa_namespace := add_alias nid d ?ns\<rparr>, with_table (set_slot (ino_of nid) (sl\<lparr>s_links := l\<rparr>)) sh)"
    by (auto simp: s on_namespace_def bnd_def cx_add_link_def sl split: option.splits)
  let ?sh = "with_table (set_slot (ino_of nid) (sl\<lparr>s_links := l\<rparr>)) sh"
  have "cx_add_link nid sh = (Ok (), ?sh)" by (simp add: cx_add_link_def sl l)
  then have "table_inv ?sh" using i(1) table_inv_cx_add_link by blast
  moreover have "name_links (add_alias nid d ?ns) ?sh"
    using i(3) names_of_add_alias [OF i(2,5), of nid] unat_checked_add_1 [OF l] counts_slot(4) [OF sl]
    by (auto simp: name_links_def node_id_eq_iff)
  moreover have "keys_ok (add_alias nid d ?ns) ?sh"
    using i(4) sl by (auto simp: keys_ok_def add_alias_def payload_def)
  ultimately show "adapter_inv s'" using ns_inv_add_alias [OF i(2,5)] by (simp add: s' adapter_inv_def)
qed

lemma path_link_keeps:
  assumes "adapter_inv (pa, sh)" "bt_get (ns_by_name (pa_namespace pa)) (Dentry newparent newname) = None"
    and "path_link P nid newparent newname c (pa, sh) = (r, s')" "r \<noteq> Panic"
  shows "adapter_inv s'"
proof -
  let ?d = "Dentry newparent newname"
  let ?I = "\<lambda>s. adapter_inv s \<and> bt_get (ns_by_name (pa_namespace (fst s))) ?d = None"
  have inv: "adapter_inv s" if "link_ready nid ?d s" for s using that by (simp add: link_ready_def)
  have get1: "link_ready nid ?d (pa, sh')" if "?I (pa, sh)" "cx_get nid sh = (Ok (Some nr), sh')" for pa sh nr sh'
    using that cx_get_Some_slot [OF that(2)] adapter_inv_get [OF _ that(2)] by (auto simp: link_ready_def)
  have get2: "link_ready nid ?d (pa, sh')" if "link_ready nid ?d (pa, sh)" "cx_get newparent sh = (Ok (Some nr), sh')" for pa sh nr sh'
    using that cx_get_Some_slot [OF that(2)] adapter_inv_get [OF _ that(2)] by (auto simp: link_ready_def)
  have "ends ?I (path_link P nid newparent newname c) adapter_inv"
    unfolding path_link_def
  proof (rule leased_ends [where I' = "link_ready nid ?d"])
    fix a
    show "ends (link_ready nid ?d) (leased newparent (\<lambda>b.
       bnd (on_nodes (entries_changed b)) (\<lambda>_. bnd (path_of_id nid) (\<lambda>sp. bnd (path_of_id newparent) (\<lambda>np.
       with_state (\<lambda>sh. (node_state sh a, node_state sh b)) (\<lambda>(sa, sb).
       bnd (inner (pf_link P \<lparr>pr_path = Some sp, pr_state = sa\<rparr> \<lparr>pr_path = Some np, pr_state = sb\<rparr> newname c)) (\<lambda>_.
       bnd (on_namespace (\<lambda>(ns, sh). (Ok (), (add_alias nid ?d ns, sh)))) (\<lambda>_.
       bnd (on_namespace (\<lambda>(ns, sh). case cx_add_link nid sh of (r, sh') \<Rightarrow> (r, (ns, sh')))) (\<lambda>_. ret nid))))))))) adapter_inv"
      unfolding case_prod_unfold
      by (rule leased_ends [where I' = "link_ready nid ?d"], erule (1) get2, erule inv)
        (intro ends_bnd ends_with_state link_ready_changed keeps_path_of_id link_ready_inner link_recorded [unfolded case_prod_unfold]; erule inv)
  qed (use get1 in auto)
  with assms show ?thesis unfolding ends_def by (metis fst_conv)
qed

lemma serve_link_keeps:
  assumes "on_rt adapter_inv rt" "link_fresh P (OnName (Link n p nm) c) rt"
    and "serve (path_node_fs P) (OnName (Link n p nm) c) rt = (r, rt')"
  shows "on_rt adapter_inv rt'"
proof -
  obtain q s1 where l: "path_link P (from_ino n) (from_ino p) nm c (rt_fs rt, rt_shared rt) = (q, s1)" by (metis surj_pair)
  let ?rt1 = "rt\<lparr>rt_fs := fst s1, rt_shared := snd s1\<rparr>"
  have cb: "callback (fs_link (path_node_fs P) (from_ino n) (from_ino p) nm c) rt = (q, ?rt1)"
    using l by (simp add: callback_def path_node_fs_def split: prod.splits)
  have "q \<noteq> Panic" using assms(2,3) cb by (auto simp: fmap_def rt_link_def bnd_def link_fresh_def)
  with path_link_keeps [OF _ _ l] assms(1,2) have 1: "on_rt adapter_inv ?rt1" by (auto simp: on_rt_def link_fresh_def)
  from assms(3) have "bnd (\<lambda>_. (q, ?rt1)) (\<lambda>nid. fmap ReplyEntry (entry_for (path_node_fs P) nid c)) rt = (r, rt')"
    using cb by (auto simp: fmap_def rt_link_def bnd_def split: outcome.splits)
  then show ?thesis using 1 by (cases rule: bnd_cases) (auto dest: always_keepsD [OF keeps_fmap [OF adapter.keeps_entry_for]])
qed


section \<open>A small path filesystem\<close>

text \<open>It finds every name, lists three and unlinks what it is asked to; the witnesses below run it.\<close>

definition tiny_listing :: "unit dir_buffer" where
  "tiny_listing = buffer_push ''x'' RegularFile () (push_dots default_attr default_attr [])"

definition tiny_pf :: "(unit, unit, unit, unit) path_filesystem" where
  "tiny_pf = (default_path_filesystem (\<lambda>p. ((), p)) (\<lambda>_ _ _. ret default_attr))
     \<lparr>pf_lookup := (\<lambda>_ _ _. ret (Some \<lparr>pe_attr = default_attr, pe_state = ()\<rparr>)),
      pf_list_dir := (\<lambda>_ _ _. ret tiny_listing), pf_unlink := (\<lambda>_ _ _. ret ())\<rparr>"

definition path_rt :: "('p, 's, 'h, 'dh) path_filesystem \<Rightarrow> 'p \<Rightarrow> ('p path_fs, 's path_node, 'h, ('s, 'dh) path_dir_handle) runtime" where
  "path_rt P p = snd (runtime_new (path_node_fs P) (path_fs_new p))"

lemma path_rt_new: "runtime_new (path_node_fs P) (path_fs_new p) = (Ok (), path_rt P p)"
  by (simp add: path_rt_def runtime_new_def path_node_fs_def default_node_fs_def split: prod.splits)

lemma path_for_root: "path_for ns (NodeId 1) = Some (Some ''/'')"
  by (simp add: path_for.simps ROOT_def)

lemmas path_eval = path_rt_def tiny_pf_def path_node_fs_def default_path_filesystem_def path_fs_new_def path_root_def
  path_node_new_def path_lookup_def leased_def lease_or_def path_of_id_def returns_path_def path_for_root with_state_def node_state_def
  inner_def add_node_def on_namespace_def namespace_insert_def namespace_new_def on_nodes_def set_entry_attr_def
  path_entry_attr_def take_entry_attr_def set_payload_def payload_def add_alias_def alias_add_def
  runtime_new_def default_node_fs_def rt_lookup_def rt_forget_def entry_for_def entry_retain_def callback_def with_node_def
  on_table_def on_handles_def drop_node_def node_ref_drop_def cx_get_def forget_count_def table_eval fmap_def bnd_def

lemma tiny_lookup:
  "\<exists>e rt. run (path_node_fs tiny_pf) [OnName (Lookup 1 ''a'') default_caller] (path_rt tiny_pf ()) = ([Ok (ReplyLookup (Found e))], rt) \<and>
     er_ino e = 2 \<and> slot_at (rt_shared rt) 2 \<noteq> None \<and> bt_get (ns_by_name (pa_namespace (rt_fs rt))) (Dentry ROOT ''a'') = Some (NodeId 2)"
  by (simp add: path_eval)

section \<open>Properties under the runtime\<close>

lemma keys_ok_new: "keys_ok namespace_new (shared_new (path_node_new 1 st))"
  by (auto simp: keys_ok_def namespace_new_def shared_new_def slot_at_def set_slot_def payload_def path_node_new_def
      table_new_def ROOT_def from_ino_def split: if_splits)

lemma adapter_inv_start: "on_rt adapter_inv (path_rt P p)"
  by (simp add: path_rt_def runtime_new_def path_node_fs_def default_node_fs_def on_rt_def adapter_inv_def path_root_def
      path_fs_new_def table_inv_new ns_inv_new name_links_new keys_ok_new split: prod.splits)

lemma named_links_pos:
  assumes "ns_inv ns" "name_links ns sh" "bt_get (ns_by_name ns) d = Some nid" shows "0 < links_of sh (ino_of nid)"
proof -
  from assms(1,3) have "has_alias ns nid d" by (simp add: ns_inv_def)
  with assms(1) obtain ds where "bt_get (ns_aliases ns) nid = Some ds" "ds \<noteq> []"
    unfolding ns_inv_def has_alias_def by blast
  with assms(2) show ?thesis by (auto simp: name_links_def names_of_def)
qed

text \<open>
  The path adapter serves the kernel's bookkeeping for every path filesystem: after any sequence of
  requests the lookup count of each inode is at least the number of entries the kernel was given and has
  not forgotten, and, when every request returned, it is exactly that number and every open handle is
  counted. Nothing is assumed of the path filesystem.
\<close>

theorem path_adapter_refines_kernel_view:
  assumes "run (path_node_fs P) qs (path_rt P p) = (rs, rt)"
  shows "rt_inv rt \<and> (\<forall>n. kernel_view qs rs (\<lambda>_. 0) n \<le> lookups_of (rt_shared rt) n) \<and>
    ((\<forall>r \<in> set rs. returned r) \<longrightarrow>
       lookups_of (rt_shared rt) = kernel_view qs rs (\<lambda>_. 0) \<and> opens_of (rt_shared rt) = handle_count (rt_handles rt))"
  using path.run_ok [OF path.new_ok(1) [OF path_rt_new] assms, of "\<lambda>_. 0"] path.new_ok(2,3) [OF path_rt_new [of P p]]
  by (simp add: rt_exact_def)

theorem path_adapter_refines_kernel_view_witness:
  "\<exists>rs rt. run (path_node_fs tiny_pf) [OnName (Lookup 1 ''a'') default_caller] (path_rt tiny_pf ()) = (rs, rt) \<and>
     lookups_of (rt_shared rt) 2 = 1 \<and> rt_inv rt"
proof -
  from tiny_lookup obtain e rt where run: "run (path_node_fs tiny_pf) [OnName (Lookup 1 ''a'') default_caller] (path_rt tiny_pf ())
      = ([Ok (ReplyLookup (Found e))], rt)" "er_ino e = 2" by blast
  from path_adapter_refines_kernel_view [OF run(1)] run show ?thesis
    by (auto simp: returned_def entry_delta_def bump_def)
qed

text \<open>
  C15. The names the adapter knows are names of live nodes: after any sequence of requests in which hard
  links are made only to names it does not know (and no link count overflows), the name maps are inverse
  to each other, the link count of every inode is the number of its names, every name leads to a node of
  the table, and the path the adapter resolves for a live node is the path of that very node.
\<close>

theorem adapter_names_alive:
  assumes "each_request (path_node_fs P) (link_fresh P) qs (path_rt P p)" and "run (path_node_fs P) qs (path_rt P p) = (rs, rt)"
  shows "ns_inv (pa_namespace (rt_fs rt)) \<and> name_links (pa_namespace (rt_fs rt)) (rt_shared rt) \<and>
    (\<forall>d nid. bt_get (ns_by_name (pa_namespace (rt_fs rt))) d = Some nid \<longrightarrow> slot_at (rt_shared rt) (ino_of nid) \<noteq> None) \<and>
    (\<forall>n s. slot_at (rt_shared rt) n = Some s \<longrightarrow>
       node_path (s_record s) (rt_fs rt, rt_shared rt) =
         returns_path (path_for (pa_namespace (rt_fs rt)) (from_ino n)) (rt_fs rt, rt_shared rt))"
proof -
  have "on_rt adapter_inv (snd (run (path_node_fs P) qs (path_rt P p)))"
    by (rule adapter.run_keeps [OF serve_link_keeps adapter_inv_start assms(1)]) simp_all
  then have inv: "adapter_inv (rt_fs rt, rt_shared rt)" by (simp add: assms(2) on_rt_def)
  let ?ns = "pa_namespace (rt_fs rt)"
  have i: "ns_inv ?ns" "name_links ?ns (rt_shared rt)" "keys_ok ?ns (rt_shared rt)"
    using inv by (simp_all add: adapter_inv_def)
  have "slot_at (rt_shared rt) (ino_of nid) \<noteq> None" if "bt_get (ns_by_name ?ns) d = Some nid" for d nid
    by (rule counted_slot(4)) (use named_links_pos [OF i(1,2) that] in simp)
  with i show ?thesis by (auto simp: keys_ok_def node_path_def id_for_node_def)
qed

theorem adapter_names_alive_witness:
  "\<exists>rs rt. run (path_node_fs tiny_pf) [OnName (Lookup 1 ''a'') default_caller] (path_rt tiny_pf ()) = (rs, rt) \<and>
     name_links (pa_namespace (rt_fs rt)) (rt_shared rt) \<and> slot_at (rt_shared rt) 2 \<noteq> None"
proof -
  from tiny_lookup obtain rs rt where run: "run (path_node_fs tiny_pf) [OnName (Lookup 1 ''a'') default_caller] (path_rt tiny_pf ())
      = (rs, rt)" "bt_get (ns_by_name (pa_namespace (rt_fs rt))) (Dentry ROOT ''a'') = Some (NodeId 2)" by blast
  have "each_request (path_node_fs tiny_pf) (link_fresh tiny_pf) [OnName (Lookup 1 ''a'') default_caller] (path_rt tiny_pf ())"
    by (simp add: link_fresh_def)
  from adapter_names_alive [OF this run(1)] run show ?thesis by fastforce
qed

text \<open>A filesystem whose file \<^verbatim>\<open>a\<close> is removed by someone else after the first lookup.\<close>

definition vanishing_pf :: "(bool, unit, unit, unit) path_filesystem" where
  "vanishing_pf = (default_path_filesystem (\<lambda>p. ((), p)) (\<lambda>_ _ _. ret default_attr))
     \<lparr>pf_lookup := (\<lambda>_ nm _ there. if nm = ''a'' \<and> \<not> there then (Ok None, there)
        else (Ok (Some \<lparr>pe_attr = default_attr, pe_state = ()\<rparr>), there \<and> nm \<noteq> ''a'')),
      pf_link := (\<lambda>_ _ _ _. ret default_attr), pf_unlink := (\<lambda>_ _ _. ret ())\<rparr>"

definition stale_link :: "request list" where
  "stale_link = [OnName (Lookup 1 ''a'') default_caller, OnName (Lookup 1 ''b'') default_caller,
     OnName (Lookup 1 ''a'') default_caller, OnName (Link 3 1 ''a'') default_caller,
     OnName (Unlink 1 ''a'') default_caller, OnName (Unlink 1 ''b'') default_caller, Forget 2 1, Forget 3 2]"

lemma path_for_top:
  "nid \<noteq> NodeId 1 \<Longrightarrow> first_alias nid ns \<noteq> None \<Longrightarrow> d_parent (the (first_alias nid ns)) = NodeId 1 \<Longrightarrow>
     path_for ns nid = Some (Some (path_push ''/'' (d_name (the (first_alias nid ns)))))"
  by (subst path_for.simps) (auto simp: ROOT_def path_for_root)

lemma path_for_unnamed: "nid \<noteq> NodeId 1 \<Longrightarrow> first_alias nid ns = None \<Longrightarrow> path_for ns nid = Some None"
  by (subst path_for.simps) (auto simp: ROOT_def)

lemmas link_eval = path_for_top path_for_unnamed first_alias_def path_push_def less_node_id_def less_eq_node_id_def path_getattr_def with_ref_def node_path_def
  id_for_node_def path_forget_def path_link_def path_unlink_def remove_entry_def in_parent_def entries_changed_def drop_dentry_def
  namespace_remove_def rt_link_def rt_unlink_def cx_add_link_def Let_def link_fresh_def less_eq_dentry_def less_dentry_def

text \<open>
  A run that backs the condition of the previous property. A hard link over a name the adapter still knows leaves the old node behind. The name \<^verbatim>\<open>a\<close> is
  looked up and then removed by someone else; the kernel looks it up again, is told that it does not exist,
  and links the file \<^verbatim>\<open>b\<close> to it; later both names are unlinked and every lookup is forgotten. The inode
  of the old \<^verbatim>\<open>a\<close> is never released: its link count stays at one although no name is left, and the
  adapter resolves it to the path of the name that is gone.
\<close>

theorem link_over_known_name_leaks:
  "\<exists>rs rt s. run (path_node_fs vanishing_pf) stale_link (path_rt vanishing_pf True) = (rs, rt) \<and> list_all returned rs \<and>
     rs ! 2 = Ok (ReplyLookup Negative) \<and>
     kernel_view stale_link rs (\<lambda>_. 0) 2 = 0 \<and> ns_by_name (pa_namespace (rt_fs rt)) = [] \<and>
     slot_at (rt_shared rt) 3 = None \<and> slot_at (rt_shared rt) 2 = Some s \<and> s_links s = 1 \<and>
     path_for (pa_namespace (rt_fs rt)) (NodeId 2) = Some (Some ''/a'')"
  by (simp add: path_eval link_eval vanishing_pf_def stale_link_def returned_def lower_def bump_def entry_delta_def)

section \<open>Reading a directory\<close>

lemma listings_get_pushed:
  assumes "listings_push ep b ls = (l, ls')" "\<And>x. x \<in> set (ls_retained ls) \<Longrightarrow> dl_generation x \<noteq> ls_next_generation ls"
  shows "listings_get (dl_generation l) ls' = Some l"
proof -
  have "x \<in> set (ls_retained ls)" if "x \<in> set (tl (ls_retained ls))" for x using that by (cases "ls_retained ls") auto
  with assms show ?thesis
    unfolding listings_get_def by (intro find_unique) (auto simp: listings_push_def Let_def split: if_splits)
qed

lemma readdir_stream:
  assumes "dir_ok ep did a (2 * length b) (pa, sh)" and "path_for (pa_namespace pa) did = Some (Some path)"
    and "pf_list_dir P \<lparr>pr_path = Some path, pr_state = node_state sh a\<rparr> (ph_inner d) c (pa_inner pa) = (Ok b, p')"
    and "length b \<le> MAX_LISTING_LEN" and "lreach (ph_listings d)"
    and "\<forall>l \<in> set (ls_retained (ph_listings d)). dl_generation l \<noteq> ls_next_generation (ph_listings d)"
    and "\<forall>item. fits [] item"
  shows "\<exists>items s'. dir_stream (\<lambda>off. path_readdir P a this parent off c) fits (Suc (length b)) 0 (pa, sh, d) = (Ok items, s') \<and>
    shown_items items = map (\<lambda>i. (de_name (b ! i), de_kind (b ! i), listing_cookie (ls_next_generation (ph_listings d)) i)) [0..<length b]"
proof -
  let ?k = "\<lparr>sk_accepts = fits, sk_items = []\<rparr>" let ?ls = "ph_listings d"
  obtain l ls where push: "listings_push ep b ?ls = (l, ls)" by fastforce
  have l: "dl_buffer l = b" "dl_epoch l = ep" "dl_generation l = ls_next_generation ?ls" using push by (auto simp: listings_push_def Let_def)
  have g: "unat (dl_generation l) < 16" using lreach_inv [OF assms(5)] l(3) by (simp add: listings_inv_def)
  have get: "listings_get (dl_generation l) ls = Some l"
    using listings_get_pushed [OF push] assms(6) by blast
  have len: "length (dl_buffer l) < 2 ^ 27"
    using assms(4) l(1) by (simp add: MAX_LISTING_LEN_def COOKIE_INDEX_MASK_def COOKIE_INDEX_BITS_def)
  have shown: "map (listed l) [0..<length b] = map (\<lambda>i. (de_name (b ! i), de_kind (b ! i), listing_cookie (ls_next_generation ?ls) i)) [0..<length b]"
    by (simp add: listed_def l)
  have fits: "fits [] item" for item using assms(7) by blast
  from assms(1) have ok: "dir_ok ep did a (length b + length b) (pa, sh)" by (simp add: mult_2)
  from read_fresh [OF ok assms(2,3,4) push, of this parent ?k] obtain j pa' sh' k' where
    rd: "path_readdir P a this parent 0 c (pa, sh, d, ?k) =
        (Ok (), (pa', sh', d\<lparr>ph_listings := if j = 0 then listings_finish l 0 ls else ls\<rparr>, k'))"
    and ok': "dir_ok ep did a (length b + (length b - Suc j)) (pa', sh')" and pg: "page l 0 ?k j k'" by blast
  note pr = page_progress [OF pg fits]
  show ?thesis
  proof (cases "j = 0")
    case True
    with pr l have "sk_items k' = []" "length b = 0" by auto
    with rd True show ?thesis by simp
  next
    case False
    then have j: "0 < j" by simp
    note last = shown_last_cookie [OF pr(1) j]
    have i: "j - 1 < length (dl_buffer l)" "length (dl_buffer l) - Suc (j - 1) < length b" using j pr(2) l(1) by auto
    have "2 * (length (dl_buffer l) - Suc (j - 1)) \<le> length b + (length b - Suc j)" using j pr(2) l(1) by simp
    from stream_tail [of fits l "d\<lparr>ph_listings := ls\<rparr>" ep "j - 1" "length b" did a pa' sh' P this parent c,
        OF fits _ g len l(2) i dir_ok_less [OF ok' this]] get obtain items s' where
      t: "dir_stream (\<lambda>off. path_readdir P a this parent off c) fits (length b) (listing_cookie (dl_generation l) (j - 1))
          (pa', sh', d\<lparr>ph_listings := ls\<rparr>) = (Ok items, s')" "shown_items items = map (listed l) [j..<length b]"
      using j l(1) by auto
    have "[0..<length b] = [0..<j] @ [j..<length b]" using pr(2) l(1) upt_split [of 0 j "length b"] by simp
    then have "shown_items (sk_items k' @ items) = map (listed l) [0..<length b]" using t(2) pr(1) by simp
    with rd last False t show ?thesis by (cases s') (auto simp: shown)
  qed
qed

text \<open>
  C16. A directory is read completely: on a directory that the adapter can resolve, with room for the
  nodes of its entries, for a listing the filesystem returns and that fits the cookies, and on an open
  directory none of whose retained listings has the generation the new one gets, the stream of reads that
  starts at offset zero and resumes at the cookie of the last entry received ends, whatever the size of
  the kernel's buffer, as long as it holds one entry; and it returns every entry of that listing exactly
  once, in order, with its kind and the cookie of its index.
\<close>

theorem readdir_stream_complete:
  assumes "dir_ok ep did a (2 * length b) (pa, sh)" and "path_for (pa_namespace pa) did = Some (Some path)"
    and "pf_list_dir P \<lparr>pr_path = Some path, pr_state = node_state sh a\<rparr> (ph_inner d) c (pa_inner pa) = (Ok b, p')"
    and "length b \<le> MAX_LISTING_LEN" and "lreach (ph_listings d)"
    and "\<forall>l \<in> set (ls_retained (ph_listings d)). dl_generation l \<noteq> ls_next_generation (ph_listings d)"
    and "\<forall>item. fits [] item"
  shows "\<exists>items s'. dir_stream (\<lambda>off. path_readdir P a this parent off c) fits (Suc (length b)) 0 (pa, sh, d) = (Ok items, s') \<and>
    shown_items items = map (\<lambda>i. (de_name (b ! i), de_kind (b ! i), listing_cookie (ls_next_generation (ph_listings d)) i)) [0..<length b]"
  using assms by (rule readdir_stream)

definition two_fit :: "dir_item list \<Rightarrow> dir_item \<Rightarrow> bool" where
  "two_fit items item \<longleftrightarrow> length items < 2"

definition tiny_dir :: "(unit, unit) path_dir_handle" where
  "tiny_dir = \<lparr>ph_inner = (), ph_listings = listings_new\<rparr>"

theorem readdir_stream_complete_witness:
  "\<exists>items s'. dir_stream (\<lambda>off. path_readdir tiny_pf 0 ROOT ROOT off default_caller) two_fit 4 0
      (rt_fs (path_rt tiny_pf ()), rt_shared (path_rt tiny_pf ()), tiny_dir) = (Ok items, s') \<and>
    map fst (shown_items items) = [''.'', ''..'', ''x'']"
proof -
  let ?rt = "path_rt tiny_pf ()"
  have len: "length tiny_listing = 3" by (simp add: tiny_listing_def buffer_push_def push_dots_def)
  have rt: "adapter_inv (rt_fs ?rt, rt_shared ?rt)" using adapter_inv_start [of tiny_pf "()"] by (simp add: on_rt_def)
  have p: "path_for (pa_namespace (rt_fs ?rt)) ROOT = Some (Some ''/'')" by (simp add: path_for.simps)
  have ok: "dir_ok 0 ROOT 0 (2 * length tiny_listing) (rt_fs ?rt, rt_shared ?rt)"
    using rt p len by (simp add: dir_ok_def room_def) (simp add: path_eval)
  have list: "pf_list_dir tiny_pf \<lparr>pr_path = Some ''/'', pr_state = node_state (rt_shared ?rt) 0\<rparr>
      (ph_inner tiny_dir) default_caller (pa_inner (rt_fs ?rt)) = (Ok tiny_listing, pa_inner (rt_fs ?rt))"
    by (simp add: tiny_pf_def)
  have max: "length tiny_listing \<le> MAX_LISTING_LEN"
    by (simp add: len MAX_LISTING_LEN_def COOKIE_INDEX_MASK_def COOKIE_INDEX_BITS_def)
  have dir: "lreach (ph_listings tiny_dir)" "\<forall>l \<in> set (ls_retained (ph_listings tiny_dir)). dl_generation l \<noteq> ls_next_generation (ph_listings tiny_dir)"
    by (simp_all add: tiny_dir_def lreach_new) (simp add: listings_new_def)
  have fits: "\<forall>item. two_fit [] item" by (simp add: two_fit_def)
  obtain items s' where "dir_stream (\<lambda>off. path_readdir tiny_pf 0 ROOT ROOT off default_caller) two_fit (Suc (length tiny_listing)) 0
      (rt_fs ?rt, rt_shared ?rt, tiny_dir) = (Ok items, s')"
    "shown_items items = map (\<lambda>i. (de_name (tiny_listing ! i), de_kind (tiny_listing ! i),
       listing_cookie (ls_next_generation (ph_listings tiny_dir)) i)) [0..<length tiny_listing]"
    using readdir_stream_complete [where fits = two_fit and this = ROOT and parent = ROOT, OF ok p list max dir fits] by blast
  then show ?thesis
    unfolding len by (cases s') (auto simp: tiny_listing_def buffer_push_def push_dots_def upt_rec)
qed

section \<open>Attributes of plus reads\<close>

text \<open>What a filesystem can put in a \<^verbatim>\<open>DirBuffer\<close>: its vector is private, so only the push methods do.\<close>

inductive built :: "'s dir_buffer \<Rightarrow> bool" where
  built_new: "built []"
| built_push: "built b \<Longrightarrow> built (buffer_push nm kind st b)"
| built_plus: "built b \<Longrightarrow> built (push_plus nm attr st b)"
| built_dots: "built b \<Longrightarrow> built (push_dots self_attr parent_attr b)"

lemma built_attr: "built b \<Longrightarrow> e \<in> set b \<Longrightarrow> de_attr e = None \<Longrightarrow> \<exists>st. de_identity e = Child st"
  by (induction rule: built.induct) (auto simp: buffer_push_def push_plus_def push_dots_def)

text \<open>
  What is sent for one listed entry of a plus read: an entry with attributes, nothing when the lookup does not find the name, and the
  end of the replay when an entry without attributes cannot be looked up.
\<close>

lemma plus_entry_sent:
  assumes "built b" and "i < length b"
  shows "entry_to_send P dir stale True c (b ! i) p = (Ok (Show e), p') \<Longrightarrow> de_attr e \<noteq> None \<and> de_name e = de_name (b ! i)"
    and "de_identity (b ! i) = Child st \<Longrightarrow> de_attr (b ! i) = None \<Longrightarrow> pf_lookup P dir (de_name (b ! i)) c p = (r, p') \<Longrightarrow>
      r = Ok None \<or> r = Err ENOENT \<Longrightarrow> entry_to_send P dir stale True c (b ! i) p = (Ok Skip, p')"
    and "de_identity (b ! i) = Child st \<Longrightarrow> de_attr (b ! i) = None \<Longrightarrow> pf_lookup P dir (de_name (b ! i)) c p = (Err er, p') \<Longrightarrow>
      er \<noteq> ENOENT \<Longrightarrow> entry_to_send P dir stale True c (b ! i) p = (Ok (Stop er), p')"
proof -
  assume "entry_to_send P dir stale True c (b ! i) p = (Ok (Show e), p')"
  then show "de_attr e \<noteq> None \<and> de_name e = de_name (b ! i)"
    using built_attr [OF assms(1) nth_mem [OF assms(2)]]
    by (auto simp: entry_to_send_def needs_lookup_def shown_entry_def split: if_splits prod.splits outcome.splits option.splits path_dir_identity.splits)
qed (auto simp: entry_to_send_def needs_lookup_def shown_entry_def)

text \<open>Programs that keep a predicate of their state, and the listings a handle retains.\<close>

definition stays :: "('st \<Rightarrow> bool) \<Rightarrow> ('st, 'e, 'a) prog \<Rightarrow> bool" where
  "stays J m \<longleftrightarrow> (\<forall>s r s'. J s \<longrightarrow> m s = (r, s') \<longrightarrow> J s')"

definition handle_of :: "('p, 's, 'dh, 'k) dir_state \<Rightarrow> ('s, 'dh) path_dir_handle" where
  "handle_of s = fst (snd (snd s))"

definition listings_built :: "('s, 'dh) path_dir_handle \<Rightarrow> bool" where
  "listings_built d \<longleftrightarrow> (\<forall>l \<in> set (ls_retained (ph_listings d)). built (dl_buffer l))"

definition lists_built :: "('p, 's, 'h, 'dh) path_filesystem \<Rightarrow> bool" where
  "lists_built P \<longleftrightarrow> (\<forall>dir h c p b p'. pf_list_dir P dir h c p = (Ok b, p') \<longrightarrow> built b)"

lemma stays_ret: "stays J (ret a)" and stays_fail: "stays J (fail e)"
  by (simp_all add: stays_def)

lemma stays_bnd: "stays J m \<Longrightarrow> (\<And>a. stays J (f a)) \<Longrightarrow> stays J (bnd m f)"
  unfolding stays_def by (metis bnd_cases)

lemma stays_in_dir: "stays (\<lambda>s. I (handle_of s)) (in_dir m)"
  by (auto simp: stays_def in_dir_def handle_of_def split: prod.splits)

lemma stays_in_loop: "stays J m \<Longrightarrow> stays (\<lambda>s. J (fst s)) (in_loop m)"
  by (auto simp: stays_def in_loop_def split: prod.splits)

lemma stays_replay_loop: "(\<And>i off. stays J (emit i off)) \<Longrightarrow> stays J (replay_loop emit n i)"
  by (induction n arbitrary: i) (auto intro!: stays_bnd stays_ret)

lemma stays_replay_listing:
  assumes "\<And>e off. stays (\<lambda>s. I (handle_of s)) (emit e off)"
  shows "stays (\<lambda>s. I (handle_of s)) (replay_listing P a path l start is_plus c emit)"
proof -
  let ?J = "\<lambda>s. I (handle_of (fst s))"
  have "stays ?J (replay_entry P dir stale is_plus c l emit i)" for dir stale i
    unfolding replay_entry_def
  proof (intro stays_bnd stays_in_loop stays_in_dir)
    fix x
    show "stays ?J (case x of Skip \<Rightarrow> ret True | Stop e \<Rightarrow> (\<lambda>(st, n, _). (Ok False, (st, n, Some e)))
      | Show entry \<Rightarrow> bnd (in_loop (emit entry (listing_cookie (dl_generation l) i))) (\<lambda>more.
         if more then (\<lambda>(st, n, f). (Ok True, (st, Suc n, f))) else ret False))"
      using assms stays_in_loop [OF assms]
      by (cases x) (auto intro!: stays_bnd stays_ret simp: stays_def [of _ "\<lambda>(st, n, f). _ st n f"])
  qed
  then have "stays ?J (replay st n (\<lambda>i _. replay_entry P dir stale is_plus c l emit i))" for st n dir stale
    unfolding replay_def Let_def by (rule stays_replay_loop)
  then show ?thesis
    unfolding stays_def replay_listing_def Let_def
    by (fastforce split: prod.splits outcome.splits option.splits if_splits)
qed

lemma stays_add_listed_entry:
  assumes "\<And>nid. stays (\<lambda>s. I (handle_of s)) (add nid)"
  shows "stays (\<lambda>s. I (handle_of s)) (add_listed_entry this parent e add)"
  unfolding add_listed_entry_def
  by (intro stays_bnd) (auto intro!: stays_bnd stays_in_dir stays_ret assms split: path_dir_identity.splits option.splits prod.splits)

lemma finish_built: "listings_built d \<Longrightarrow> listings_built (d\<lparr>ph_listings := listings_finish l start (ph_listings d)\<rparr>)"
  by (auto simp: listings_built_def listings_finish_def Let_def)

lemma push_built:
  assumes "listings_built d" "built b" "listings_push ep b (ph_listings d) = (l, ls)"
  shows "listings_built (d\<lparr>ph_listings := ls\<rparr>) \<and> built (dl_buffer l)"
  using assms by (cases "ls_retained (ph_listings d)") (auto simp: listings_built_def listings_push_def Let_def split: if_splits)

lemma resumed_built:
  assumes "listings_built d" "resume_listing offset (ph_listings d) = Some (Listing l start owned)" shows "built (dl_buffer l)"
proof -
  have "l \<in> set (ls_retained (ph_listings d))"
    using assms(2) by (auto simp: resume_listing_def listings_get_def listings_current_def find_Some_iff split: prod.splits if_splits option.splits)
  with assms(1) show ?thesis by (simp add: listings_built_def)
qed

lemma directory_listing_built:
  assumes "lists_built P" and "listings_built (handle_of s)"
    and "directory_listing P a path offset c s = (r, s')"
  shows "listings_built (handle_of s') \<and> (\<forall>l start owned. r = Ok (Listing l start owned) \<longrightarrow> built (dl_buffer l))"
proof -
  obtain pa sh d k where s: "s = (pa, sh, d, k)" by (cases s)
  have d: "listings_built d" using assms(2) by (simp add: s handle_of_def)
  show ?thesis
  proof (cases "resume_listing offset (ph_listings d)")
    case (Some rd)
    with assms(3) have "r = Ok rd" "s' = s" by (simp_all add: directory_listing_def on_listings_def s bnd_def)
    with Some resumed_built [OF d] d show ?thesis by (auto simp: s handle_of_def)
  next
    case None
    obtain q p' where q: "pf_list_dir P \<lparr>pr_path = Some path, pr_state = node_state sh a\<rparr> (ph_inner d) c (pa_inner pa) = (q, p')" by fastforce
    show ?thesis
    proof (cases "\<exists>b. q = Ok b \<and> length b \<le> MAX_LISTING_LEN")
      case True
      then obtain b where b: "q = Ok b" "length b \<le> MAX_LISTING_LEN" by blast
      obtain l ls where push: "listings_push (pn_entries_epoch (payload sh a)) b (ph_listings d) = (l, ls)" by fastforce
      from assms(1) q b(1) have "built b" unfolding lists_built_def by blast
      from push_built [OF d this push] have pb: "listings_built (d\<lparr>ph_listings := ls\<rparr>)" "built (dl_buffer l)" by auto
      from assms(3) None q b push have "r = Ok (Listing l (snd (split_cookie offset)) True)"
        "s' = (pa\<lparr>pa_inner := p'\<rparr>, sh, d\<lparr>ph_listings := ls\<rparr>, k)"
        by (auto simp: directory_listing_def on_listings_def s bnd_def in_dir_def inner_def Let_def)
      with pb show ?thesis by (simp add: handle_of_def)
    next
      case False
      with assms(3) None q have "\<forall>rd. r \<noteq> Ok rd" "handle_of s' = d"
        by (auto simp: directory_listing_def on_listings_def s bnd_def in_dir_def inner_def Let_def handle_of_def
            split: outcome.splits if_splits)
      with d show ?thesis by simp
    qed
  qed
qed

lemma stays_path_read_dir:
  assumes "lists_built P" "\<And>e off. stays (\<lambda>s. listings_built (handle_of s)) (emit e off)"
  shows "stays (\<lambda>s. listings_built (handle_of s)) (path_read_dir P a offset is_plus c emit)"
proof -
  have f: "stays (\<lambda>s. listings_built (handle_of s)) (on_listings (\<lambda>ls. ((), listings_finish l start ls)))" for l start
    using finish_built by (auto simp: stays_def on_listings_def handle_of_def)
  have l: "stays (\<lambda>s. listings_built (handle_of s)) (directory_listing P a path offset c)" for path
    unfolding stays_def using directory_listing_built [OF assms(1)] by blast
  show ?thesis
    unfolding path_read_dir_def
    by (intro stays_bnd stays_in_dir l) (auto intro!: stays_bnd stays_ret f stays_replay_listing assms(2) split: dir_read.splits)
qed

lemma bnd_agree: "(\<And>a s'. m s = (Ok a, s') \<Longrightarrow> f a s' = g a s') \<Longrightarrow> bnd m f s = bnd m g s"
  by (auto simp: bnd_def split: prod.splits outcome.splits)

lemma replay_agree:
  assumes "\<And>i. i < len \<Longrightarrow> f i = g i" shows "replay offset len f = replay offset len g"
proof -
  have "i + n \<le> len \<longrightarrow> replay_loop f n i = replay_loop g n i" for i n
  proof (induction n arbitrary: i)
    case (Suc n)
    show ?case using Suc [of "Suc i"] assms [of i] by (cases "i + Suc n \<le> len") (simp_all cong: if_cong)
  qed simp
  then show ?thesis by (simp add: replay_def Let_def)
qed

lemma shown_attr:
  assumes "built b" "i < length b" "in_loop (in_dir (inner (entry_to_send P dir stale True c (b ! i)))) st = (Ok (Show e), st')"
  shows "\<exists>attr. de_attr e = Some attr"
  using plus_entry_sent(1) [OF assms(1,2)] assms(3) by (fastforce simp: in_loop_def in_dir_def inner_def split: prod.splits)

lemma expect_Some: "bnd (expect (Some a)) f = f a"
  by (simp add: fun_eq_iff bnd_def expect_def)

text \<open>A plus read offers only entries with attributes, so what is done with others does not matter.\<close>

lemma plus_read_agree:
  assumes "lists_built P" and "listings_built (handle_of s)"
    and emit: "\<And>e off. de_attr e \<noteq> None \<Longrightarrow> emit e off = emit' e off"
  shows "path_read_dir P a offset True c emit s = path_read_dir P a offset True c emit' s"
proof -
  have entry: "replay_entry P dir stale True c l emit i = replay_entry P dir stale True c l emit' i"
    if "built (dl_buffer l)" "i < length (dl_buffer l)" for dir stale i and l :: "'b dir_listing"
    unfolding replay_entry_def by (intro ext bnd_agree) (auto split: shown.split simp: emit dest!: shown_attr [OF that])
  have listing: "replay_listing P a path l start True c emit = replay_listing P a path l start True c emit'" if "built (dl_buffer l)"
    for path start and l :: "'b dir_listing"
  proof -
    have "replay start (length (dl_buffer l)) (\<lambda>i _. replay_entry P dir stale True c l emit i) =
      replay start (length (dl_buffer l)) (\<lambda>i _. replay_entry P dir stale True c l emit' i)" for dir stale
      by (rule replay_agree) (simp add: entry [OF that])
    then show ?thesis by (simp add: replay_listing_def fun_eq_iff Let_def)
  qed
  show ?thesis
    unfolding path_read_dir_def
  proof (intro bnd_agree)
    fix path s1 rd s2
    assume 1: "in_dir (bnd (node_path a) (ok_or ENOENT)) s = (Ok path, s1)" and 2: "directory_listing P a path offset c s1 = (Ok rd, s2)"
    from 1 assms(2) have "listings_built (handle_of s1)" using stays_in_dir [of listings_built] unfolding stays_def by blast
    from directory_listing_built [OF assms(1) this 2] listing
    show "(case rd of Ended \<Rightarrow> ret () | Listing l start owned \<Rightarrow> bnd (replay_listing P a path l start True c emit) (\<lambda>accepted.
         if accepted = 0 \<and> owned then on_listings (\<lambda>ls. ((), listings_finish l start ls)) else ret ())) s2 =
       (case rd of Ended \<Rightarrow> ret () | Listing l start owned \<Rightarrow> bnd (replay_listing P a path l start True c emit') (\<lambda>accepted.
         if accepted = 0 \<and> owned then on_listings (\<lambda>ls. ((), listings_finish l start ls)) else ret ())) s2"
      by (cases rd) auto
  qed
qed

text \<open>
  C17. The \<^verbatim>\<open>expect\<close> in \<^verbatim>\<open>readdirplus\<close> cannot panic. When the filesystem's listings are made with the methods of \<^verbatim>\<open>DirBuffer\<close> and so are
  those the handle retains, as they are on a handle just opened, a plus read does what it would do with anything else in place of
  the panic for an entry without attributes; and every listing the handle retains after a read, with or without attributes, is again
  one of those.
\<close>

theorem plus_read_never_lacks_attributes:
  assumes "lists_built P" and "listings_built d"
  shows "path_readdirplus P a this parent offset c (pa, sh, d, ac) =
      path_read_dir P a offset True c (\<lambda>entry next_offset. add_listed_entry this parent entry (\<lambda>nid. case de_attr entry of
        None \<Rightarrow> missing entry nid | Some attr \<Rightarrow> offer_plus (de_name entry) nid attr next_offset)) (pa, sh, d, ac) \<and>
    (\<forall>r pa' sh' d' ac'. path_readdirplus P a this parent offset c (pa, sh, d, ac) = (r, (pa', sh', d', ac')) \<longrightarrow> listings_built d') \<and>
    (\<forall>k r pa' sh' d' k'. path_readdir P a this parent offset c (pa, sh, d, k) = (r, (pa', sh', d', k')) \<longrightarrow> listings_built d') \<and>
    listings_built \<lparr>ph_inner = h, ph_listings = listings_new\<rparr>"
proof (intro conjI allI impI)
  show "path_readdirplus P a this parent offset c (pa, sh, d, ac) =
      path_read_dir P a offset True c (\<lambda>entry next_offset. add_listed_entry this parent entry (\<lambda>nid. case de_attr entry of
        None \<Rightarrow> missing entry nid | Some attr \<Rightarrow> offer_plus (de_name entry) nid attr next_offset)) (pa, sh, d, ac)"
    unfolding path_readdirplus_def
    by (rule plus_read_agree [OF assms(1)]) (auto simp: handle_of_def assms(2) expect_Some)
next
  fix r pa' sh' d' ac' assume r: "path_readdirplus P a this parent offset c (pa, sh, d, ac) = (r, (pa', sh', d', ac'))"
  have "stays (\<lambda>s. listings_built (handle_of s)) (path_readdirplus P a this parent offset c)"
    unfolding path_readdirplus_def
    by (intro stays_path_read_dir [OF assms(1)] stays_add_listed_entry stays_bnd)
      (auto simp: stays_def expect_def offer_plus_def handle_of_def split: option.splits prod.splits)
  with r assms(2) show "listings_built d'" unfolding stays_def handle_of_def by fastforce
next
  fix k r pa' sh' d' k' assume r: "path_readdir P a this parent offset c (pa, sh, d, k) = (r, (pa', sh', d', k'))"
  have "stays (\<lambda>s. listings_built (handle_of s)) (path_readdir P a this parent offset c)"
    unfolding path_readdir_def
    by (intro stays_path_read_dir [OF assms(1)] stays_add_listed_entry)
      (auto simp: stays_def offer_item_def handle_of_def split: prod.splits)
  with r assms(2) show "listings_built d'" unfolding stays_def handle_of_def by fastforce
qed (simp add: listings_built_def listings_new_def)


definition open_sink :: accounting where
  "open_sink = \<lparr>ac_inner = \<lparr>ps_sink = \<lparr>sk_accepts = (\<lambda>_ _. True), sk_items = []\<rparr>, ps_panics = (\<lambda>_. False)\<rparr>, ac_accepted = []\<rparr>"

lemmas plus_eval = path_readdirplus_def path_read_dir_def in_dir_def node_path_def id_for_node_def directory_listing_def on_listings_def
  resume_listing_def split_cookie_def listings_push_def listings_new_def tiny_listing_def buffer_push_def push_dots_def MAX_LISTING_LEN_def
  replay_listing_def replay_def replay_entry_def in_loop_def entry_to_send_def needs_lookup_def shown_entry_def add_listed_entry_def
  expect_def offer_plus_def plus_add_def plus_entry_def sink_add_def retain_lookup_def ok_or_def open_sink_def Let_def path_eval

lemma tiny_plus_read:
  "\<exists>pa sh d ac. path_readdirplus tiny_pf (s_record (the (slot_at (rt_shared (path_rt tiny_pf ())) 1))) ROOT ROOT 0 default_caller
      (rt_fs (path_rt tiny_pf ()), rt_shared (path_rt tiny_pf ()), \<lparr>ph_inner = (), ph_listings = listings_new\<rparr>, open_sink) =
    (Ok (), (pa, sh, d, ac)) \<and> ac_accepted ac = [NodeId 2]"
  by (simp add: plus_eval COOKIE_INDEX_MASK_def COOKIE_INDEX_BITS_def)

theorem plus_read_never_lacks_attributes_witness:
  "\<exists>pa sh d ac. path_read_dir tiny_pf (s_record (the (slot_at (rt_shared (path_rt tiny_pf ())) 1))) 0 True default_caller
      (\<lambda>entry next_offset. add_listed_entry ROOT ROOT entry (\<lambda>nid. case de_attr entry of
        None \<Rightarrow> fail EIO | Some attr \<Rightarrow> offer_plus (de_name entry) nid attr next_offset))
      (rt_fs (path_rt tiny_pf ()), rt_shared (path_rt tiny_pf ()), \<lparr>ph_inner = (), ph_listings = listings_new\<rparr>, open_sink) =
    (Ok (), (pa, sh, d, ac)) \<and> ac_accepted ac = [NodeId 2] \<and> listings_built d"
proof -
  let ?d = "\<lparr>ph_inner = (), ph_listings = listings_new\<rparr>"
  have p: "lists_built tiny_pf"
    by (auto simp: lists_built_def tiny_pf_def default_path_filesystem_def tiny_listing_def intro!: built.intros)
  have d: "listings_built ?d" by (simp add: listings_built_def listings_new_def)
  from tiny_plus_read obtain pa sh d ac where r: "path_readdirplus tiny_pf (s_record (the (slot_at (rt_shared (path_rt tiny_pf ())) 1))) ROOT ROOT 0
      default_caller (rt_fs (path_rt tiny_pf ()), rt_shared (path_rt tiny_pf ()), ?d, open_sink) = (Ok (), (pa, sh, d, ac))"
    "ac_accepted ac = [NodeId 2]" by blast
  note t = plus_read_never_lacks_attributes [OF p d, of "s_record (the (slot_at (rt_shared (path_rt tiny_pf ())) 1))" ROOT ROOT 0
      default_caller "rt_fs (path_rt tiny_pf ())" "rt_shared (path_rt tiny_pf ())" open_sink "\<lambda>_ _. fail EIO"]
  from t [THEN conjunct2, THEN conjunct1, rule_format, OF r(1)] r(2) r(1) [unfolded t [THEN conjunct1]] show ?thesis by blast
qed

end
