(* ===== verification/Read_Only_Fs.thy ===== *)
theory Read_Only_Fs
  imports Path_Props Passthrough
begin

text \<open>
  The read-only passthrough of \<^verbatim>\<open>examples/support/path_passthrough.rs\<close>, a path filesystem that serves a backing directory. The
  backing filesystem is a parameter: what each call of the standard library answers may differ from call to call.
\<close>

unbundle bit_operations_syntax

section \<open>Paths\<close>

text \<open>
  \<^verbatim>\<open>Path\<close> methods work on components. A path is split at its separators; empty pieces and dots are no components, but for a dot
  that starts a relative path.
\<close>

fun pieces :: "os_str \<Rightarrow> os_str list" where
  "pieces [] = [[]]"
| "pieces (c # cs) = (if c = CHR ''/'' then [] # pieces cs else (case pieces cs of w # ws \<Rightarrow> (c # w) # ws | [] \<Rightarrow> [[c]]))"

fun unpieces :: "os_str list \<Rightarrow> os_str" where
  "unpieces [] = []"
| "unpieces [w] = w"
| "unpieces (w # ws) = w @ CHR ''/'' # unpieces ws"

definition has_root :: "os_str \<Rightarrow> bool" where
  "has_root p \<longleftrightarrow> p \<noteq> [] \<and> hd p = CHR ''/''"

definition no_component :: "os_str \<Rightarrow> bool" where
  "no_component w \<longleftrightarrow> w = [] \<or> w = ''.''"

definition drop_last_while :: "('a \<Rightarrow> bool) \<Rightarrow> 'a list \<Rightarrow> 'a list" where
  "drop_last_while f ws = rev (dropWhile f (rev ws))"

text \<open>\<^verbatim>\<open>strip_prefix("/")\<close>, and comparison with \<^verbatim>\<open>"/"\<close>.\<close>

definition strip_root :: "os_str \<Rightarrow> os_str option" where
  "strip_root p = (if has_root p then Some (unpieces (drop_last_while no_component (dropWhile no_component (pieces (tl p))))) else None)"

definition is_root_path :: "os_str \<Rightarrow> bool" where
  "is_root_path p \<longleftrightarrow> has_root p \<and> list_all no_component (pieces (tl p))"

text \<open>The pieces of a path with the trailing ones that are no components dropped, and \<^verbatim>\<open>Path::parent\<close>.\<close>

definition trim_right :: "bool \<Rightarrow> os_str list \<Rightarrow> os_str list" where
  "trim_right rooted ws =
     (if rooted then drop_last_while no_component ws
      else case ws of
        [] \<Rightarrow> []
      | w # rest \<Rightarrow> (case drop_last_while no_component rest of [] \<Rightarrow> if w = [] then [] else [w] | rest' \<Rightarrow> w # rest'))"

definition path_parent :: "os_str \<Rightarrow> os_str option" where
  "path_parent p = (let rooted = has_root p; ws = trim_right rooted (pieces (if rooted then tl p else p)) in
     if ws = [] then None else Some ((if rooted then ''/'' else []) @ unpieces (trim_right rooted (butlast ws))))"

section \<open>The backing filesystem\<close>

text \<open>
  The answers of \<^verbatim>\<open>std::fs\<close>; an error carries its number, if it has one. The metadata of a file comes with its length, a directory
  iterator with a result per entry and for the type of each entry.
\<close>

type_synonym io_error = "int option"

record backing =
  bk_symlink_metadata :: "os_str \<Rightarrow> io_error + metadata \<times> u64"
  bk_metadata :: "os_str \<Rightarrow> io_error + metadata \<times> u64"
  bk_read_dir :: "os_str \<Rightarrow> io_error + (io_error + os_str \<times> (io_error + u32)) list"
  bk_statvfs :: "string \<Rightarrow> int + raw_statvfs"

record read_only_fs =
  ro_root :: os_str
  ro_backing :: "nat \<Rightarrow> backing"
  ro_calls :: nat

type_synonym 'a ro_call = "(read_only_fs, errno, 'a) prog"

text \<open>One call, with its error converted by \<^verbatim>\<open>Errno::from\<close>.\<close>

definition io_result :: "io_error + 'a \<Rightarrow> 'a result" where
  "io_result r = (case r of Inl e \<Rightarrow> Err (errno_from_io e) | Inr a \<Rightarrow> Ok a)"

definition std_fs :: "(backing \<Rightarrow> io_error + 'a) \<Rightarrow> 'a ro_call" where
  "std_fs f fs = (io_result (f (ro_backing fs (ro_calls fs))), fs\<lparr>ro_calls := Suc (ro_calls fs)\<rparr>)"

definition not_found :: "io_error \<Rightarrow> bool" where
  "not_found e \<longleftrightarrow> e = Some (raw ENOENT)"

section \<open>The filesystem\<close>

definition ro_new :: "os_str \<Rightarrow> (nat \<Rightarrow> backing) \<Rightarrow> read_only_fs" where
  "ro_new root sys = \<lparr>ro_root = root, ro_backing = sys, ro_calls = 0\<rparr>"

definition backing_path :: "unit path_node_ref \<Rightarrow> os_str ro_call" where
  "backing_path node fs = bnd (ok_or ENOENT (pr_path node)) (\<lambda>path.
     bnd (ok_or EINVAL (strip_root path)) (\<lambda>relative. ret (path_push (ro_root fs) relative))) fs"

definition ro_attr :: "os_str \<Rightarrow> node_attr ro_call" where
  "ro_attr path = bnd (std_fs (\<lambda>b. bk_symlink_metadata b path)) (\<lambda>(md, len) fs.
     (case file_attr_from_metadata md len of None \<Rightarrow> Panic | Some a \<Rightarrow> Ok a, fs))"

definition ro_lookup :: "unit path_node_ref \<Rightarrow> os_str \<Rightarrow> caller \<Rightarrow> unit path_entry option ro_call" where
  "ro_lookup parent name c = bnd (backing_path parent) (\<lambda>p fs. case ro_attr (path_push p name) fs of
     (Ok attr, fs') \<Rightarrow> (Ok (Some \<lparr>pe_attr = attr, pe_state = ()\<rparr>), fs')
   | (Err error, fs') \<Rightarrow> (if error = ENOENT then Ok None else Err error, fs')
   | (Panic, fs') \<Rightarrow> (Panic, fs')
   | (Blocks, fs') \<Rightarrow> (Blocks, fs'))"

definition ro_getattr :: "unit path_node_ref \<Rightarrow> unit option \<Rightarrow> caller \<Rightarrow> node_attr ro_call" where
  "ro_getattr node oh c = bnd (backing_path node) ro_attr"

definition ro_opendir :: "unit path_node_ref \<Rightarrow> int \<Rightarrow> caller \<Rightarrow> unit opened ro_call" where
  "ro_opendir node flags c = bnd (backing_path node) (\<lambda>p. bnd (std_fs (\<lambda>b. bk_metadata b p)) (\<lambda>(md, _).
     if md_mode md AND S_IFMT \<noteq> S_IFDIR then fail ENOTDIR else ret (opened_new ())))"

text \<open>The loop over the entries: one that vanished is skipped, any other error ends the listing.\<close>

fun ro_list :: "(io_error + os_str \<times> (io_error + u32)) list \<Rightarrow> unit dir_buffer \<Rightarrow> unit dir_buffer result" where
  "ro_list [] listing = Ok listing"
| "ro_list (Inl e # es) listing = Err (errno_from_io e)"
| "ro_list (Inr (name, Inl e) # es) listing = (if not_found e then ro_list es listing else Err (errno_from_io e))"
| "ro_list (Inr (name, Inr file_type) # es) listing = ro_list es (buffer_push name (file_kind_from_file_type file_type) () listing)"

definition ro_list_dir :: "unit path_node_ref \<Rightarrow> unit \<Rightarrow> caller \<Rightarrow> unit dir_buffer ro_call" where
  "ro_list_dir node h c = (let is_root = (case pr_path node of None \<Rightarrow> False | Some p \<Rightarrow> is_root_path p) in
     bnd (backing_path node) (\<lambda>path.
     let parent = (if is_root then path else case path_parent path of None \<Rightarrow> path | Some p \<Rightarrow> p) in
     bnd (ro_attr path) (\<lambda>self_attr.
     bnd (ro_attr parent) (\<lambda>parent_attr.
     bnd (std_fs (\<lambda>b. bk_read_dir b path)) (\<lambda>es fs. (ro_list es (push_dots self_attr parent_attr []), fs))))))"

definition ro_statfs :: "os_str \<Rightarrow> caller \<Rightarrow> stat_fs ro_call" where
  "ro_statfs path c fs = (statfs_path (bk_statvfs (ro_backing fs (ro_calls fs))) (ro_root fs), fs\<lparr>ro_calls := Suc (ro_calls fs)\<rparr>)"

definition read_only_ops :: "(read_only_fs, unit, unit, unit) path_filesystem" where
  "read_only_ops = (default_path_filesystem (\<lambda>fs. ((), fs)) ro_getattr)
     \<lparr>pf_lookup := ro_lookup, pf_opendir := ro_opendir, pf_list_dir := ro_list_dir, pf_statfs := ro_statfs\<rparr>"

section \<open>Every node is served from under the root\<close>

text \<open>A name of a directory entry, and the path the adapter builds from such names.\<close>

definition entry_name :: "os_str \<Rightarrow> bool" where
  "entry_name w \<longleftrightarrow> w \<noteq> [] \<and> w \<noteq> ''.'' \<and> CHR ''/'' \<notin> set w"

definition node_path_of :: "os_str list \<Rightarrow> os_str" where
  "node_path_of names = CHR ''/'' # unpieces names"

lemma pieces_not_Nil: "pieces p \<noteq> []"
  by (induction p) (auto split: list.splits)

lemma pieces_word: "CHR ''/'' \<notin> set w \<Longrightarrow> pieces w = [w]"
  by (induction w) auto

lemma pieces_append: "CHR ''/'' \<notin> set w \<Longrightarrow> pieces (w @ CHR ''/'' # p) = w # pieces p"
  by (induction w) auto

lemma pieces_unpieces: "names \<noteq> [] \<Longrightarrow> \<forall>w \<in> set names. CHR ''/'' \<notin> set w \<Longrightarrow> pieces (unpieces names) = names"
  by (induction names rule: unpieces.induct) (auto simp: pieces_word pieces_append)

lemma entry_nameD: "entry_name w \<Longrightarrow> w \<noteq> [] \<and> hd w \<noteq> CHR ''/'' \<and> last w \<noteq> CHR ''/''"
  unfolding entry_name_def by (metis hd_in_set last_in_set)

lemma no_component_entry: "entry_name w \<Longrightarrow> \<not> no_component w"
  by (simp add: entry_name_def no_component_def)

lemma drop_components:
  assumes "\<forall>w \<in> set names. entry_name w"
  shows "dropWhile no_component names = names" "drop_last_while no_component names = names"
proof -
  show "dropWhile no_component names = names" using assms no_component_entry by (cases names) auto
  show "drop_last_while no_component names = names"
    using assms no_component_entry by (cases names rule: rev_cases) (auto simp: drop_last_while_def)
qed

lemma strip_node_path: "\<forall>w \<in> set names. entry_name w \<Longrightarrow> strip_root (node_path_of names) = Some (unpieces names)"
  using drop_components [of names] pieces_unpieces [of names]
  by (cases "names = []") (auto simp: strip_root_def has_root_def node_path_of_def drop_last_while_def no_component_def entry_name_def)

lemma unpieces_snoc: "unpieces (names @ [w]) = (if names = [] then w else unpieces names @ CHR ''/'' # w)"
  by (induction names rule: unpieces.induct) (auto simp: neq_Nil_conv)

lemma unpieces_ends:
  assumes "names \<noteq> []" "\<forall>w \<in> set names. entry_name w"
  shows "unpieces names \<noteq> []" "hd (unpieces names) \<noteq> CHR ''/''" "last (unpieces names) \<noteq> CHR ''/''"
  using assms by (induction names rule: unpieces.induct) (auto dest!: entry_nameD)

lemma push_node_path: "\<forall>w \<in> set names. entry_name w \<Longrightarrow> entry_name nm \<Longrightarrow> path_push (node_path_of names) nm = node_path_of (names @ [nm])"
proof -
  assume names: "\<forall>w \<in> set names. entry_name w" and nm: "entry_name nm"
  have "last (node_path_of names) \<noteq> CHR ''/''" if "names \<noteq> []"
    using unpieces_ends [OF that names] by (simp add: node_path_of_def)
  with nm show ?thesis
    by (cases "names = []") (auto simp: path_push_def node_path_of_def unpieces_snoc dest!: entry_nameD)
qed

lemma backing_path_of:
  assumes "\<forall>w \<in> set names. entry_name w"
  shows "backing_path \<lparr>pr_path = Some (node_path_of names), pr_state = ()\<rparr> fs = (Ok (path_push (ro_root fs) (unpieces names)), fs)"
  using strip_node_path [OF assms] by (simp add: backing_path_def bnd_def ok_or_def)

lemma backing_path_child:
  assumes "\<forall>w \<in> set names. entry_name w" "entry_name nm"
  shows "path_push (path_push root (unpieces names)) nm = path_push root (unpieces (names @ [nm]))"
proof (cases "names = []")
  case True
  with assms(2) show ?thesis by (auto simp: path_push_def dest!: entry_nameD)
next
  case False
  have "unpieces names \<noteq> []" "hd (unpieces names) \<noteq> CHR ''/''" "last (unpieces names) \<noteq> CHR ''/''"
    using unpieces_ends [OF False assms(1)] by simp_all
  with False assms(2) show ?thesis by (auto simp: path_push_def unpieces_snoc dest!: entry_nameD)
qed

text \<open>
  What the filesystem looks at for a node is the node's path under the root: a lookup of a name in a directory asks about the same
  file as \<^verbatim>\<open>getattr\<close> of the node the adapter gives that name, so it finds the attributes \<^verbatim>\<open>getattr\<close> reports and no entry exactly when
  there is no such file.
\<close>

theorem lookup_is_getattr_of_child:
  assumes "\<forall>w \<in> set names. entry_name w" and "entry_name nm" and "p = node_path_of names"
  shows "ro_lookup \<lparr>pr_path = Some p, pr_state = ()\<rparr> nm c fs =
    (case ro_getattr \<lparr>pr_path = Some (path_push p nm), pr_state = ()\<rparr> None c fs of
       (Ok attr, fs') \<Rightarrow> (Ok (Some \<lparr>pe_attr = attr, pe_state = ()\<rparr>), fs')
     | (Err e, fs') \<Rightarrow> (if e = ENOENT then Ok None else Err e, fs')
     | (Panic, fs') \<Rightarrow> (Panic, fs')
     | (Blocks, fs') \<Rightarrow> (Blocks, fs'))"
proof -
  have names: "\<forall>w \<in> set (names @ [nm]). entry_name w" using assms by simp
  show ?thesis
    unfolding assms(3) push_node_path [OF assms(1,2)] ro_lookup_def ro_getattr_def
    by (simp add: bnd_def backing_path_of [OF assms(1)] backing_path_of [OF names] backing_path_child [OF assms(1,2)])
qed

theorem lookup_is_getattr_of_child_witness:
  "ro_lookup \<lparr>pr_path = Some ''/a'', pr_state = ()\<rparr> ''b'' c fs =
    (case ro_getattr \<lparr>pr_path = Some ''/a/b'', pr_state = ()\<rparr> None c fs of
       (Ok attr, fs') \<Rightarrow> (Ok (Some \<lparr>pe_attr = attr, pe_state = ()\<rparr>), fs')
     | (Err e, fs') \<Rightarrow> (if e = ENOENT then Ok None else Err e, fs')
     | (Panic, fs') \<Rightarrow> (Panic, fs')
     | (Blocks, fs') \<Rightarrow> (Blocks, fs'))"
  using lookup_is_getattr_of_child [of "[''a'']" "''b''" "''/a''" c fs]
  by (simp add: entry_name_def node_path_of_def path_push_def)

text \<open>The adapter builds paths of that form from the names it was given.\<close>

lemma path_for_names:
  assumes "path_for ns nid = Some r" "\<forall>a d. first_alias a ns = Some d \<longrightarrow> entry_name (d_name d)" "r = Some p"
  shows "\<exists>names. p = node_path_of names \<and> (\<forall>w \<in> set names. entry_name w)"
proof -
  let ?Q = "\<lambda>ns nid r. (\<forall>a d. first_alias a ns = Some d \<longrightarrow> entry_name (d_name d)) \<longrightarrow>
    (\<forall>p. r = Some p \<longrightarrow> (\<exists>names. p = node_path_of names \<and> (\<forall>w \<in> set names. entry_name w)))"
  have "?Q ns nid r"
  proof (rule path_for.raw_induct [of ?Q, OF _ assms(1)], intro impI allI)
    fix rec ns nid r p
    assume IH: "\<And>ns nid r. rec ns nid = Some r \<Longrightarrow> ?Q ns nid r"
      and e: "(if nid = ROOT then Some (Some ''/'') else case first_alias nid ns of None \<Rightarrow> Some None
        | Some d \<Rightarrow> Option.bind (rec ns (d_parent d)) (\<lambda>p. Some (map_option (\<lambda>p. path_push p (d_name d)) p))) = Some r"
      and named: "\<forall>a d. first_alias a ns = Some d \<longrightarrow> entry_name (d_name d)" and r: "r = Some p"
    show "\<exists>names. p = node_path_of names \<and> (\<forall>w \<in> set names. entry_name w)"
    proof (cases "nid = ROOT")
      case True
      with e r have "p = node_path_of []" by (simp add: node_path_of_def)
      then show ?thesis by fastforce
    next
      case False
      with e r obtain d q where d: "first_alias nid ns = Some d" "rec ns (d_parent d) = Some (Some q)" "p = path_push q (d_name d)"
        by (auto split: option.splits bind_splits)
      with IH [OF d(2)] named obtain names where "q = node_path_of names" "\<forall>w \<in> set names. entry_name w" by blast
      with push_node_path [of names "d_name d"] named d show ?thesis by (intro exI [of _ "names @ [d_name d]"]) auto
    qed
  qed
  with assms(2,3) show ?thesis by blast
qed

section \<open>The parent of a directory\<close>

lemma pieces_snoc: "CHR ''/'' \<notin> set w \<Longrightarrow> pieces (p @ CHR ''/'' # w) = pieces p @ [w]"
  by (induction p) (auto simp: pieces_word pieces_not_Nil neq_Nil_conv split: list.splits)

lemma unpieces_Cons: "ws \<noteq> [] \<Longrightarrow> unpieces (w # ws) = w @ CHR ''/'' # unpieces ws"
  by (cases ws) simp_all

lemma unpieces_pieces: "unpieces (pieces p) = p"
proof (induction p)
  case (Cons c p)
  obtain w ws where w: "pieces p = w # ws" using pieces_not_Nil by (cases "pieces p") auto
  with Cons show ?case by (cases ws) (auto simp: unpieces_Cons)
qed simp

lemma pieces_push:
  assumes "entry_name w" obtains ws where "pieces (path_push p w) = ws @ [w]"
proof -
  have sep: "CHR ''/'' \<notin> set w" using assms by (simp add: entry_name_def)
  have push: "path_push p w = (if p = [] \<or> last p = CHR ''/'' then p @ w else p @ CHR ''/'' # w)"
    using entry_nameD [OF assms] by (simp add: path_push_def)
  show ?thesis
  proof (cases "p = []")
    case True
    with push pieces_word [OF sep] that [of "[]"] show ?thesis by simp
  next
    case False
    then obtain q where "p = q @ [CHR ''/''] \<or> last p \<noteq> CHR ''/''" by (metis append_butlast_last_id)
    with push False pieces_snoc [OF sep, of q] pieces_snoc [OF sep, of p] that show ?thesis by auto
  qed
qed

lemma trim_right_component: "\<not> no_component w \<Longrightarrow> trim_right rooted (ws @ [w]) = ws @ [w]"
proof -
  assume w: "\<not> no_component w"
  then have keep: "drop_last_while no_component (us @ [w]) = us @ [w]" for us by (simp add: drop_last_while_def)
  from w have "w \<noteq> []" by (simp add: no_component_def)
  with w keep show ?thesis by (cases ws) (simp_all add: trim_right_def drop_last_while_def split: list.split)
qed

lemma parent_of_child:
  assumes "pieces q = ws @ [w]" "entry_name w" "entry_name nm"
  shows "path_parent (q @ CHR ''/'' # nm) = Some q"
proof -
  have sep: "CHR ''/'' \<notin> set nm" using assms(3) by (simp add: entry_name_def)
  have q: "q \<noteq> []" using assms(1,2) by (auto simp: entry_name_def)
  note trim = trim_right_component [OF no_component_entry [OF assms(2)]] trim_right_component [OF no_component_entry [OF assms(3)], of _ "us @ [w]" for us, simplified]
  show ?thesis
  proof (cases "has_root q")
    case True
    then obtain q' where q': "q = CHR ''/'' # q'" using q by (cases q) (auto simp: has_root_def)
    with assms(1,2) obtain us where us: "pieces q' = us @ [w]" by (cases ws) (auto simp: entry_name_def)
    then show ?thesis
      using q' unpieces_pieces [of q'] pieces_snoc [OF sep, of q'] trim by (simp add: path_parent_def has_root_def Let_def butlast_append)
  next
    case False
    with q have "\<not> has_root (q @ CHR ''/'' # nm)" by (simp add: has_root_def)
    then show ?thesis
      using assms(1) unpieces_pieces [of q] pieces_snoc [OF sep, of q] trim by (simp add: path_parent_def Let_def butlast_append)
  qed
qed

text \<open>
  The attributes \<^verbatim>\<open>list_dir\<close> gives for the dots of a directory that is not right below the root are those of the directory and of its
  parent, as \<^verbatim>\<open>getattr\<close> would report them.
\<close>

theorem backing_parent:
  assumes "\<forall>w \<in> set names. entry_name w" and "names \<noteq> []" and "entry_name nm"
  shows "path_parent (path_push root (unpieces (names @ [nm]))) = Some (path_push root (unpieces names))"
proof -
  obtain ns n where n: "names = ns @ [n]" using assms(2) by (metis append_butlast_last_id)
  with assms(1) have ns: "\<forall>w \<in> set ns. entry_name w" "entry_name n" by simp_all
  let ?q = "path_push root (unpieces names)"
  have q: "?q = path_push (path_push root (unpieces ns)) n" using backing_path_child [OF ns] n by simp
  obtain ws where ws: "pieces ?q = ws @ [n]" by (rule pieces_push [OF ns(2), of "path_push root (unpieces ns)"]) (simp add: q)
  have "last ?q \<noteq> CHR ''/'' \<and> ?q \<noteq> []" unfolding q using entry_nameD [OF ns(2)] by (simp add: path_push_def)
  then have "path_push ?q nm = ?q @ CHR ''/'' # nm" using entry_nameD [OF assms(3)] by (simp add: path_push_def)
  with parent_of_child [OF ws ns(2) assms(3)] backing_path_child [OF assms(1,3)] show ?thesis by simp
qed

section \<open>Listings are complete\<close>

text \<open>An entry that ends the listing, and the entries of a listing that is not ended.\<close>

fun listing_error :: "io_error + os_str \<times> (io_error + u32) \<Rightarrow> errno option" where
  "listing_error (Inl e) = Some (errno_from_io e)"
| "listing_error (Inr (name, Inl e)) = (if not_found e then None else Some (errno_from_io e))"
| "listing_error (Inr (name, Inr ft)) = None"

fun listing_entry :: "io_error + os_str \<times> (io_error + u32) \<Rightarrow> (os_str \<times> file_kind) option" where
  "listing_entry (Inr (name, Inr ft)) = Some (name, file_kind_from_file_type ft)"
| "listing_entry _ = None"

text \<open>
  A listing is the dots and every entry of the directory whose type could be read, in the order of the directory and with its kind;
  entries that vanished are left out, and the first other error is the result of the whole listing.
\<close>

theorem ro_list_result:
  "ro_list es b = (case List.find (\<lambda>e. listing_error e \<noteq> None) es of
     Some e \<Rightarrow> Err (the (listing_error e))
   | None \<Rightarrow> Ok (b @ map (\<lambda>(name, kind). \<lparr>de_name = name, de_kind = kind, de_attr = None, de_identity = Child ()\<rparr>)
       (List.map_filter listing_entry es)))"
  by (induction es b rule: ro_list.induct) (auto simp: buffer_push_def map_filter_def split: option.split)

lemma ro_list_shown:
  assumes "ro_list es b = Ok b'"
  shows "\<forall>e \<in> set es. listing_error e = None" "map (\<lambda>e. (de_name e, de_kind e)) b' = map (\<lambda>e. (de_name e, de_kind e)) b @ List.map_filter listing_entry es"
  using assms by (auto simp: ro_list_result find_None_iff comp_def case_prod_beta split: option.splits)

lemma ro_list_dir_shown:
  assumes "\<forall>w \<in> set names. entry_name w" and "ro_list_dir \<lparr>pr_path = Some (node_path_of names), pr_state = ()\<rparr> () c fs = (Ok b, fs')"
  shows "\<exists>es. bk_read_dir (ro_backing fs (ro_calls fs + 2)) (path_push (ro_root fs) (unpieces names)) = Inr es \<and>
    (\<forall>e \<in> set es. listing_error e = None) \<and>
    map (\<lambda>e. (de_name e, de_kind e)) b = [(''.'', Directory), (''..'', Directory)] @ List.map_filter listing_entry es"
proof -
  have "\<exists>es a1 a2. bk_read_dir (ro_backing fs (ro_calls fs + 2)) (path_push (ro_root fs) (unpieces names)) = Inr es \<and> ro_list es (push_dots a1 a2 []) = Ok b"
    using assms(2)
    by (auto simp: ro_list_dir_def Let_def bnd_def backing_path_of [OF assms(1)] ro_attr_def std_fs_def io_result_def
        split: prod.splits outcome.splits sum.splits option.splits)
  then obtain es a1 a2 where es: "bk_read_dir (ro_backing fs (ro_calls fs + 2)) (path_push (ro_root fs) (unpieces names)) = Inr es"
      "ro_list es (push_dots a1 a2 []) = Ok b" by blast
  from ro_list_shown [OF es(2)] es(1) show ?thesis by (auto simp: push_dots_def)
qed

text \<open>
  C20. What the kernel lists of the mount is what the backing directory holds: the reads of a directory that the adapter can resolve
  by a path of proper names end, whatever the size of the kernel's buffer as long as it holds one entry, and if the listing succeeded they
  return the dots and every entry that \<^verbatim>\<open>read_dir\<close> returned for that path under the root, in order and with its kind, but for the entries
  that vanished meanwhile.
\<close>

theorem ro_directory_listed:
  assumes "dir_ok ep did a (2 * length b) (pa, sh)" and "path_for (pa_namespace pa) did = Some (Some (node_path_of names))"
    and "\<forall>w \<in> set names. entry_name w"
    and "ro_list_dir \<lparr>pr_path = Some (node_path_of names), pr_state = ()\<rparr> () c (pa_inner pa) = (Ok b, p')"
    and "length b \<le> MAX_LISTING_LEN" and "d = \<lparr>ph_inner = (), ph_listings = listings_new\<rparr>" and "\<forall>item. fits [] item"
  shows "\<exists>items s' es. dir_stream (\<lambda>off. path_readdir read_only_ops a this parent off c) fits (Suc (length b)) 0 (pa, sh, d) = (Ok items, s') \<and>
    bk_read_dir (ro_backing (pa_inner pa) (ro_calls (pa_inner pa) + 2)) (path_push (ro_root (pa_inner pa)) (unpieces names)) = Inr es \<and>
    (\<forall>e \<in> set es. listing_error e = None) \<and>
    map (\<lambda>(name, kind, _). (name, kind)) (shown_items items) = [(''.'', Directory), (''..'', Directory)] @ List.map_filter listing_entry es"
proof -
  have list: "pf_list_dir read_only_ops \<lparr>pr_path = Some (node_path_of names), pr_state = node_state sh a\<rparr> (ph_inner d) c (pa_inner pa) = (Ok b, p')"
    using assms(4,6) by (simp add: read_only_ops_def default_path_filesystem_def)
  have new: "lreach (ph_listings d)" "\<forall>l \<in> set (ls_retained (ph_listings d)). dl_generation l \<noteq> ls_next_generation (ph_listings d)"
    by (simp_all add: assms(6) lreach_new) (simp add: listings_new_def)
  from readdir_stream [where fits = fits and this = this and parent = parent, OF assms(1,2) list assms(5) new assms(7)] obtain items s' where
    st: "dir_stream (\<lambda>off. path_readdir read_only_ops a this parent off c) fits (Suc (length b)) 0 (pa, sh, d) = (Ok items, s')"
    and shown: "shown_items items = map (\<lambda>i. (de_name (b ! i), de_kind (b ! i), listing_cookie (ls_next_generation (ph_listings d)) i)) [0..<length b]"
    by blast
  have "map (\<lambda>(name, kind, _). (name, kind)) (shown_items items) = map (\<lambda>e. (de_name e, de_kind e)) b"
    by (rule nth_equalityI) (simp_all add: shown)
  with ro_list_dir_shown [OF assms(3,4)] st show ?thesis by (metis (no_types, lifting))
qed

text \<open>A backing directory with one file, and one entry that vanished while it was listed.\<close>

definition demo_metadata :: metadata where
  "demo_metadata = \<lparr>md_blocks = 0, md_atime = (0, 0), md_mtime = (0, 0), md_ctime = (0, 0), md_created = None, md_mode = S_IFDIR, md_nlink = 2,
     md_uid = 0, md_gid = 0, md_rdev = 0, md_blksize = 0\<rparr>"

definition demo_entries :: "(io_error + os_str \<times> (io_error + u32)) list" where
  "demo_entries = [Inr (''gone'', Inl (Some (raw ENOENT))), Inr (''x'', Inr S_IFREG)]"

definition demo_fs :: read_only_fs where
  "demo_fs = ro_new ''/srv'' (\<lambda>_. \<lparr>bk_symlink_metadata = (\<lambda>_. Inr (demo_metadata, 0)), bk_metadata = (\<lambda>_. Inr (demo_metadata, 0)),
     bk_read_dir = (\<lambda>_. Inr demo_entries), bk_statvfs = (\<lambda>_. Inl 1)\<rparr>)"

lemma demo_listing: "\<exists>b fs'. ro_list_dir \<lparr>pr_path = Some ''/'', pr_state = ()\<rparr> () default_caller demo_fs = (Ok b, fs') \<and> length b = 3"
  by (simp add: ro_list_dir_def bnd_def backing_path_def strip_root_def has_root_def drop_last_while_def no_component_def ok_or_def
      ro_attr_def std_fs_def io_result_def demo_fs_def ro_new_def demo_entries_def not_found_def demo_metadata_def file_attr_from_metadata_def
      system_time_from_secs_def duration_new_def time_plus_def time_ok_def UNIX_EPOCH_def push_dots_def buffer_push_def is_root_path_def Let_def)

theorem ro_directory_listed_witness:
  "\<exists>items s'. dir_stream (\<lambda>off. path_readdir read_only_ops 0 ROOT ROOT off default_caller) two_fit 4 0
      (rt_fs (path_rt read_only_ops demo_fs), rt_shared (path_rt read_only_ops demo_fs), \<lparr>ph_inner = (), ph_listings = listings_new\<rparr>) = (Ok items, s') \<and>
    map (\<lambda>(name, kind, _). (name, kind)) (shown_items items) = [(''.'', Directory), (''..'', Directory), (''x'', RegularFile)]"
proof -
  let ?rt = "path_rt read_only_ops demo_fs"
  obtain b fs' where b: "ro_list_dir \<lparr>pr_path = Some ''/'', pr_state = ()\<rparr> () default_caller demo_fs = (Ok b, fs')" "length b = 3"
    using demo_listing by blast
  have inner: "pa_inner (rt_fs ?rt) = demo_fs"
    by (simp add: path_eval read_only_ops_def)
  have p: "path_for (pa_namespace (rt_fs ?rt)) ROOT = Some (Some (node_path_of []))" by (simp add: path_for.simps node_path_of_def)
  have "dir_ok 0 ROOT 0 (2 * length b) (rt_fs ?rt, rt_shared ?rt)"
    using adapter_inv_start [of read_only_ops demo_fs] p by (simp add: dir_ok_def room_def b(2) on_rt_def) (simp add: path_eval read_only_ops_def)
  moreover have "\<forall>w \<in> set []. entry_name w" "\<forall>item. two_fit [] item" "length b \<le> MAX_LISTING_LEN"
    by (simp_all add: b(2) two_fit_def MAX_LISTING_LEN_def COOKIE_INDEX_MASK_def COOKIE_INDEX_BITS_def)
  moreover have "ro_list_dir \<lparr>pr_path = Some (node_path_of []), pr_state = ()\<rparr> () default_caller (pa_inner (rt_fs ?rt)) = (Ok b, fs')"
    using b(1) by (simp add: inner node_path_of_def)
  ultimately obtain items s' es where st: "dir_stream (\<lambda>off. path_readdir read_only_ops 0 ROOT ROOT off default_caller) two_fit (Suc (length b)) 0
      (rt_fs ?rt, rt_shared ?rt, \<lparr>ph_inner = (), ph_listings = listings_new\<rparr>) = (Ok items, s')"
    "bk_read_dir (ro_backing demo_fs (ro_calls demo_fs + 2)) (path_push (ro_root demo_fs) (unpieces [])) = Inr es"
    "map (\<lambda>(name, kind, _). (name, kind)) (shown_items items) = [(''.'', Directory), (''..'', Directory)] @ List.map_filter listing_entry es"
    using ro_directory_listed [OF _ p _ _ _ refl, where fits = two_fit and this = ROOT and parent = ROOT] inner by metis
  have "es = demo_entries" using st(2) by (simp add: demo_fs_def ro_new_def)
  then have "List.map_filter listing_entry es = [(''x'', RegularFile)]"
    by (simp add: demo_entries_def map_filter_def file_kind_from_file_type_def mode_consts)
  with st b(2) show ?thesis by (intro exI [of _ items] exI [of _ s']) (simp add: numeral_eq_Suc)
qed

end
