(* ===== verification/Spec2Isabelle.thy ===== *)
theory Spec2Isabelle
  imports Build_Config Darwin Handle_Steps Hello_Props Memory_Props Read_Only_Fs Session_Lifecycle Session_Props
begin

text \<open>
  \<^bold>\<open>Verification of typed-fuse\<close>

  typed-fuse is a typed Rust layer over the low-level interface of libfuse. A filesystem implements the trait
  \<^verbatim>\<open>NodeFs\<close> (inodes) or \<^verbatim>\<open>PathFilesystem\<close> (paths); the crate keeps the inode table, the open handles and the reply
  protocol. This development models the core crate (\<^verbatim>\<open>typed-fuse-core/src\<close>) and the session crate
  (\<^verbatim>\<open>typed-fuse/src\<close>) as shallow definitions and proves what makes them correct for an arbitrary filesystem, and verifies
  the example filesystems of the repository on top of them.

  \<^bold>\<open>The parts and how they interact\<close>

  A request of the kernel enters through a trampoline of \<^verbatim>\<open>session.rs\<close> (\<open>Session_Shims\<close>), which decodes the C arguments
  (\<open>Conv\<close>, \<open>Ffi\<close>, \<open>File_Lock\<close>), calls a method of \<^verbatim>\<open>Runtime\<close> (\<open>Runtime\<close>) under \<^verbatim>\<open>catch_unwind\<close> and sends one reply. The
  runtime takes leases on the node table (\<open>Node_Table\<close>) and on open handles (\<open>Handle_Table\<close>), calls the filesystem
  (\<open>Node_Fs\<close>) and counts the lookups it reports. The path adapter (\<open>Path_Namespace\<close>, \<open>Path_Listing\<close>, \<open>Path_Adapter\<close>) is
  one such filesystem: it keeps names, aliases and directory listings for a \<^verbatim>\<open>PathFilesystem\<close>. \<^verbatim>\<open>Session\<close> and
  \<^verbatim>\<open>mount_blocking\<close> (\<open>Mount_Options\<close>, \<open>Session_Lifecycle\<close>) create, mount, run and drop the whole.

  \<^bold>\<open>Conventions\<close>

  A fallible Rust function returns an \<open>outcome\<close>: \<open>Ok\<close>, \<open>Err\<close> with an error number, \<open>Panic\<close>, or \<open>Blocks\<close> when it does not
  return. Stateful code is a \<open>prog\<close>, a function from the state to an outcome and the state left behind; \<open>bnd\<close> is the
  question-mark operator. Integers keep their width as words; an overflow of checked arithmetic is \<open>Panic\<close> (or \<open>None\<close> in the
  pure conversions), wrapping and saturating operations are written out. This is the code as it is built with debug assertions and overflow
  checks; a release build skips the assertions of \<^verbatim>\<open>access_check\<close> and of the raw \<^verbatim>\<open>read\<close>, and the counters and the negated seconds of
  \<^verbatim>\<open>secs_nsecs_to_system_time\<close> wrap there. A \<^verbatim>\<open>BTreeMap\<close> is a sorted association list, an
  \<^verbatim>\<open>Arc\<close> heap an append-only list, an \<^verbatim>\<open>OsStr\<close> a byte string, a \<^verbatim>\<open>SystemTime\<close> nanoseconds since the epoch. A trait is a
  record of its methods with its default methods as a value of the record. Platform constants are those of Linux;
  \<open>Darwin\<close> has what differs elsewhere.

  \<^bold>\<open>Theories, sources and results\<close>

  \<^item> \<open>Fuse_Prelude\<close>, \<open>Fuse_Types\<close> (\<^verbatim>\<open>errno.rs\<close>, \<^verbatim>\<open>attr.rs\<close>, value types of \<^verbatim>\<open>node_fs.rs\<close>): outcomes, checked words, ordered maps
    with the locale \<open>finite_map\<close>; attributes, capabilities, hints, locks.
  \<^item> \<open>Node_Table\<close>, \<open>Node_Table_Steps\<close>, \<open>Table_Effects\<close> (\<^verbatim>\<open>runtime.rs\<close>: \<^verbatim>\<open>NodeTable\<close>, \<^verbatim>\<open>Slot\<close>, \<^verbatim>\<open>NodeRef\<close>, \<^verbatim>\<open>Cx\<close>): every critical section
    of the table mutex as a function, and a step relation for arbitrary interleavings of them. Lease safety, unique
    (inode, generation) pairs, and the invariant of the table, by rule induction. \<open>eff\<close> is the calculus of how an
    operation changes the lookup and open counts.
  \<^item> \<open>Handle_Table\<close>, \<open>Handle_Steps\<close> (\<^verbatim>\<open>runtime.rs\<close>: \<^verbatim>\<open>HandleRecord\<close>, \<^verbatim>\<open>close_and_take\<close>): a step relation with the condition variable;
    a payload is moved or dropped at most once, never while leased, and the releasing thread never misses its wake-up.
  \<^item> \<open>Node_Fs\<close>, \<open>Runtime\<close>, \<open>Runtime_Inv\<close>, \<open>Runtime_Ops\<close>, \<open>Kernel_View\<close>, \<open>Runtime_Props\<close> (\<^verbatim>\<open>node_fs.rs\<close>, \<^verbatim>\<open>runtime.rs\<close>: every method of
    \<^verbatim>\<open>Runtime\<close>): the locale \<open>node_fs_contract\<close> states what the runtime relies on; what a filesystem may do to the
    counts during a \<^verbatim>\<open>readdirplus\<close> is any sequence of calls of the sink's \<^verbatim>\<open>add\<close> (\<open>plus_calls\<close>). The node table refines the
    kernel's own lookup bookkeeping, what the kernel references stays alive and nothing else does, a release calls the filesystem once, and
    stale handle numbers are refused by every request that names one.
  \<^item> \<open>Runtime_Stable\<close>: the locale \<open>fs_invariant\<close>, by which an invariant of a filesystem that its methods keep holds after any run (or
    after any run without a panic). \<open>Fs_Calls\<close>: leases and streams of directory reads, as filesystems use them.
  \<^item> \<open>Path_Listing\<close>, \<open>Path_Namespace\<close>, \<open>Path_Adapter\<close>, \<open>Path_Contract\<close>, \<open>Path_Invariant\<close>, \<open>Path_Reads\<close>, \<open>Path_Props\<close> (\<^verbatim>\<open>path_fs.rs\<close>): the
    adapter is an instance of \<open>node_fs_contract\<close> and \<open>fs_invariant\<close>; names lead to live nodes with exact link counts; in every
    namespace that the operations build (\<open>ns_reach\<close>) \<open>path_for\<close> returns, and its path leads to the node; a rename moves a subtree; a stream of
    directory reads is complete, a plus read never lacks attributes, and a cookie finds its listing under an exact condition. \<open>dl_id\<close> is the
    identity that the code takes from \<^verbatim>\<open>Arc::ptr_eq\<close>.
  \<^item> \<open>Memory_Fs\<close>, \<open>Memory_Tree\<close>, \<open>Memory_Inv\<close>, \<open>Memory_Refine\<close>, \<open>Memory_Contract\<close>, \<open>Memory_Files\<close>, \<open>Memory_Props\<close>
    (\<^verbatim>\<open>examples/memory_fs.rs\<close>): a full filesystem over the runtime. \<open>Memory_Tree\<close> is the abstract specification, a tree of nodes with
    names, bodies and link counts; every method on names is shown to implement one operation of it. The filesystem is an instance of
    \<open>node_fs_contract\<close> and \<open>fs_invariant\<close>: nodes stay well-typed with exact link counts after any run without a panic. Reads return
    what was written, open files outlive their names, an unchanged directory is listed completely.
  \<^item> \<open>No_Opendir\<close>, \<open>Hello_Fs\<close>, \<open>Hello_Props\<close> (\<^verbatim>\<open>examples/hello_ll.rs\<close> and \<^verbatim>\<open>libfuse-sys/examples/hello_ll_raw.rs\<close>): the hello filesystem
    twice, over the runtime and over the raw interface of libfuse. The trampolines over the first give the replies of the second. The
    locale \<open>no_opendir\<close> is for filesystems whose \<^verbatim>\<open>opendir\<close> fails: they never have a directory handle, so they cannot be listed, and the
    typed example is one. The raw example follows the protocol of the session interface.
  \<^item> \<open>Read_Only_Fs\<close> (\<^verbatim>\<open>examples/support/path_passthrough.rs\<close>): a path filesystem over a backing directory. Every node is served from
    under the root, a lookup is what \<^verbatim>\<open>getattr\<close> says of the child, and a directory is listed completely through the adapter.
  \<^item> \<open>Conv\<close> (\<^verbatim>\<open>conv.rs\<close>), \<open>File_Lock\<close> (\<^verbatim>\<open>file_lock.rs\<close>): round trips of attributes, times, \<^verbatim>\<open>setattr\<close> requests and record locks,
    with the exact bounds at which the conversions fail.
  \<^item> \<open>Ffi\<close> (\<^verbatim>\<open>ffi.rs\<close>): the directory buffers refine the abstract sinks of the runtime (locale \<open>entry_buffer\<close>, interpreted for both).
  \<^item> \<open>Session_Shims\<close>, \<open>Session_Ops\<close>, \<open>Session_Props\<close> (\<^verbatim>\<open>session.rs\<close>: trampolines and \<^verbatim>\<open>make_ops\<close>): one
    reply per request; panics are contained; the references the kernel holds by the raw replies are alive, where the entries of a
    \<^verbatim>\<open>readdirplus\<close> reply are what a reader of its bytes finds. The proofs rest on one lemma, that every trampoline is a decoding, a request to the
    runtime and an encoding (\<open>shim_pipeline\<close>). \<^verbatim>\<open>read\<close> sends its reply inside the guarded call; nothing after it panics, so it is sent here when
    the call has returned.
  \<^item> \<open>Mount_Options\<close>, \<open>Session_Lifecycle\<close> (\<^verbatim>\<open>session.rs\<close>, \<^verbatim>\<open>mount.rs\<close>): the option string round trip, with the splitting of
    \<^verbatim>\<open>-o\<close> as libfuse documents it; a monitor for the protocol
    of the session interface that every run of \<^verbatim>\<open>mount_blocking\<close> satisfies.
  \<^item> \<open>Passthrough\<close> (\<^verbatim>\<open>passthrough.rs\<close>): the helpers of filesystems that serve a backing directory; the permission check is the POSIX one,
    the FreeBSD attribute list survives its re-encoding, times are read exactly.
  \<^item> \<open>Darwin\<close> (\<^verbatim>\<open>conv.rs\<close>, \<^verbatim>\<open>passthrough.rs\<close>, \<^verbatim>\<open>session.rs\<close>): what the code does instead on other platforms, with the macOS layouts, for which
    the same round trips hold, and the no-replace renames.
  \<^item> \<open>Build_Config\<close> (\<^verbatim>\<open>libfuse-sys/build.rs\<close>, \<^verbatim>\<open>typed-fuse/build.rs\<close>): what the build decides from the installed headers. Both crates enable the
    versioned session constructor exactly when the header that is bound declares it, provided there is one such header, and the bindings are
    written where \<^verbatim>\<open>lib.rs\<close> includes them.

  \<^bold>\<open>Parameters\<close>

  The filesystem is an arbitrary record of methods. libfuse is a parameter: the layout of directory entries, the bits of
  \<^verbatim>\<open>to_set\<close>, what \<^verbatim>\<open>fuse_reply_*\<close> and the session functions return. The kernel's reader of \<^verbatim>\<open>readdirplus\<close> replies is a parameter with one hypothesis,
  \<open>reads_plus\<close>: it reads back what the layout wrote. \<^verbatim>\<open>fcntl\<close> is a parameter of the lock
  helpers, and the system calls are parameters of the passthrough helpers. pkg-config, bindgen and the compilers are parameters of the
  build scripts.

  \<^bold>\<open>Bounds and fuel\<close>

  No definition of the code uses fuel. \<open>dir_stream\<close>, the reads the kernel makes of one directory, is given their number; one more than
  the entries is proved to be enough. \<open>path_for\<close>, the one recursion that may not end, is a partial function into \<open>option\<close>; it is proved to return
  for every node of every namespace in \<open>ns_reach\<close>, where no node is named inside its own subtree. Uniqueness of (inode, generation) pairs is stated for
  executions of fewer than \<open>2 ^ 64\<close> steps, after which the generation counter can wrap.

  \<^bold>\<open>Not modelled\<close>

  The generated bindings, and the functions of \<^verbatim>\<open>libfuse-sys/src/lib.rs\<close> and \<^verbatim>\<open>darwin.rs\<close> that only rename functions of libfuse; the
  \<^verbatim>\<open>main\<close> functions of the examples but for the raw one, the texts of \<^verbatim>\<open>Display\<close>, and tests and benchmarks. Request handlers are sequential over the whole
  runtime, while the node table and the handles are also verified for arbitrary interleavings of their critical sections.
  Floating-point timeouts are kept in nanoseconds, and the raw pointers of the trampolines are their referents.
\<close>

end
